(* ===== verification/Prelude.thy ===== *)
theory Prelude
  imports Main "HOL-Library.Word"
begin

text \<open>
  Shared vocabulary of the development: machine integers and byte buffers, the result type
  of fallible Rust code, readers over a byte buffer (\<open>&mut Bytes\<close>), writers into a growing
  buffer (\<open>&mut BytesMut\<close>), and the loop ``while the buffer has bytes left'' that every
  property parser of the program is an instance of.

  A panic is a value of its own (\<open>Panic\<close>), so that ``never panics'' is a theorem and not a
  convention. Arithmetic overflow is such a panic (the checked build profile); a theorem that
  an operation does not panic therefore also says that the wrapping profile computes the same.
\<close>

unbundle bit_operations_syntax

section \<open>Machine integers and buffers\<close>

type_synonym u8 = "8 word"
type_synonym u16 = "16 word"
type_synonym u32 = "32 word"
type_synonym bytes = "u8 list"

named_theorems codec_simps "equations that run an encoder or a decoder symbolically"
named_theorems safe_intros "readers that never panic"
named_theorems no_panic "operations that never panic"

section \<open>Errors and results\<close>

text \<open>The codec errors of \<open>src/error.rs\<close>.\<close>

datatype DecodeError =
    InvalidProtocol | DE_InvalidLength | DE_MalformedPacket | UnsupportedProtocolLevel
  | ConnectReservedFlagSet | ConnAckReservedFlagSet | InvalidClientId | UnsupportedPacketType
  | DE_PacketIdRequired | MaxSizeExceeded | Utf8Error

datatype EncodeError =
    OverMaxPacketSize | EE_InvalidLength | EE_MalformedPacket | EE_PacketIdRequired
  | UnsupportedVersion

text \<open>\<open>Result<T, E>\<close>, with a third outcome for a panic.\<close>

datatype ('e, 'a) res = Ok 'a | Err 'e | Panic

fun bindR :: "('e, 'a) res \<Rightarrow> ('a \<Rightarrow> ('e, 'b) res) \<Rightarrow> ('e, 'b) res" where
  "bindR (Ok x) f = f x"
| "bindR (Err e) f = Err e"
| "bindR Panic f = Panic"

lemma bindR_cong [fundef_cong]:
  assumes "m = m'" and "\<And>x. m' = Ok x \<Longrightarrow> f x = f' x"
  shows "bindR m f = bindR m' f'"
  using assms by (cases m') auto

lemma bindR_eq_Ok: "bindR m f = Ok y \<longleftrightarrow> (\<exists>x. m = Ok x \<and> f x = Ok y)"
  by (cases m) auto

lemma bindR_Ok_E:
  assumes "bindR m f = Ok y"
  obtains x where "m = Ok x" and "f x = Ok y"
  using assms by (auto simp: bindR_eq_Ok)

lemma bindR_eq_Panic: "bindR m f = Panic \<longleftrightarrow> m = Panic \<or> (\<exists>x. m = Ok x \<and> f x = Panic)"
  by (cases m) auto

lemma bindR_no_panic [no_panic]:
  "m \<noteq> Panic \<Longrightarrow> (\<And>x. m = Ok x \<Longrightarrow> f x \<noteq> Panic) \<Longrightarrow> bindR m f \<noteq> Panic"
  by (auto simp: bindR_eq_Panic)

text \<open>\<open>Option::ok_or\<close> followed by \<open>?\<close>.\<close>

definition ok_or :: "'a option \<Rightarrow> 'e \<Rightarrow> ('e, 'a) res" where
  "ok_or v e = (case v of Some x \<Rightarrow> Ok x | None \<Rightarrow> Err e)"

lemma ok_or_simps [simp]: "ok_or (Some x) e = Ok x" "ok_or None e = Err e"
  by (simp_all add: ok_or_def)

lemma ok_or_not_Panic [simp]: "ok_or v e \<noteq> Panic"
  by (cases v) simp_all

text \<open>Subtraction of unsigned integers: an underflow panics.\<close>

definition checked_sub :: "nat \<Rightarrow> nat \<Rightarrow> ('e, nat) res" where
  "checked_sub a b = (if b \<le> a then Ok (a - b) else Panic)"

lemma checked_sub_Ok [simp]: "b \<le> a \<Longrightarrow> checked_sub a b = Ok (a - b)"
  by (simp add: checked_sub_def)

lemma checked_sub_Panic [simp]: "a < b \<Longrightarrow> checked_sub a b = Panic"
  by (simp add: checked_sub_def)

section \<open>Readers\<close>

text \<open>A reader consumes a prefix of the buffer: \<open>fn(src: &mut Bytes) -> Result<T, E>\<close>.\<close>

type_synonym ('e, 'a) reader = "bytes \<Rightarrow> ('e, 'a \<times> bytes) res"
type_synonym 'a decoder = "(DecodeError, 'a) reader"

definition dreturn :: "'a \<Rightarrow> ('e, 'a) reader" where
  "dreturn x = (\<lambda>s. Ok (x, s))"

definition dbind :: "('e, 'a) reader \<Rightarrow> ('a \<Rightarrow> ('e, 'b) reader) \<Rightarrow> ('e, 'b) reader" where
  "dbind p f = (\<lambda>s. bindR (p s) (\<lambda>(x, s'). f x s'))"

text \<open>A fallible computation that does not touch the buffer.\<close>

definition dlift :: "('e, 'a) res \<Rightarrow> ('e, 'a) reader" where
  "dlift m = (\<lambda>s. bindR m (\<lambda>x. Ok (x, s)))"

text \<open>The macro \<open>ensure!\<close>: return the error unless the condition holds.\<close>

definition ensure :: "bool \<Rightarrow> 'e \<Rightarrow> ('e, 'a) reader \<Rightarrow> ('e, 'a) reader" where
  "ensure c e p = (if c then p else (\<lambda>s. Err e))"

definition remaining :: "('e, nat) reader" where
  "remaining s = Ok (length s, s)"

definition has_remaining :: "('e, bool) reader" where
  "has_remaining s = Ok (s \<noteq> [], s)"

lemma dreturn_apply [simp]: "dreturn x s = Ok (x, s)"
  by (simp add: dreturn_def)

lemma dbind_apply [simp]: "dbind p f s = bindR (p s) (\<lambda>(x, s'). f x s')"
  by (simp add: dbind_def)

lemma dlift_apply [simp]: "dlift m s = bindR m (\<lambda>x. Ok (x, s))"
  by (simp add: dlift_def)

lemma ensure_apply [simp]: "ensure c e p s = (if c then p s else Err e)"
  by (simp add: ensure_def)

lemma remaining_apply [simp]: "remaining s = Ok (length s, s)"
  by (simp add: remaining_def)

lemma has_remaining_apply [simp]: "has_remaining s = Ok (s \<noteq> [], s)"
  by (simp add: has_remaining_def)

text \<open>
  Reads of a buffer (\<open>Buf::get_u8\<close>, \<open>get_u16\<close>, \<open>get_u32\<close>, \<open>split_to\<close>, \<open>advance\<close>) panic when
  the bytes are not there.
\<close>

fun get_u8 :: "('e, u8) reader" where
  "get_u8 (a # s) = Ok (a, s)"
| "get_u8 [] = Panic"

fun get_u16 :: "('e, u16) reader" where
  "get_u16 (a # b # s) = Ok (push_bit 8 (ucast a) OR ucast b, s)"
| "get_u16 _ = Panic"

fun get_u32 :: "('e, u32) reader" where
  "get_u32 (a # b # c # d # s) =
     Ok (push_bit 24 (ucast a) OR push_bit 16 (ucast b) OR push_bit 8 (ucast c) OR ucast d, s)"
| "get_u32 _ = Panic"

definition split_to :: "nat \<Rightarrow> ('e, bytes) reader" where
  "split_to n s = (if n \<le> length s then Ok (take n s, drop n s) else Panic)"

definition split_rest :: "('e, bytes) reader" where
  "split_rest s = Ok (s, [])"

lemma get_u8_nonempty: "s \<noteq> [] \<Longrightarrow> get_u8 s = Ok (hd s, tl s)"
  by (cases s) auto

lemma get_u8_not_Panic [no_panic]: "s \<noteq> [] \<Longrightarrow> get_u8 s \<noteq> Panic"
  by (cases s) auto

lemma get_u8_eq_Ok: "get_u8 s = Ok (x, r) \<longleftrightarrow> s = x # r"
  by (cases s) auto

lemma get_u16_eq_Ok:
  "get_u16 s = Ok (x, r) \<longleftrightarrow> (\<exists>a b. s = a # b # r \<and> x = push_bit 8 (ucast a) OR ucast b)"
  by (cases s rule: get_u16.cases) auto

lemma get_u32_eq_Ok:
  "get_u32 s = Ok (x, r) \<longleftrightarrow> (\<exists>a b c d. s = a # b # c # d # r \<and>
     x = push_bit 24 (ucast a) OR push_bit 16 (ucast b) OR push_bit 8 (ucast c) OR ucast d)"
  by (cases s rule: get_u32.cases) auto

lemma get_u16_not_Panic [no_panic]: "2 \<le> length s \<Longrightarrow> get_u16 s \<noteq> Panic"
  by (cases s rule: get_u16.cases) auto

lemma get_u32_not_Panic [no_panic]: "4 \<le> length s \<Longrightarrow> get_u32 s \<noteq> Panic"
  by (cases s rule: get_u32.cases) auto

lemma split_to_append [simp]: "n = length a \<Longrightarrow> split_to n (a @ r) = Ok (a, r)"
  by (simp add: split_to_def)

lemma split_to_eq_Ok: "split_to n s = Ok (x, r) \<longleftrightarrow> s = x @ r \<and> length x = n"
  by (auto simp: split_to_def)

lemma split_rest_apply [simp]: "split_rest s = Ok (s, [])"
  by (simp add: split_rest_def)

text \<open>A reader that never panics and never gives back more than it was given.\<close>

definition safe_reader :: "('e, 'a) reader \<Rightarrow> bool" where
  "safe_reader p \<longleftrightarrow> (\<forall>s. p s \<noteq> Panic \<and> (\<forall>x r. p s = Ok (x, r) \<longrightarrow> length r \<le> length s))"

lemma safe_readerI:
  "(\<And>s. p s \<noteq> Panic) \<Longrightarrow> (\<And>s x r. p s = Ok (x, r) \<Longrightarrow> length r \<le> length s) \<Longrightarrow> safe_reader p"
  by (simp add: safe_reader_def)

lemma safe_reader_not_Panic: "safe_reader p \<Longrightarrow> p s \<noteq> Panic"
  by (simp add: safe_reader_def)

lemma safe_reader_length: "safe_reader p \<Longrightarrow> p s = Ok (x, r) \<Longrightarrow> length r \<le> length s"
  by (auto simp: safe_reader_def)

lemma safe_basic [safe_intros]:
  "safe_reader (dreturn x)" "safe_reader remaining" "safe_reader has_remaining" "safe_reader split_rest"
  by (auto intro!: safe_readerI)

lemma safe_dlift [safe_intros]: "m \<noteq> Panic \<Longrightarrow> safe_reader (dlift m)"
  by (cases m) (auto intro!: safe_readerI)

lemma safe_dlift_Err [safe_intros]: "safe_reader (dlift (Err e))"
  by (rule safe_dlift) simp

lemma safe_dlift_ok_or [safe_intros]: "safe_reader (dlift (ok_or x e))"
  by (rule safe_dlift) simp

lemma safe_ensure [safe_intros]: "safe_reader p \<Longrightarrow> safe_reader (ensure c e p)"
  by (auto intro!: safe_readerI split: if_splits dest: safe_reader_not_Panic safe_reader_length)

lemma safe_if [safe_intros]: "safe_reader p \<Longrightarrow> safe_reader q \<Longrightarrow> safe_reader (if c then p else q)"
  by simp

lemma safe_dbind [safe_intros]:
  assumes "safe_reader p" and "\<And>x. safe_reader (f x)"
  shows "safe_reader (dbind p f)"
proof (rule safe_readerI)
  show "dbind p f s \<noteq> Panic" for s
    using assms by (auto simp: bindR_eq_Panic dest: safe_reader_not_Panic)
  show "length r \<le> length s" if "dbind p f s = Ok (x, r)" for s x r
    using that by (auto simp: bindR_eq_Ok
        dest!: safe_reader_length [OF assms(1)] safe_reader_length [OF assms(2)])
qed

text \<open>A byte may be read where the code has made sure that there is one.\<close>

lemma safe_get_u8_if:
  assumes "\<And>x. safe_reader (f x)" and "safe_reader p"
  shows "safe_reader (dbind has_remaining (\<lambda>h. if h then dbind get_u8 f else p))"
proof (rule safe_readerI)
  show "dbind has_remaining (\<lambda>h. if h then dbind get_u8 f else p) s \<noteq> Panic" for s
    using assms by (cases s) (auto dest: safe_reader_not_Panic)
  show "length r \<le> length s"
    if "dbind has_remaining (\<lambda>h. if h then dbind get_u8 f else p) s = Ok (x, r)" for s x r
    using that assms by (cases s) (auto dest!: safe_reader_length intro: le_SucI)
qed

lemma safe_get_u8_ensure:
  assumes "\<And>x. safe_reader (f x)"
  shows "safe_reader (dbind has_remaining (\<lambda>h. ensure h e (dbind get_u8 f)))"
  using safe_get_u8_if [OF assms safe_dlift_Err [of e]]
  by (simp add: ensure_def dlift_def cong: if_cong)

lemma safe_two_bytes:
  assumes "\<And>a. m a \<noteq> Panic" and "\<And>f b. safe_reader (g f b)"
  shows "safe_reader (dbind remaining (\<lambda>n. ensure (2 \<le> n) e
    (dbind get_u8 (\<lambda>a. dbind (dlift (m a)) (\<lambda>f. dbind get_u8 (g f))))))" (is "safe_reader ?p")
proof -
  have long: "?p (a # b # t) = bindR (m a) (\<lambda>f. g f b t)" for a b t
    by (cases "m a") simp_all
  show ?thesis
  proof (rule safe_readerI)
    show "?p s \<noteq> Panic" for s
      using assms(1) safe_reader_not_Panic [OF assms(2)]
      by (cases s rule: get_u16.cases) (auto simp only: long bindR_eq_Panic, auto)
    show "length r \<le> length s" if "?p s = Ok (x, r)" for s x r
      using that
      by (cases s rule: get_u16.cases)
        (auto simp only: long bindR_eq_Ok list.size dest!: safe_reader_length [OF assms(2)], auto)
  qed
qed

section \<open>Writers\<close>

text \<open>
  An encoder only appends to its buffer, so it is the bytes it appends and the outcome. On an
  error the bytes written so far stay in the buffer, as in the program.
\<close>

type_synonym encoder = "bytes \<times> (EncodeError, unit) res"

definition eok :: "bytes \<Rightarrow> encoder" where
  "eok bs = (bs, Ok ())"

definition eerr :: "EncodeError \<Rightarrow> encoder" where
  "eerr e = ([], Err e)"

definition epanic :: "encoder" where
  "epanic = ([], Panic)"

definition eseq :: "encoder \<Rightarrow> encoder \<Rightarrow> encoder" where
  "eseq a b = (case snd a of
       Ok u \<Rightarrow> (fst a @ fst b, snd b)
     | _ \<Rightarrow> a)"

text \<open>A block of statements, each followed by \<open>?\<close>.\<close>

fun encs :: "encoder list \<Rightarrow> encoder" where
  "encs [] = eok []"
| "encs (e # es) = eseq e (encs es)"

text \<open>A writer that depends on a fallible computation.\<close>

definition elift :: "(EncodeError, 'a) res \<Rightarrow> ('a \<Rightarrow> encoder) \<Rightarrow> encoder" where
  "elift m f = (case m of Ok x \<Rightarrow> f x | Err e \<Rightarrow> eerr e | Panic \<Rightarrow> epanic)"

lemma fst_eok [simp]: "fst (eok bs) = bs" and snd_eok [simp]: "snd (eok bs) = Ok ()"
  by (simp_all add: eok_def)

lemma snd_eerr [simp]: "snd (eerr e) = Err e" and fst_eerr [simp]: "fst (eerr e) = []"
  by (simp_all add: eerr_def)

lemma snd_epanic [simp]: "snd epanic = Panic" and fst_epanic [simp]: "fst epanic = []"
  by (simp_all add: epanic_def)

lemma fst_eseq [simp]: "snd a = Ok () \<Longrightarrow> fst (eseq a b) = fst a @ fst b"
  by (simp add: eseq_def)

lemma snd_eseq [simp]: "snd a = Ok () \<Longrightarrow> snd (eseq a b) = snd b"
  by (simp add: eseq_def)

lemma eseq_fail: "snd a \<noteq> Ok () \<Longrightarrow> eseq a b = a"
  by (auto simp: eseq_def split: res.splits)

lemma eseq_nothing: "eseq a (eok []) = a" "eseq (eok []) b = b"
  by (cases a; auto simp: eseq_def eok_def split: res.splits)+

lemma eseq_eok: "eseq (eok a) (eok b) = eok (a @ b)"
  by (simp add: eseq_def eok_def)

lemma eok_eqI: "snd e = Ok () \<Longrightarrow> fst e = bs \<Longrightarrow> e = eok bs"
  by (cases e) (simp add: eok_def)

lemma eseq_assoc: "eseq (eseq a b) c = eseq a (eseq b c)"
  by (auto simp: eseq_def split: res.splits)

lemma elift_simps [simp]:
  "elift (Ok x) f = f x" "elift (Err e) f = eerr e" "elift Panic f = epanic"
  by (simp_all add: elift_def)

lemma snd_eseq_eq_Ok: "snd (eseq a b) = Ok () \<longleftrightarrow> snd a = Ok () \<and> snd b = Ok ()"
  by (auto simp: eseq_def split: res.splits)

lemma snd_eseq_eq_Panic:
  "snd (eseq a b) = Panic \<longleftrightarrow> snd a = Panic \<or> (snd a = Ok () \<and> snd b = Panic)"
  by (auto simp: eseq_def split: res.splits)

lemma snd_encs_map: "(\<And>x. x \<in> set xs \<Longrightarrow> snd (f x) = Ok ()) \<Longrightarrow> snd (encs (map f xs)) = Ok ()"
  by (induction xs) simp_all

lemma fst_encs_map:
  "(\<And>x. x \<in> set xs \<Longrightarrow> snd (f x) = Ok ()) \<Longrightarrow>
     fst (encs (map f xs)) = concat (map (\<lambda>x. fst (f x)) xs)"
  by (induction xs) simp_all

lemma foldl_snoc [simp]: "foldl (\<lambda>acc x. acc @ [x]) st xs = st @ xs"
  by (induction xs arbitrary: st) simp_all

lemma foldl_add_nat: "foldl (\<lambda>acc x. acc + f x) (a :: nat) xs = a + sum_list (map f xs)"
  by (induction xs arbitrary: a) simp_all

definition put_u8 :: "u8 \<Rightarrow> encoder" where
  "put_u8 b = eok [b]"

definition put_u16 :: "u16 \<Rightarrow> encoder" where
  "put_u16 w = eok [ucast (drop_bit 8 w), ucast w]"

definition put_u32 :: "u32 \<Rightarrow> encoder" where
  "put_u32 w = eok [ucast (drop_bit 24 w), ucast (drop_bit 16 w), ucast (drop_bit 8 w), ucast w]"

definition put_slice :: "bytes \<Rightarrow> encoder" where
  "put_slice bs = eok bs"

lemma put_snd [simp]:
  "snd (put_u8 b) = Ok ()" "snd (put_u16 w) = Ok ()" "snd (put_u32 v) = Ok ()"
  "snd (put_slice bs) = Ok ()"
  by (simp_all add: put_u8_def put_u16_def put_u32_def put_slice_def)

lemma put_fst [simp]:
  "fst (put_u8 b) = [b]" "fst (put_slice bs) = bs"
  by (simp_all add: put_u8_def put_slice_def)

lemma put_length [simp]: "length (fst (put_u16 w)) = 2" "length (fst (put_u32 v)) = 4"
  by (simp_all add: put_u16_def put_u32_def)

lemma join16_split16: "push_bit 8 (ucast (ucast (drop_bit 8 w) :: u8)) OR ucast (ucast w :: u8) = (w :: u16)"
  by (rule bit_eqI) (auto simp: bit_simps)

lemma split16_join16:
  "ucast (drop_bit 8 (push_bit 8 (ucast a) OR ucast b :: u16)) = (a :: u8)"
  "ucast (push_bit 8 (ucast a) OR ucast b :: u16) = (b :: u8)"
  by (rule bit_eqI; auto simp: bit_simps dest: bit_imp_le_length)+

lemma get_put_u16 [simp]: "get_u16 (fst (put_u16 w) @ r) = Ok (w, r)"
  by (simp add: put_u16_def join16_split16)

lemma put_get_u16: "get_u16 s = Ok (w, r) \<Longrightarrow> s = fst (put_u16 w) @ r"
  by (elim get_u16_eq_Ok [THEN iffD1, elim_format] exE conjE)
    (simp only: put_u16_def fst_eok split16_join16 append.simps)

lemma join32_split32:
  "push_bit 24 (ucast (ucast (drop_bit 24 w) :: u8)) OR push_bit 16 (ucast (ucast (drop_bit 16 w) :: u8))
   OR push_bit 8 (ucast (ucast (drop_bit 8 w) :: u8)) OR ucast (ucast w :: u8) = (w :: u32)" (is "?l = w")
proof (rule bit_eqI)
  fix n
  assume "possible_bit TYPE(32 word) n"
  then have "n < 8 \<or> 8 \<le> n \<and> n < 16 \<or> 16 \<le> n \<and> n < 24 \<or> 24 \<le> n \<and> n < 32"
    by (simp, linarith)
  then show "bit ?l n \<longleftrightarrow> bit w n"
    by (elim disjE conjE) (auto simp: bit_simps)
qed

lemma split32_join32:
  fixes a b c d :: u8
  defines "w \<equiv> (push_bit 24 (ucast a) OR push_bit 16 (ucast b) OR push_bit 8 (ucast c) OR ucast d :: u32)"
  shows "ucast (drop_bit 24 w) = a" "ucast (drop_bit 16 w) = b" "ucast (drop_bit 8 w) = c" "ucast w = d"
  unfolding w_def by (rule bit_eqI; auto simp: bit_simps dest: bit_imp_le_length)+

lemma get_put_u32 [simp]: "get_u32 (fst (put_u32 w) @ r) = Ok (w, r)"
  by (simp add: put_u32_def join32_split32 or.assoc)

lemma put_get_u32: "get_u32 s = Ok (w, r) \<Longrightarrow> s = fst (put_u32 w) @ r"
  by (elim get_u32_eq_Ok [THEN iffD1, elim_format] exE conjE)
    (simp only: put_u32_def fst_eok split32_join32 append.simps)

section \<open>Loops over a buffer\<close>

text \<open>
  \<open>while src.has_remaining() { step }\<close>: the loop of every property parser and of the topic
  lists. The fuel is the number of bytes left; a step that consumes at least one byte never
  runs out of it (\<open>fuel_enough\<close> below), and running out is a \<open>Panic\<close>, so a proof that the
  loop does not panic also shows that it ends.
\<close>

fun loop_fuel :: "nat \<Rightarrow> ('st \<Rightarrow> ('e, 'st) reader) \<Rightarrow> 'st \<Rightarrow> ('e, 'st) reader" where
  "loop_fuel n step st [] = Ok (st, [])"
| "loop_fuel 0 step st (b # s) = Panic"
| "loop_fuel (Suc n) step st (b # s) =
     bindR (step st (b # s)) (\<lambda>(st', s'). loop_fuel n step st' s')"

definition while_remaining :: "('st \<Rightarrow> ('e, 'st) reader) \<Rightarrow> 'st \<Rightarrow> ('e, 'st) reader" where
  "while_remaining step st s = loop_fuel (length s) step st s"

lemma while_remaining_Nil [simp]: "while_remaining step st [] = Ok (st, [])"
  by (simp add: while_remaining_def)

locale consuming =
  fixes step :: "'st \<Rightarrow> bytes \<Rightarrow> ('e, 'st \<times> bytes) res"
  assumes step_consumes: "step st s = Ok (st', s') \<Longrightarrow> length s' < length s"
    and step_no_panic: "s \<noteq> [] \<Longrightarrow> step st s \<noteq> Panic"
begin

lemma fuel_irrelevant:
  "length s \<le> n \<Longrightarrow> length s \<le> m \<Longrightarrow> loop_fuel n step st s = loop_fuel m step st s"
proof (induction n arbitrary: m st s)
  case 0
  then show ?case by simp
next
  case (Suc n)
  show ?case
  proof (cases s)
    case (Cons b s0)
    with Suc.prems obtain k where m: "m = Suc k" by (cases m) auto
    have "loop_fuel n step st' s' = loop_fuel k step st' s'" if "step st s = Ok (st', s')" for st' s'
      using step_consumes [OF that] Suc.prems m by (intro Suc.IH) auto
    then show ?thesis
      by (cases "step st s") (auto simp: Cons m)
  qed simp
qed

lemma fuel_enough: "length s \<le> n \<Longrightarrow> loop_fuel n step st s = while_remaining step st s"
  unfolding while_remaining_def by (rule fuel_irrelevant) simp_all

lemma loop_unfold:
  assumes "s \<noteq> []"
  shows "while_remaining step st s = bindR (step st s) (\<lambda>(st', s'). while_remaining step st' s')"
proof -
  obtain b s0 where s: "s = b # s0" using assms by (cases s) auto
  have "while_remaining step st s = bindR (step st s) (\<lambda>(st', s'). loop_fuel (length s0) step st' s')"
    by (simp add: while_remaining_def s)
  also have "\<dots> = bindR (step st s) (\<lambda>(st', s'). while_remaining step st' s')"
    by (rule bindR_cong) (auto simp: s intro!: fuel_enough dest!: step_consumes)
  finally show ?thesis .
qed

lemma loop_block:
  assumes "step st (bs @ r) = Ok (st', r)" and "bs \<noteq> []"
  shows "while_remaining step st (bs @ r) = while_remaining step st' r"
  using assms by (simp add: loop_unfold)

lemma loop_list:
  assumes "\<And>st x r. x \<in> set xs \<Longrightarrow> step st (enc x @ r) = Ok (upd st x, r)"
    and "\<And>x. x \<in> set xs \<Longrightarrow> enc x \<noteq> []"
  shows "while_remaining step st (concat (map enc xs) @ r) = while_remaining step (foldl upd st xs) r"
  using assms by (induction xs arbitrary: st) (simp_all add: loop_block)

lemma loop_no_panic: "while_remaining step st s \<noteq> Panic"
proof (induction "length s" arbitrary: st s rule: less_induct)
  case less
  show ?case
  proof (cases "s = []")
    case False
    with less show ?thesis
      by (auto simp: loop_unfold bindR_eq_Panic step_no_panic dest: step_consumes)
  qed simp
qed

lemma loop_all_read: "while_remaining step st s = Ok (st', r) \<Longrightarrow> r = []"
proof (induction "length s" arbitrary: st s rule: less_induct)
  case less
  then show ?case
    by (cases "s = []") (auto simp: loop_unfold bindR_eq_Ok dest: step_consumes)
qed

lemma loop_invariant:
  assumes inv: "P st" and keep: "\<And>st s st' s'. P st \<Longrightarrow> step st s = Ok (st', s') \<Longrightarrow> P st'"
    and run: "while_remaining step st s = Ok (st', r)"
  shows "P st'"
  using inv run
proof (induction "length s" arbitrary: st s rule: less_induct)
  case less
  show ?case
  proof (cases "s = []")
    case False
    with less.prems obtain st1 s1
      where "step st s = Ok (st1, s1)" and "while_remaining step st1 s1 = Ok (st', r)"
      by (auto simp: loop_unfold bindR_eq_Ok)
    with less keep show ?thesis by (blast dest: step_consumes)
  qed (use less.prems in simp)
qed

end

lemma safe_while:
  assumes "consuming step"
  shows "safe_reader (while_remaining step st)"
  by (rule safe_readerI) (auto simp: consuming.loop_no_panic [OF assms] dest!: consuming.loop_all_read [OF assms])

text \<open>The step of a property parser: an identifier byte, then a value that is read safely.\<close>

lemma consuming_get_u8:
  assumes "\<And>st x. safe_reader (body st x)"
  shows "consuming (\<lambda>st. dbind get_u8 (body st))"
proof
  show "length s' < length s" if "dbind get_u8 (body st) s = Ok (st', s')" for st s st' s'
    using that by (cases s) (auto dest!: safe_reader_length [OF assms])
  show "dbind get_u8 (body st) s \<noteq> Panic" if "s \<noteq> []" for st s
    using that assms by (cases s) (auto dest: safe_reader_not_Panic)
qed

end
