(* ===== verification/Types.thy ===== *)
theory Types
  imports Prelude
begin

text \<open>
  \<open>src/types.rs\<close> and \<open>src/error.rs\<close>: protocol constants, quality of service, flag bytes and
  the error enumerations, with the macro \<open>prim_enum!\<close> of \<open>src/utils.rs\<close> that gives every
  reason-code enumeration its conversions from and to a byte.
\<close>

section \<open>Errors\<close>

datatype SendPacketError = SPE_Encode EncodeError | PacketIdInUse u16 | Disconnected

section \<open>The macro \<open>prim_enum!\<close>\<close>

text \<open>
  The macro turns a list of variants with byte values into \<open>TryFrom<u8>\<close> (one match arm per
  variant, every other byte is \<open>MalformedPacket\<close>) and \<open>Into<u8>\<close>.
\<close>

definition enum_try_from :: "'a list \<Rightarrow> ('a \<Rightarrow> u8) \<Rightarrow> u8 \<Rightarrow> (DecodeError, 'a) res" where
  "enum_try_from variants into v =
     (case find (\<lambda>x. into x = v) variants of Some x \<Rightarrow> Ok x | None \<Rightarrow> Err DE_MalformedPacket)"

lemma enum_try_from_not_Panic [simp, no_panic]: "enum_try_from vs into v \<noteq> Panic"
  by (simp add: enum_try_from_def split: option.splits)

locale prim_enum =
  fixes variants :: "'a list" and into_u8 :: "'a \<Rightarrow> u8"
  assumes complete: "x \<in> set variants"
    and discriminants: "distinct (map into_u8 variants)"
begin

lemma into_inj: "into_u8 x = into_u8 y \<longleftrightarrow> x = y"
  using discriminants complete by (auto simp: distinct_map inj_on_def)

lemma try_from_into [simp]: "enum_try_from variants into_u8 (into_u8 x) = Ok x"
proof -
  have "find (\<lambda>y. into_u8 y = into_u8 x) variants = Some x"
    using complete [of x] by (induction variants) (auto simp: into_inj)
  then show ?thesis by (simp add: enum_try_from_def)
qed

lemma try_from_Ok: "enum_try_from variants into_u8 v = Ok x \<longleftrightarrow> into_u8 x = v"
proof
  show "enum_try_from variants into_u8 v = Ok x \<Longrightarrow> into_u8 x = v"
    by (auto simp: enum_try_from_def find_Some_iff split: option.splits)
qed auto

lemma try_from_Err: "enum_try_from variants into_u8 v = Err e \<longleftrightarrow> e = DE_MalformedPacket \<and> v \<notin> range into_u8"
  using complete by (auto simp: enum_try_from_def find_None_iff find_Some_iff split: option.splits)

end

section \<open>Quality of service\<close>

datatype QoS = AtMostOnce | AtLeastOnce | ExactlyOnce

primrec u8_from_QoS :: "QoS \<Rightarrow> u8" where
  "u8_from_QoS AtMostOnce = 0"
| "u8_from_QoS AtLeastOnce = 1"
| "u8_from_QoS ExactlyOnce = 2"

definition QoS_variants :: "QoS list" where
  "QoS_variants = [AtMostOnce, AtLeastOnce, ExactlyOnce]"

abbreviation QoS_try_from :: "u8 \<Rightarrow> (DecodeError, QoS) res" where
  "QoS_try_from \<equiv> enum_try_from QoS_variants u8_from_QoS"

interpretation qos: prim_enum QoS_variants u8_from_QoS
proof
  show "x \<in> set QoS_variants" for x by (cases x) (simp_all add: QoS_variants_def)
qed (simp add: QoS_variants_def)

text \<open>\<open>QoS\<close> derives \<open>Ord\<close> from the order of its variants.\<close>

instantiation QoS :: linorder
begin

definition less_eq_QoS :: "QoS \<Rightarrow> QoS \<Rightarrow> bool" where
  "a \<le> b \<longleftrightarrow> u8_from_QoS a \<le> u8_from_QoS b"

definition less_QoS :: "QoS \<Rightarrow> QoS \<Rightarrow> bool" where
  "a < b \<longleftrightarrow> u8_from_QoS a < u8_from_QoS b"

instance
  by standard (auto simp: less_eq_QoS_def less_QoS_def qos.into_inj [symmetric])

end

lemma QoS_simps [simp]:
  "AtMostOnce \<le> q" "\<not> q < AtMostOnce" "AtLeastOnce < ExactlyOnce" "AtMostOnce < ExactlyOnce"
  "AtMostOnce < AtLeastOnce" "q \<le> ExactlyOnce" "\<not> ExactlyOnce < q" "AtLeastOnce \<le> q \<longleftrightarrow> q \<noteq> AtMostOnce"
  by (cases q; simp add: less_eq_QoS_def less_QoS_def)+

section \<open>Protocol constants\<close>

definition MQTT :: bytes where
  "MQTT = [0x4D, 0x51, 0x54, 0x54]"

definition MQTT_LEVEL_3 :: u8 where "MQTT_LEVEL_3 = 4"
definition MQTT_LEVEL_5 :: u8 where "MQTT_LEVEL_5 = 5"
definition WILL_QOS_SHIFT :: nat where "WILL_QOS_SHIFT = 3"
definition MAX_PACKET_SIZE :: nat where "MAX_PACKET_SIZE = 0xFFFFFFF"

lemmas mqtt_consts = MQTT_def MQTT_LEVEL_3_def MQTT_LEVEL_5_def WILL_QOS_SHIFT_def

text \<open>Packet types (the first byte of the fixed header).\<close>

definition CONNECT :: u8 where "CONNECT = 0b00010000"
definition CONNACK :: u8 where "CONNACK = 0b00100000"
definition PUBLISH_START :: u8 where "PUBLISH_START = 0b00110000"
definition PUBLISH_END :: u8 where "PUBLISH_END = 0b00111111"
definition PUBACK :: u8 where "PUBACK = 0b01000000"
definition PUBREC :: u8 where "PUBREC = 0b01010000"
definition PUBREL :: u8 where "PUBREL = 0b01100010"
definition PUBCOMP :: u8 where "PUBCOMP = 0b01110000"
definition SUBSCRIBE :: u8 where "SUBSCRIBE = 0b10000010"
definition SUBACK :: u8 where "SUBACK = 0b10010000"
definition UNSUBSCRIBE :: u8 where "UNSUBSCRIBE = 0b10100010"
definition UNSUBACK :: u8 where "UNSUBACK = 0b10110000"
definition PINGREQ :: u8 where "PINGREQ = 0b11000000"
definition PINGRESP :: u8 where "PINGRESP = 0b11010000"
definition DISCONNECT :: u8 where "DISCONNECT = 0b11100000"
definition AUTH :: u8 where "AUTH = 0b11110000"

lemmas packet_type_defs = CONNECT_def CONNACK_def PUBLISH_START_def PUBLISH_END_def PUBACK_def
  PUBREC_def PUBREL_def PUBCOMP_def SUBSCRIBE_def SUBACK_def UNSUBSCRIBE_def UNSUBACK_def
  PINGREQ_def PINGRESP_def DISCONNECT_def AUTH_def

text \<open>\<open>ConnectFlags\<close> and \<open>ConnectAckFlags\<close>: \<open>from_bits\<close> refuses unknown bits.\<close>

definition CF_USERNAME :: u8 where "CF_USERNAME = 0b10000000"
definition CF_PASSWORD :: u8 where "CF_PASSWORD = 0b01000000"
definition CF_WILL_RETAIN :: u8 where "CF_WILL_RETAIN = 0b00100000"
definition CF_WILL_QOS :: u8 where "CF_WILL_QOS = 0b00011000"
definition CF_WILL :: u8 where "CF_WILL = 0b00000100"
definition CF_CLEAN_START :: u8 where "CF_CLEAN_START = 0b00000010"
definition CAF_SESSION_PRESENT :: u8 where "CAF_SESSION_PRESENT = 0b00000001"

definition ConnectFlags_all :: u8 where
  "ConnectFlags_all = CF_USERNAME OR CF_PASSWORD OR CF_WILL_RETAIN OR CF_WILL_QOS OR CF_WILL OR CF_CLEAN_START"

definition flags_from_bits :: "u8 \<Rightarrow> u8 \<Rightarrow> u8 option" where
  "flags_from_bits all b = (if b AND NOT all = 0 then Some b else None)"

definition flags_contains :: "u8 \<Rightarrow> u8 \<Rightarrow> bool" where
  "flags_contains flags f \<longleftrightarrow> flags AND f = f"

lemmas flag_defs = CF_USERNAME_def CF_PASSWORD_def CF_WILL_RETAIN_def CF_WILL_QOS_def CF_WILL_def
  CF_CLEAN_START_def CAF_SESSION_PRESENT_def

text \<open>\<open>(flags & ConnectFlags::WILL_QOS).bits() >> WILL_QOS_SHIFT\<close>.\<close>

definition will_qos_bits :: "u8 \<Rightarrow> u8" where
  "will_qos_bits flags = drop_bit WILL_QOS_SHIFT (flags AND CF_WILL_QOS)"

text \<open>
  The connect flags byte as both encoders build it (\<open>encode_connect\<close> of v3, \<open>Connect::encode\<close> of
  v5): one bit per optional field, and the quality of service of the will in two bits.
\<close>

definition connect_flags :: "bool \<Rightarrow> bool \<Rightarrow> (QoS \<times> bool) option \<Rightarrow> bool \<Rightarrow> u8" where
  "connect_flags username password will clean =
     (if username then CF_USERNAME else 0) OR (if password then CF_PASSWORD else 0) OR
     (case will of None \<Rightarrow> 0
      | Some (qos, retain) \<Rightarrow> CF_WILL OR (if retain then CF_WILL_RETAIN else 0) OR
          (push_bit WILL_QOS_SHIFT (u8_from_QoS qos) AND ConnectFlags_all)) OR
     (if clean then CF_CLEAN_START else 0)"

lemmas connect_flags_eval = connect_flags_def flags_contains_def flags_from_bits_def
  ConnectFlags_all_def flag_defs WILL_QOS_SHIFT_def enum_try_from_def QoS_variants_def
  will_qos_bits_def

lemma connect_flags_no_will:
  shows "flags_from_bits ConnectFlags_all (connect_flags us pw None cl) = Some (connect_flags us pw None cl)"
    and "flags_contains (connect_flags us pw None cl) CF_USERNAME = us"
    and "flags_contains (connect_flags us pw None cl) CF_PASSWORD = pw"
    and "\<not> flags_contains (connect_flags us pw None cl) CF_WILL"
    and "flags_contains (connect_flags us pw None cl) CF_CLEAN_START = cl"
  by (cases us; cases pw; cases cl; simp add: connect_flags_eval)+

lemma connect_flags_will:
  fixes q :: QoS and rt :: bool
  defines "w \<equiv> Some (q, rt)"
  shows "flags_from_bits ConnectFlags_all (connect_flags us pw w cl) = Some (connect_flags us pw w cl)"
    and "flags_contains (connect_flags us pw w cl) CF_USERNAME = us"
    and "flags_contains (connect_flags us pw w cl) CF_PASSWORD = pw"
    and "flags_contains (connect_flags us pw w cl) CF_WILL"
    and "flags_contains (connect_flags us pw w cl) CF_CLEAN_START = cl"
    and "flags_contains (connect_flags us pw w cl) CF_WILL_RETAIN = rt"
    and "QoS_try_from (will_qos_bits (connect_flags us pw w cl)) = Ok q"
  unfolding w_def
  by (cases us; cases pw; cases cl; cases q; cases rt; simp add: connect_flags_eval)+

lemma connect_flags_read:
  shows "flags_from_bits ConnectFlags_all (connect_flags us pw w cl) = Some (connect_flags us pw w cl)"
    and "flags_contains (connect_flags us pw w cl) CF_USERNAME = us"
    and "flags_contains (connect_flags us pw w cl) CF_PASSWORD = pw"
    and "flags_contains (connect_flags us pw w cl) CF_WILL = (w \<noteq> None)"
    and "flags_contains (connect_flags us pw w cl) CF_CLEAN_START = cl"
  by (cases w; simp add: connect_flags_no_will connect_flags_will split_paired_all)+

lemmas connect_flags_simps = connect_flags_read connect_flags_will(6,7)

text \<open>The first byte of a PUBLISH packet, and how the decoders read it back.\<close>

definition publish_first_byte :: "QoS \<Rightarrow> bool \<Rightarrow> bool \<Rightarrow> u8" where
  "publish_first_byte qos dup retain =
     PUBLISH_START OR push_bit 1 (u8_from_QoS qos) OR push_bit 3 (of_bool dup) OR of_bool retain"

text \<open>\<open>(packet_flags & 0b0110) >> 1\<close>.\<close>

definition publish_qos_bits :: "u8 \<Rightarrow> u8" where
  "publish_qos_bits fl = drop_bit 1 (fl AND 0b0110)"

lemma publish_first_byte_read:
  fixes qos :: QoS and dup retain :: bool
  defines "fl \<equiv> (publish_first_byte qos dup retain AND 0b00001111 :: u8)"
  shows "PUBLISH_START \<le> publish_first_byte qos dup retain"
    and "publish_first_byte qos dup retain \<le> PUBLISH_END"
    and "QoS_try_from (publish_qos_bits fl) = Ok qos"
    and "(fl AND 0b1000 = 0b1000) = dup" and "(fl AND 0b0001 = 0b0001) = retain"
  unfolding fl_def publish_first_byte_def publish_qos_bits_def packet_type_defs enum_try_from_def QoS_variants_def
  by (cases qos; cases dup; cases retain; simp)+

record FixedHeader =
  first_byte :: u8
  remaining_length :: nat

section \<open>Disconnect reasons and protocol errors\<close>

text \<open>\<open>DisconnectReasonCode\<close> of \<open>src/v5/codec/packet/disconnect.rs\<close>; \<open>src/error.rs\<close> uses it.\<close>

datatype DisconnectReasonCode =
    DR_NormalDisconnection | DR_DisconnectWithWillMessage | DR_UnspecifiedError
  | DR_MalformedPacket | DR_ProtocolError | DR_ImplementationSpecificError | DR_NotAuthorized
  | DR_ServerBusy | DR_ServerShuttingDown | DR_BadAuthenticationMethod | DR_KeepAliveTimeout
  | DR_SessionTakenOver | DR_TopicFilterInvalid | DR_TopicNameInvalid | DR_ReceiveMaximumExceeded
  | DR_TopicAliasInvalid | DR_PacketTooLarge | DR_MessageRateTooHigh | DR_QuotaExceeded
  | DR_AdministrativeAction | DR_PayloadFormatInvalid | DR_RetainNotSupported | DR_QosNotSupported
  | DR_UseAnotherServer | DR_ServerMoved | DR_SharedSubscriptionNotSupported
  | DR_ConnectionRateExceeded | DR_MaximumConnectTime | DR_SubscriptionIdentifiersNotSupported
  | DR_WildcardSubscriptionsNotSupported

datatype ViolationInner =
    VI_Common DisconnectReasonCode string
  | VI_UnexpectedPacket u8 string

datatype ProtocolError =
    PE_Decode DecodeError
  | PE_Encode EncodeError
  | PE_ProtocolViolation ViolationInner
  | PE_KeepAliveTimeout
  | PE_ReadTimeout

fun violation_reason :: "ViolationInner \<Rightarrow> DisconnectReasonCode" where
  "violation_reason (VI_Common reason _) = reason"
| "violation_reason (VI_UnexpectedPacket _ _) = DR_ProtocolError"

definition violation :: "DisconnectReasonCode \<Rightarrow> string \<Rightarrow> ProtocolError" where
  "violation reason message = PE_ProtocolViolation (VI_Common reason message)"

definition generic_violation :: "string \<Rightarrow> ProtocolError" where
  "generic_violation message = violation DR_ProtocolError message"

definition unexpected_packet :: "u8 \<Rightarrow> string \<Rightarrow> ProtocolError" where
  "unexpected_packet packet_type message =
     PE_ProtocolViolation (VI_UnexpectedPacket packet_type message)"

definition packet_id_mismatch :: ProtocolError where
  "packet_id_mismatch = generic_violation
     ''Packet id of PUBACK packet does not match expected next value according to sending order of PUBLISH packets [MQTT-4.6.0-2]''"

end
