(* ===== verification/Utils.thy ===== *)
theory Utils
  imports Types
begin

text \<open>
  \<open>src/utils.rs\<close>: the traits \<open>Decode\<close>, \<open>Encode\<close> and \<open>Property\<close>, their instances for the
  field types of MQTT packets, and the variable-length integer. The UTF-8 test that
  \<open>ByteString::try_from\<close> makes belongs to the crate \<open>ntex_bytes\<close>; it is the parameter \<open>u\<close> of
  every decoder that reads a string.

  The locale \<open>wire_type\<close> states what one \<open>Decode\<close>/\<open>Encode\<close> pair promises; it is interpreted
  for every instance, and the lemmas on optional properties are proved once inside it.
\<close>

section \<open>Decoding of field types\<close>

definition decode_bool :: "bool decoder" where
  "decode_bool =
     dbind has_remaining (\<lambda>h. ensure h DE_InvalidLength (
     dbind get_u8 (\<lambda>v. ensure (v \<le> 1) DE_MalformedPacket (
     dreturn (v = 1)))))"

definition decode_u16 :: "u16 decoder" where
  "decode_u16 = dbind remaining (\<lambda>n. ensure (2 \<le> n) DE_InvalidLength get_u16)"

definition decode_u32 :: "u32 decoder" where
  "decode_u32 = dbind remaining (\<lambda>n. ensure (4 \<le> n) DE_InvalidLength get_u32)"

text \<open>\<open>NonZeroU16::new\<close> and \<open>NonZeroU32::new\<close>.\<close>

definition NonZero_new :: "'a::len word \<Rightarrow> 'a word option" where
  "NonZero_new v = (if v = 0 then None else Some v)"

definition decode_NonZeroU32 :: "u32 decoder" where
  "decode_NonZeroU32 = dbind decode_u32 (\<lambda>v. dlift (ok_or (NonZero_new v) DE_MalformedPacket))"

definition decode_NonZeroU16 :: "u16 decoder" where
  "decode_NonZeroU16 = dbind decode_u16 (\<lambda>v. dlift (ok_or (NonZero_new v) DE_MalformedPacket))"

definition decode_Bytes :: "bytes decoder" where
  "decode_Bytes =
     dbind decode_u16 (\<lambda>len.
     dbind remaining (\<lambda>n. ensure (unat len \<le> n) DE_InvalidLength (
     split_to (unat len))))"

definition decode_ByteString :: "(bytes \<Rightarrow> bool) \<Rightarrow> bytes decoder" where
  "decode_ByteString u =
     dbind decode_Bytes (\<lambda>b. if u b then dreturn b else dlift (Err Utf8Error))"

text \<open>\<open>Option<T>::read_value\<close>: a property may be set once.\<close>

definition read_value :: "'a decoder \<Rightarrow> 'a option \<Rightarrow> 'a option decoder" where
  "read_value dec cur =
     ensure (cur = None) DE_MalformedPacket (dbind dec (\<lambda>x. dreturn (Some x)))"

section \<open>The variable-length integer\<close>

text \<open>
  \<open>decode_variable_length_cursor\<close>: seven bits per byte, least significant group first, at most
  four bytes. The accumulator is a \<open>u32\<close>: an overflow would panic.
\<close>

fun dvl_loop :: "nat \<Rightarrow> nat \<Rightarrow> nat decoder" where
  "dvl_loop shift len [] = Err DE_MalformedPacket"
| "dvl_loop shift len (val # src) =
     (let len' = len + push_bit shift (unat (val AND 0b01111111)) in
      if 2 ^ 32 \<le> len' then Panic
      else if val AND 0b10000000 = 0 then Ok (len', src)
      else if shift < 21 then dvl_loop (shift + 7) len' src
      else Err DE_InvalidLength)"

definition decode_variable_length_cursor :: "nat decoder" where
  "decode_variable_length_cursor = dvl_loop 0 0"

text \<open>\<open>decode_variable_length\<close>: on a slice, with the number of bytes consumed.\<close>

definition decode_variable_length :: "bytes \<Rightarrow> (DecodeError, (nat \<times> nat) option) res" where
  "decode_variable_length src =
     (case decode_variable_length_cursor src of
        Ok (len, rest) \<Rightarrow> Ok (Some (len, length src - length rest))
      | Err e \<Rightarrow> if e = DE_MalformedPacket then Ok None else Err e
      | Panic \<Rightarrow> Panic)"

definition take_properties :: "bytes decoder" where
  "take_properties =
     dbind decode_variable_length_cursor (\<lambda>prop_len.
     dbind remaining (\<lambda>n. ensure (prop_len \<le> n) DE_InvalidLength (
     split_to prop_len)))"

definition write_variable_length :: "nat \<Rightarrow> encoder" where
  "write_variable_length len =
     (if len \<le> 127 then put_u8 (of_nat len)
      else if len \<le> 16383 then
        put_slice [of_nat ((len AND 0b01111111) OR 0b10000000), of_nat (drop_bit 7 len)]
      else if len \<le> 2097151 then
        put_slice [of_nat ((len AND 0b01111111) OR 0b10000000),
                   of_nat ((drop_bit 7 len AND 0b01111111) OR 0b10000000),
                   of_nat (drop_bit 14 len)]
      else if len \<le> 268435455 then
        put_slice [of_nat ((len AND 0b01111111) OR 0b10000000),
                   of_nat ((drop_bit 7 len AND 0b01111111) OR 0b10000000),
                   of_nat ((drop_bit 14 len AND 0b01111111) OR 0b10000000),
                   of_nat (drop_bit 21 len)]
      else epanic)"

section \<open>Encoding of field types\<close>

definition encode_bool :: "bool \<Rightarrow> encoder" where
  "encode_bool b = (if b then put_u8 1 else put_u8 0)"

definition encode_u16 :: "u16 \<Rightarrow> encoder" where
  "encode_u16 w = put_u16 w"

definition encode_u32 :: "u32 \<Rightarrow> encoder" where
  "encode_u32 w = put_u32 w"

definition encode_Bytes :: "bytes \<Rightarrow> encoder" where
  "encode_Bytes b =
     (if length b < 2 ^ 16 then encs [put_u16 (of_nat (length b)), put_slice b]
      else eerr EE_InvalidLength)"

definition encoded_size_bool :: "bool \<Rightarrow> nat" where "encoded_size_bool _ = 1"
definition encoded_size_u16 :: "u16 \<Rightarrow> nat" where "encoded_size_u16 _ = 2"
definition encoded_size_u32 :: "u32 \<Rightarrow> nat" where "encoded_size_u32 _ = 4"
definition encoded_size_Bytes :: "bytes \<Rightarrow> nat" where "encoded_size_Bytes b = 2 + length b"

type_synonym UserProperty = "bytes \<times> bytes"

definition encode_UserProperty :: "UserProperty \<Rightarrow> encoder" where
  "encode_UserProperty p = encs [encode_Bytes (fst p), encode_Bytes (snd p)]"

definition encoded_size_UserProperty :: "UserProperty \<Rightarrow> nat" where
  "encoded_size_UserProperty p = encoded_size_Bytes (fst p) + encoded_size_Bytes (snd p)"

text \<open>\<open>impl Decode for UserProperty\<close> (\<open>src/v5/codec/decode.rs\<close>).\<close>

definition decode_UserProperty :: "(bytes \<Rightarrow> bool) \<Rightarrow> UserProperty decoder" where
  "decode_UserProperty u =
     dbind (decode_ByteString u) (\<lambda>key.
     dbind (decode_ByteString u) (\<lambda>val. dreturn (key, val)))"

section \<open>The contract of a \<open>Decode\<close>/\<open>Encode\<close> pair\<close>

locale wire_type =
  fixes dec :: "bytes \<Rightarrow> (DecodeError, 'a \<times> bytes) res"
    and enc :: "'a \<Rightarrow> bytes \<times> (EncodeError, unit) res"
    and enc_size :: "'a \<Rightarrow> nat"
    and valid :: "'a \<Rightarrow> bool"
  assumes enc_ok: "valid x \<Longrightarrow> snd (enc x) = Ok ()"
    and enc_length: "valid x \<Longrightarrow> length (fst (enc x)) = enc_size x"
    and enc_pos: "0 < enc_size x"
    and dec_enc: "valid x \<Longrightarrow> dec (fst (enc x) @ r) = Ok (x, r)"
    and dec_canonical: "dec s = Ok (x, r) \<Longrightarrow> valid x \<and> s = fst (enc x) @ r"
    and dec_no_panic: "dec s \<noteq> Panic"
begin

lemma enc_nonempty: "valid x \<Longrightarrow> fst (enc x) \<noteq> []"
  using enc_length [of x] enc_pos [of x] by auto

lemma dec_enc_end: "valid x \<Longrightarrow> dec (fst (enc x)) = Ok (x, [])"
  using dec_enc [of x "[]"] by simp

lemma dec_consumes: "dec s = Ok (x, r) \<Longrightarrow> length r < length s"
proof -
  assume "dec s = Ok (x, r)"
  then have x: "valid x" and s: "s = fst (enc x) @ r"
    using dec_canonical by blast+
  show "length r < length s"
    unfolding s using enc_length [OF x] enc_pos [of x] by simp
qed

lemma dec_unique_prefix:
  assumes "valid x" and "valid y" and "fst (enc x) @ r = fst (enc y) @ t"
  shows "x = y \<and> r = t"
  using dec_enc [OF assms(1), of r] dec_enc [OF assms(2), of t] unfolding assms(3) by simp

lemma read_value_enc:
  "valid x \<Longrightarrow> read_value dec None (fst (enc x) @ r) = Ok (Some x, r)"
  by (simp add: read_value_def dec_enc)

lemma read_value_no_panic: "read_value dec cur s \<noteq> Panic"
  by (simp add: read_value_def bindR_eq_Panic dec_no_panic split_beta)

lemma read_value_consumes: "read_value dec cur s = Ok (v, r) \<Longrightarrow> length r < length s"
  by (auto simp: read_value_def bindR_eq_Ok split: if_splits dest: dec_consumes)

lemma read_value_twice: "read_value dec (Some y) s = Err DE_MalformedPacket"
  by (simp add: read_value_def)

end

section \<open>The instances satisfy the contract\<close>

lemma decode_u16_Ok: "decode_u16 s = Ok (w, r) \<longleftrightarrow> s = fst (put_u16 w) @ r"
  by (auto simp: decode_u16_def dest: put_get_u16)

lemma decode_u32_Ok: "decode_u32 s = Ok (w, r) \<longleftrightarrow> s = fst (put_u32 w) @ r"
  by (auto simp: decode_u32_def dest: put_get_u32)

lemma decode_u16_not_Panic [simp, no_panic]: "decode_u16 s \<noteq> Panic"
  by (simp add: decode_u16_def get_u16_not_Panic)

lemma decode_u32_not_Panic [simp, no_panic]: "decode_u32 s \<noteq> Panic"
  by (simp add: decode_u32_def get_u32_not_Panic)

interpretation wbool: wire_type decode_bool encode_bool encoded_size_bool "\<lambda>_. True"
proof
  fix s x r assume "decode_bool s = Ok (x, r)"
  then obtain v where "s = v # r" and "v \<le> 1" and "x = (v = 1)"
    by (cases s) (auto simp: decode_bool_def split: if_splits)
  moreover from \<open>v \<le> 1\<close> have "v = 0 \<or> v = 1"
    by (metis unat_eq_zero word_le_nat_alt unat_1 le_Suc_eq le_0_eq One_nat_def word_unat_eq_iff)
  ultimately show "True \<and> s = fst (encode_bool x) @ r"
    by (auto simp: encode_bool_def)
next
  show "decode_bool s \<noteq> Panic" for s
    by (cases s) (simp_all add: decode_bool_def)
qed (simp_all add: encode_bool_def encoded_size_bool_def decode_bool_def)

interpretation wu16: wire_type decode_u16 encode_u16 encoded_size_u16 "\<lambda>_. True"
  by unfold_locales (auto simp: encode_u16_def encoded_size_u16_def decode_u16_Ok)

interpretation wu32: wire_type decode_u32 encode_u32 encoded_size_u32 "\<lambda>_. True"
  by unfold_locales (auto simp: encode_u32_def encoded_size_u32_def decode_u32_Ok)

lemma decode_NonZeroU16_Ok:
  "decode_NonZeroU16 s = Ok (w, r) \<longleftrightarrow> w \<noteq> 0 \<and> s = fst (put_u16 w) @ r"
  by (auto simp: decode_NonZeroU16_def bindR_eq_Ok decode_u16_Ok NonZero_new_def split: if_splits)

lemma decode_NonZeroU32_Ok:
  "decode_NonZeroU32 s = Ok (w, r) \<longleftrightarrow> w \<noteq> 0 \<and> s = fst (put_u32 w) @ r"
  by (auto simp: decode_NonZeroU32_def bindR_eq_Ok decode_u32_Ok NonZero_new_def split: if_splits)

interpretation wnz16: wire_type decode_NonZeroU16 encode_u16 encoded_size_u16 "\<lambda>w. w \<noteq> 0"
  by unfold_locales
    (auto simp: encode_u16_def encoded_size_u16_def decode_NonZeroU16_Ok,
     auto simp: decode_NonZeroU16_def bindR_eq_Panic)

interpretation wnz32: wire_type decode_NonZeroU32 encode_u32 encoded_size_u32 "\<lambda>w. w \<noteq> 0"
  by unfold_locales
    (auto simp: encode_u32_def encoded_size_u32_def decode_NonZeroU32_Ok,
     auto simp: decode_NonZeroU32_def bindR_eq_Panic)

text \<open>A length-prefixed byte string is at most 65535 bytes long.\<close>

definition bin_ok :: "bytes \<Rightarrow> bool" where
  "bin_ok b \<longleftrightarrow> length b < 2 ^ 16"

definition str_ok :: "(bytes \<Rightarrow> bool) \<Rightarrow> bytes \<Rightarrow> bool" where
  "str_ok u b \<longleftrightarrow> u b \<and> length b < 2 ^ 16"

lemma unat_of_nat_length [simp]: "length b < 2 ^ 16 \<Longrightarrow> unat (of_nat (length b) :: u16) = length b"
  by (simp add: unat_of_nat)

lemma decode_Bytes_Ok:
  "decode_Bytes s = Ok (b, r) \<longleftrightarrow> bin_ok b \<and> s = fst (encode_Bytes b) @ r"
proof
  assume "decode_Bytes s = Ok (b, r)"
  then obtain len where s: "s = fst (put_u16 len) @ b @ r" and b: "length b = unat len"
    by (auto simp: decode_Bytes_def bindR_eq_Ok decode_u16_Ok split_to_eq_Ok split: if_splits)
  have "length b < 2 ^ 16" using b unsigned_less [where w = len and ?'a = nat] by simp
  moreover have "of_nat (length b) = len" by (simp add: b)
  ultimately show "bin_ok b \<and> s = fst (encode_Bytes b) @ r"
    by (simp add: s bin_ok_def encode_Bytes_def)
next
  assume "bin_ok b \<and> s = fst (encode_Bytes b) @ r"
  then show "decode_Bytes s = Ok (b, r)"
    by (auto simp: bin_ok_def encode_Bytes_def decode_Bytes_def decode_u16_def)
qed

lemma decode_Bytes_not_Panic [simp, no_panic]: "decode_Bytes s \<noteq> Panic"
  by (auto simp: decode_Bytes_def bindR_eq_Panic split_to_def)

interpretation wbytes: wire_type decode_Bytes encode_Bytes encoded_size_Bytes bin_ok
  by unfold_locales (auto simp: encode_Bytes_def encoded_size_Bytes_def bin_ok_def decode_Bytes_Ok)

lemma decode_ByteString_Ok:
  "decode_ByteString u s = Ok (b, r) \<longleftrightarrow> str_ok u b \<and> s = fst (encode_Bytes b) @ r"
  by (auto simp: decode_ByteString_def bindR_eq_Ok decode_Bytes_Ok str_ok_def bin_ok_def split: if_splits)

interpretation wstr: wire_type "decode_ByteString u" encode_Bytes encoded_size_Bytes "str_ok u" for u
  by unfold_locales
    (auto simp: encode_Bytes_def encoded_size_Bytes_def str_ok_def decode_ByteString_Ok,
     auto simp: decode_ByteString_def bindR_eq_Panic split: if_splits)

definition uprop_ok :: "(bytes \<Rightarrow> bool) \<Rightarrow> UserProperty \<Rightarrow> bool" where
  "uprop_ok u p \<longleftrightarrow> str_ok u (fst p) \<and> str_ok u (snd p)"

lemma decode_UserProperty_Ok:
  "decode_UserProperty u s = Ok (p, r) \<longleftrightarrow>
     uprop_ok u p \<and> s = fst (encode_Bytes (fst p)) @ fst (encode_Bytes (snd p)) @ r"
  by (cases p) (auto simp: decode_UserProperty_def bindR_eq_Ok decode_ByteString_Ok uprop_ok_def)

interpretation wuprop: wire_type "decode_UserProperty u" encode_UserProperty encoded_size_UserProperty
  "uprop_ok u" for u
proof
  fix x assume "uprop_ok u x"
  then show "snd (encode_UserProperty x) = Ok ()"
    and "length (fst (encode_UserProperty x)) = encoded_size_UserProperty x"
    and "decode_UserProperty u (fst (encode_UserProperty x) @ r) = Ok (x, r)" for r
    by (auto simp: uprop_ok_def encode_UserProperty_def encoded_size_UserProperty_def
        wstr.enc_ok wstr.enc_length decode_UserProperty_Ok)
next
  fix s x r assume "decode_UserProperty u s = Ok (x, r)"
  then show "uprop_ok u x \<and> s = fst (encode_UserProperty x) @ r"
    by (auto simp: decode_UserProperty_Ok encode_UserProperty_def uprop_ok_def wstr.enc_ok)
qed (auto simp: encoded_size_UserProperty_def encoded_size_Bytes_def decode_UserProperty_def
      bindR_eq_Panic wstr.dec_no_panic)

section \<open>The variable-length integer: decoding inverts encoding\<close>

lemma unat_and_127: "unat (v AND 0b01111111 :: u8) = unat v mod 128"
proof -
  have "v AND 0b01111111 = take_bit 7 v"
    by (simp add: take_bit_eq_mask mask_numeral)
  then show ?thesis by (simp only: unsigned_take_bit_eq) (simp add: take_bit_eq_mod)
qed

lemma and_128_iff: "(v AND 0b10000000 :: u8) = 0 \<longleftrightarrow> unat v < 128"
proof -
  have "(v AND 0b10000000 :: u8) = 0 \<longleftrightarrow> \<not> bit v 7"
    using and_exp_eq_0_iff_not_bit [of v 7] by simp
  also have "bit v 7 \<longleftrightarrow> bit (unat v) 7"
    by (simp add: bit_simps)
  also have "\<dots> \<longleftrightarrow> odd (unat v div 128)"
    by (simp add: bit_iff_odd)
  also have "\<dots> \<longleftrightarrow> \<not> unat v < 128"
  proof -
    have "unat v < 256" using unsigned_less [where w = v and ?'a = nat] by simp
    then have "unat v div 128 = (if unat v < 128 then 0 else 1)" by (auto simp: div_eq_0_iff intro: div_nat_eqI)
    then show ?thesis by auto
  qed
  finally show ?thesis by simp
qed

lemma group_byte: "((n::nat) AND 0b01111111) OR 0b10000000 = n mod 128 + 128"
proof -
  have "n AND 127 = take_bit 7 n"
    by (simp add: take_bit_eq_mask mask_numeral)
  moreover have "take_bit 7 n + 2 ^ 7 = take_bit 7 n OR (2 ^ 7 :: nat)"
    by (rule disjunctive_add_eq_or, subst and_exp_eq_0_iff_not_bit) (simp add: bit_simps)
  ultimately show ?thesis by (simp add: take_bit_eq_mod)
qed

lemma dvl_loop_Cons:
  "dvl_loop shift len (v # s) =
     (let len' = len + unat v mod 128 * 2 ^ shift in
      if 2 ^ 32 \<le> len' then Panic
      else if unat v < 128 then Ok (len', s)
      else if shift < 21 then dvl_loop (shift + 7) len' s
      else Err DE_InvalidLength)"
  by (simp add: unat_and_127 and_128_iff push_bit_eq_mult Let_def)

lemma dvl_group:
  assumes "n < 128" and "len + n * 2 ^ shift < 2 ^ 32"
  shows "dvl_loop shift len (of_nat n # s) = Ok (len + n * 2 ^ shift, s)"
    and "shift < 21 \<Longrightarrow>
      dvl_loop shift len (of_nat (n + 128) # s) = dvl_loop (shift + 7) (len + n * 2 ^ shift) s"
proof -
  have "unat (of_nat n :: u8) = n" and "unat (of_nat (n + 128) :: u8) = n + 128"
    using assms(1) by (simp_all add: unat_of_nat del: of_nat_add)
  with assms show "dvl_loop shift len (of_nat n # s) = Ok (len + n * 2 ^ shift, s)"
    and "shift < 21 \<Longrightarrow>
      dvl_loop shift len (of_nat (n + 128) # s) = dvl_loop (shift + 7) (len + n * 2 ^ shift) s"
    by (simp_all add: dvl_loop_Cons Let_def del: of_nat_add dvl_loop.simps)
qed

lemmas write_variable_length_bytes =
  write_variable_length_def group_byte drop_bit_eq_div put_slice_def put_u8_def

lemma write_variable_length_ok [simp]:
  "snd (write_variable_length n) = Ok () \<longleftrightarrow> n \<le> 268435455"
  by (simp add: write_variable_length_def)

definition varint_len :: "nat \<Rightarrow> nat" where
  "varint_len n = (if n < 128 then 1 else if n < 16384 then 2 else if n < 2097152 then 3 else 4)"

lemma length_write_variable_length:
  "n \<le> 268435455 \<Longrightarrow> length (fst (write_variable_length n)) = varint_len n"
  by (simp add: write_variable_length_bytes varint_len_def)

lemma decode_write_variable_length:
  assumes "n \<le> 268435455"
  shows "decode_variable_length_cursor (fst (write_variable_length n) @ r) = Ok (n, r)"
proof -
  have split: "n mod 128 + n div 128 * 128 = n"
    "n div 128 mod 128 + n div 16384 * 128 = n div 128"
    "n div 16384 mod 128 + n div 2097152 * 128 = n div 16384"
    using mod_div_mult_eq [of n 128] mod_div_mult_eq [of "n div 128" 128]
      mod_div_mult_eq [of "n div 16384" 128]
    by (simp_all flip: div_mult2_eq)
  then have sum: "n mod 128 + n div 128 mod 128 * 128 + n div 16384 * 16384 = n"
    "n mod 128 + n div 128 mod 128 * 128 + n div 16384 mod 128 * 16384 + n div 2097152 * 2097152 = n"
    by linarith+
  consider "n \<le> 127" | "127 < n" "n \<le> 16383" | "16383 < n" "n \<le> 2097151" | "2097151 < n"
    by linarith
  then show ?thesis
  proof cases
    case 1
    then show ?thesis
      by (simp add: decode_variable_length_cursor_def write_variable_length_bytes dvl_group sum del: dvl_loop.simps of_nat_add)
  next
    case 2
    then show ?thesis
      by (simp add: decode_variable_length_cursor_def write_variable_length_bytes dvl_group sum del: dvl_loop.simps of_nat_add)
  next
    case 3
    then show ?thesis
      by (simp add: decode_variable_length_cursor_def write_variable_length_bytes dvl_group sum del: dvl_loop.simps of_nat_add)
  next
    case 4
    with assms show ?thesis
      by (simp add: decode_variable_length_cursor_def write_variable_length_bytes dvl_group sum del: dvl_loop.simps of_nat_add)
  qed
qed

section \<open>The variable-length integer: bounds, totality, incremental input\<close>

lemma group_bound:
  fixes len m :: nat
  assumes "k \<le> 3" and "len < 2 ^ (7 * k)"
  shows "len + m mod 128 * 2 ^ (7 * k) < 2 ^ (7 * Suc k)" and "(2 :: nat) ^ (7 * Suc k) \<le> 2 ^ 28"
proof -
  have "len + m mod 128 * 2 ^ (7 * k) < (1 + m mod 128) * 2 ^ (7 * k)"
    using assms(2) by simp
  also have "\<dots> \<le> 128 * 2 ^ (7 * k)"
    by (intro mult_right_mono) (simp_all add: Suc_le_eq)
  finally show "len + m mod 128 * 2 ^ (7 * k) < 2 ^ (7 * Suc k)"
    by (simp add: power_add)
  show "(2 :: nat) ^ (7 * Suc k) \<le> 2 ^ 28"
    using assms(1) by (intro power_increasing) simp_all
qed

lemma dvl_loop_spec:
  assumes "k \<le> 3" and "len < 2 ^ (7 * k)"
  shows "case dvl_loop (7 * k) len s of
      Ok (n, r) \<Rightarrow> n < 2 ^ 28 \<and> length r < length s \<and> length s - length r \<le> 4 - k
    | Err e \<Rightarrow> e = DE_InvalidLength \<and> 4 - k \<le> length s \<or> e = DE_MalformedPacket \<and> length s < 4 - k
    | Panic \<Rightarrow> False"
  using assms
proof (induction s arbitrary: k len)
  case (Cons v s)
  let ?len = "len + unat v mod 128 * 2 ^ (7 * k)"
  have b: "?len < 2 ^ (7 * Suc k)" "(2 :: nat) ^ (7 * Suc k) \<le> 2 ^ 28"
    using group_bound Cons.prems by blast+
  then have nopanic: "?len < 2 ^ 28" by linarith
  show ?case
  proof (cases "unat v < 128 \<or> k = 3")
    case True
    with nopanic Cons.prems(1) show ?thesis
      by (auto simp: dvl_loop_Cons Let_def simp del: dvl_loop.simps)
  next
    case False
    then have k: "k < 3" using Cons.prems(1) by simp
    then have eq: "dvl_loop (7 * k) len (v # s) = dvl_loop (7 * Suc k) ?len s"
      using False nopanic by (simp add: dvl_loop_Cons Let_def add.commute del: dvl_loop.simps)
    show ?thesis
      unfolding eq using Cons.IH [of "Suc k" ?len] b(1) k
      by (auto split: res.splits prod.splits simp del: dvl_loop.simps)
  qed
qed simp

lemma dvl_loop_append:
  "dvl_loop sh len s = Ok (n, r) \<Longrightarrow> dvl_loop sh len (s @ t) = Ok (n, r @ t)"
  "dvl_loop sh len s = Err DE_InvalidLength \<Longrightarrow> dvl_loop sh len (s @ t) = Err DE_InvalidLength"
  by (induction sh len s rule: dvl_loop.induct) (auto simp: Let_def split: if_splits)

lemma decode_variable_length_cursor_not_Panic [simp, no_panic]:
  "decode_variable_length_cursor s \<noteq> Panic"
  using dvl_loop_spec [of 0 0 s] by (auto simp: decode_variable_length_cursor_def split: res.splits)

lemma decode_variable_length_cursor_Ok:
  assumes "decode_variable_length_cursor s = Ok (n, r)"
  shows "n \<le> 268435455" and "length r < length s" and "length s - length r \<le> 4"
  using dvl_loop_spec [of 0 0 s] assms by (auto simp: decode_variable_length_cursor_def)

lemma decode_variable_length_cursor_consumes:
  "decode_variable_length_cursor s = Ok (n, r) \<Longrightarrow> \<exists>p. s = p @ r"
proof -
  have "dvl_loop sh len s = Ok (n, r) \<Longrightarrow> \<exists>p. s = p @ r" for sh len
    by (induction sh len s rule: dvl_loop.induct)
      (auto simp: Let_def split: if_splits intro: exI [of _ "_ # _"])
  then show "decode_variable_length_cursor s = Ok (n, r) \<Longrightarrow> \<exists>p. s = p @ r"
    by (simp add: decode_variable_length_cursor_def)
qed

lemma take_properties_not_Panic [simp, no_panic]: "take_properties s \<noteq> Panic"
  by (auto simp: take_properties_def bindR_eq_Panic split_to_def split: if_splits)

lemma take_properties_write:
  assumes "length p \<le> 268435455"
  shows "take_properties (fst (write_variable_length (length p)) @ p @ r) = Ok (p, r)"
  using decode_write_variable_length [OF assms, of "p @ r"] by (simp add: take_properties_def)

lemma take_properties_shorter: "take_properties s = Ok (p, r) \<Longrightarrow> length p + length r < length s"
  by (auto simp: take_properties_def bindR_eq_Ok split_to_eq_Ok split: if_splits
      dest: decode_variable_length_cursor_Ok(2))

text \<open>\<open>decode_variable_length\<close> on a slice: what the frame decoders use.\<close>

lemma decode_variable_length_not_Panic [simp, no_panic]: "decode_variable_length s \<noteq> Panic"
  by (simp add: decode_variable_length_def split: res.splits prod.splits)

lemma decode_variable_length_write:
  assumes "n \<le> 268435455"
  shows "decode_variable_length (fst (write_variable_length n) @ r) = Ok (Some (n, varint_len n))"
  using decode_write_variable_length [OF assms, of r] length_write_variable_length [OF assms]
  by (simp add: decode_variable_length_def)

lemma decode_variable_length_Some:
  assumes "decode_variable_length s = Ok (Some (n, c))"
  shows "n \<le> 268435455" and "0 < c" and "c \<le> 4" and "c \<le> length s"
    and "decode_variable_length (s @ t) = Ok (Some (n, c))"
proof -
  from assms obtain r where r: "decode_variable_length_cursor s = Ok (n, r)" and c: "c = length s - length r"
    by (auto simp: decode_variable_length_def split: res.splits if_splits)
  from r dvl_loop_append(1) [of 0 0 s n r t]
  have "decode_variable_length_cursor (s @ t) = Ok (n, r @ t)"
    by (simp add: decode_variable_length_cursor_def)
  with c show "decode_variable_length (s @ t) = Ok (Some (n, c))"
    by (simp add: decode_variable_length_def)
  show "n \<le> 268435455" "0 < c" "c \<le> 4" "c \<le> length s"
    using decode_variable_length_cursor_Ok [OF r] c by auto
qed

lemma decode_variable_length_Err:
  assumes "decode_variable_length s = Err e"
  shows "e = DE_InvalidLength" and "decode_variable_length (s @ t) = Err e"
proof -
  from assms have e: "decode_variable_length_cursor s = Err e" "e \<noteq> DE_MalformedPacket"
    by (auto simp: decode_variable_length_def split: res.splits if_splits)
  with dvl_loop_spec [of 0 0 s] show *: "e = DE_InvalidLength"
    by (auto simp: decode_variable_length_cursor_def)
  show "decode_variable_length (s @ t) = Err e"
    using e dvl_loop_append(2) [of 0 0 s t] unfolding *
    by (simp add: decode_variable_length_def decode_variable_length_cursor_def)
qed

lemma decode_variable_length_None:
  assumes "decode_variable_length s = Ok None"
  shows "length s < 4"
proof -
  from assms have "decode_variable_length_cursor s = Err DE_MalformedPacket"
    by (auto simp: decode_variable_length_def split: res.splits if_splits)
  then show ?thesis
    using dvl_loop_spec [of 0 0 s] by (simp add: decode_variable_length_cursor_def)
qed

section \<open>Optional fields and lemma bundles\<close>

text \<open>An optional field that is present when its flag is set.\<close>

definition decode_flagged :: "bool \<Rightarrow> 'a decoder \<Rightarrow> 'a option decoder" where
  "decode_flagged present dec = (if present then dbind dec (\<lambda>x. dreturn (Some x)) else dreturn None)"

text \<open>Slices of the buffer that are read without consuming them panic when out of range.\<close>

definition peek :: "nat \<Rightarrow> bytes decoder" where
  "peek n s = (if n \<le> length s then Ok (take n s, s) else Panic)"

definition encode_opt :: "('a \<Rightarrow> encoder) \<Rightarrow> 'a option \<Rightarrow> encoder" where
  "encode_opt enc v = (case v of None \<Rightarrow> eok [] | Some x \<Rightarrow> enc x)"

lemmas field_no_panic = wstr.dec_no_panic wnz16.dec_no_panic wnz32.dec_no_panic wbytes.dec_no_panic
  wu16.dec_no_panic wu32.dec_no_panic wbool.dec_no_panic wuprop.dec_no_panic

lemma decode_flagged_not_Panic [simp]: "(\<And>s. dec s \<noteq> Panic) \<Longrightarrow> decode_flagged c dec s \<noteq> Panic"
  by (simp add: decode_flagged_def bindR_eq_Panic split_beta)

lemma ten_bytes:
  assumes "10 \<le> length s"
  obtains a b c d e f g h i j r where "s = a # b # c # d # e # f # g # h # i # j # r"
  using assms by (auto simp: numeral_eq_Suc Suc_le_length_iff)

lemmas field_enc = wstr.enc_ok wstr.enc_length wbytes.enc_ok wbytes.enc_length
  wnz16.enc_ok [of "_"] wu16.enc_ok wu16.enc_length wu32.enc_ok wu32.enc_length
  wbool.enc_ok wbool.enc_length wuprop.enc_ok wuprop.enc_length
lemmas field_dec = wstr.dec_enc wbytes.dec_enc wnz16.dec_enc wnz32.dec_enc wu16.dec_enc wu32.dec_enc
  wbool.dec_enc wuprop.dec_enc wstr.dec_enc_end wbytes.dec_enc_end wnz16.dec_enc_end
lemmas field_size = encoded_size_Bytes_def encoded_size_u16_def encoded_size_u32_def
  encoded_size_bool_def encoded_size_UserProperty_def

lemma encode_opt_simps [simp]: "encode_opt enc None = eok []" "encode_opt enc (Some x) = enc x"
  by (simp_all add: encode_opt_def)

lemma decode_flagged_enc:
  "(\<And>x r. v = Some x \<Longrightarrow> dec (fst (enc x) @ r) = Ok (x, r)) \<Longrightarrow>
   decode_flagged (v \<noteq> None) dec (fst (encode_opt enc v) @ r) = Ok (v, r)"
  by (cases v) (simp_all add: decode_flagged_def)

lemma snd_encode_opt: "pred_option (\<lambda>x. snd (enc x) = Ok ()) v \<Longrightarrow> snd (encode_opt enc v) = Ok ()"
  by (cases v) simp_all

lemma MQTT_header: "fst (encode_Bytes MQTT) = [0, 4, 0x4D, 0x51, 0x54, 0x54]" "snd (encode_Bytes MQTT) = Ok ()"
  by (simp_all add: encode_Bytes_def MQTT_def put_u16_def)

section \<open>Readers that never panic\<close>

lemma safe_fields [safe_intros]:
  "safe_reader decode_bool" "safe_reader decode_u16" "safe_reader decode_u32"
  "safe_reader decode_NonZeroU16" "safe_reader decode_NonZeroU32" "safe_reader decode_Bytes"
  "safe_reader (decode_ByteString u)" "safe_reader (decode_UserProperty u)"
  by (rule safe_readerI; auto simp: field_no_panic dest: wbool.dec_consumes wu16.dec_consumes
        wu32.dec_consumes wnz16.dec_consumes wnz32.dec_consumes wbytes.dec_consumes wstr.dec_consumes
        wuprop.dec_consumes)+

lemma safe_read_value [safe_intros]: "safe_reader dec \<Longrightarrow> safe_reader (read_value dec cur)"
  unfolding read_value_def by (intro safe_intros)

lemma safe_flagged [safe_intros]: "safe_reader dec \<Longrightarrow> safe_reader (decode_flagged c dec)"
  unfolding decode_flagged_def by (intro safe_intros)

lemma safe_variable_length [safe_intros]:
  "safe_reader decode_variable_length_cursor" "safe_reader take_properties"
  by (auto intro!: safe_readerI dest!: decode_variable_length_cursor_Ok(2) take_properties_shorter)

lemma safe_enum [safe_intros]: "safe_reader (dlift (enum_try_from vs into v))"
  by (intro safe_intros) simp

section \<open>Properties\<close>

text \<open>A length up to 268435455 is written as its shortest variable-length form and read back,
  both from a buffer and from a slice, whatever follows; a larger one is not written at all: the
  writer panics.\<close>

theorem variable_length_roundtrip:
  "if n \<le> 268435455 then
     snd (write_variable_length n) = Ok () \<and>
     length (fst (write_variable_length n)) = varint_len n \<and>
     decode_variable_length_cursor (fst (write_variable_length n) @ r) = Ok (n, r) \<and>
     decode_variable_length (fst (write_variable_length n) @ r) = Ok (Some (n, varint_len n))
   else write_variable_length n = epanic"
  using decode_write_variable_length decode_variable_length_write length_write_variable_length
  by (simp add: write_variable_length_def)

text \<open>Reading a variable-length integer never panics (its \<open>u32\<close> accumulator cannot overflow), reads
  at most four bytes and gives at most 268435455; it asks for more input only while fewer than four
  bytes are there, and the only error is an invalid length.\<close>

theorem decode_variable_length_total:
  "case decode_variable_length s of
     Ok (Some (n, c)) \<Rightarrow> n \<le> 268435455 \<and> 0 < c \<and> c \<le> 4 \<and> c \<le> length s
   | Ok None \<Rightarrow> length s < 4
   | Err e \<Rightarrow> e = DE_InvalidLength
   | Panic \<Rightarrow> False"
proof (cases "decode_variable_length s")
  case (Ok v)
  then show ?thesis using decode_variable_length_Some [of s] decode_variable_length_None [of s]
    by (cases v) auto
qed (use decode_variable_length_Err decode_variable_length_not_Panic in auto)

end
