(* ===== verification/V3_Packet.thy ===== *)
theory V3_Packet
  imports Utils
begin

text \<open>
  MQTT 3.1.1 packets: the types of \<open>src/v3/codec/packet.rs\<close>, the packet decoder of
  \<open>src/v3/codec/decode.rs\<close> and the packet encoder of \<open>src/v3/codec/encode.rs\<close>, with the lemmas
  that each decoder is total (no panic) and inverts its encoder.
\<close>

section \<open>Packets\<close>

datatype v3_ConnectAckReason =
    CAR3_ConnectionAccepted | CAR3_UnacceptableProtocolVersion | CAR3_IdentifierRejected
  | CAR3_ServiceUnavailable | CAR3_BadUserNameOrPassword | CAR3_NotAuthorized | CAR3_Reserved

primrec u8_from_v3_ConnectAckReason :: "v3_ConnectAckReason \<Rightarrow> u8" where
  "u8_from_v3_ConnectAckReason CAR3_ConnectionAccepted = 0"
| "u8_from_v3_ConnectAckReason CAR3_UnacceptableProtocolVersion = 1"
| "u8_from_v3_ConnectAckReason CAR3_IdentifierRejected = 2"
| "u8_from_v3_ConnectAckReason CAR3_ServiceUnavailable = 3"
| "u8_from_v3_ConnectAckReason CAR3_BadUserNameOrPassword = 4"
| "u8_from_v3_ConnectAckReason CAR3_NotAuthorized = 5"
| "u8_from_v3_ConnectAckReason CAR3_Reserved = 6"

definition v3_ConnectAckReason_variants :: "v3_ConnectAckReason list" where
  "v3_ConnectAckReason_variants =
     [CAR3_ConnectionAccepted, CAR3_UnacceptableProtocolVersion, CAR3_IdentifierRejected,
      CAR3_ServiceUnavailable, CAR3_BadUserNameOrPassword, CAR3_NotAuthorized, CAR3_Reserved]"

abbreviation v3_ConnectAckReason_try_from :: "u8 \<Rightarrow> (DecodeError, v3_ConnectAckReason) res" where
  "v3_ConnectAckReason_try_from \<equiv> enum_try_from v3_ConnectAckReason_variants u8_from_v3_ConnectAckReason"

interpretation car3: prim_enum v3_ConnectAckReason_variants u8_from_v3_ConnectAckReason
proof
  show "x \<in> set v3_ConnectAckReason_variants" for x
    by (cases x) (simp_all add: v3_ConnectAckReason_variants_def)
qed (simp add: v3_ConnectAckReason_variants_def)

record v3_LastWill =
  will3_qos :: QoS
  will3_retain :: bool
  will3_topic :: bytes
  will3_message :: bytes

record v3_Connect =
  con3_clean_session :: bool
  con3_keep_alive :: u16
  con3_last_will :: "v3_LastWill option"
  con3_client_id :: bytes
  con3_username :: "bytes option"
  con3_password :: "bytes option"

record v3_Publish =
  pub3_dup :: bool
  pub3_retain :: bool
  pub3_qos :: QoS
  pub3_topic :: bytes
  pub3_packet_id :: "u16 option"
  pub3_payload :: bytes

record v3_ConnectAck =
  cack3_return_code :: v3_ConnectAckReason
  cack3_session_present :: bool

datatype SubscribeReturnCode = SRC_Success QoS | SRC_Failure

datatype v3_Packet =
    V3_Connect v3_Connect
  | V3_ConnectAck v3_ConnectAck
  | V3_Publish v3_Publish
  | V3_PublishAck u16
  | V3_PublishReceived u16
  | V3_PublishRelease u16
  | V3_PublishComplete u16
  | V3_Subscribe u16 "(bytes \<times> QoS) list"
  | V3_SubscribeAck u16 "SubscribeReturnCode list"
  | V3_Unsubscribe u16 "bytes list"
  | V3_UnsubscribeAck u16
  | V3_PingRequest
  | V3_PingResponse
  | V3_Disconnect

fun v3_packet_type :: "v3_Packet \<Rightarrow> u8" where
  "v3_packet_type (V3_Connect _) = CONNECT"
| "v3_packet_type (V3_ConnectAck _) = CONNACK"
| "v3_packet_type (V3_Publish _) = PUBLISH_START"
| "v3_packet_type (V3_PublishAck _) = PUBACK"
| "v3_packet_type (V3_PublishReceived _) = PUBREC"
| "v3_packet_type (V3_PublishRelease _) = PUBREL"
| "v3_packet_type (V3_PublishComplete _) = PUBCOMP"
| "v3_packet_type (V3_Subscribe _ _) = SUBSCRIBE"
| "v3_packet_type (V3_SubscribeAck _ _) = SUBACK"
| "v3_packet_type (V3_Unsubscribe _ _) = UNSUBSCRIBE"
| "v3_packet_type (V3_UnsubscribeAck _) = UNSUBACK"
| "v3_packet_type V3_PingRequest = PINGREQ"
| "v3_packet_type V3_PingResponse = PINGRESP"
| "v3_packet_type V3_Disconnect = DISCONNECT"

section \<open>Decoding\<close>

definition v3_decode_ack :: "(u16 \<Rightarrow> v3_Packet) \<Rightarrow> v3_Packet decoder" where
  "v3_decode_ack f =
     dbind decode_NonZeroU16 (\<lambda>packet_id.
     dbind has_remaining (\<lambda>h. ensure (\<not> h) DE_InvalidLength (
     dreturn (f packet_id))))"

definition v3_decode_last_will :: "(bytes \<Rightarrow> bool) \<Rightarrow> u8 \<Rightarrow> v3_LastWill option decoder" where
  "v3_decode_last_will u flags =
     (if flags_contains flags CF_WILL then
        dbind (decode_ByteString u) (\<lambda>topic.
        dbind decode_Bytes (\<lambda>message.
        dbind (dlift (QoS_try_from (will_qos_bits flags))) (\<lambda>qos.
        dreturn (Some \<lparr>will3_qos = qos, will3_retain = flags_contains flags CF_WILL_RETAIN,
                       will3_topic = topic, will3_message = message\<rparr>))))
      else dreturn None)"

definition v3_decode_connect_packet :: "(bytes \<Rightarrow> bool) \<Rightarrow> v3_Packet decoder" where
  "v3_decode_connect_packet u =
     dbind remaining (\<lambda>n. ensure (10 \<le> n) DE_InvalidLength (
     dbind get_u16 (\<lambda>len.
     dbind (peek 4) (\<lambda>name. ensure (len = 4 \<and> name = MQTT) InvalidProtocol (
     dbind (split_to 4) (\<lambda>_.
     dbind get_u8 (\<lambda>level. ensure (level = MQTT_LEVEL_3) UnsupportedProtocolLevel (
     dbind get_u8 (\<lambda>bits.
     dbind (dlift (ok_or (flags_from_bits ConnectFlags_all bits) ConnectReservedFlagSet)) (\<lambda>flags.
     dbind decode_u16 (\<lambda>keep_alive.
     dbind (decode_ByteString u) (\<lambda>client_id.
     ensure (client_id \<noteq> [] \<or> flags_contains flags CF_CLEAN_START) InvalidClientId (
     dbind (v3_decode_last_will u flags) (\<lambda>last_will.
     dbind (decode_flagged (flags_contains flags CF_USERNAME) (decode_ByteString u)) (\<lambda>username.
     dbind (decode_flagged (flags_contains flags CF_PASSWORD) decode_Bytes) (\<lambda>password.
     dreturn (V3_Connect \<lparr>con3_clean_session = flags_contains flags CF_CLEAN_START,
       con3_keep_alive = keep_alive, con3_last_will = last_will, con3_client_id = client_id,
       con3_username = username, con3_password = password\<rparr>)))))))))))))))))"

definition v3_decode_connect_ack_packet :: "v3_Packet decoder" where
  "v3_decode_connect_ack_packet =
     dbind remaining (\<lambda>n. ensure (2 \<le> n) DE_InvalidLength (
     dbind get_u8 (\<lambda>bits.
     dbind (dlift (ok_or (flags_from_bits CAF_SESSION_PRESENT bits) ConnAckReservedFlagSet)) (\<lambda>flags.
     dbind get_u8 (\<lambda>code.
     dbind (dlift (v3_ConnectAckReason_try_from code)) (\<lambda>return_code.
     dreturn (V3_ConnectAck \<lparr>cack3_return_code = return_code,
       cack3_session_present = flags_contains flags CAF_SESSION_PRESENT\<rparr>)))))))"

definition v3_decode_publish_packet :: "(bytes \<Rightarrow> bool) \<Rightarrow> u8 \<Rightarrow> v3_Packet decoder" where
  "v3_decode_publish_packet u packet_flags =
     dbind (decode_ByteString u) (\<lambda>topic.
     dbind (dlift (QoS_try_from (publish_qos_bits packet_flags))) (\<lambda>qos.
     dbind (decode_flagged (qos \<noteq> AtMostOnce) decode_NonZeroU16) (\<lambda>packet_id.
     dbind split_rest (\<lambda>payload.
     dreturn (V3_Publish \<lparr>pub3_dup = (packet_flags AND 0b1000 = 0b1000),
       pub3_retain = (packet_flags AND 0b0001 = 0b0001), pub3_qos = qos, pub3_topic = topic,
       pub3_packet_id = packet_id, pub3_payload = payload\<rparr>)))))"

definition v3_subscribe_step ::
    "(bytes \<Rightarrow> bool) \<Rightarrow> (bytes \<times> QoS) list \<Rightarrow> (bytes \<times> QoS) list decoder" where
  "v3_subscribe_step u topic_filters =
     dbind (decode_ByteString u) (\<lambda>topic.
     dbind remaining (\<lambda>n. ensure (1 \<le> n) DE_InvalidLength (
     dbind get_u8 (\<lambda>b.
     dbind (dlift (QoS_try_from (b AND 0b00000011))) (\<lambda>qos.
     dreturn (topic_filters @ [(topic, qos)]))))))"

definition v3_decode_subscribe_packet :: "(bytes \<Rightarrow> bool) \<Rightarrow> v3_Packet decoder" where
  "v3_decode_subscribe_packet u =
     dbind decode_NonZeroU16 (\<lambda>packet_id.
     dbind (while_remaining (v3_subscribe_step u) []) (\<lambda>topic_filters.
     dreturn (V3_Subscribe packet_id topic_filters)))"

text \<open>The loop over the bytes of SUBACK; \<open>?\<close> leaves it at the first unknown code.\<close>

fun v3_return_codes :: "bytes \<Rightarrow> (DecodeError, SubscribeReturnCode list) res" where
  "v3_return_codes [] = Ok []"
| "v3_return_codes (code # cs) =
     bindR (if code = 0x80 then Ok SRC_Failure
            else bindR (QoS_try_from code) (\<lambda>q. Ok (SRC_Success q)))
       (\<lambda>st. bindR (v3_return_codes cs) (\<lambda>rest. Ok (st # rest)))"

definition v3_decode_subscribe_ack_packet :: "v3_Packet decoder" where
  "v3_decode_subscribe_ack_packet =
     dbind decode_NonZeroU16 (\<lambda>packet_id.
     dbind split_rest (\<lambda>codes.
     dbind (dlift (v3_return_codes codes)) (\<lambda>status.
     dreturn (V3_SubscribeAck packet_id status))))"

definition v3_unsubscribe_step :: "(bytes \<Rightarrow> bool) \<Rightarrow> bytes list \<Rightarrow> bytes list decoder" where
  "v3_unsubscribe_step u topic_filters =
     dbind (decode_ByteString u) (\<lambda>topic. dreturn (topic_filters @ [topic]))"

definition v3_decode_unsubscribe_packet :: "(bytes \<Rightarrow> bool) \<Rightarrow> v3_Packet decoder" where
  "v3_decode_unsubscribe_packet u =
     dbind decode_NonZeroU16 (\<lambda>packet_id.
     dbind (while_remaining (v3_unsubscribe_step u) []) (\<lambda>topic_filters.
     dreturn (V3_Unsubscribe packet_id topic_filters)))"

text \<open>\<open>decode_packet\<close>: the body decoder is chosen by the first byte; bytes left over are dropped.\<close>

definition v3_decode_body :: "(bytes \<Rightarrow> bool) \<Rightarrow> u8 \<Rightarrow> v3_Packet decoder" where
  "v3_decode_body u fb =
     (if fb = CONNECT then v3_decode_connect_packet u
      else if fb = CONNACK then v3_decode_connect_ack_packet
      else if PUBLISH_START \<le> fb \<and> fb \<le> PUBLISH_END then
        v3_decode_publish_packet u (fb AND 0b00001111)
      else if fb = PUBACK then v3_decode_ack V3_PublishAck
      else if fb = PUBREC then v3_decode_ack V3_PublishReceived
      else if fb = PUBREL then v3_decode_ack V3_PublishRelease
      else if fb = PUBCOMP then v3_decode_ack V3_PublishComplete
      else if fb = SUBSCRIBE then v3_decode_subscribe_packet u
      else if fb = SUBACK then v3_decode_subscribe_ack_packet
      else if fb = UNSUBSCRIBE then v3_decode_unsubscribe_packet u
      else if fb = UNSUBACK then v3_decode_ack V3_UnsubscribeAck
      else if fb = PINGREQ then dreturn V3_PingRequest
      else if fb = PINGRESP then dreturn V3_PingResponse
      else if fb = DISCONNECT then dreturn V3_Disconnect
      else dlift (Err UnsupportedPacketType))"

definition v3_decode_packet :: "(bytes \<Rightarrow> bool) \<Rightarrow> bytes \<Rightarrow> u8 \<Rightarrow> (DecodeError, v3_Packet) res" where
  "v3_decode_packet u src fb = bindR (v3_decode_body u fb src) (\<lambda>(p, _). Ok p)"

section \<open>Encoding\<close>

definition v3_get_encoded_publish_size :: "v3_Publish \<Rightarrow> nat" where
  "v3_get_encoded_publish_size p =
     (if pub3_qos p = AtLeastOnce \<or> pub3_qos p = ExactlyOnce
      then 4 + length (pub3_topic p) + length (pub3_payload p)
      else 2 + length (pub3_topic p) + length (pub3_payload p))"

definition v3_get_encoded_subscribe_size :: "(bytes \<times> QoS) list \<Rightarrow> nat" where
  "v3_get_encoded_subscribe_size tfs = 2 + foldl (\<lambda>acc (filter, _). acc + 2 + length filter + 1) 0 tfs"

definition v3_get_encoded_unsubscribe_size :: "bytes list \<Rightarrow> nat" where
  "v3_get_encoded_unsubscribe_size tfs = 2 + foldl (\<lambda>acc filter. acc + 2 + length filter) 0 tfs"

fun v3_get_encoded_size :: "v3_Packet \<Rightarrow> nat" where
  "v3_get_encoded_size (V3_Connect c) =
     2 + 4 + 1 + 1 + 2 + (2 + length (con3_client_id c))
     + (case con3_last_will c of None \<Rightarrow> 0
        | Some w \<Rightarrow> 2 + length (will3_topic w) + 2 + length (will3_message w))
     + (case con3_username c of None \<Rightarrow> 0 | Some s \<Rightarrow> 2 + length s)
     + (case con3_password c of None \<Rightarrow> 0 | Some s \<Rightarrow> 2 + length s)"
| "v3_get_encoded_size (V3_Publish p) = v3_get_encoded_publish_size p"
| "v3_get_encoded_size (V3_ConnectAck _) = 2"
| "v3_get_encoded_size (V3_PublishAck _) = 2"
| "v3_get_encoded_size (V3_PublishReceived _) = 2"
| "v3_get_encoded_size (V3_PublishRelease _) = 2"
| "v3_get_encoded_size (V3_PublishComplete _) = 2"
| "v3_get_encoded_size (V3_UnsubscribeAck _) = 2"
| "v3_get_encoded_size (V3_Subscribe _ tfs) = v3_get_encoded_subscribe_size tfs"
| "v3_get_encoded_size (V3_SubscribeAck _ status) = 2 + length status"
| "v3_get_encoded_size (V3_Unsubscribe _ tfs) = v3_get_encoded_unsubscribe_size tfs"
| "v3_get_encoded_size V3_PingRequest = 0"
| "v3_get_encoded_size V3_PingResponse = 0"
| "v3_get_encoded_size V3_Disconnect = 0"

definition v3_encode_connect :: "v3_Connect \<Rightarrow> encoder" where
  "v3_encode_connect c =
     encs [encode_Bytes MQTT,
           put_slice [MQTT_LEVEL_3,
             connect_flags (con3_username c \<noteq> None) (con3_password c \<noteq> None)
               (map_option (\<lambda>w. (will3_qos w, will3_retain w)) (con3_last_will c))
               (con3_clean_session c)],
           put_u16 (con3_keep_alive c),
           encode_Bytes (con3_client_id c),
           encode_opt (\<lambda>w. encs [encode_Bytes (will3_topic w), encode_Bytes (will3_message w)])
             (con3_last_will c),
           encode_opt encode_Bytes (con3_username c),
           encode_opt encode_Bytes (con3_password c)]"

primrec u8_from_SubscribeReturnCode :: "SubscribeReturnCode \<Rightarrow> u8" where
  "u8_from_SubscribeReturnCode (SRC_Success qos) = u8_from_QoS qos"
| "u8_from_SubscribeReturnCode SRC_Failure = 0x80"

fun v3_encode :: "v3_Packet \<Rightarrow> nat \<Rightarrow> encoder" where
  "v3_encode (V3_Connect c) n =
     encs [put_u8 CONNECT, write_variable_length n, v3_encode_connect c]"
| "v3_encode (V3_ConnectAck ack) n =
     encs [put_u8 CONNACK, write_variable_length n,
           put_slice [of_bool (cack3_session_present ack),
                      u8_from_v3_ConnectAckReason (cack3_return_code ack)]]"
| "v3_encode (V3_Publish p) n =
     encs [put_u8 (publish_first_byte (pub3_qos p) (pub3_dup p) (pub3_retain p)),
           write_variable_length n,
           encode_Bytes (pub3_topic p),
           (if pub3_qos p = AtMostOnce then
              (if pub3_packet_id p \<noteq> None then eerr EE_MalformedPacket else eok [])
            else elift (ok_or (pub3_packet_id p) EE_PacketIdRequired) encode_u16),
           put_slice (pub3_payload p)]"
| "v3_encode (V3_PublishAck i) n = encs [put_u8 PUBACK, write_variable_length n, encode_u16 i]"
| "v3_encode (V3_PublishReceived i) n = encs [put_u8 PUBREC, write_variable_length n, encode_u16 i]"
| "v3_encode (V3_PublishRelease i) n = encs [put_u8 PUBREL, write_variable_length n, encode_u16 i]"
| "v3_encode (V3_PublishComplete i) n = encs [put_u8 PUBCOMP, write_variable_length n, encode_u16 i]"
| "v3_encode (V3_Subscribe i tfs) n =
     encs ([put_u8 SUBSCRIBE, write_variable_length n, encode_u16 i]
       @ map (\<lambda>(filter, qos). encs [encode_Bytes filter, put_u8 (u8_from_QoS qos)]) tfs)"
| "v3_encode (V3_SubscribeAck i status) n =
     encs [put_u8 SUBACK, write_variable_length n, encode_u16 i,
           put_slice (map u8_from_SubscribeReturnCode status)]"
| "v3_encode (V3_Unsubscribe i tfs) n =
     encs ([put_u8 UNSUBSCRIBE, write_variable_length n, encode_u16 i] @ map encode_Bytes tfs)"
| "v3_encode (V3_UnsubscribeAck i) n = encs [put_u8 UNSUBACK, write_variable_length n, encode_u16 i]"
| "v3_encode V3_PingRequest n = put_slice [PINGREQ, 0]"
| "v3_encode V3_PingResponse n = put_slice [PINGRESP, 0]"
| "v3_encode V3_Disconnect n = put_slice [DISCONNECT, 0]"

section \<open>The decoders never panic\<close>

interpretation sub3: consuming "v3_subscribe_step u" for u
  by unfold_locales
    (auto simp: v3_subscribe_step_def bindR_eq_Ok bindR_eq_Panic get_u8_eq_Ok get_u8_nonempty
        field_no_panic Suc_le_eq split: if_splits dest!: wstr.dec_consumes)

interpretation unsub3: consuming "v3_unsubscribe_step u" for u
  by unfold_locales
    (auto simp: v3_unsubscribe_step_def bindR_eq_Ok bindR_eq_Panic field_no_panic
        dest!: wstr.dec_consumes)

lemma v3_decode_connect_not_Panic: "v3_decode_connect_packet u s \<noteq> Panic"
proof (cases "10 \<le> length s")
  case True
  then obtain a b c d e f g h i j r where "s = a # b # c # d # e # f # g # h # i # j # r"
    by (rule ten_bytes)
  then show ?thesis
    by (auto simp: v3_decode_connect_packet_def peek_def split_to_def bindR_eq_Panic
        v3_decode_last_will_def field_no_panic split: if_splits)
qed (simp add: v3_decode_connect_packet_def)

lemma v3_return_codes_not_Panic: "v3_return_codes cs \<noteq> Panic"
  by (induction cs) (auto simp: bindR_eq_Panic)

lemma v3_decode_body_not_Panic: "v3_decode_body u fb s \<noteq> Panic"
proof -
  have "v3_decode_connect_ack_packet s \<noteq> Panic"
    by (auto simp: v3_decode_connect_ack_packet_def bindR_eq_Panic bindR_eq_Ok numeral_2_eq_2 Suc_le_length_iff)
  moreover have "v3_decode_publish_packet u fl s \<noteq> Panic" for fl
    by (auto simp: v3_decode_publish_packet_def bindR_eq_Panic field_no_panic)
  moreover have "v3_decode_ack f s \<noteq> Panic" for f
    by (auto simp: v3_decode_ack_def bindR_eq_Panic field_no_panic)
  moreover have "v3_decode_subscribe_packet u s \<noteq> Panic"
    by (auto simp: v3_decode_subscribe_packet_def bindR_eq_Panic field_no_panic sub3.loop_no_panic)
  moreover have "v3_decode_unsubscribe_packet u s \<noteq> Panic"
    by (auto simp: v3_decode_unsubscribe_packet_def bindR_eq_Panic field_no_panic unsub3.loop_no_panic)
  moreover have "v3_decode_subscribe_ack_packet s \<noteq> Panic"
    by (auto simp: v3_decode_subscribe_ack_packet_def bindR_eq_Panic field_no_panic v3_return_codes_not_Panic)
  ultimately show ?thesis
    using v3_decode_connect_not_Panic by (simp add: v3_decode_body_def)
qed

lemma v3_decode_packet_not_Panic: "v3_decode_packet u src fb \<noteq> Panic"
  by (auto simp: v3_decode_packet_def bindR_eq_Panic v3_decode_body_not_Panic)

section \<open>Decoding inverts encoding\<close>

text \<open>
  Well-formed packets: strings are valid UTF-8 (the invariant of \<open>ByteString\<close>) and fit their
  two-byte length, packet identifiers are non-zero (the invariant of \<open>NonZeroU16\<close>), a PUBLISH
  has an identifier exactly when its quality of service is above 0, and a client without an
  identifier asks for a clean session.
\<close>

fun v3_wf :: "(bytes \<Rightarrow> bool) \<Rightarrow> v3_Packet \<Rightarrow> bool" where
  "v3_wf u (V3_Connect c) \<longleftrightarrow>
     str_ok u (con3_client_id c) \<and> (con3_client_id c \<noteq> [] \<or> con3_clean_session c) \<and>
     pred_option (\<lambda>w. str_ok u (will3_topic w) \<and> bin_ok (will3_message w)) (con3_last_will c) \<and>
     pred_option (str_ok u) (con3_username c) \<and> pred_option bin_ok (con3_password c)"
| "v3_wf u (V3_ConnectAck _) \<longleftrightarrow> True"
| "v3_wf u (V3_Publish p) \<longleftrightarrow>
     str_ok u (pub3_topic p) \<and> (pub3_packet_id p = None \<longleftrightarrow> pub3_qos p = AtMostOnce) \<and>
     pub3_packet_id p \<noteq> Some 0"
| "v3_wf u (V3_PublishAck i) \<longleftrightarrow> i \<noteq> 0"
| "v3_wf u (V3_PublishReceived i) \<longleftrightarrow> i \<noteq> 0"
| "v3_wf u (V3_PublishRelease i) \<longleftrightarrow> i \<noteq> 0"
| "v3_wf u (V3_PublishComplete i) \<longleftrightarrow> i \<noteq> 0"
| "v3_wf u (V3_Subscribe i tfs) \<longleftrightarrow> i \<noteq> 0 \<and> list_all (\<lambda>(f, _). str_ok u f) tfs"
| "v3_wf u (V3_SubscribeAck i _) \<longleftrightarrow> i \<noteq> 0"
| "v3_wf u (V3_Unsubscribe i tfs) \<longleftrightarrow> i \<noteq> 0 \<and> list_all (str_ok u) tfs"
| "v3_wf u (V3_UnsubscribeAck i) \<longleftrightarrow> i \<noteq> 0"
| "v3_wf u V3_PingRequest \<longleftrightarrow> True"
| "v3_wf u V3_PingResponse \<longleftrightarrow> True"
| "v3_wf u V3_Disconnect \<longleftrightarrow> True"

text \<open>The body of an encoded packet, after the fixed header.\<close>

definition v3_framed :: "v3_Packet \<Rightarrow> u8 \<Rightarrow> bytes \<Rightarrow> bool" where
  "v3_framed p fb body \<longleftrightarrow>
     (let n = v3_get_encoded_size p in
      snd (v3_encode p n) = Ok () \<and> fst (v3_encode p n) = fb # fst (write_variable_length n) @ body \<and>
      length body = n)"

lemma v3_encode_connect_ok:
  assumes "v3_wf u (V3_Connect c)"
  shows "snd (v3_encode_connect c) = Ok ()"
    and "length (fst (v3_encode_connect c)) = v3_get_encoded_size (V3_Connect c)"
  using assms
  by (auto simp: v3_encode_connect_def encode_opt_def field_enc field_size MQTT_header split: option.splits)

lemma v3_decode_connect:
  assumes "v3_wf u (V3_Connect c)"
  shows "v3_decode_connect_packet u (fst (v3_encode_connect c)) = Ok (V3_Connect c, [])"
proof -
  have name: "split_to 4 (0x4D # 0x51 # 0x54 # 0x54 # s) = Ok (MQTT, s)"
    "peek 4 (0x4D # 0x51 # 0x54 # 0x54 # s) = Ok (MQTT, 0x4D # 0x51 # 0x54 # 0x54 # s)" for s
    by (simp_all add: split_to_def peek_def MQTT_def)
  have ka: "decode_u16 (fst (put_u16 k) @ s) = Ok (k, s)" for k s
    by (simp add: decode_u16_Ok)
  show ?thesis
    using assms
    by (cases c; cases "con3_last_will c"; cases "con3_username c"; cases "con3_password c")
      (auto simp: v3_encode_connect_def v3_decode_connect_packet_def MQTT_header name ka
        connect_flags_simps field_enc field_dec v3_decode_last_will_def decode_flagged_def mqtt_consts(2))
qed


lemma v3_publish_body:
  assumes "v3_wf u (V3_Publish p)"
  shows "v3_decode_publish_packet u (publish_first_byte (pub3_qos p) (pub3_dup p) (pub3_retain p) AND 0b00001111)
      (fst (encode_Bytes (pub3_topic p)) @
       fst (encode_opt encode_u16 (pub3_packet_id p)) @ pub3_payload p) = Ok (V3_Publish p, [])"
  using assms
  by (cases p; cases "pub3_packet_id p")
    (auto simp: v3_decode_publish_packet_def publish_first_byte_read decode_flagged_def field_dec)

lemma v3_encode_publish_id:
  assumes "v3_wf u (V3_Publish p)"
  shows "(if pub3_qos p = AtMostOnce then
            (if pub3_packet_id p \<noteq> None then eerr EE_MalformedPacket else eok [])
          else elift (ok_or (pub3_packet_id p) EE_PacketIdRequired) encode_u16) =
         encode_opt encode_u16 (pub3_packet_id p)"
  using assms by (cases "pub3_packet_id p") auto

lemma v3_return_codes_inverse: "v3_return_codes (map u8_from_SubscribeReturnCode st) = Ok st"
proof (induction st)
  case (Cons x st)
  have "u8_from_QoS q \<noteq> 0x80" for q by (cases q) simp_all
  with Cons show ?case by (cases x) simp_all
qed simp

lemma v3_subscribe_loop:
  assumes "list_all (\<lambda>(f, _). str_ok u f) tfs"
  shows "while_remaining (v3_subscribe_step u) []
      (concat (map (\<lambda>(f, q). fst (encode_Bytes f) @ [u8_from_QoS q]) tfs)) = Ok (tfs, [])"
proof -
  have q: "u8_from_QoS q AND 0b11 = u8_from_QoS q" for q by (cases q) simp_all
  have "while_remaining (v3_subscribe_step u) []
      (concat (map (\<lambda>(f, q). fst (encode_Bytes f) @ [u8_from_QoS q]) tfs) @ []) =
      while_remaining (v3_subscribe_step u) (foldl (\<lambda>acc x. acc @ [x]) [] tfs) []"
    using assms
    by (intro sub3.loop_list)
      (auto simp: v3_subscribe_step_def field_dec list_all_iff q)
  then show ?thesis by simp
qed

lemma v3_unsubscribe_loop:
  assumes "list_all (str_ok u) tfs"
  shows "while_remaining (v3_unsubscribe_step u) [] (concat (map (\<lambda>f. fst (encode_Bytes f)) tfs)) = Ok (tfs, [])"
proof -
  have "while_remaining (v3_unsubscribe_step u) [] (concat (map (\<lambda>f. fst (encode_Bytes f)) tfs) @ []) =
      while_remaining (v3_unsubscribe_step u) (foldl (\<lambda>acc x. acc @ [x]) [] tfs) []"
    using assms
    by (intro unsub3.loop_list)
      (auto simp: v3_unsubscribe_step_def field_dec list_all_iff wstr.enc_nonempty)
  then show ?thesis by simp
qed

lemma v3_subscribe_sizes:
  "v3_get_encoded_subscribe_size tfs = 2 + sum_list (map (\<lambda>x. 3 + length (fst x)) tfs)"
  "v3_get_encoded_unsubscribe_size fs = 2 + sum_list (map (\<lambda>f. 2 + length f) fs)"
proof -
  have "(\<lambda>acc (filter, q). acc + 2 + length filter + 1) = (\<lambda>acc x :: bytes \<times> QoS. acc + (3 + length (fst x)))"
    by (auto simp: fun_eq_iff)
  then show "v3_get_encoded_subscribe_size tfs = 2 + sum_list (map (\<lambda>x. 3 + length (fst x)) tfs)"
    by (simp only: v3_get_encoded_subscribe_size_def foldl_add_nat add_0)
  have "(\<lambda>acc filter. acc + 2 + length filter) = (\<lambda>acc f :: bytes. acc + (2 + length f))"
    by (auto simp: fun_eq_iff)
  then show "v3_get_encoded_unsubscribe_size fs = 2 + sum_list (map (\<lambda>f. 2 + length f) fs)"
    by (simp only: v3_get_encoded_unsubscribe_size_def foldl_add_nat add_0)
qed

lemma v3_ack_body: "i \<noteq> 0 \<Longrightarrow> v3_decode_ack f (fst (encode_u16 i)) = Ok (f i, [])"
  by (simp add: v3_decode_ack_def field_dec)

lemma v3_connack_flags:
  "flags_from_bits CAF_SESSION_PRESENT (of_bool b) = Some (of_bool b)"
  "flags_contains (of_bool b) CAF_SESSION_PRESENT = b"
  by (cases b; simp add: flags_from_bits_def flags_contains_def flag_defs)+

lemmas v3_frame_simps = v3_framed_def Let_def v3_decode_packet_def v3_decode_body_def packet_type_defs

text \<open>One frame per packet: first byte, remaining length, body; and the body decodes to the packet.\<close>

definition v3_frame_ok :: "(bytes \<Rightarrow> bool) \<Rightarrow> v3_Packet \<Rightarrow> bool" where
  "v3_frame_ok u p \<longleftrightarrow> (\<exists>fb body. v3_framed p fb body \<and> v3_decode_packet u body fb = Ok p)"

lemma v3_frame_okI: "v3_framed p fb body \<Longrightarrow> v3_decode_packet u body fb = Ok p \<Longrightarrow> v3_frame_ok u p"
  by (auto simp: v3_frame_ok_def)

lemma length_filters:
  "list_all (\<lambda>(f, _). str_ok u f) tfs \<Longrightarrow>
     length (concat (map (\<lambda>(f, q). fst (encode_Bytes f) @ [u8_from_QoS q]) tfs)) =
     sum_list (map (\<lambda>x. 3 + length (fst x)) tfs)"
  by (induction tfs) (auto simp: field_enc field_size)

lemma length_topics:
  "list_all (str_ok u) tfs \<Longrightarrow>
     length (concat (map (\<lambda>f. fst (encode_Bytes f)) tfs)) = sum_list (map (\<lambda>f. 2 + length f) tfs)"
  by (induction tfs) (auto simp: field_enc field_size)

lemma v3_frame_connect:
  assumes wf: "v3_wf u p" and size: "v3_get_encoded_size p \<le> 268435455" and V3_Connect: "p = V3_Connect c"
  shows "v3_frame_ok u p"
proof -
  have "v3_framed p CONNECT (fst (v3_encode_connect c))"
    using assms v3_encode_connect_ok [of u c] by (simp add: v3_framed_def Let_def)
  moreover have "v3_decode_packet u (fst (v3_encode_connect c)) CONNECT = Ok p"
    using v3_decode_connect [of u c] wf V3_Connect by (simp add: v3_decode_packet_def v3_decode_body_def)
  ultimately show ?thesis by (rule v3_frame_okI)
qed

lemma v3_frame_publish:
  assumes wf: "v3_wf u p" and size: "v3_get_encoded_size p \<le> 268435455" and V3_Publish: "p = V3_Publish q"
  shows "v3_frame_ok u p"
proof -
  let ?body = "fst (encode_Bytes (pub3_topic q)) @ fst (encode_opt encode_u16 (pub3_packet_id q)) @ pub3_payload q"
  let ?fb = "publish_first_byte (pub3_qos q) (pub3_dup q) (pub3_retain q)"
  have wfq: "v3_wf u (V3_Publish q)" using wf V3_Publish by simp
  have id: "snd (encode_opt encode_u16 (pub3_packet_id q)) = Ok ()"
    "length (fst (encode_opt encode_u16 (pub3_packet_id q))) = (if pub3_qos q = AtMostOnce then 0 else 2)"
    using wfq by (cases "pub3_packet_id q"; simp add: wu16.enc_ok wu16.enc_length field_size)+
  have enc: "v3_encode p n = encs [put_u8 ?fb, write_variable_length n, encode_Bytes (pub3_topic q),
      encode_opt encode_u16 (pub3_packet_id q), put_slice (pub3_payload q)]" for n
    by (simp only: V3_Publish v3_encode.simps v3_encode_publish_id [OF wfq])
  have tp: "snd (encode_Bytes (pub3_topic q)) = Ok ()"
    "length (fst (encode_Bytes (pub3_topic q))) = 2 + length (pub3_topic q)"
    using wfq by (simp_all add: wstr.enc_ok [of u] wstr.enc_length [of u] field_size)
  have sz: "v3_get_encoded_size p =
      2 + length (pub3_topic q) + (if pub3_qos q = AtMostOnce then 0 else 2) + length (pub3_payload q)"
    by (cases "pub3_qos q") (simp_all add: V3_Publish v3_get_encoded_publish_size_def)
  have "v3_framed p ?fb ?body"
    unfolding v3_framed_def Let_def enc using size by (simp add: id tp) (simp add: sz)
  moreover have "v3_decode_packet u ?body ?fb = Ok p"
    using assms V3_Publish v3_publish_body [of u q] publish_first_byte_read [of "pub3_qos q" "pub3_dup q" "pub3_retain q"]
    by (auto simp: v3_decode_packet_def v3_decode_body_def packet_type_defs)
  ultimately show ?thesis by (rule v3_frame_okI)
qed

lemma v3_frame_subscribe:
  assumes wf: "v3_wf u p" and size: "v3_get_encoded_size p \<le> 268435455" and V3_Subscribe: "p = V3_Subscribe i tfs"
  shows "v3_frame_ok u p"
proof -
  let ?f = "\<lambda>(filter, qos). encs [encode_Bytes filter, put_u8 (u8_from_QoS qos)]"
  let ?body = "fst (encode_u16 i) @ concat (map (\<lambda>(f, q). fst (encode_Bytes f) @ [u8_from_QoS q]) tfs)"
  have ok: "snd (?f x) = Ok ()" "fst (?f x) = (case x of (f, q) \<Rightarrow> fst (encode_Bytes f) @ [u8_from_QoS q])"
    if "x \<in> set tfs" for x
    using that wf V3_Subscribe by (auto simp: list_all_iff field_enc)
  then have bytes: "snd (encs (map ?f tfs)) = Ok ()"
    "fst (encs (map ?f tfs)) = concat (map (\<lambda>(f, q). fst (encode_Bytes f) @ [u8_from_QoS q]) tfs)"
    by (simp_all add: snd_encs_map fst_encs_map cong: map_cong)
  have len: "length (concat (map (\<lambda>(f, q). fst (encode_Bytes f) @ [u8_from_QoS q]) tfs)) =
      sum_list (map (\<lambda>x. 3 + length (fst x)) tfs)"
    using wf V3_Subscribe by (intro length_filters [of u]) simp
  have "v3_framed p SUBSCRIBE ?body"
    using assms V3_Subscribe bytes len by (simp add: v3_framed_def Let_def field_enc v3_subscribe_sizes field_size)
  moreover have "v3_decode_packet u ?body SUBSCRIBE = Ok p"
    using wf V3_Subscribe v3_subscribe_loop [of u tfs]
    by (simp add: v3_frame_simps v3_decode_subscribe_packet_def field_dec)
  ultimately show ?thesis by (rule v3_frame_okI)
qed

lemma v3_frame_unsubscribe:
  assumes wf: "v3_wf u p" and size: "v3_get_encoded_size p \<le> 268435455" and V3_Unsubscribe: "p = V3_Unsubscribe i tfs"
  shows "v3_frame_ok u p"
proof -
  let ?body = "fst (encode_u16 i) @ concat (map (\<lambda>f. fst (encode_Bytes f)) tfs)"
  have bytes: "snd (encs (map encode_Bytes tfs)) = Ok ()"
    "fst (encs (map encode_Bytes tfs)) = concat (map (\<lambda>f. fst (encode_Bytes f)) tfs)"
    using wf V3_Unsubscribe by (auto simp: list_all_iff field_enc intro!: snd_encs_map fst_encs_map)
  have len: "length (concat (map (\<lambda>f. fst (encode_Bytes f)) tfs)) = sum_list (map (\<lambda>f. 2 + length f) tfs)"
    using wf V3_Unsubscribe by (intro length_topics [of u]) simp
  have "v3_framed p UNSUBSCRIBE ?body"
    using assms V3_Unsubscribe bytes len by (simp add: v3_framed_def Let_def field_enc v3_subscribe_sizes field_size)
  moreover have "v3_decode_packet u ?body UNSUBSCRIBE = Ok p"
    using wf V3_Unsubscribe v3_unsubscribe_loop [of u tfs]
    by (simp add: v3_frame_simps v3_decode_unsubscribe_packet_def field_dec)
  ultimately show ?thesis by (rule v3_frame_okI)
qed

lemma v3_frame_suback:
  assumes wf: "v3_wf u p" and size: "v3_get_encoded_size p \<le> 268435455" and V3_SubscribeAck: "p = V3_SubscribeAck i st"
  shows "v3_frame_ok u p"
proof -
  have "v3_framed p SUBACK (fst (encode_u16 i) @ map u8_from_SubscribeReturnCode st)"
    using assms by (simp add: v3_framed_def Let_def field_enc field_size)
  moreover have "v3_decode_packet u (fst (encode_u16 i) @ map u8_from_SubscribeReturnCode st) SUBACK = Ok p"
    using wf V3_SubscribeAck
    by (simp add: v3_frame_simps v3_decode_subscribe_ack_packet_def field_dec v3_return_codes_inverse)
  ultimately show ?thesis by (rule v3_frame_okI)
qed

lemma v3_frame_connack:
  assumes wf: "v3_wf u p" and size: "v3_get_encoded_size p \<le> 268435455" and V3_ConnectAck: "p = V3_ConnectAck a"
  shows "v3_frame_ok u p"
proof -
  let ?body = "[of_bool (cack3_session_present a), u8_from_v3_ConnectAckReason (cack3_return_code a)]"
  have "v3_framed p CONNACK ?body"
    using assms V3_ConnectAck by (simp add: v3_framed_def Let_def)
  moreover have "v3_decode_packet u ?body CONNACK = Ok p"
    using V3_ConnectAck
    by (simp add: v3_frame_simps v3_decode_connect_ack_packet_def v3_connack_flags del: of_bool_eq_iff)
  ultimately show ?thesis by (rule v3_frame_okI)
qed

lemma v3_frame:
  assumes "v3_wf u p" and "v3_get_encoded_size p \<le> 268435455"
  shows "v3_frame_ok u p"
proof (cases p)
  case V3_PingRequest
  then show ?thesis
    by (intro v3_frame_okI [of _ PINGREQ "[]"]) (simp_all add: v3_frame_simps write_variable_length_def)
next
  case V3_PingResponse
  then show ?thesis
    by (intro v3_frame_okI [of _ PINGRESP "[]"]) (simp_all add: v3_frame_simps write_variable_length_def)
next
  case V3_Disconnect
  then show ?thesis
    by (intro v3_frame_okI [of _ DISCONNECT "[]"]) (simp_all add: v3_frame_simps write_variable_length_def)
next
  case (V3_PublishAck i)
  with assms show ?thesis
    by (intro v3_frame_okI [of _ PUBACK "fst (encode_u16 i)"]) (simp_all add: v3_frame_simps field_enc field_size v3_ack_body)
next
  case (V3_PublishReceived i)
  with assms show ?thesis
    by (intro v3_frame_okI [of _ PUBREC "fst (encode_u16 i)"]) (simp_all add: v3_frame_simps field_enc field_size v3_ack_body)
next
  case (V3_PublishRelease i)
  with assms show ?thesis
    by (intro v3_frame_okI [of _ PUBREL "fst (encode_u16 i)"]) (simp_all add: v3_frame_simps field_enc field_size v3_ack_body)
next
  case (V3_PublishComplete i)
  with assms show ?thesis
    by (intro v3_frame_okI [of _ PUBCOMP "fst (encode_u16 i)"]) (simp_all add: v3_frame_simps field_enc field_size v3_ack_body)
next
  case (V3_UnsubscribeAck i)
  with assms show ?thesis
    by (intro v3_frame_okI [of _ UNSUBACK "fst (encode_u16 i)"]) (simp_all add: v3_frame_simps field_enc field_size v3_ack_body)
qed (erule v3_frame_connect [OF assms] v3_frame_publish [OF assms]
      v3_frame_subscribe [OF assms] v3_frame_unsubscribe [OF assms] v3_frame_suback [OF assms]
      v3_frame_connack [OF assms])+

end
