(* ===== verification/Framing.thy ===== *)
theory Framing
  imports Utils
begin

text \<open>
  The frame machine that both codecs (\<open>src/v3/codec/codec.rs\<close>, \<open>src/v5/codec/codec.rs\<close>) run over a
  growing buffer, as an interface: a codec state with the machine's position and the inbound size
  limit, and a decoder that behaves as the two arms of \<open>Codec::decode\<close>. That decoding may be resumed
  when more bytes arrive, does not depend on the bytes that follow, respects the size limit and never
  panics is proved once here and holds for both codecs.
\<close>

datatype DecodeState = FrameHeader | Frame FixedHeader

type_synonym ('p, 'c) decode_result = "(DecodeError, ('p \<times> nat) option) res \<times> 'c \<times> bytes"

text \<open>The arm \<open>DecodeState::Frame\<close>; \<open>finish\<close> is what the codec does with a packet it decoded.\<close>

definition frame_arm ::
    "(bytes \<Rightarrow> u8 \<Rightarrow> (DecodeError, 'p) res) \<Rightarrow> ('p \<Rightarrow> 'c \<Rightarrow> 'c) \<Rightarrow> 'c \<Rightarrow> FixedHeader \<Rightarrow> bytes \<Rightarrow> ('p, 'c) decode_result" where
  "frame_arm dec finish c fixed src =
     (if length src < remaining_length fixed then (Ok None, c, src)
      else case dec (take (remaining_length fixed) src) (first_byte fixed) of
          Ok packet \<Rightarrow> (Ok (Some (packet, remaining_length fixed)), finish packet c, drop (remaining_length fixed) src)
        | Err e \<Rightarrow> (Err e, c, drop (remaining_length fixed) src)
        | Panic \<Rightarrow> (Panic, c, drop (remaining_length fixed) src))"

text \<open>A limit of 0 is no limit.\<close>

abbreviation within_limit :: "nat \<Rightarrow> nat \<Rightarrow> bool" where
  "within_limit n lim \<equiv> lim = 0 \<or> n \<le> lim"

definition frame_in_limit :: "DecodeState \<Rightarrow> nat \<Rightarrow> bool" where
  "frame_in_limit s lim \<longleftrightarrow> (case s of FrameHeader \<Rightarrow> True | Frame f \<Rightarrow> within_limit (remaining_length f) lim)"

locale framing =
  fixes st :: "'c \<Rightarrow> DecodeState"
    and set_st :: "DecodeState \<Rightarrow> 'c \<Rightarrow> 'c"
    and limit :: "'c \<Rightarrow> nat"
    and dec :: "bytes \<Rightarrow> u8 \<Rightarrow> (DecodeError, 'p) res"
    and finish :: "'p \<Rightarrow> 'c \<Rightarrow> 'c"
    and decode :: "'c \<Rightarrow> bytes \<Rightarrow> (DecodeError, ('p \<times> nat) option) res \<times> 'c \<times> bytes"
  assumes st_set [simp]: "st (set_st s c) = s"
    and limit_set [simp]: "limit (set_st s c) = limit c"
    and st_finish [simp]: "st (finish p c) = FrameHeader"
    and limit_finish [simp]: "limit (finish p c) = limit c"
    and dec_no_panic: "dec b fb \<noteq> Panic"
    and decode_frame: "st c = Frame fixed \<Longrightarrow> decode c src = frame_arm dec finish c fixed src"
    and decode_short: "st c = FrameHeader \<Longrightarrow> length src < 2 \<Longrightarrow> decode c src = (Ok None, c, src)"
    and decode_header: "st c = FrameHeader \<Longrightarrow> bs \<noteq> [] \<Longrightarrow> decode c (fb # bs) =
      (case decode_variable_length bs of
         Err e \<Rightarrow> (Err e, c, fb # bs)
       | Panic \<Rightarrow> (Panic, c, fb # bs)
       | Ok None \<Rightarrow> (Ok None, c, fb # bs)
       | Ok (Some (n, k)) \<Rightarrow>
           if limit c = 0 \<or> n \<le> limit c then
             frame_arm dec finish (set_st (Frame \<lparr>first_byte = fb, remaining_length = n\<rparr>) c)
               \<lparr>first_byte = fb, remaining_length = n\<rparr> (drop k bs)
           else (Err MaxSizeExceeded, c, fb # bs))"
begin

lemma header_cases [consumes 1]:
  assumes "st c = FrameHeader"
  obtains (wait) "decode c src = (Ok None, c, src)" "length src < 2 \<or> decode_variable_length (tl src) = Ok None"
  | (fail) fb bs e where "src = fb # bs" "decode_variable_length bs = Err e" "decode c src = (Err e, c, src)"
  | (too_big) fb bs n k where "src = fb # bs" "decode_variable_length bs = Ok (Some (n, k))"
      "\<not> within_limit n (limit c)" "decode c src = (Err MaxSizeExceeded, c, src)"
  | (frame) fb bs n k where "src = fb # bs" "decode_variable_length bs = Ok (Some (n, k))" "within_limit n (limit c)"
      "decode c src = frame_arm dec finish (set_st (Frame \<lparr>first_byte = fb, remaining_length = n\<rparr>) c)
         \<lparr>first_byte = fb, remaining_length = n\<rparr> (drop k bs)"
proof (cases "length src < 2")
  case True
  then show thesis using wait decode_short [OF assms True] by blast
next
  case False
  then obtain fb bs where src: "src = fb # bs" and bs: "bs \<noteq> []" by (cases src) auto
  note eq = decode_header [OF assms bs, of fb]
  show thesis
  proof (cases "decode_variable_length bs")
    case (Ok v)
    show thesis
    proof (cases v)
      case None
      then show thesis using wait eq src Ok by simp
    next
      case (Some p)
      obtain n k where p: "p = (n, k)" by (cases p)
      show thesis
      proof (cases "within_limit n (limit c)")
        case True
        then show thesis using frame [OF src] True eq src Ok Some p by simp
      next
        case False
        then show thesis using too_big [OF src] False eq src Ok Some p by simp
      qed
    qed
  next
    case (Err e)
    then show thesis using fail [OF src] eq src by simp
  qed simp
qed

lemma decode_no_panic: "fst (decode c src) \<noteq> Panic"
proof (cases "st c")
  case FrameHeader
  then show ?thesis by (cases rule: header_cases [where src = src]) (auto simp: frame_arm_def dec_no_panic split: res.splits)
qed (auto simp: decode_frame frame_arm_def dec_no_panic split: res.splits)

lemma frame_arm_append:
  "fst (frame_arm dec finish c f src) \<noteq> Ok None \<Longrightarrow>
   frame_arm dec finish c f (src @ t) = (case frame_arm dec finish c f src of (r, c', s') \<Rightarrow> (r, c', s' @ t))"
  by (auto simp: frame_arm_def split: res.splits)

lemma frame_arm_wait:
  "frame_arm dec finish c f src = (Ok None, c', src') \<Longrightarrow> c' = c \<and> src' = src"
  by (auto simp: frame_arm_def split: if_splits res.splits)

lemma decode_header_append:
  assumes "st c = FrameHeader" "decode_variable_length bs = Ok (Some (n, k))" "within_limit n (limit c)"
  shows "decode c (fb # bs @ t) = frame_arm dec finish (set_st (Frame \<lparr>first_byte = fb, remaining_length = n\<rparr>) c)
    \<lparr>first_byte = fb, remaining_length = n\<rparr> (drop k bs @ t)"
proof -
  note d = decode_variable_length_Some [OF assms(2)]
  have "bs @ t \<noteq> []" using d(2,4) by auto
  then show ?thesis using assms(3) decode_header [OF assms(1), of "bs @ t" fb] d(4) d(5) [of t] by simp
qed

text \<open>A decision of the decoder does not depend on the bytes that follow.\<close>

lemma decode_append:
  assumes "fst (decode c src) \<noteq> Ok None"
  shows "decode c (src @ t) = (case decode c src of (r, c', s') \<Rightarrow> (r, c', s' @ t))"
proof (cases "st c")
  case (Frame f)
  then show ?thesis using assms by (simp add: decode_frame frame_arm_append)
next
  case FrameHeader
  then show ?thesis
  proof (cases rule: header_cases [where src = src])
    case wait
    then show ?thesis using assms by simp
  next
    case (fail fb bs e)
    then have "bs @ t \<noteq> []" using FrameHeader decode_short [of c "[fb]"] by (cases bs) auto
    then show ?thesis using fail decode_variable_length_Err(2) [OF fail(2), of t] decode_header [OF FrameHeader, of "bs @ t" fb] by simp
  next
    case (too_big fb bs n k)
    note d = decode_variable_length_Some [OF too_big(2)]
    have "bs @ t \<noteq> []" using d(2,4) by auto
    then show ?thesis using too_big d(5) [of t] decode_header [OF FrameHeader, of "bs @ t" fb] by simp
  next
    case (frame fb bs n k)
    then show ?thesis using assms decode_header_append [OF FrameHeader frame(2,3)] by (simp add: frame_arm_append)
  qed
qed

text \<open>A decoder that asked for more input continues where it stopped.\<close>

lemma decode_resume:
  assumes "decode c src = (Ok None, c', src')"
  shows "decode c' (src' @ t) = decode c (src @ t)"
proof (cases "st c")
  case (Frame f)
  then show ?thesis using assms frame_arm_wait by (fastforce simp: decode_frame)
next
  case FrameHeader
  then show ?thesis
  proof (cases rule: header_cases [where src = src])
    case (frame fb bs n k)
    then have "frame_arm dec finish (set_st (Frame \<lparr>first_byte = fb, remaining_length = n\<rparr>) c)
        \<lparr>first_byte = fb, remaining_length = n\<rparr> (drop k bs) = (Ok None, c', src')" using assms by simp
    from frame_arm_wait [OF this] show ?thesis using decode_header_append [OF FrameHeader frame(2,3)] by (simp add: frame(1) decode_frame)
  qed (use assms in auto)
qed

text \<open>The size limit holds on every path.\<close>

lemma frame_arm_limit:
  assumes "frame_arm dec finish c f src = (r, c', src')" "st c = Frame f" "within_limit (remaining_length f) (limit c)"
  shows "frame_in_limit (st c') (limit c') \<and> limit c' = limit c \<and> (\<forall>p n. r = Ok (Some (p, n)) \<longrightarrow> within_limit n (limit c))"
  using assms by (auto simp: frame_arm_def frame_in_limit_def split: if_splits res.splits)

lemma decode_limit:
  assumes "frame_in_limit (st c) (limit c)" and "decode c src = (r, c', src')"
  shows "frame_in_limit (st c') (limit c') \<and> limit c' = limit c \<and> (\<forall>p n. r = Ok (Some (p, n)) \<longrightarrow> within_limit n (limit c))"
proof (cases "st c")
  case (Frame f)
  have "within_limit (remaining_length f) (limit c)" using assms(1) Frame by (simp add: frame_in_limit_def)
  from frame_arm_limit [OF assms(2) [unfolded decode_frame [OF Frame]] Frame this] show ?thesis .
next
  case FrameHeader
  then show ?thesis
  proof (cases rule: header_cases [where src = src])
    case (frame fb bs n k)
    then show ?thesis
      using assms(2) frame_arm_limit [of "set_st (Frame \<lparr>first_byte = fb, remaining_length = n\<rparr>) c"
          "\<lparr>first_byte = fb, remaining_length = n\<rparr>" "drop k bs" r c' src'] by auto
  qed (use assms in \<open>auto simp: frame_in_limit_def\<close>)
qed

text \<open>A frame whose body decodes to a packet is read as that packet.\<close>

lemma decode_whole_frame:
  assumes "st c = FrameHeader" and "length body \<le> 268435455" and "within_limit (length body) (limit c)" and "dec body fb = Ok p"
  shows "decode c (fb # fst (write_variable_length (length body)) @ body @ r) =
    (Ok (Some (p, length body)), finish p (set_st (Frame \<lparr>first_byte = fb, remaining_length = length body\<rparr>) c), r)"
proof -
  let ?w = "fst (write_variable_length (length body))"
  have d: "decode_variable_length ?w = Ok (Some (length body, varint_len (length body)))"
    using decode_variable_length_write [OF assms(2), of "[]"] by simp
  show ?thesis
    using decode_header_append [OF assms(1) d assms(3), of fb "body @ r"] assms(4)
      length_write_variable_length [OF assms(2)] by (simp add: frame_arm_def)
qed

end

end
