(* ===== verification/V3_Codec.thy ===== *)
theory V3_Codec
  imports V3_Packet Framing
begin

text \<open>
  \<open>src/v3/codec/codec.rs\<close>: the frame codec. Its decoder is a two-state machine over a growing
  buffer; the lemmas show that it never panics, that it may be resumed when more bytes arrive,
  and that it returns the packets an encoder wrote, in order.
\<close>

section \<open>Codec state and operations\<close>

record v3_Codec =
  c3_state :: DecodeState
  c3_max_size :: nat

definition v3_Codec_new :: v3_Codec where
  "v3_Codec_new = \<lparr>c3_state = FrameHeader, c3_max_size = 0\<rparr>"

definition v3_set_max_size :: "nat \<Rightarrow> v3_Codec \<Rightarrow> v3_Codec" where
  "v3_set_max_size sz c = c\<lparr>c3_max_size := sz\<rparr>"

type_synonym v3_decode_result =
  "(DecodeError, (v3_Packet \<times> nat) option) res \<times> v3_Codec \<times> bytes"

text \<open>The arm \<open>DecodeState::Frame\<close>. On a decoding error the frame's bytes are already consumed.\<close>

definition v3_decode_frame ::
    "(bytes \<Rightarrow> bool) \<Rightarrow> v3_Codec \<Rightarrow> FixedHeader \<Rightarrow> bytes \<Rightarrow> v3_decode_result" where
  "v3_decode_frame u c fixed src =
     (if length src < remaining_length fixed then (Ok None, c, src)
      else
        let packet_buf = take (remaining_length fixed) src;
            src' = drop (remaining_length fixed) src in
        case v3_decode_packet u packet_buf (first_byte fixed) of
          Ok packet \<Rightarrow> (Ok (Some (packet, remaining_length fixed)), c\<lparr>c3_state := FrameHeader\<rparr>, src')
        | Err e \<Rightarrow> (Err e, c, src')
        | Panic \<Rightarrow> (Panic, c, src'))"

text \<open>
  \<open>Codec::decode\<close>. The loop of the source runs at most twice: the header arm either returns or
  enters the frame arm, and the frame arm returns.
\<close>

definition v3_codec_decode :: "(bytes \<Rightarrow> bool) \<Rightarrow> v3_Codec \<Rightarrow> bytes \<Rightarrow> v3_decode_result" where
  "v3_codec_decode u c src =
     (case c3_state c of
        FrameHeader \<Rightarrow>
          if length src < 2 then (Ok None, c, src)
          else (case decode_variable_length (tl src) of
              Err e \<Rightarrow> (Err e, c, src)
            | Panic \<Rightarrow> (Panic, c, src)
            | Ok None \<Rightarrow> (Ok None, c, src)
            | Ok (Some (rem_len, consumed)) \<Rightarrow>
                if c3_max_size c \<noteq> 0 \<and> c3_max_size c < rem_len then (Err MaxSizeExceeded, c, src)
                else
                  let src' = drop (consumed + 1) src;
                      fixed = \<lparr>first_byte = hd src, remaining_length = rem_len\<rparr>;
                      c' = c\<lparr>c3_state := Frame fixed\<rparr> in
                  if length src' < rem_len then (Ok None, c', src')
                  else v3_decode_frame u c' fixed src')
      | Frame fixed \<Rightarrow> v3_decode_frame u c fixed src)"

text \<open>\<open>Codec::encode\<close>: what it appends to the write buffer.\<close>

definition v3_codec_encode :: "v3_Packet \<Rightarrow> encoder" where
  "v3_codec_encode item =
     (if (case item of
            V3_Publish p \<Rightarrow> (pub3_qos p = AtLeastOnce \<or> pub3_qos p = ExactlyOnce) \<and> pub3_packet_id p = None
          | _ \<Rightarrow> False)
      then eerr EE_PacketIdRequired
      else v3_encode item (v3_get_encoded_size item mod 2 ^ 32))"

section \<open>The codec is a frame machine\<close>

interpretation codec3: framing c3_state "\<lambda>s c. c\<lparr>c3_state := s\<rparr>" c3_max_size "v3_decode_packet u"
  "\<lambda>_ c. c\<lparr>c3_state := FrameHeader\<rparr>" "v3_codec_decode u" for u
proof
  have arm: "v3_decode_frame u c fixed src = frame_arm (v3_decode_packet u) (\<lambda>_ c. c\<lparr>c3_state := FrameHeader\<rparr>) c fixed src"
    for c fixed src by (simp add: v3_decode_frame_def frame_arm_def Let_def)
  show "c3_state c = Frame fixed \<Longrightarrow> v3_codec_decode u c src =
      frame_arm (v3_decode_packet u) (\<lambda>_ c. c\<lparr>c3_state := FrameHeader\<rparr>) c fixed src" for c fixed src
    by (simp add: v3_codec_decode_def arm)
  show "c3_state c = FrameHeader \<Longrightarrow> bs \<noteq> [] \<Longrightarrow> v3_codec_decode u c (fb # bs) =
      (case decode_variable_length bs of
         Err e \<Rightarrow> (Err e, c, fb # bs)
       | Panic \<Rightarrow> (Panic, c, fb # bs)
       | Ok None \<Rightarrow> (Ok None, c, fb # bs)
       | Ok (Some (n, k)) \<Rightarrow>
           if within_limit n (c3_max_size c) then
             frame_arm (v3_decode_packet u) (\<lambda>_ c. c\<lparr>c3_state := FrameHeader\<rparr>)
               (c\<lparr>c3_state := Frame \<lparr>first_byte = fb, remaining_length = n\<rparr>\<rparr>)
               \<lparr>first_byte = fb, remaining_length = n\<rparr> (drop k bs)
           else (Err MaxSizeExceeded, c, fb # bs))" for c bs fb
    by (auto simp: v3_codec_decode_def arm frame_arm_def Let_def Suc_le_eq not_less split: res.splits option.splits)
qed (simp_all add: v3_decode_packet_not_Panic v3_codec_decode_def)

section \<open>Encoded packets decode to themselves\<close>

lemma v3_codec_encode_frame:
  assumes "v3_wf u p" and "v3_get_encoded_size p \<le> 268435455"
  shows "v3_codec_encode p = v3_encode p (v3_get_encoded_size p)"
  using assms by (cases p) (auto simp: v3_codec_encode_def)

lemma v3_decode_encode:
  assumes "v3_wf u p" and "v3_get_encoded_size p \<le> 268435455" and "c3_state c = FrameHeader"
    and "c3_max_size c = 0 \<or> v3_get_encoded_size p \<le> c3_max_size c"
  shows "snd (v3_codec_encode p) = Ok ()"
    and "v3_codec_decode u c (fst (v3_codec_encode p) @ r) = (Ok (Some (p, v3_get_encoded_size p)), c, r)"
proof -
  let ?n = "v3_get_encoded_size p"
  from v3_frame [OF assms(1,2)] obtain fb body
    where enc: "snd (v3_encode p ?n) = Ok ()" "fst (v3_encode p ?n) = fb # fst (write_variable_length ?n) @ body"
      and len: "length body = ?n" and dec: "v3_decode_packet u body fb = Ok p"
    by (auto simp: v3_frame_ok_def v3_framed_def Let_def)
  show "snd (v3_codec_encode p) = Ok ()"
    using enc v3_codec_encode_frame [OF assms(1,2)] by simp
  show "v3_codec_decode u c (fst (v3_codec_encode p) @ r) = (Ok (Some (p, ?n)), c, r)"
    using codec3.decode_whole_frame [OF assms(3), of body u fb p r] assms enc len dec
    by (simp add: v3_codec_encode_frame [OF assms(1,2)])
qed

definition v3_codec_inv :: "v3_Codec \<Rightarrow> bool" where
  "v3_codec_inv c \<longleftrightarrow> frame_in_limit (c3_state c) (c3_max_size c)"

section \<open>Properties\<close>

definition v3_sample :: v3_Packet where
  "v3_sample = V3_Publish \<lparr>pub3_dup = False, pub3_retain = True, pub3_qos = AtLeastOnce,
     pub3_topic = [0x61, 0x2F, 0x62], pub3_packet_id = Some 7, pub3_payload = [1, 2, 3]\<rparr>"

text \<open>The inbound size limit holds on every path: a codec that respects its limit still does
  after any call, and it never delivers a packet whose remaining length exceeds the limit.\<close>

theorem v3_codec_size_limit:
  "v3_codec_inv c \<Longrightarrow> v3_codec_decode u c src = (res, c', src') \<Longrightarrow>
   v3_codec_inv c' \<and> (\<forall>p n. res = Ok (Some (p, n)) \<longrightarrow> c3_max_size c = 0 \<or> n \<le> c3_max_size c)"
  using codec3.decode_limit [of c u src res c' src'] by (auto simp: v3_codec_inv_def)

theorem v3_codec_size_limit_witness:
  "v3_codec_inv (v3_set_max_size 5 v3_Codec_new) \<and>
   fst (v3_codec_decode (\<lambda>_. True) (v3_set_max_size 5 v3_Codec_new) [0, 9]) = Err MaxSizeExceeded \<and>
   v3_codec_inv (fst (snd (v3_codec_decode (\<lambda>_. True) (v3_set_max_size 5 v3_Codec_new) [0, 9])))"
proof -
  let ?c = "v3_set_max_size 5 v3_Codec_new"
  have inv: "v3_codec_inv ?c"
    by (simp add: v3_codec_inv_def frame_in_limit_def v3_set_max_size_def v3_Codec_new_def)
  have dec: "v3_codec_decode (\<lambda>_. True) ?c [0, 9] = (Err MaxSizeExceeded, ?c, [0, 9])"
    by (simp add: v3_codec_decode_def v3_set_max_size_def v3_Codec_new_def decode_variable_length_def
        decode_variable_length_cursor_def Let_def)
  show ?thesis using v3_codec_size_limit [OF inv dec] inv dec by simp
qed

text \<open>A failing encoder does not roll back: a QoS 0 PUBLISH whose topic is longer than 65535
  bytes is refused with \<open>InvalidLength\<close>, but its fixed header stays in the write buffer.\<close>

theorem v3_encode_error_leaves_header:
  assumes "pub3_qos p = AtMostOnce" and "65536 \<le> length (pub3_topic p)"
    and "v3_get_encoded_size (V3_Publish p) \<le> 268435455"
  shows "v3_codec_encode (V3_Publish p) =
    (publish_first_byte AtMostOnce (pub3_dup p) (pub3_retain p)
       # fst (write_variable_length (v3_get_encoded_size (V3_Publish p))), Err EE_InvalidLength)"
proof -
  have t: "encode_Bytes (pub3_topic p) = eerr EE_InvalidLength"
    using assms(2) by (simp add: encode_Bytes_def)
  have "eseq (put_u8 b) (eseq (write_variable_length n) (eseq (eerr EE_InvalidLength) w)) =
      (b # fst (write_variable_length n), Err EE_InvalidLength)" if "n \<le> 268435455" for b n w
    using that by (intro prod_eqI) (simp_all add: eseq_fail)
  with assms t show ?thesis by (simp add: v3_codec_encode_def)
qed

theorem v3_encode_error_leaves_header_witness:
  "fst (v3_codec_encode (V3_Publish \<lparr>pub3_dup = False, pub3_retain = False, pub3_qos = AtMostOnce,
     pub3_topic = replicate 65536 0x61, pub3_packet_id = None, pub3_payload = []\<rparr>)) = [0x30, 0x82, 0x80, 4]"
  by (subst v3_encode_error_leaves_header)
    (simp_all add: v3_get_encoded_publish_size_def write_variable_length_def publish_first_byte_def
      PUBLISH_START_def)

end
