(* ===== verification/V5_Enums.thy ===== *)
theory V5_Enums
  imports Types
begin

text \<open>
  The reason codes of MQTT 5 (\<open>src/v5/codec/packet/*.rs\<close>), each a \<open>prim_enum!\<close>: a type, its
  discriminants, and the proof that they satisfy the contract of the macro's conversions.
\<close>

datatype AuthReasonCode =
    AR_Success | AR_ContinueAuth | AR_ReAuth

primrec u8_from_AuthReasonCode :: "AuthReasonCode \<Rightarrow> u8" where
  "u8_from_AuthReasonCode AR_Success = 0"
| "u8_from_AuthReasonCode AR_ContinueAuth = 24"
| "u8_from_AuthReasonCode AR_ReAuth = 25"

definition AuthReasonCode_variants :: "AuthReasonCode list" where
  "AuthReasonCode_variants = [
     AR_Success, AR_ContinueAuth, AR_ReAuth]"

abbreviation AuthReasonCode_try_from :: "u8 \<Rightarrow> (DecodeError, AuthReasonCode) res" where
  "AuthReasonCode_try_from \<equiv> enum_try_from AuthReasonCode_variants u8_from_AuthReasonCode"

interpretation areason: prim_enum AuthReasonCode_variants u8_from_AuthReasonCode
proof
  show "x \<in> set AuthReasonCode_variants" for x by (cases x) (simp_all add: AuthReasonCode_variants_def)
  show "distinct (map u8_from_AuthReasonCode AuthReasonCode_variants)" by (simp add: AuthReasonCode_variants_def)
qed

datatype ConnectAckReason =
    CA_Success | CA_UnspecifiedError | CA_MalformedPacket | CA_ProtocolError
  | CA_ImplementationSpecificError | CA_UnsupportedProtocolVersion
  | CA_ClientIdentifierNotValid | CA_BadUserNameOrPassword | CA_NotAuthorized
  | CA_ServerUnavailable | CA_ServerBusy | CA_Banned | CA_BadAuthenticationMethod
  | CA_TopicNameInvalid | CA_PacketTooLarge | CA_QuotaExceeded | CA_PayloadFormatInvalid
  | CA_RetainNotSupported | CA_QosNotSupported | CA_UseAnotherServer | CA_ServerMoved
  | CA_ConnectionRateExceeded

primrec u8_from_ConnectAckReason :: "ConnectAckReason \<Rightarrow> u8" where
  "u8_from_ConnectAckReason CA_Success = 0"
| "u8_from_ConnectAckReason CA_UnspecifiedError = 128"
| "u8_from_ConnectAckReason CA_MalformedPacket = 129"
| "u8_from_ConnectAckReason CA_ProtocolError = 130"
| "u8_from_ConnectAckReason CA_ImplementationSpecificError = 131"
| "u8_from_ConnectAckReason CA_UnsupportedProtocolVersion = 132"
| "u8_from_ConnectAckReason CA_ClientIdentifierNotValid = 133"
| "u8_from_ConnectAckReason CA_BadUserNameOrPassword = 134"
| "u8_from_ConnectAckReason CA_NotAuthorized = 135"
| "u8_from_ConnectAckReason CA_ServerUnavailable = 136"
| "u8_from_ConnectAckReason CA_ServerBusy = 137"
| "u8_from_ConnectAckReason CA_Banned = 138"
| "u8_from_ConnectAckReason CA_BadAuthenticationMethod = 140"
| "u8_from_ConnectAckReason CA_TopicNameInvalid = 144"
| "u8_from_ConnectAckReason CA_PacketTooLarge = 149"
| "u8_from_ConnectAckReason CA_QuotaExceeded = 151"
| "u8_from_ConnectAckReason CA_PayloadFormatInvalid = 153"
| "u8_from_ConnectAckReason CA_RetainNotSupported = 154"
| "u8_from_ConnectAckReason CA_QosNotSupported = 155"
| "u8_from_ConnectAckReason CA_UseAnotherServer = 156"
| "u8_from_ConnectAckReason CA_ServerMoved = 157"
| "u8_from_ConnectAckReason CA_ConnectionRateExceeded = 159"

definition ConnectAckReason_variants :: "ConnectAckReason list" where
  "ConnectAckReason_variants = [
     CA_Success, CA_UnspecifiedError, CA_MalformedPacket, CA_ProtocolError,
     CA_ImplementationSpecificError, CA_UnsupportedProtocolVersion, CA_ClientIdentifierNotValid,
     CA_BadUserNameOrPassword, CA_NotAuthorized, CA_ServerUnavailable, CA_ServerBusy, CA_Banned,
     CA_BadAuthenticationMethod, CA_TopicNameInvalid, CA_PacketTooLarge, CA_QuotaExceeded,
     CA_PayloadFormatInvalid, CA_RetainNotSupported, CA_QosNotSupported, CA_UseAnotherServer,
     CA_ServerMoved, CA_ConnectionRateExceeded]"

abbreviation ConnectAckReason_try_from :: "u8 \<Rightarrow> (DecodeError, ConnectAckReason) res" where
  "ConnectAckReason_try_from \<equiv> enum_try_from ConnectAckReason_variants u8_from_ConnectAckReason"

interpretation careason: prim_enum ConnectAckReason_variants u8_from_ConnectAckReason
proof
  show "x \<in> set ConnectAckReason_variants" for x by (cases x) (simp_all add: ConnectAckReason_variants_def)
  show "distinct (map u8_from_ConnectAckReason ConnectAckReason_variants)" by (simp add: ConnectAckReason_variants_def)
qed

datatype PublishAckReason =
    PA_Success | PA_NoMatchingSubscribers | PA_UnspecifiedError
  | PA_ImplementationSpecificError | PA_NotAuthorized | PA_TopicNameInvalid
  | PA_PacketIdentifierInUse | PA_QuotaExceeded | PA_PayloadFormatInvalid

primrec u8_from_PublishAckReason :: "PublishAckReason \<Rightarrow> u8" where
  "u8_from_PublishAckReason PA_Success = 0"
| "u8_from_PublishAckReason PA_NoMatchingSubscribers = 16"
| "u8_from_PublishAckReason PA_UnspecifiedError = 128"
| "u8_from_PublishAckReason PA_ImplementationSpecificError = 131"
| "u8_from_PublishAckReason PA_NotAuthorized = 135"
| "u8_from_PublishAckReason PA_TopicNameInvalid = 144"
| "u8_from_PublishAckReason PA_PacketIdentifierInUse = 145"
| "u8_from_PublishAckReason PA_QuotaExceeded = 151"
| "u8_from_PublishAckReason PA_PayloadFormatInvalid = 153"

definition PublishAckReason_variants :: "PublishAckReason list" where
  "PublishAckReason_variants = [
     PA_Success, PA_NoMatchingSubscribers, PA_UnspecifiedError, PA_ImplementationSpecificError,
     PA_NotAuthorized, PA_TopicNameInvalid, PA_PacketIdentifierInUse, PA_QuotaExceeded,
     PA_PayloadFormatInvalid]"

abbreviation PublishAckReason_try_from :: "u8 \<Rightarrow> (DecodeError, PublishAckReason) res" where
  "PublishAckReason_try_from \<equiv> enum_try_from PublishAckReason_variants u8_from_PublishAckReason"

interpretation pareason: prim_enum PublishAckReason_variants u8_from_PublishAckReason
proof
  show "x \<in> set PublishAckReason_variants" for x by (cases x) (simp_all add: PublishAckReason_variants_def)
  show "distinct (map u8_from_PublishAckReason PublishAckReason_variants)" by (simp add: PublishAckReason_variants_def)
qed

datatype PublishAck2Reason =
    PA2_Success | PA2_PacketIdNotFound

primrec u8_from_PublishAck2Reason :: "PublishAck2Reason \<Rightarrow> u8" where
  "u8_from_PublishAck2Reason PA2_Success = 0"
| "u8_from_PublishAck2Reason PA2_PacketIdNotFound = 146"

definition PublishAck2Reason_variants :: "PublishAck2Reason list" where
  "PublishAck2Reason_variants = [
     PA2_Success, PA2_PacketIdNotFound]"

abbreviation PublishAck2Reason_try_from :: "u8 \<Rightarrow> (DecodeError, PublishAck2Reason) res" where
  "PublishAck2Reason_try_from \<equiv> enum_try_from PublishAck2Reason_variants u8_from_PublishAck2Reason"

interpretation pa2reason: prim_enum PublishAck2Reason_variants u8_from_PublishAck2Reason
proof
  show "x \<in> set PublishAck2Reason_variants" for x by (cases x) (simp_all add: PublishAck2Reason_variants_def)
  show "distinct (map u8_from_PublishAck2Reason PublishAck2Reason_variants)" by (simp add: PublishAck2Reason_variants_def)
qed

datatype RetainHandling =
    RH_AtSubscribe | RH_AtSubscribeNew | RH_NoAtSubscribe

primrec u8_from_RetainHandling :: "RetainHandling \<Rightarrow> u8" where
  "u8_from_RetainHandling RH_AtSubscribe = 0"
| "u8_from_RetainHandling RH_AtSubscribeNew = 1"
| "u8_from_RetainHandling RH_NoAtSubscribe = 2"

definition RetainHandling_variants :: "RetainHandling list" where
  "RetainHandling_variants = [
     RH_AtSubscribe, RH_AtSubscribeNew, RH_NoAtSubscribe]"

abbreviation RetainHandling_try_from :: "u8 \<Rightarrow> (DecodeError, RetainHandling) res" where
  "RetainHandling_try_from \<equiv> enum_try_from RetainHandling_variants u8_from_RetainHandling"

interpretation rhandling: prim_enum RetainHandling_variants u8_from_RetainHandling
proof
  show "x \<in> set RetainHandling_variants" for x by (cases x) (simp_all add: RetainHandling_variants_def)
  show "distinct (map u8_from_RetainHandling RetainHandling_variants)" by (simp add: RetainHandling_variants_def)
qed

datatype SubscribeAckReason =
    SA_GrantedQos0 | SA_GrantedQos1 | SA_GrantedQos2 | SA_UnspecifiedError
  | SA_ImplementationSpecificError | SA_NotAuthorized | SA_TopicFilterInvalid
  | SA_PacketIdentifierInUse | SA_QuotaExceeded | SA_SharedSubscriptionNotSupported
  | SA_SubscriptionIdentifiersNotSupported | SA_WildcardSubscriptionsNotSupported

primrec u8_from_SubscribeAckReason :: "SubscribeAckReason \<Rightarrow> u8" where
  "u8_from_SubscribeAckReason SA_GrantedQos0 = 0"
| "u8_from_SubscribeAckReason SA_GrantedQos1 = 1"
| "u8_from_SubscribeAckReason SA_GrantedQos2 = 2"
| "u8_from_SubscribeAckReason SA_UnspecifiedError = 128"
| "u8_from_SubscribeAckReason SA_ImplementationSpecificError = 131"
| "u8_from_SubscribeAckReason SA_NotAuthorized = 135"
| "u8_from_SubscribeAckReason SA_TopicFilterInvalid = 143"
| "u8_from_SubscribeAckReason SA_PacketIdentifierInUse = 145"
| "u8_from_SubscribeAckReason SA_QuotaExceeded = 151"
| "u8_from_SubscribeAckReason SA_SharedSubscriptionNotSupported = 158"
| "u8_from_SubscribeAckReason SA_SubscriptionIdentifiersNotSupported = 161"
| "u8_from_SubscribeAckReason SA_WildcardSubscriptionsNotSupported = 162"

definition SubscribeAckReason_variants :: "SubscribeAckReason list" where
  "SubscribeAckReason_variants = [
     SA_GrantedQos0, SA_GrantedQos1, SA_GrantedQos2, SA_UnspecifiedError,
     SA_ImplementationSpecificError, SA_NotAuthorized, SA_TopicFilterInvalid,
     SA_PacketIdentifierInUse, SA_QuotaExceeded, SA_SharedSubscriptionNotSupported,
     SA_SubscriptionIdentifiersNotSupported, SA_WildcardSubscriptionsNotSupported]"

abbreviation SubscribeAckReason_try_from :: "u8 \<Rightarrow> (DecodeError, SubscribeAckReason) res" where
  "SubscribeAckReason_try_from \<equiv> enum_try_from SubscribeAckReason_variants u8_from_SubscribeAckReason"

interpretation sareason: prim_enum SubscribeAckReason_variants u8_from_SubscribeAckReason
proof
  show "x \<in> set SubscribeAckReason_variants" for x by (cases x) (simp_all add: SubscribeAckReason_variants_def)
  show "distinct (map u8_from_SubscribeAckReason SubscribeAckReason_variants)" by (simp add: SubscribeAckReason_variants_def)
qed

datatype UnsubscribeAckReason =
    UA_Success | UA_NoSubscriptionExisted | UA_UnspecifiedError
  | UA_ImplementationSpecificError | UA_NotAuthorized | UA_TopicFilterInvalid
  | UA_PacketIdentifierInUse

primrec u8_from_UnsubscribeAckReason :: "UnsubscribeAckReason \<Rightarrow> u8" where
  "u8_from_UnsubscribeAckReason UA_Success = 0"
| "u8_from_UnsubscribeAckReason UA_NoSubscriptionExisted = 17"
| "u8_from_UnsubscribeAckReason UA_UnspecifiedError = 128"
| "u8_from_UnsubscribeAckReason UA_ImplementationSpecificError = 131"
| "u8_from_UnsubscribeAckReason UA_NotAuthorized = 135"
| "u8_from_UnsubscribeAckReason UA_TopicFilterInvalid = 143"
| "u8_from_UnsubscribeAckReason UA_PacketIdentifierInUse = 145"

definition UnsubscribeAckReason_variants :: "UnsubscribeAckReason list" where
  "UnsubscribeAckReason_variants = [
     UA_Success, UA_NoSubscriptionExisted, UA_UnspecifiedError, UA_ImplementationSpecificError,
     UA_NotAuthorized, UA_TopicFilterInvalid, UA_PacketIdentifierInUse]"

abbreviation UnsubscribeAckReason_try_from :: "u8 \<Rightarrow> (DecodeError, UnsubscribeAckReason) res" where
  "UnsubscribeAckReason_try_from \<equiv> enum_try_from UnsubscribeAckReason_variants u8_from_UnsubscribeAckReason"

interpretation uareason: prim_enum UnsubscribeAckReason_variants u8_from_UnsubscribeAckReason
proof
  show "x \<in> set UnsubscribeAckReason_variants" for x by (cases x) (simp_all add: UnsubscribeAckReason_variants_def)
  show "distinct (map u8_from_UnsubscribeAckReason UnsubscribeAckReason_variants)" by (simp add: UnsubscribeAckReason_variants_def)
qed

primrec u8_from_DisconnectReasonCode :: "DisconnectReasonCode \<Rightarrow> u8" where
  "u8_from_DisconnectReasonCode DR_NormalDisconnection = 0"
| "u8_from_DisconnectReasonCode DR_DisconnectWithWillMessage = 4"
| "u8_from_DisconnectReasonCode DR_UnspecifiedError = 128"
| "u8_from_DisconnectReasonCode DR_MalformedPacket = 129"
| "u8_from_DisconnectReasonCode DR_ProtocolError = 130"
| "u8_from_DisconnectReasonCode DR_ImplementationSpecificError = 131"
| "u8_from_DisconnectReasonCode DR_NotAuthorized = 135"
| "u8_from_DisconnectReasonCode DR_ServerBusy = 137"
| "u8_from_DisconnectReasonCode DR_ServerShuttingDown = 139"
| "u8_from_DisconnectReasonCode DR_BadAuthenticationMethod = 140"
| "u8_from_DisconnectReasonCode DR_KeepAliveTimeout = 141"
| "u8_from_DisconnectReasonCode DR_SessionTakenOver = 142"
| "u8_from_DisconnectReasonCode DR_TopicFilterInvalid = 143"
| "u8_from_DisconnectReasonCode DR_TopicNameInvalid = 144"
| "u8_from_DisconnectReasonCode DR_ReceiveMaximumExceeded = 147"
| "u8_from_DisconnectReasonCode DR_TopicAliasInvalid = 148"
| "u8_from_DisconnectReasonCode DR_PacketTooLarge = 149"
| "u8_from_DisconnectReasonCode DR_MessageRateTooHigh = 150"
| "u8_from_DisconnectReasonCode DR_QuotaExceeded = 151"
| "u8_from_DisconnectReasonCode DR_AdministrativeAction = 152"
| "u8_from_DisconnectReasonCode DR_PayloadFormatInvalid = 153"
| "u8_from_DisconnectReasonCode DR_RetainNotSupported = 154"
| "u8_from_DisconnectReasonCode DR_QosNotSupported = 155"
| "u8_from_DisconnectReasonCode DR_UseAnotherServer = 156"
| "u8_from_DisconnectReasonCode DR_ServerMoved = 157"
| "u8_from_DisconnectReasonCode DR_SharedSubscriptionNotSupported = 158"
| "u8_from_DisconnectReasonCode DR_ConnectionRateExceeded = 159"
| "u8_from_DisconnectReasonCode DR_MaximumConnectTime = 160"
| "u8_from_DisconnectReasonCode DR_SubscriptionIdentifiersNotSupported = 161"
| "u8_from_DisconnectReasonCode DR_WildcardSubscriptionsNotSupported = 162"

definition DisconnectReasonCode_variants :: "DisconnectReasonCode list" where
  "DisconnectReasonCode_variants = [
     DR_NormalDisconnection, DR_DisconnectWithWillMessage, DR_UnspecifiedError,
     DR_MalformedPacket, DR_ProtocolError, DR_ImplementationSpecificError, DR_NotAuthorized,
     DR_ServerBusy, DR_ServerShuttingDown, DR_BadAuthenticationMethod, DR_KeepAliveTimeout,
     DR_SessionTakenOver, DR_TopicFilterInvalid, DR_TopicNameInvalid, DR_ReceiveMaximumExceeded,
     DR_TopicAliasInvalid, DR_PacketTooLarge, DR_MessageRateTooHigh, DR_QuotaExceeded,
     DR_AdministrativeAction, DR_PayloadFormatInvalid, DR_RetainNotSupported,
     DR_QosNotSupported, DR_UseAnotherServer, DR_ServerMoved, DR_SharedSubscriptionNotSupported,
     DR_ConnectionRateExceeded, DR_MaximumConnectTime, DR_SubscriptionIdentifiersNotSupported,
     DR_WildcardSubscriptionsNotSupported]"

abbreviation DisconnectReasonCode_try_from :: "u8 \<Rightarrow> (DecodeError, DisconnectReasonCode) res" where
  "DisconnectReasonCode_try_from \<equiv> enum_try_from DisconnectReasonCode_variants u8_from_DisconnectReasonCode"

interpretation dreason: prim_enum DisconnectReasonCode_variants u8_from_DisconnectReasonCode
proof
  show "x \<in> set DisconnectReasonCode_variants" for x by (cases x) (simp_all add: DisconnectReasonCode_variants_def)
  show "distinct (map u8_from_DisconnectReasonCode DisconnectReasonCode_variants)" by (simp add: DisconnectReasonCode_variants_def)
qed

end
