(* ===== verification/V5_Props.thy ===== *)
theory V5_Props
  imports Utils
begin

text \<open>
  \<open>src/v5/codec/encode.rs\<close> and the module \<open>ack_props\<close> of \<open>src/v5/codec/packet/mod.rs\<close>: properties,
  their sizes, the size of a variable-length integer, and the diagnostic properties (user properties
  and reason string) that the encoder drops when they do not fit the peer's maximum packet size.

  Sizes are \<open>usize\<close> or \<open>u32\<close> values. They are natural numbers here; a subtraction that the code does
  not guard is \<open>checked_sub\<close>, which panics below zero, as an arithmetic overflow does.
\<close>

section \<open>Property identifiers\<close>

definition pt_UTF8_PAYLOAD :: u8 where "pt_UTF8_PAYLOAD = 0x01"
definition pt_MSG_EXPIRY_INT :: u8 where "pt_MSG_EXPIRY_INT = 0x02"
definition pt_CONTENT_TYPE :: u8 where "pt_CONTENT_TYPE = 0x03"
definition pt_RESP_TOPIC :: u8 where "pt_RESP_TOPIC = 0x08"
definition pt_CORR_DATA :: u8 where "pt_CORR_DATA = 0x09"
definition pt_SUB_ID :: u8 where "pt_SUB_ID = 0x0B"
definition pt_SESS_EXPIRY_INT :: u8 where "pt_SESS_EXPIRY_INT = 0x11"
definition pt_ASSND_CLIENT_ID :: u8 where "pt_ASSND_CLIENT_ID = 0x12"
definition pt_SERVER_KA :: u8 where "pt_SERVER_KA = 0x13"
definition pt_AUTH_METHOD :: u8 where "pt_AUTH_METHOD = 0x15"
definition pt_AUTH_DATA :: u8 where "pt_AUTH_DATA = 0x16"
definition pt_REQ_PROB_INFO :: u8 where "pt_REQ_PROB_INFO = 0x17"
definition pt_WILL_DELAY_INT :: u8 where "pt_WILL_DELAY_INT = 0x18"
definition pt_REQ_RESP_INFO :: u8 where "pt_REQ_RESP_INFO = 0x19"
definition pt_RESP_INFO :: u8 where "pt_RESP_INFO = 0x1A"
definition pt_SERVER_REF :: u8 where "pt_SERVER_REF = 0x1C"
definition pt_REASON_STRING :: u8 where "pt_REASON_STRING = 0x1F"
definition pt_RECEIVE_MAX :: u8 where "pt_RECEIVE_MAX = 0x21"
definition pt_TOPIC_ALIAS_MAX :: u8 where "pt_TOPIC_ALIAS_MAX = 0x22"
definition pt_TOPIC_ALIAS :: u8 where "pt_TOPIC_ALIAS = 0x23"
definition pt_MAX_QOS :: u8 where "pt_MAX_QOS = 0x24"
definition pt_RETAIN_AVAIL :: u8 where "pt_RETAIN_AVAIL = 0x25"
definition pt_USER :: u8 where "pt_USER = 0x26"
definition pt_MAX_PACKET_SIZE :: u8 where "pt_MAX_PACKET_SIZE = 0x27"
definition pt_WILDCARD_SUB_AVAIL :: u8 where "pt_WILDCARD_SUB_AVAIL = 0x28"
definition pt_SUB_IDS_AVAIL :: u8 where "pt_SUB_IDS_AVAIL = 0x29"
definition pt_SHARED_SUB_AVAIL :: u8 where "pt_SHARED_SUB_AVAIL = 0x2A"

lemmas pt_defs = pt_UTF8_PAYLOAD_def pt_MSG_EXPIRY_INT_def pt_CONTENT_TYPE_def pt_RESP_TOPIC_def
  pt_CORR_DATA_def pt_SUB_ID_def pt_SESS_EXPIRY_INT_def pt_ASSND_CLIENT_ID_def pt_SERVER_KA_def
  pt_AUTH_METHOD_def pt_AUTH_DATA_def pt_REQ_PROB_INFO_def pt_WILL_DELAY_INT_def pt_REQ_RESP_INFO_def
  pt_RESP_INFO_def pt_SERVER_REF_def pt_REASON_STRING_def pt_RECEIVE_MAX_def pt_TOPIC_ALIAS_MAX_def
  pt_TOPIC_ALIAS_def pt_MAX_QOS_def pt_RETAIN_AVAIL_def pt_USER_def pt_MAX_PACKET_SIZE_def
  pt_WILDCARD_SUB_AVAIL_def pt_SUB_IDS_AVAIL_def pt_SHARED_SUB_AVAIL_def

section \<open>Size of a variable-length integer\<close>

text \<open>\<open>leading_zeros\<close> of a \<open>w\<close>-bit value, by the number of bits it has.\<close>

fun bit_len :: "nat \<Rightarrow> nat" where
  "bit_len n = (if n = 0 then 0 else Suc (bit_len (n div 2)))"

declare bit_len.simps [simp del]

definition leading_zeros :: "nat \<Rightarrow> nat \<Rightarrow> nat" where
  "leading_zeros w n = w - bit_len n"

definition var_int_map_64 :: "nat list" where
  "var_int_map_64 = [
     10, 9, 9, 9, 9, 9, 9, 9, 8, 8, 8, 8, 8, 8, 8, 7, 7, 7, 7, 7, 7, 7, 6, 6, 6, 6, 6, 6, 6,
     5, 5, 5, 5, 5, 5, 5, 4, 4, 4, 4, 4, 4, 4, 3, 3, 3, 3, 3, 3, 3, 2, 2, 2, 2, 2, 2, 2, 1,
     1, 1, 1, 1, 1, 1, 1]"

definition var_int_map_32 :: "nat list" where
  "var_int_map_32 = [
     5, 5, 5, 5, 4, 4, 4, 4, 4, 4, 4, 3, 3, 3, 3, 3, 3, 3, 2, 2, 2, 2, 2, 2, 2, 1, 1, 1, 1,
     1, 1, 1, 1]"

definition var_int_len :: "nat \<Rightarrow> nat" where
  "var_int_len val = var_int_map_64 ! leading_zeros 64 val"

definition var_int_len_u32 :: "nat \<Rightarrow> nat" where
  "var_int_len_u32 val = var_int_map_32 ! leading_zeros 32 val"

definition var_int_len_from_size :: "nat \<Rightarrow> (EncodeError, nat) res" where
  "var_int_len_from_size val =
     (let over_size = var_int_len_u32 val in
      bindR (checked_sub val over_size) (\<lambda>d.
      let r = d + 1 in checked_sub val (var_int_len_u32 r)))"

lemma bit_len_le_iff: "bit_len n \<le> k \<longleftrightarrow> n < 2 ^ k"
proof (induction k arbitrary: n)
  case 0
  then show ?case by (subst bit_len.simps) simp
next
  case (Suc k)
  then show ?case by (subst bit_len.simps) (simp add: div_less_iff_less_mult mult.commute)
qed

lemma var_int_maps:
  "b \<le> 64 \<Longrightarrow> var_int_map_64 ! (64 - b) =
     (if b \<le> 7 then 1 else if b \<le> 14 then 2 else if b \<le> 21 then 3 else if b \<le> 28 then 4 else if b \<le> 35 then 5
      else if b \<le> 42 then 6 else if b \<le> 49 then 7 else if b \<le> 56 then 8 else if b \<le> 63 then 9 else 10)"
  "b \<le> 32 \<Longrightarrow> var_int_map_32 ! (32 - b) =
     (if b \<le> 7 then 1 else if b \<le> 14 then 2 else if b \<le> 21 then 3 else if b \<le> 28 then 4 else 5)"
proof -
  have "list_all (\<lambda>b. var_int_map_64 ! (64 - b) =
     (if b \<le> 7 then 1 else if b \<le> 14 then 2 else if b \<le> 21 then 3 else if b \<le> 28 then 4 else if b \<le> 35 then 5
      else if b \<le> 42 then 6 else if b \<le> 49 then 7 else if b \<le> 56 then 8 else if b \<le> 63 then 9 else 10)) [0..<65]"
    by code_simp
  then show "b \<le> 64 \<Longrightarrow> var_int_map_64 ! (64 - b) =
     (if b \<le> 7 then 1 else if b \<le> 14 then 2 else if b \<le> 21 then 3 else if b \<le> 28 then 4 else if b \<le> 35 then 5
      else if b \<le> 42 then 6 else if b \<le> 49 then 7 else if b \<le> 56 then 8 else if b \<le> 63 then 9 else 10)"
    unfolding list_all_iff by (elim ballE) auto
  have "list_all (\<lambda>b. var_int_map_32 ! (32 - b) =
     (if b \<le> 7 then 1 else if b \<le> 14 then 2 else if b \<le> 21 then 3 else if b \<le> 28 then 4 else 5)) [0..<33]"
    by code_simp
  then show "b \<le> 32 \<Longrightarrow> var_int_map_32 ! (32 - b) =
     (if b \<le> 7 then 1 else if b \<le> 14 then 2 else if b \<le> 21 then 3 else if b \<le> 28 then 4 else 5)"
    unfolding list_all_iff by (elim ballE) auto
qed

lemma var_int_len_eq: "n < 2 ^ 28 \<Longrightarrow> var_int_len n = varint_len n"
  using bit_len_le_iff [of n 7] bit_len_le_iff [of n 14] bit_len_le_iff [of n 21] bit_len_le_iff [of n 28]
    var_int_maps(1) [of "bit_len n"]
  by (auto simp: var_int_len_def leading_zeros_def varint_len_def)

lemma var_int_len_u32_eq: "n < 2 ^ 32 \<Longrightarrow> var_int_len_u32 n = (if n < 2 ^ 28 then varint_len n else 5)"
  using bit_len_le_iff [of n 7] bit_len_le_iff [of n 14] bit_len_le_iff [of n 21] bit_len_le_iff [of n 28]
    bit_len_le_iff [of n 32] var_int_maps(2) [of "bit_len n"]
  by (auto simp: var_int_len_u32_def leading_zeros_def varint_len_def)

lemma var_int_len_from_size_eq:
  assumes "n < 2 ^ 28"
  shows "var_int_len_from_size (varint_len n + n) = Ok n"
proof -
  have u: "var_int_len_u32 m = k" if "m < 2 ^ 32" "(if m < 2 ^ 28 then varint_len m else 5) = k" for m k
    using var_int_len_u32_eq [OF that(1)] that(2) by simp
  have step: ?thesis if "varint_len n = l" "var_int_len_u32 (l + n) = l'" "l' \<le> l + n" "var_int_len_u32 (l + n - l' + 1) = l" for l l'
    using that by (simp add: var_int_len_from_size_def checked_sub_def)
  consider "n < 127" | "n = 127" | "128 \<le> n" "n < 16382" | "16382 \<le> n" "n < 16384" | "16384 \<le> n" "n < 2097149"
    | "2097149 \<le> n" "n < 2097152" | "2097152 \<le> n" "n < 268435452" | "268435452 \<le> n" "n < 268435456"
    using assms by fastforce
  then show ?thesis
  proof cases
    case 1 then show ?thesis by (intro step [of 1 1] u) (simp_all add: varint_len_def)
  next
    case 2 then show ?thesis by (intro step [of 1 2] u) (simp_all add: varint_len_def)
  next
    case 3 then show ?thesis by (intro step [of 2 2] u) (simp_all add: varint_len_def)
  next
    case 4 then show ?thesis by (intro step [of 2 3] u) (simp_all add: varint_len_def)
  next
    case 5 then show ?thesis by (intro step [of 3 3] u) (simp_all add: varint_len_def)
  next
    case 6 then show ?thesis by (intro step [of 3 4] u) (simp_all add: varint_len_def)
  next
    case 7 then show ?thesis by (intro step [of 4 4] u) (simp_all add: varint_len_def)
  next
    case 8 then show ?thesis by (intro step [of 4 5] u) (simp_all add: varint_len_def)
  qed
qed

text \<open>\<open>unwrap_or\<close>.\<close>

definition unwrap_or :: "'a option \<Rightarrow> 'a \<Rightarrow> 'a" where
  "unwrap_or v d = (case v of Some x \<Rightarrow> x | None \<Rightarrow> d)"

section \<open>Properties\<close>

definition encoded_property_size :: "('a \<Rightarrow> nat) \<Rightarrow> 'a option \<Rightarrow> nat" where
  "encoded_property_size sz v = (case v of None \<Rightarrow> 0 | Some x \<Rightarrow> 1 + sz x)"

definition encoded_property_size_default :: "('a \<Rightarrow> nat) \<Rightarrow> 'a \<Rightarrow> 'a \<Rightarrow> nat" where
  "encoded_property_size_default sz v d = (if v = d then 0 else 1 + sz v)"

definition encode_property :: "('a \<Rightarrow> encoder) \<Rightarrow> 'a option \<Rightarrow> u8 \<Rightarrow> encoder" where
  "encode_property enc v prop_type = (case v of Some x \<Rightarrow> encs [put_u8 prop_type, enc x] | None \<Rightarrow> eok [])"

definition encode_property_default :: "('a \<Rightarrow> encoder) \<Rightarrow> 'a \<Rightarrow> 'a \<Rightarrow> u8 \<Rightarrow> encoder" where
  "encode_property_default enc v d prop_type = (if v \<noteq> d then encs [put_u8 prop_type, enc v] else eok [])"

definition encoded_size_UserProperties :: "UserProperty list \<Rightarrow> nat" where
  "encoded_size_UserProperties ups = foldl (\<lambda>len prop. len + (1 + encoded_size_UserProperty prop)) 0 ups"

definition encode_UserProperties :: "UserProperty list \<Rightarrow> encoder" where
  "encode_UserProperties ups = encs (map (\<lambda>prop. encs [put_u8 pt_USER, encode_UserProperty prop]) ups)"

definition reduce_limit :: "nat \<Rightarrow> nat \<Rightarrow> nat" where
  "reduce_limit limit reduction = (if limit < reduction then 0 else limit - reduction)"

text \<open>Diagnostic properties: as many user properties as fit, then the reason string if it fits.\<close>

fun opt_props_size_loop :: "UserProperty list \<Rightarrow> bytes option \<Rightarrow> nat \<Rightarrow> nat \<Rightarrow> nat" where
  "opt_props_size_loop [] reason_str limit len =
     (case reason_str of
        Some reason \<Rightarrow>
          (let reason_len = 1 + encoded_size_Bytes reason in
           if reason_len \<le> limit then len + reason_len else len)
      | None \<Rightarrow> len)"
| "opt_props_size_loop (up # ups) reason_str limit len =
     (let prop_len = 1 + encoded_size_UserProperty up in
      if limit < prop_len then len
      else opt_props_size_loop ups reason_str (limit - prop_len) (len + prop_len))"

definition encoded_size_opt_props :: "UserProperty list \<Rightarrow> bytes option \<Rightarrow> nat \<Rightarrow> nat" where
  "encoded_size_opt_props user_props reason_str limit = opt_props_size_loop user_props reason_str limit 0"

fun encode_opt_props :: "UserProperty list \<Rightarrow> bytes option \<Rightarrow> nat \<Rightarrow> encoder" where
  "encode_opt_props [] reason_str sz =
     (case reason_str of
        Some reason \<Rightarrow>
          if length reason < sz then encs [put_u8 pt_REASON_STRING, encode_Bytes reason] else eok []
      | None \<Rightarrow> eok [])"
| "encode_opt_props (up # ups) reason_str sz =
     (let prop_len = 1 + encoded_size_Bytes (fst up) + encoded_size_Bytes (snd up) in
      if sz < prop_len then eok []
      else encs [put_u8 pt_USER, encode_UserProperty up, encode_opt_props ups reason_str (sz - prop_len)])"

section \<open>Properties of acknowledgements\<close>

definition ack_encoded_size :: "UserProperty list \<Rightarrow> bytes option \<Rightarrow> nat \<Rightarrow> nat" where
  "ack_encoded_size properties reason_string limit =
     (if limit < 4 then 1
      else let len = encoded_size_opt_props properties reason_string (limit - 4) in
           var_int_len len + len)"

definition ack_encode :: "UserProperty list \<Rightarrow> bytes option \<Rightarrow> nat \<Rightarrow> encoder" where
  "ack_encode properties reason_string sz =
     (if sz = 0 then epanic
      else if sz = 1 then put_u8 0
      else elift (var_int_len_from_size sz) (\<lambda>sz'.
        encs [write_variable_length sz', encode_opt_props properties reason_string sz']))"

text \<open>Run a reader on a buffer of its own, here the property section.\<close>

definition within :: "bytes \<Rightarrow> 'a decoder \<Rightarrow> 'a decoder" where
  "within src p = (\<lambda>s. bindR (p src) (\<lambda>(x, _). Ok (x, s)))"

definition ack_props_step ::
    "(bytes \<Rightarrow> bool) \<Rightarrow> UserProperty list \<times> bytes option \<Rightarrow> (UserProperty list \<times> bytes option) decoder" where
  "ack_props_step u st =
     dbind get_u8 (\<lambda>prop_id.
       if prop_id = pt_REASON_STRING then
         dbind (read_value (decode_ByteString u) (snd st)) (\<lambda>v. dreturn (fst st, v))
       else if prop_id = pt_USER then
         dbind (decode_UserProperty u) (\<lambda>p. dreturn (fst st @ [p], snd st))
       else dlift (Err DE_MalformedPacket))"

definition ack_decode :: "(bytes \<Rightarrow> bool) \<Rightarrow> (UserProperty list \<times> bytes option) decoder" where
  "ack_decode u =
     dbind take_properties (\<lambda>prop_src. within prop_src (while_remaining (ack_props_step u) ([], None)))"

section \<open>Encoding and size of properties\<close>

lemma encode_property_simps [simp]:
  "encode_property enc None i = eok []"
  "encode_property enc (Some x) i = encs [put_u8 i, enc x]"
  by (simp_all add: encode_property_def)

lemma encoded_property_size_simps [simp]:
  "encoded_property_size sz None = 0" "encoded_property_size sz (Some x) = Suc (sz x)"
  by (simp_all add: encoded_property_size_def)

text \<open>What is written for a property and how long it is, for a value type that keeps its contract.\<close>

context wire_type
begin

lemma read_value_enc_end: "valid x \<Longrightarrow> read_value dec None (fst (enc x)) = Ok (Some x, [])"
  using read_value_enc [of x "[]"] by simp

lemma property_ok: "pred_option valid v \<Longrightarrow> snd (encode_property enc v i) = Ok ()"
  by (cases v) (simp_all add: enc_ok)

lemma property_length:
  "pred_option valid v \<Longrightarrow> length (fst (encode_property enc v i)) = encoded_property_size enc_size v"
  by (cases v) (simp_all add: enc_ok enc_length)

lemma property_default_ok: "valid v \<Longrightarrow> snd (encode_property_default enc v d i) = Ok ()"
  by (simp add: encode_property_default_def enc_ok)

lemma property_default_length:
  "valid v \<Longrightarrow> length (fst (encode_property_default enc v d i)) = encoded_property_size_default enc_size v d"
  by (simp add: encode_property_default_def encoded_property_size_default_def enc_ok enc_length)

end

lemmas property_ok =
  wbool.property_ok [unfolded option.pred_True, OF TrueI] wu16.property_ok [unfolded option.pred_True, OF TrueI]
  wu32.property_ok [unfolded option.pred_True, OF TrueI]
  wnz16.property_ok wnz32.property_ok wbytes.property_ok wstr.property_ok
  wbool.property_default_ok [OF TrueI] wu16.property_default_ok [OF TrueI] wu32.property_default_ok [OF TrueI]
  wnz16.property_default_ok
lemmas property_length =
  wbool.property_length [unfolded option.pred_True, OF TrueI] wu16.property_length [unfolded option.pred_True, OF TrueI]
  wu32.property_length [unfolded option.pred_True, OF TrueI]
  wnz16.property_length wnz32.property_length wbytes.property_length wstr.property_length
  wbool.property_default_length [OF TrueI] wu16.property_default_length [OF TrueI]
  wu32.property_default_length [OF TrueI] wnz16.property_default_length

text \<open>Reading back one property in a loop over the property section.\<close>

context consuming
begin

lemma loop_property:
  assumes "\<And>x. v = Some x \<Longrightarrow> snd (enc x) = Ok () \<and> step st (i # fst (enc x) @ r) = Ok (st', r)"
    and "v = None \<Longrightarrow> st' = st"
  shows "while_remaining step st (fst (encode_property enc v i) @ r) = while_remaining step st' r"
proof (cases v)
  case (Some x)
  then show ?thesis using assms(1) loop_block [of st "i # fst (enc x)" r st'] by simp
qed (use assms in simp)

lemma loop_property_end:
  assumes "\<And>x. v = Some x \<Longrightarrow> snd (enc x) = Ok () \<and> step st (i # fst (enc x)) = Ok (st', [])"
    and "v = None \<Longrightarrow> st' = st"
  shows "while_remaining step st (fst (encode_property enc v i)) = Ok (st', [])"
  using loop_property [of v enc st i "[]" st'] assms by simp

lemma loop_property_default:
  assumes "v \<noteq> d \<Longrightarrow> snd (enc v) = Ok () \<and> step st (i # fst (enc v) @ r) = Ok (st', r)"
    and "v = d \<Longrightarrow> st' = st"
  shows "while_remaining step st (fst (encode_property_default enc v d i) @ r) = while_remaining step st' r"
proof (cases "v = d")
  case False
  then show ?thesis using assms(1) loop_block [of st "i # fst (enc v)" r st'] by (simp add: encode_property_default_def)
qed (use assms in \<open>simp add: encode_property_default_def\<close>)

end

section \<open>User properties\<close>

lemma encoded_size_UserProperties_simps [simp]:
  "encoded_size_UserProperties [] = 0"
  "encoded_size_UserProperties (p # ps) = Suc (encoded_size_UserProperty p) + encoded_size_UserProperties ps"
  by (simp_all only: encoded_size_UserProperties_def foldl_add_nat) simp_all

lemma encode_UserProperties_simps [simp]:
  "encode_UserProperties [] = eok []"
  "encode_UserProperties (p # ps) = eseq (encs [put_u8 pt_USER, encode_UserProperty p]) (encode_UserProperties ps)"
  by (simp_all add: encode_UserProperties_def)

lemma encode_UserProperties_ok:
  "list_all (uprop_ok u) ps \<Longrightarrow> snd (encode_UserProperties ps) = Ok ()"
  by (induction ps) (auto simp: wuprop.enc_ok)

lemma encode_UserProperties_bytes:
  "list_all (uprop_ok u) ps \<Longrightarrow>
     fst (encode_UserProperties ps) = concat (map (\<lambda>p. pt_USER # fst (encode_UserProperty p)) ps)"
  by (induction ps) (auto simp: wuprop.enc_ok)

lemma encode_UserProperties_length:
  "list_all (uprop_ok u) ps \<Longrightarrow> length (fst (encode_UserProperties ps)) = encoded_size_UserProperties ps"
  by (induction ps) (auto simp: wuprop.enc_ok wuprop.enc_length)

context consuming
begin

lemma loop_user_properties:
  assumes "list_all (uprop_ok u) ps"
    and "\<And>st p r. uprop_ok u p \<Longrightarrow> step st (pt_USER # fst (encode_UserProperty p) @ r) = Ok (upd st p, r)"
  shows "while_remaining step st (fst (encode_UserProperties ps) @ r) = while_remaining step (foldl upd st ps) r"
  unfolding encode_UserProperties_bytes [OF assms(1)]
  using assms by (intro loop_list) (auto simp: list_all_iff)

lemma loop_user_properties_end:
  assumes "list_all (uprop_ok u) ps"
    and "\<And>st p r. uprop_ok u p \<Longrightarrow> step st (pt_USER # fst (encode_UserProperty p) @ r) = Ok (upd st p, r)"
  shows "while_remaining step st (fst (encode_UserProperties ps)) = Ok (foldl upd st ps, [])"
  using loop_user_properties [OF assms, of st "[]"] by simp

end

section \<open>The diagnostic properties that fit\<close>

text \<open>What is kept of the user properties and the reason string within a size limit.\<close>

fun fit_props :: "UserProperty list \<Rightarrow> bytes option \<Rightarrow> nat \<Rightarrow> UserProperty list \<times> bytes option" where
  "fit_props [] rs limit =
     ([], case rs of Some r \<Rightarrow> if 3 + length r \<le> limit then Some r else None | None \<Rightarrow> None)"
| "fit_props (up # ups) rs limit =
     (if limit < Suc (encoded_size_UserProperty up) then ([], None)
      else let (us, r) = fit_props ups rs (limit - Suc (encoded_size_UserProperty up)) in (up # us, r))"

definition diag_size :: "UserProperty list \<times> bytes option \<Rightarrow> nat" where
  "diag_size d = encoded_size_UserProperties (fst d) + encoded_property_size encoded_size_Bytes (snd d)"

definition diag_encode :: "UserProperty list \<times> bytes option \<Rightarrow> encoder" where
  "diag_encode d = encs [encode_UserProperties (fst d), encode_property encode_Bytes (snd d) pt_REASON_STRING]"

definition diag_ok :: "(bytes \<Rightarrow> bool) \<Rightarrow> UserProperty list \<times> bytes option \<Rightarrow> bool" where
  "diag_ok u d \<longleftrightarrow> list_all (uprop_ok u) (fst d) \<and> pred_option (str_ok u) (snd d)"

lemma opt_props_size_loop_eq:
  "opt_props_size_loop ups rs limit len = len + diag_size (fit_props ups rs limit)"
  by (induction ups rs limit len rule: opt_props_size_loop.induct)
    (auto simp: diag_size_def Let_def field_size split: option.splits prod.splits)

lemma encoded_size_opt_props_eq: "encoded_size_opt_props ups rs limit = diag_size (fit_props ups rs limit)"
  by (simp add: encoded_size_opt_props_def opt_props_size_loop_eq)

lemma fit_props_le: "diag_size (fit_props ups rs limit) \<le> limit"
  by (induction ups rs limit rule: fit_props.induct)
    (auto simp: diag_size_def field_size split: option.splits prod.splits)

lemma fit_props_all: "diag_size (ups, rs) \<le> limit \<Longrightarrow> fit_props ups rs limit = (ups, rs)"
  by (induction ups rs limit rule: fit_props.induct)
    (auto simp: diag_size_def field_size split: option.splits prod.splits)

lemma fit_props_ok: "diag_ok u (ups, rs) \<Longrightarrow> diag_ok u (fit_props ups rs limit)"
  by (induction ups rs limit rule: fit_props.induct)
    (auto simp: diag_ok_def split: option.splits prod.splits)

text \<open>Given exactly the size of what fits, the encoder writes exactly what fits.\<close>

lemma encode_opt_props_fit:
  "diag_ok u (ups, rs) \<Longrightarrow>
   encode_opt_props ups rs (diag_size (fit_props ups rs limit)) = diag_encode (fit_props ups rs limit)"
proof (induction ups rs limit rule: fit_props.induct)
  case (1 rs limit)
  then show ?case by (cases rs) (auto simp: diag_size_def diag_encode_def field_size eseq_nothing)
next
  case (2 up ups rs limit)
  let ?l = "Suc (encoded_size_UserProperty up)"
  show ?case
  proof (cases "limit < ?l")
    case True
    then show ?thesis by (simp add: diag_size_def diag_encode_def field_size eseq_nothing)
  next
    case False
    obtain us r where f: "fit_props ups rs (limit - ?l) = (us, r)" by fastforce
    have l: "encoded_size_Bytes (fst up) + encoded_size_Bytes (snd up) = encoded_size_UserProperty up"
      by (simp add: field_size)
    have d: "diag_size (up # us, r) = ?l + diag_size (us, r)" by (simp add: diag_size_def)
    have ih: "encode_opt_props ups rs (diag_size (us, r)) = diag_encode (us, r)"
      using 2 False f by (auto simp: diag_ok_def)
    have up: "snd (encode_UserProperty up) = Ok ()"
      using 2 by (auto simp: diag_ok_def wuprop.enc_ok)
    show ?thesis using False f ih up
      by (simp add: l d Let_def diag_encode_def eseq_nothing eseq_assoc)
  qed
qed

lemma diag_encode_ok: "diag_ok u d \<Longrightarrow> snd (diag_encode d) = Ok ()"
  by (auto simp: diag_ok_def diag_encode_def encode_UserProperties_ok property_ok)

lemma diag_encode_bytes:
  "diag_ok u d \<Longrightarrow> fst (diag_encode d) =
     fst (encode_UserProperties (fst d)) @ fst (encode_property encode_Bytes (snd d) pt_REASON_STRING)"
  by (auto simp: diag_ok_def diag_encode_def encode_UserProperties_ok property_ok)

lemma diag_encode_length: "diag_ok u d \<Longrightarrow> length (fst (diag_encode d)) = diag_size d"
  by (auto simp: diag_ok_def diag_size_def diag_encode_bytes encode_UserProperties_length property_length)

section \<open>Acknowledgement properties\<close>

lemma safe_within [safe_intros]: "safe_reader p \<Longrightarrow> safe_reader (within src p)"
  by (rule safe_readerI) (auto simp: within_def bindR_eq_Panic bindR_eq_Ok dest: safe_reader_not_Panic)

lemma within_apply: "p src = Ok (x, r) \<Longrightarrow> within src p s = Ok (x, s)"
  by (simp add: within_def)

interpretation ackp: consuming "ack_props_step u" for u
  unfolding ack_props_step_def by (intro consuming_get_u8 safe_intros)

lemma safe_ack_decode [safe_intros]: "safe_reader (ack_decode u)"
  unfolding ack_decode_def by (intro safe_intros safe_while ackp.consuming_axioms)

lemma foldl_user_fst: "foldl (\<lambda>st p. (fst st @ [p], snd st)) st ps = (fst st @ ps, snd st)"
  by (induction ps arbitrary: st) simp_all

lemma ack_props_loop:
  assumes "diag_ok u d"
  shows "while_remaining (ack_props_step u) ([], None) (fst (diag_encode d)) = Ok (d, [])"
proof -
  have up: "uprop_ok u p \<Longrightarrow> ack_props_step u st (pt_USER # fst (encode_UserProperty p) @ r) = Ok ((fst st @ [p], snd st), r)" for st p r
    by (simp add: ack_props_step_def field_dec pt_defs)
  have rs: "while_remaining (ack_props_step u) (us, None) (fst (encode_property encode_Bytes r pt_REASON_STRING) @ []) =
      while_remaining (ack_props_step u) (us, r) []" if "pred_option (str_ok u) r" for us r
    using that by (intro ackp.loop_property) (auto simp: ack_props_step_def wstr.read_value_enc_end wstr.enc_ok pt_defs)
  have ok: "list_all (uprop_ok u) (fst d)" "pred_option (str_ok u) (snd d)"
    using assms by (simp_all add: diag_ok_def)
  show ?thesis
    using ackp.loop_user_properties [OF ok(1) up, of "([], None)"] rs [OF ok(2), of "fst d"]
    by (simp add: diag_encode_bytes [OF assms] foldl_user_fst)
qed

lemma take_properties_diag:
  assumes "diag_ok u d" and "diag_size d < 2 ^ 28"
  shows "ack_decode u (fst (write_variable_length (diag_size d)) @ fst (diag_encode d) @ r) = Ok (d, r)"
proof -
  have "length (fst (diag_encode d)) = diag_size d" by (rule diag_encode_length [OF assms(1)])
  then show ?thesis
    using take_properties_write [of "fst (diag_encode d)" r] assms(2) ack_props_loop [OF assms(1)]
    by (simp add: ack_decode_def within_def)
qed

text \<open>What the acknowledgement keeps under a limit, and that it is written and read back.\<close>

definition ack_fit :: "UserProperty list \<Rightarrow> bytes option \<Rightarrow> nat \<Rightarrow> UserProperty list \<times> bytes option" where
  "ack_fit ups rs limit = (if limit < 4 then ([], None) else fit_props ups rs (limit - 4))"

lemma ack_fit_ok: "diag_ok u (ups, rs) \<Longrightarrow> diag_ok u (ack_fit ups rs limit)"
  using fit_props_ok by (auto simp: ack_fit_def diag_ok_def)

lemma ack_fit_all: "diag_size (ups, rs) + 4 \<le> limit \<Longrightarrow> ack_fit ups rs limit = (ups, rs)"
  by (simp add: ack_fit_def fit_props_all)

lemma ack_encoded_size_eq:
  assumes "ack_encoded_size ups rs limit < 2 ^ 28"
  shows "diag_size (ack_fit ups rs limit) < 2 ^ 28"
    and "ack_encoded_size ups rs limit =
      varint_len (diag_size (ack_fit ups rs limit)) + diag_size (ack_fit ups rs limit)"
proof -
  show "diag_size (ack_fit ups rs limit) < 2 ^ 28"
    using assms by (auto simp: ack_encoded_size_def ack_fit_def encoded_size_opt_props_eq Let_def diag_size_def
        split: if_splits)
  then show "ack_encoded_size ups rs limit =
      varint_len (diag_size (ack_fit ups rs limit)) + diag_size (ack_fit ups rs limit)"
    by (cases "limit < 4")
      (simp_all add: ack_encoded_size_def ack_fit_def encoded_size_opt_props_eq var_int_len_eq Let_def,
       simp add: diag_size_def varint_len_def)
qed

lemma ack_encode_eq:
  assumes "diag_ok u (ups, rs)" and "ack_encoded_size ups rs limit < 2 ^ 28"
  shows "ack_encode ups rs (ack_encoded_size ups rs limit) =
    eok (fst (write_variable_length (diag_size (ack_fit ups rs limit))) @ fst (diag_encode (ack_fit ups rs limit)))"
proof -
  let ?d = "ack_fit ups rs limit"
  note d = ack_encoded_size_eq [OF assms(2)]
  have ok: "diag_ok u ?d" by (rule ack_fit_ok [OF assms(1)])
  have w: "write_variable_length (diag_size ?d) = eok (fst (write_variable_length (diag_size ?d)))"
    using d(1) write_variable_length_ok [of "diag_size ?d"] by (cases "write_variable_length (diag_size ?d)") (simp add: eok_def)
  have e: "diag_encode ?d = eok (fst (diag_encode ?d))"
    using diag_encode_ok [OF ok] by (cases "diag_encode ?d") (simp add: eok_def)
  show ?thesis
  proof (cases "ack_encoded_size ups rs limit = 1")
    case True
    then have z: "diag_size ?d = 0" using d by (simp add: varint_len_def split: if_splits)
    then have "fst (diag_encode ?d) = []" using diag_encode_length [OF ok] by simp
    then show ?thesis using True z
      by (simp add: ack_encode_def write_variable_length_def put_u8_def)
  next
    case False
    have "ack_encoded_size ups rs limit \<noteq> 0" using d(2) by (simp add: varint_len_def)
    moreover have "4 \<le> limit" using False by (auto simp: ack_encoded_size_def split: if_splits)
    then have "encode_opt_props ups rs (diag_size ?d) = diag_encode ?d"
      using encode_opt_props_fit [OF assms(1), of "limit - 4"] by (simp add: ack_fit_def)
    ultimately show ?thesis using False var_int_len_from_size_eq [OF d(1)] w e
      by (simp add: ack_encode_def d(2) [symmetric] eseq_nothing) (metis eseq_eok)
  qed
qed

lemma ack_decode_encode:
  assumes "diag_ok u (ups, rs)" and "ack_encoded_size ups rs limit < 2 ^ 28"
  shows "ack_decode u (fst (ack_encode ups rs (ack_encoded_size ups rs limit)) @ r) = Ok (ack_fit ups rs limit, r)"
  using take_properties_diag [OF ack_fit_ok [OF assms(1)] ack_encoded_size_eq(1) [OF assms(2)]]
  by (simp add: ack_encode_eq [OF assms])

lemma ack_encode_ok:
  assumes "diag_ok u (ups, rs)" and "ack_encoded_size ups rs limit < 2 ^ 28"
  shows "snd (ack_encode ups rs (ack_encoded_size ups rs limit)) = Ok ()"
    and "length (fst (ack_encode ups rs (ack_encoded_size ups rs limit))) = ack_encoded_size ups rs limit"
proof -
  show "snd (ack_encode ups rs (ack_encoded_size ups rs limit)) = Ok ()"
    by (simp add: ack_encode_eq [OF assms])
  show "length (fst (ack_encode ups rs (ack_encoded_size ups rs limit))) = ack_encoded_size ups rs limit"
    unfolding ack_encode_eq [OF assms]
    using ack_encoded_size_eq [OF assms(2)] diag_encode_length [OF ack_fit_ok [OF assms(1)]]
      length_write_variable_length [of "diag_size (ack_fit ups rs limit)"] by simp
qed

end
