(* ===== verification/V5_Acks.thy ===== *)
theory V5_Acks
  imports V5_Enums V5_Props
begin

text \<open>
  \<open>src/v5/codec/packet/pubacks.rs\<close>, the acknowledgements of \<open>subscribe.rs\<close>, \<open>disconnect.rs\<close> and
  \<open>auth.rs\<close>: packets that end in diagnostic properties. The locale \<open>encode_ltd\<close> states what an
  implementation of \<open>EncodeLtd\<close> promises together with the packet's decoder: within a size limit it
  writes exactly the size it announced, and the decoder gives the packet back, less the diagnostic
  properties that did not fit.
\<close>

section \<open>The contract of \<open>EncodeLtd\<close>\<close>

definition as_u32 :: "nat \<Rightarrow> nat" where
  "as_u32 n = n mod 2 ^ 32"

lemma as_u32_id [simp]: "n < 2 ^ 32 \<Longrightarrow> as_u32 n = n"
  by (simp add: as_u32_def)

locale encode_ltd =
  fixes fb :: "'a \<Rightarrow> u8"
    and dec :: "u8 \<Rightarrow> bytes \<Rightarrow> (DecodeError, 'a \<times> bytes) res"
    and enc :: "'a \<Rightarrow> nat \<Rightarrow> bytes \<times> (EncodeError, unit) res"
    and enc_size :: "'a \<Rightarrow> nat \<Rightarrow> (EncodeError, nat) res"
    and valid :: "'a \<Rightarrow> bool"
    and trim :: "'a \<Rightarrow> nat \<Rightarrow> 'a"
  assumes body_ok: "valid x \<Longrightarrow> enc_size x limit = Ok n \<Longrightarrow> n < 2 ^ 28 \<Longrightarrow> snd (enc x n) = Ok ()"
    and body_length: "valid x \<Longrightarrow> enc_size x limit = Ok n \<Longrightarrow> n < 2 ^ 28 \<Longrightarrow> length (fst (enc x n)) = n"
    and body_dec: "valid x \<Longrightarrow> enc_size x limit = Ok n \<Longrightarrow> n < 2 ^ 28 \<Longrightarrow>
      dec (fb x) (fst (enc x n)) = Ok (trim x limit, [])"
begin

text \<open>The frame: first byte, remaining length, body.\<close>

lemma frame:
  assumes "valid x" and "enc_size x limit = Ok n" and "n < 2 ^ 28"
  shows "encs [put_u8 (fb x), write_variable_length n, enc x n] =
    eok (fb x # fst (write_variable_length n) @ fst (enc x n))"
proof -
  have "snd (write_variable_length n) = Ok ()" using assms(3) by simp
  moreover have "snd (enc x n) = Ok ()" by (rule body_ok [OF assms])
  ultimately show ?thesis by (intro eok_eqI) simp_all
qed

end

section \<open>PUBACK, PUBREC, PUBREL and PUBCOMP\<close>

definition PUBACK_HEADER_LEN :: nat where "PUBACK_HEADER_LEN = 2 + 1"

record 'r v5_AckBase =
  ack5_packet_id :: u16
  ack5_reason_code :: 'r
  ack5_properties :: "UserProperty list"
  ack5_reason_string :: "bytes option"

type_synonym v5_PublishAck = "PublishAckReason v5_AckBase"
type_synonym v5_PublishAck2 = "PublishAck2Reason v5_AckBase"

text \<open>The two decoders differ in the type of the reason code only.\<close>

definition decode_pub_ack ::
    "(bytes \<Rightarrow> bool) \<Rightarrow> (u8 \<Rightarrow> (DecodeError, 'r) res) \<Rightarrow> 'r \<Rightarrow> 'r v5_AckBase decoder" where
  "decode_pub_ack u try_from success =
     dbind decode_NonZeroU16 (\<lambda>packet_id.
     dbind has_remaining (\<lambda>h.
       if h then
         dbind get_u8 (\<lambda>code.
         dbind (dlift (try_from code)) (\<lambda>reason_code.
         dbind has_remaining (\<lambda>h2.
           if h2 then
             dbind (ack_decode u) (\<lambda>props.
             dbind has_remaining (\<lambda>h3. ensure (\<not> h3) DE_InvalidLength (
             dreturn \<lparr>ack5_packet_id = packet_id, ack5_reason_code = reason_code,
               ack5_properties = fst props, ack5_reason_string = snd props\<rparr>)))
           else dreturn \<lparr>ack5_packet_id = packet_id, ack5_reason_code = reason_code,
               ack5_properties = [], ack5_reason_string = None\<rparr>)))
       else dreturn \<lparr>ack5_packet_id = packet_id, ack5_reason_code = success,
               ack5_properties = [], ack5_reason_string = None\<rparr>))"

definition v5_PublishAck_decode :: "(bytes \<Rightarrow> bool) \<Rightarrow> v5_PublishAck decoder" where
  "v5_PublishAck_decode u = decode_pub_ack u PublishAckReason_try_from PA_Success"

definition v5_PublishAck2_decode :: "(bytes \<Rightarrow> bool) \<Rightarrow> v5_PublishAck2 decoder" where
  "v5_PublishAck2_decode u = decode_pub_ack u PublishAck2Reason_try_from PA2_Success"

definition pub_ack_encoded_size :: "'r v5_AckBase \<Rightarrow> nat \<Rightarrow> (EncodeError, nat) res" where
  "pub_ack_encoded_size ack limit =
     bindR (checked_sub limit PUBACK_HEADER_LEN) (\<lambda>l1.
     bindR (checked_sub l1 4) (\<lambda>l2.
     Ok (PUBACK_HEADER_LEN + ack_encoded_size (ack5_properties ack) (ack5_reason_string ack) l2)))"

definition encode_pub_ack :: "('r \<Rightarrow> u8) \<Rightarrow> 'r v5_AckBase \<Rightarrow> nat \<Rightarrow> encoder" where
  "encode_pub_ack into ack sz =
     encs [encode_u16 (ack5_packet_id ack), put_u8 (into (ack5_reason_code ack)),
           elift (checked_sub sz PUBACK_HEADER_LEN) (ack_encode (ack5_properties ack) (ack5_reason_string ack))]"

definition v5_PublishAck_encode :: "v5_PublishAck \<Rightarrow> nat \<Rightarrow> encoder" where
  "v5_PublishAck_encode = encode_pub_ack u8_from_PublishAckReason"

definition v5_PublishAck2_encode :: "v5_PublishAck2 \<Rightarrow> nat \<Rightarrow> encoder" where
  "v5_PublishAck2_encode = encode_pub_ack u8_from_PublishAck2Reason"

section \<open>SUBACK and UNSUBACK\<close>

record 'r v5_StatusAck =
  sack5_packet_id :: u16
  sack5_properties :: "UserProperty list"
  sack5_reason_string :: "bytes option"
  sack5_status :: "'r list"

type_synonym v5_SubscribeAck = "SubscribeAckReason v5_StatusAck"
type_synonym v5_UnsubscribeAck = "UnsubscribeAckReason v5_StatusAck"

fun decode_status :: "(u8 \<Rightarrow> (DecodeError, 'r) res) \<Rightarrow> bytes \<Rightarrow> (DecodeError, 'r list) res" where
  "decode_status try_from [] = Ok []"
| "decode_status try_from (code # codes) =
     bindR (try_from code) (\<lambda>st. bindR (decode_status try_from codes) (\<lambda>sts. Ok (st # sts)))"

definition decode_status_ack ::
    "(bytes \<Rightarrow> bool) \<Rightarrow> (u8 \<Rightarrow> (DecodeError, 'r) res) \<Rightarrow> 'r v5_StatusAck decoder" where
  "decode_status_ack u try_from =
     dbind decode_NonZeroU16 (\<lambda>packet_id.
     dbind (ack_decode u) (\<lambda>props.
     dbind split_rest (\<lambda>codes.
     dbind (dlift (decode_status try_from codes)) (\<lambda>status.
     dreturn \<lparr>sack5_packet_id = packet_id, sack5_properties = fst props,
       sack5_reason_string = snd props, sack5_status = status\<rparr>))))"

definition v5_SubscribeAck_decode :: "(bytes \<Rightarrow> bool) \<Rightarrow> v5_SubscribeAck decoder" where
  "v5_SubscribeAck_decode u = decode_status_ack u SubscribeAckReason_try_from"

definition v5_UnsubscribeAck_decode :: "(bytes \<Rightarrow> bool) \<Rightarrow> v5_UnsubscribeAck decoder" where
  "v5_UnsubscribeAck_decode u = decode_status_ack u UnsubscribeAckReason_try_from"

definition v5_SubscribeAck_encoded_size :: "v5_SubscribeAck \<Rightarrow> nat \<Rightarrow> (EncodeError, nat) res" where
  "v5_SubscribeAck_encoded_size ack limit =
     (let len = length (sack5_status ack) in
      if 2 ^ 32 - 1 - 2 < len then Ok (2 ^ 64 - 1)
      else
        bindR (checked_sub limit 2) (\<lambda>l1.
        bindR (checked_sub l1 (as_u32 len)) (\<lambda>l2.
        Ok (2 + ack_encoded_size (sack5_properties ack) (sack5_reason_string ack) l2 + len))))"

definition v5_UnsubscribeAck_encoded_size :: "v5_UnsubscribeAck \<Rightarrow> nat \<Rightarrow> (EncodeError, nat) res" where
  "v5_UnsubscribeAck_encoded_size ack limit =
     (let len = length (sack5_status ack) in
      Ok (2 + len + ack_encoded_size (sack5_properties ack) (sack5_reason_string ack) (reduce_limit limit (2 + len))))"

definition encode_status_ack :: "('r \<Rightarrow> u8) \<Rightarrow> 'r v5_StatusAck \<Rightarrow> nat \<Rightarrow> encoder" where
  "encode_status_ack into ack sz =
     (let len = as_u32 (length (sack5_status ack)) in
      encs [encode_u16 (sack5_packet_id ack),
            elift (bindR (checked_sub sz 2) (\<lambda>s. checked_sub s len))
              (ack_encode (sack5_properties ack) (sack5_reason_string ack)),
            encs (map (\<lambda>reason. put_u8 (into reason)) (sack5_status ack))])"

definition v5_SubscribeAck_encode :: "v5_SubscribeAck \<Rightarrow> nat \<Rightarrow> encoder" where
  "v5_SubscribeAck_encode = encode_status_ack u8_from_SubscribeAckReason"

definition v5_UnsubscribeAck_encode :: "v5_UnsubscribeAck \<Rightarrow> nat \<Rightarrow> encoder" where
  "v5_UnsubscribeAck_encode = encode_status_ack u8_from_UnsubscribeAckReason"

section \<open>Decoding inverts encoding\<close>

definition pub_ack_ok :: "(bytes \<Rightarrow> bool) \<Rightarrow> 'r v5_AckBase \<Rightarrow> bool" where
  "pub_ack_ok u a \<longleftrightarrow> ack5_packet_id a \<noteq> 0 \<and> diag_ok u (ack5_properties a, ack5_reason_string a)"

definition pub_ack_trim :: "'r v5_AckBase \<Rightarrow> nat \<Rightarrow> 'r v5_AckBase" where
  "pub_ack_trim a limit =
     (let d = ack_fit (ack5_properties a) (ack5_reason_string a) (limit - 7) in
      a\<lparr>ack5_properties := fst d, ack5_reason_string := snd d\<rparr>)"

lemma safe_pub_ack [safe_intros]:
  assumes "\<And>c. try_from c \<noteq> Panic"
  shows "safe_reader (decode_pub_ack u try_from success)"
  unfolding decode_pub_ack_def
  by (intro safe_dbind [OF _ safe_get_u8_if] safe_intros safe_dlift assms)

lemma safe_status_ack [safe_intros]:
  assumes "\<And>c. try_from c \<noteq> Panic"
  shows "safe_reader (decode_status_ack u try_from)"
proof -
  have "decode_status try_from cs \<noteq> Panic" for cs
    using assms by (induction cs) (auto simp: bindR_eq_Panic)
  then show ?thesis unfolding decode_status_ack_def by (intro safe_intros safe_dlift)
qed

lemma encode_ltd_pub_ack:
  assumes "prim_enum vs into"
  shows "encode_ltd fb (\<lambda>_. decode_pub_ack u (enum_try_from vs into) success) (encode_pub_ack into)
    pub_ack_encoded_size (pub_ack_ok u) pub_ack_trim"
proof
  fix x :: "'a v5_AckBase" and limit n
  assume x: "pub_ack_ok u x" and n: "pub_ack_encoded_size x limit = Ok n" "n < 2 ^ 28"
  let ?a = "ack_encoded_size (ack5_properties x) (ack5_reason_string x) (limit - 7)"
  have lim: "7 \<le> limit" and n_eq: "n = 3 + ?a"
    using n by (auto simp: pub_ack_encoded_size_def PUBACK_HEADER_LEN_def bindR_eq_Ok checked_sub_def split: if_splits)
  have d: "diag_ok u (ack5_properties x, ack5_reason_string x)" and id: "ack5_packet_id x \<noteq> 0"
    using x by (auto simp: pub_ack_ok_def)
  have a: "?a < 2 ^ 28" using n n_eq by simp
  note ok = ack_encode_ok [OF d a]
  have w: "encode_pub_ack into x n = eok (fst (encode_u16 (ack5_packet_id x)) @ [into (ack5_reason_code x)] @
      fst (ack_encode (ack5_properties x) (ack5_reason_string x) ?a))"
    using ok(1) by (intro eok_eqI) (simp_all add: encode_pub_ack_def n_eq PUBACK_HEADER_LEN_def checked_sub_def field_enc)
  show "snd (encode_pub_ack into x n) = Ok ()" by (simp add: w)
  show "length (fst (encode_pub_ack into x n)) = n"
    unfolding w using ok(2) by (simp add: n_eq field_enc field_size)
  have ne: "fst (ack_encode (ack5_properties x) (ack5_reason_string x) ?a) \<noteq> []"
    using ok(2) ack_encoded_size_eq(2) [OF a] by (auto simp: varint_len_def split: if_splits)
  show "decode_pub_ack u (enum_try_from vs into) success (fst (encode_pub_ack into x n)) = Ok (pub_ack_trim x limit, [])"
    using ack_decode_encode [OF d a, of "[]"] id ne
    by (simp add: w decode_pub_ack_def field_dec prim_enum.try_from_into [OF assms] pub_ack_trim_def Let_def)
qed

interpretation puback5: encode_ltd "\<lambda>_. PUBACK" "\<lambda>_. v5_PublishAck_decode u" v5_PublishAck_encode
  pub_ack_encoded_size "pub_ack_ok u" pub_ack_trim for u
  unfolding v5_PublishAck_decode_def v5_PublishAck_encode_def
  by (rule encode_ltd_pub_ack) (rule pareason.prim_enum_axioms)

interpretation pubrec5: encode_ltd "\<lambda>_. PUBREC" "\<lambda>_. v5_PublishAck_decode u" v5_PublishAck_encode
  pub_ack_encoded_size "pub_ack_ok u" pub_ack_trim for u
  unfolding v5_PublishAck_decode_def v5_PublishAck_encode_def
  by (rule encode_ltd_pub_ack) (rule pareason.prim_enum_axioms)

interpretation pubrel5: encode_ltd "\<lambda>_. PUBREL" "\<lambda>_. v5_PublishAck2_decode u" v5_PublishAck2_encode
  pub_ack_encoded_size "pub_ack_ok u" pub_ack_trim for u
  unfolding v5_PublishAck2_decode_def v5_PublishAck2_encode_def
  by (rule encode_ltd_pub_ack) (rule pa2reason.prim_enum_axioms)

interpretation pubcomp5: encode_ltd "\<lambda>_. PUBCOMP" "\<lambda>_. v5_PublishAck2_decode u" v5_PublishAck2_encode
  pub_ack_encoded_size "pub_ack_ok u" pub_ack_trim for u
  unfolding v5_PublishAck2_decode_def v5_PublishAck2_encode_def
  by (rule encode_ltd_pub_ack) (rule pa2reason.prim_enum_axioms)

lemma safe_pub_acks [safe_intros]: "safe_reader (v5_PublishAck_decode u)" "safe_reader (v5_PublishAck2_decode u)"
  unfolding v5_PublishAck_decode_def v5_PublishAck2_decode_def by (intro safe_pub_ack enum_try_from_not_Panic)+

definition status_ack_ok :: "(bytes \<Rightarrow> bool) \<Rightarrow> 'r v5_StatusAck \<Rightarrow> bool" where
  "status_ack_ok u a \<longleftrightarrow> sack5_packet_id a \<noteq> 0 \<and> diag_ok u (sack5_properties a, sack5_reason_string a)"

text \<open>Both acknowledgements leave the properties what remains after the identifier and the codes.\<close>

definition status_ack_trim :: "'r v5_StatusAck \<Rightarrow> nat \<Rightarrow> 'r v5_StatusAck" where
  "status_ack_trim a limit =
     (let d = ack_fit (sack5_properties a) (sack5_reason_string a) (limit - (2 + length (sack5_status a))) in
      a\<lparr>sack5_properties := fst d, sack5_reason_string := snd d\<rparr>)"

lemma decode_status_inverse:
  assumes "prim_enum vs into"
  shows "decode_status (enum_try_from vs into) (map into st) = Ok st"
  by (induction st) (simp_all add: prim_enum.try_from_into [OF assms])

lemma status_ack_body:
  fixes x :: "'r v5_StatusAck" and limit :: nat
  defines "a \<equiv> ack_encoded_size (sack5_properties x) (sack5_reason_string x) (limit - (2 + length (sack5_status x)))"
  assumes e: "prim_enum vs into" and x: "status_ack_ok u x"
    and n: "n = 2 + length (sack5_status x) + a" "n < 2 ^ 28"
  shows "snd (encode_status_ack into x n) = Ok ()" and "length (fst (encode_status_ack into x n)) = n"
    and "decode_status_ack u (enum_try_from vs into) (fst (encode_status_ack into x n)) = Ok (status_ack_trim x limit, [])"
proof -
  have d: "diag_ok u (sack5_properties x, sack5_reason_string x)" and id: "sack5_packet_id x \<noteq> 0"
    using x by (auto simp: status_ack_ok_def)
  have a: "a < 2 ^ 28" and len: "length (sack5_status x) < 2 ^ 32" using n by simp_all
  note ok = ack_encode_ok [OF d a [unfolded a_def]]
  have st: "encs (map (\<lambda>reason. put_u8 (into reason)) st) = eok (map into st)" for st
    by (induction st) (simp_all add: put_u8_def eseq_eok)
  have w: "encode_status_ack into x n = eok (fst (encode_u16 (sack5_packet_id x)) @
      fst (ack_encode (sack5_properties x) (sack5_reason_string x) a) @ map into (sack5_status x))"
    using ok(1) len by (intro eok_eqI) (simp_all add: encode_status_ack_def n(1) checked_sub_def field_enc a_def st)
  show "snd (encode_status_ack into x n) = Ok ()" by (simp add: w)
  show "length (fst (encode_status_ack into x n)) = n"
    unfolding w using ok(2) by (simp add: n(1) a_def field_enc field_size)
  show "decode_status_ack u (enum_try_from vs into) (fst (encode_status_ack into x n)) = Ok (status_ack_trim x limit, [])"
    using ack_decode_encode [OF d a [unfolded a_def]] id
    by (simp add: w decode_status_ack_def field_dec decode_status_inverse [OF e] status_ack_trim_def Let_def a_def)
qed

interpretation suback5: encode_ltd "\<lambda>_. SUBACK" "\<lambda>_. v5_SubscribeAck_decode u" v5_SubscribeAck_encode
  v5_SubscribeAck_encoded_size "status_ack_ok u" status_ack_trim for u
proof
  fix x :: v5_SubscribeAck and limit n
  assume x: "status_ack_ok u x" and sz: "v5_SubscribeAck_encoded_size x limit = Ok n" and n: "n < 2 ^ 28"
  have "\<not> 2 ^ 32 - 1 - 2 < length (sack5_status x)"
    using sz n by (auto simp: v5_SubscribeAck_encoded_size_def Let_def)
  then have "n = 2 + length (sack5_status x) + ack_encoded_size (sack5_properties x) (sack5_reason_string x)
      (limit - (2 + length (sack5_status x)))"
    using sz by (auto simp: v5_SubscribeAck_encoded_size_def Let_def bindR_eq_Ok checked_sub_def split: if_splits)
  note b = status_ack_body [OF sareason.prim_enum_axioms x this n]
  show "snd (v5_SubscribeAck_encode x n) = Ok ()" "length (fst (v5_SubscribeAck_encode x n)) = n"
    "v5_SubscribeAck_decode u (fst (v5_SubscribeAck_encode x n)) = Ok (status_ack_trim x limit, [])"
    using b by (simp_all add: v5_SubscribeAck_encode_def v5_SubscribeAck_decode_def)
qed

interpretation unsuback5: encode_ltd "\<lambda>_. UNSUBACK" "\<lambda>_. v5_UnsubscribeAck_decode u" v5_UnsubscribeAck_encode
  v5_UnsubscribeAck_encoded_size "status_ack_ok u" status_ack_trim for u
proof
  fix x :: v5_UnsubscribeAck and limit n
  assume x: "status_ack_ok u x" and sz: "v5_UnsubscribeAck_encoded_size x limit = Ok n" and n: "n < 2 ^ 28"
  have "reduce_limit limit (2 + length (sack5_status x)) = limit - (2 + length (sack5_status x))"
    by (simp add: reduce_limit_def)
  then have "n = 2 + length (sack5_status x) + ack_encoded_size (sack5_properties x) (sack5_reason_string x)
      (limit - (2 + length (sack5_status x)))"
    using sz by (auto simp: v5_UnsubscribeAck_encoded_size_def Let_def)
  note b = status_ack_body [OF uareason.prim_enum_axioms x this n]
  show "snd (v5_UnsubscribeAck_encode x n) = Ok ()" "length (fst (v5_UnsubscribeAck_encode x n)) = n"
    "v5_UnsubscribeAck_decode u (fst (v5_UnsubscribeAck_encode x n)) = Ok (status_ack_trim x limit, [])"
    using b by (simp_all add: v5_UnsubscribeAck_encode_def v5_UnsubscribeAck_decode_def)
qed

lemma safe_status_acks [safe_intros]: "safe_reader (v5_SubscribeAck_decode u)" "safe_reader (v5_UnsubscribeAck_decode u)"
  unfolding v5_SubscribeAck_decode_def v5_UnsubscribeAck_decode_def by (intro safe_status_ack enum_try_from_not_Panic)+

section \<open>Packets whose properties end in diagnostics\<close>

text \<open>
  CONNACK, DISCONNECT and AUTH share the shape of their encoders: a header of fixed length, the
  length of the properties computed back from the announced size, the packet's own properties,
  and the diagnostic properties in what is left of the announced size.
\<close>

definition diag_packet_size :: "nat \<Rightarrow> nat \<Rightarrow> UserProperty list \<Rightarrow> bytes option \<Rightarrow> nat \<Rightarrow> nat" where
  "diag_packet_size header_len prop_len user_properties reason_string limit =
     (let diag_len = encoded_size_opt_props user_properties reason_string
            (reduce_limit limit (prop_len + header_len + 4));
          prop_len' = prop_len + diag_len in
      header_len + var_int_len prop_len' + prop_len')"

definition diag_packet_encode ::
    "nat \<Rightarrow> encoder \<Rightarrow> encoder \<Rightarrow> UserProperty list \<Rightarrow> bytes option \<Rightarrow> nat \<Rightarrow> encoder" where
  "diag_packet_encode header_len header props user_properties reason_string sz =
     eseq header
       (elift (bindR (checked_sub sz header_len) var_int_len_from_size) (\<lambda>prop_len.
          let written = length (fst (encs [header, write_variable_length prop_len, props])) in
          encs [write_variable_length prop_len, props,
                elift (checked_sub sz (as_u32 written)) (encode_opt_props user_properties reason_string)]))"

definition diag_fit :: "nat \<Rightarrow> nat \<Rightarrow> UserProperty list \<Rightarrow> bytes option \<Rightarrow> nat \<Rightarrow> UserProperty list \<times> bytes option" where
  "diag_fit header_len prop_len ups rs limit = fit_props ups rs (limit - (prop_len + header_len + 4))"

lemma diag_fit_ok: "diag_ok u (ups, rs) \<Longrightarrow> diag_ok u (diag_fit h p ups rs limit)"
  by (simp add: diag_fit_def fit_props_ok)

lemma diag_packet_body:
  assumes sz: "n = diag_packet_size h (length (fst props)) ups rs limit" "n < 2 ^ 28"
    and hd: "snd header = Ok ()" "length (fst header) = h" and pr: "snd props = Ok ()" and d: "diag_ok u (ups, rs)"
  defines "f \<equiv> diag_fit h (length (fst props)) ups rs limit"
  shows "diag_packet_encode h header props ups rs n =
      eok (fst header @ fst (write_variable_length (length (fst props @ fst (diag_encode f)))) @ fst props @ fst (diag_encode f))"
    and "length (fst (diag_packet_encode h header props ups rs n)) = n"
    and "length (fst props @ fst (diag_encode f)) < 2 ^ 28"
proof -
  let ?p = "length (fst props)" and ?m = "length (fst props @ fst (diag_encode f))"
  have ok: "diag_ok u f" using diag_fit_ok [OF d] by (simp add: f_def)
  have lf: "length (fst (diag_encode f)) = diag_size f" by (rule diag_encode_length [OF ok])
  have r: "reduce_limit limit (?p + h + 4) = limit - (?p + h + 4)" by (simp add: reduce_limit_def)
  have n1: "n = h + var_int_len ?m + ?m"
    using lf by (simp add: sz(1) diag_packet_size_def Let_def encoded_size_opt_props_eq r f_def diag_fit_def)
  then show m: "?m < 2 ^ 28" using sz(2) by simp
  then have n2: "n = h + (varint_len ?m + ?m)" using n1 var_int_len_eq [OF m] by simp
  have wl: "length (fst (write_variable_length ?m)) = varint_len ?m" "snd (write_variable_length ?m) = Ok ()"
    using m length_write_variable_length [of ?m] by (simp_all del: length_append)
  have opt: "encode_opt_props ups rs (length (fst (diag_encode f))) = diag_encode f"
    unfolding lf using encode_opt_props_fit [OF d] by (simp add: f_def diag_fit_def)
  have vl: "var_int_len_from_size (varint_len ?m + ?m) = Ok ?m" by (rule var_int_len_from_size_eq [OF m])
  have c1: "checked_sub n h = Ok (varint_len ?m + ?m)" by (simp add: checked_sub_def n2)
  have c2: "checked_sub n (as_u32 (length (fst header @ fst (write_variable_length ?m) @ fst props))) =
      (Ok (length (fst (diag_encode f))) :: (EncodeError, nat) res)"
  proof -
    have l: "length (fst header @ fst (write_variable_length ?m) @ fst props) = h + varint_len ?m + ?p"
      using wl hd by simp
    moreover have "h + varint_len ?m + ?p < 2 ^ 32" using sz(2) n2 by simp
    ultimately have "as_u32 (length (fst header @ fst (write_variable_length ?m) @ fst props)) = h + varint_len ?m + ?p"
      by (simp only: as_u32_id)
    then show ?thesis using n2 by (simp add: checked_sub_def)
  qed
  show w: "diag_packet_encode h header props ups rs n =
      eok (fst header @ fst (write_variable_length ?m) @ fst props @ fst (diag_encode f))"
    using c2 wl pr hd diag_encode_ok [OF ok]
    by (intro eok_eqI) (simp_all add: diag_packet_encode_def c1 vl Let_def opt del: length_append)
  show "length (fst (diag_packet_encode h header props ups rs n)) = n"
    unfolding w using wl hd n2 by simp
qed

section \<open>DISCONNECT\<close>

record v5_Disconnect =
  dis5_reason_code :: DisconnectReasonCode
  dis5_session_expiry_interval_secs :: "u32 option"
  dis5_server_reference :: "bytes option"
  dis5_reason_string :: "bytes option"
  dis5_user_properties :: "UserProperty list"

definition v5_Disconnect_new :: "DisconnectReasonCode \<Rightarrow> v5_Disconnect" where
  "v5_Disconnect_new reason_code = \<lparr>dis5_reason_code = reason_code, dis5_session_expiry_interval_secs = None,
     dis5_server_reference = None, dis5_reason_string = None, dis5_user_properties = []\<rparr>"

definition v5_Disconnect_default :: v5_Disconnect where
  "v5_Disconnect_default = v5_Disconnect_new DR_NormalDisconnection"

text \<open>The loop variables of the property parser are the fields of the packet under construction.\<close>

definition v5_disconnect_step :: "(bytes \<Rightarrow> bool) \<Rightarrow> v5_Disconnect \<Rightarrow> v5_Disconnect decoder" where
  "v5_disconnect_step u st =
     dbind get_u8 (\<lambda>prop_id.
       if prop_id = pt_SESS_EXPIRY_INT then
         dbind (read_value decode_u32 (dis5_session_expiry_interval_secs st))
           (\<lambda>v. dreturn (st\<lparr>dis5_session_expiry_interval_secs := v\<rparr>))
       else if prop_id = pt_REASON_STRING then
         dbind (read_value (decode_ByteString u) (dis5_reason_string st))
           (\<lambda>v. dreturn (st\<lparr>dis5_reason_string := v\<rparr>))
       else if prop_id = pt_USER then
         dbind (decode_UserProperty u)
           (\<lambda>p. dreturn (st\<lparr>dis5_user_properties := dis5_user_properties st @ [p]\<rparr>))
       else if prop_id = pt_SERVER_REF then
         dbind (read_value (decode_ByteString u) (dis5_server_reference st))
           (\<lambda>v. dreturn (st\<lparr>dis5_server_reference := v\<rparr>))
       else dlift (Err DE_MalformedPacket))"

definition v5_Disconnect_decode :: "(bytes \<Rightarrow> bool) \<Rightarrow> v5_Disconnect decoder" where
  "v5_Disconnect_decode u =
     dbind has_remaining (\<lambda>h.
       if h then
         dbind get_u8 (\<lambda>code.
         dbind (dlift (DisconnectReasonCode_try_from code)) (\<lambda>reason_code.
         dbind has_remaining (\<lambda>h2.
           if h2 then
             dbind take_properties (\<lambda>prop_src.
             dbind (within prop_src (while_remaining (v5_disconnect_step u) (v5_Disconnect_new reason_code))) (\<lambda>d.
             dbind has_remaining (\<lambda>h3. ensure (\<not> h3) DE_InvalidLength (dreturn d))))
           else dreturn (v5_Disconnect_default\<lparr>dis5_reason_code := reason_code\<rparr>))))
       else dreturn v5_Disconnect_default)"

definition v5_Disconnect_props_len :: "v5_Disconnect \<Rightarrow> nat" where
  "v5_Disconnect_props_len d =
     encoded_property_size encoded_size_u32 (dis5_session_expiry_interval_secs d)
     + encoded_property_size encoded_size_Bytes (dis5_server_reference d)"

definition v5_Disconnect_encoded_size :: "v5_Disconnect \<Rightarrow> nat \<Rightarrow> (EncodeError, nat) res" where
  "v5_Disconnect_encoded_size d limit =
     Ok (diag_packet_size 1 (v5_Disconnect_props_len d) (dis5_user_properties d) (dis5_reason_string d) limit)"

definition v5_Disconnect_props :: "v5_Disconnect \<Rightarrow> encoder" where
  "v5_Disconnect_props d =
     encs [encode_property encode_u32 (dis5_session_expiry_interval_secs d) pt_SESS_EXPIRY_INT,
           encode_property encode_Bytes (dis5_server_reference d) pt_SERVER_REF]"

definition v5_Disconnect_encode :: "v5_Disconnect \<Rightarrow> nat \<Rightarrow> encoder" where
  "v5_Disconnect_encode d sz =
     diag_packet_encode 1 (put_u8 (u8_from_DisconnectReasonCode (dis5_reason_code d))) (v5_Disconnect_props d)
       (dis5_user_properties d) (dis5_reason_string d) sz"

interpretation dis5: consuming "v5_disconnect_step u" for u
  unfolding v5_disconnect_step_def by (intro consuming_get_u8 safe_intros)

lemma safe_Disconnect [safe_intros]: "safe_reader (v5_Disconnect_decode u)"
  unfolding v5_Disconnect_decode_def
  by (intro safe_get_u8_if safe_intros safe_while dis5.consuming_axioms)

definition v5_Disconnect_ok :: "(bytes \<Rightarrow> bool) \<Rightarrow> v5_Disconnect \<Rightarrow> bool" where
  "v5_Disconnect_ok u d \<longleftrightarrow> pred_option (str_ok u) (dis5_server_reference d) \<and>
     diag_ok u (dis5_user_properties d, dis5_reason_string d)"

definition v5_Disconnect_trim :: "v5_Disconnect \<Rightarrow> nat \<Rightarrow> v5_Disconnect" where
  "v5_Disconnect_trim d limit =
     (let f = diag_fit 1 (v5_Disconnect_props_len d) (dis5_user_properties d) (dis5_reason_string d) limit in
      d\<lparr>dis5_user_properties := fst f, dis5_reason_string := snd f\<rparr>)"

lemma v5_disconnect_props_loop:
  assumes "v5_Disconnect_ok u d" and "diag_ok u f"
  shows "while_remaining (v5_disconnect_step u) (v5_Disconnect_new (dis5_reason_code d))
      (fst (v5_Disconnect_props d) @ fst (diag_encode f)) =
    Ok (d\<lparr>dis5_user_properties := fst f, dis5_reason_string := snd f\<rparr>, [])"
proof -
  note simps = v5_disconnect_step_def pt_defs wu32.read_value_enc wstr.read_value_enc wstr.read_value_enc_end field_enc field_dec
  have se: "dis5_session_expiry_interval_secs st = None \<Longrightarrow>
      while_remaining (v5_disconnect_step u) st (fst (encode_property encode_u32 v pt_SESS_EXPIRY_INT) @ r) =
      while_remaining (v5_disconnect_step u) (st\<lparr>dis5_session_expiry_interval_secs := v\<rparr>) r" for st v r
    by (rule dis5.loop_property) (auto simp: simps)
  have sr: "dis5_server_reference st = None \<Longrightarrow> pred_option (str_ok u) v \<Longrightarrow>
      while_remaining (v5_disconnect_step u) st (fst (encode_property encode_Bytes v pt_SERVER_REF) @ r) =
      while_remaining (v5_disconnect_step u) (st\<lparr>dis5_server_reference := v\<rparr>) r" for st v r
    by (rule dis5.loop_property) (auto simp: simps)
  have rs: "dis5_reason_string st = None \<Longrightarrow> pred_option (str_ok u) v \<Longrightarrow>
      while_remaining (v5_disconnect_step u) st (fst (encode_property encode_Bytes v pt_REASON_STRING)) =
      Ok (st\<lparr>dis5_reason_string := v\<rparr>, [])" for st v
    by (rule dis5.loop_property_end) (auto simp: simps)
  have fold: "foldl (\<lambda>st p. st\<lparr>dis5_user_properties := dis5_user_properties st @ [p]\<rparr>) st ps =
      st\<lparr>dis5_user_properties := dis5_user_properties st @ ps\<rparr>" for st ps
    by (induction ps arbitrary: st) simp_all
  have up: "list_all (uprop_ok u) ps \<Longrightarrow>
      while_remaining (v5_disconnect_step u) st (fst (encode_UserProperties ps) @ r) =
      while_remaining (v5_disconnect_step u) (st\<lparr>dis5_user_properties := dis5_user_properties st @ ps\<rparr>) r" for st ps r
    by (subst fold [symmetric], rule dis5.loop_user_properties) (auto simp: simps)
  have ok: "pred_option (str_ok u) (dis5_server_reference d)" "list_all (uprop_ok u) (fst f)" "pred_option (str_ok u) (snd f)"
    using assms by (simp_all add: v5_Disconnect_ok_def diag_ok_def)
  have bytes: "fst (v5_Disconnect_props d) @ fst (diag_encode f) =
      fst (encode_property encode_u32 (dis5_session_expiry_interval_secs d) pt_SESS_EXPIRY_INT) @
      fst (encode_property encode_Bytes (dis5_server_reference d) pt_SERVER_REF) @
      fst (encode_UserProperties (fst f)) @ fst (encode_property encode_Bytes (snd f) pt_REASON_STRING)"
    using ok by (simp add: v5_Disconnect_props_def diag_encode_bytes [OF assms(2)] property_ok)
  show ?thesis
    unfolding bytes using ok by (cases d) (simp add: se sr rs up v5_Disconnect_new_def)
qed

lemma take_properties_all:
  "length p < 2 ^ 28 \<Longrightarrow> take_properties (fst (write_variable_length (length p)) @ p) = Ok (p, [])"
  using take_properties_write [of p "[]"] by simp

lemma write_variable_length_nonempty: "n < 2 ^ 28 \<Longrightarrow> fst (write_variable_length n) \<noteq> []"
  using length_write_variable_length [of n] by (auto simp: varint_len_def split: if_splits)

interpretation disconnect5: encode_ltd "\<lambda>_. DISCONNECT" "\<lambda>_. v5_Disconnect_decode u" v5_Disconnect_encode
  v5_Disconnect_encoded_size "v5_Disconnect_ok u" v5_Disconnect_trim for u
proof
  fix x :: v5_Disconnect and limit n
  assume x: "v5_Disconnect_ok u x" and sz: "v5_Disconnect_encoded_size x limit = Ok n" and n: "n < 2 ^ 28"
  have pr: "snd (v5_Disconnect_props x) = Ok ()" "length (fst (v5_Disconnect_props x)) = v5_Disconnect_props_len x"
    using x by (auto simp: v5_Disconnect_ok_def v5_Disconnect_props_def v5_Disconnect_props_len_def property_ok property_length)
  have d: "diag_ok u (dis5_user_properties x, dis5_reason_string x)" using x by (simp add: v5_Disconnect_ok_def)
  let ?f = "diag_fit 1 (length (fst (v5_Disconnect_props x))) (dis5_user_properties x) (dis5_reason_string x) limit"
  have f: "diag_ok u ?f" by (rule diag_fit_ok [OF d])
  have "n = diag_packet_size 1 (length (fst (v5_Disconnect_props x))) (dis5_user_properties x) (dis5_reason_string x) limit"
    using sz pr(2) by (simp add: v5_Disconnect_encoded_size_def)
  note b = diag_packet_body [where header = "put_u8 (u8_from_DisconnectReasonCode (dis5_reason_code x))", OF this n _ _ pr(1) d]
  show "snd (v5_Disconnect_encode x n) = Ok ()" "length (fst (v5_Disconnect_encode x n)) = n"
    using b by (simp_all add: v5_Disconnect_encode_def)
  show "v5_Disconnect_decode u (fst (v5_Disconnect_encode x n)) = Ok (v5_Disconnect_trim x limit, [])"
    using b(1,3) take_properties_all [OF b(3)] write_variable_length_nonempty [OF b(3)] v5_disconnect_props_loop [OF x f]
    by (simp add: v5_Disconnect_encode_def v5_Disconnect_decode_def within_def v5_Disconnect_trim_def Let_def pr(2) del: length_append)
qed

section \<open>AUTH\<close>

record v5_Auth =
  auth5_reason_code :: AuthReasonCode
  auth5_auth_method :: "bytes option"
  auth5_auth_data :: "bytes option"
  auth5_reason_string :: "bytes option"
  auth5_user_properties :: "UserProperty list"

definition v5_Auth_default :: v5_Auth where
  "v5_Auth_default = \<lparr>auth5_reason_code = AR_Success, auth5_auth_method = None, auth5_auth_data = None,
     auth5_reason_string = None, auth5_user_properties = []\<rparr>"

definition v5_auth_step :: "(bytes \<Rightarrow> bool) \<Rightarrow> v5_Auth \<Rightarrow> v5_Auth decoder" where
  "v5_auth_step u st =
     dbind get_u8 (\<lambda>prop_id.
       if prop_id = pt_AUTH_METHOD then
         dbind (read_value (decode_ByteString u) (auth5_auth_method st))
           (\<lambda>v. dreturn (st\<lparr>auth5_auth_method := v\<rparr>))
       else if prop_id = pt_AUTH_DATA then
         dbind (read_value decode_Bytes (auth5_auth_data st))
           (\<lambda>v. dreturn (st\<lparr>auth5_auth_data := v\<rparr>))
       else if prop_id = pt_REASON_STRING then
         dbind (read_value (decode_ByteString u) (auth5_reason_string st))
           (\<lambda>v. dreturn (st\<lparr>auth5_reason_string := v\<rparr>))
       else if prop_id = pt_USER then
         dbind (decode_UserProperty u)
           (\<lambda>p. dreturn (st\<lparr>auth5_user_properties := auth5_user_properties st @ [p]\<rparr>))
       else dlift (Err DE_MalformedPacket))"

definition v5_Auth_decode :: "(bytes \<Rightarrow> bool) \<Rightarrow> v5_Auth decoder" where
  "v5_Auth_decode u =
     dbind has_remaining (\<lambda>h.
       if h then
         dbind get_u8 (\<lambda>code.
         dbind (dlift (AuthReasonCode_try_from code)) (\<lambda>reason_code.
         let st = v5_Auth_default\<lparr>auth5_reason_code := reason_code\<rparr> in
         dbind has_remaining (\<lambda>h2.
           if h2 then
             dbind has_remaining (\<lambda>h3.
               if reason_code \<noteq> AR_Success \<or> h3 then
                 dbind take_properties (\<lambda>prop_src.
                 dbind (within prop_src (while_remaining (v5_auth_step u) st)) (\<lambda>auth.
                 dbind has_remaining (\<lambda>h4. ensure (\<not> h4) DE_InvalidLength (dreturn auth))))
               else dreturn st)
           else dreturn st)))
       else dreturn v5_Auth_default)"

definition v5_Auth_props_len :: "v5_Auth \<Rightarrow> nat" where
  "v5_Auth_props_len a =
     encoded_property_size encoded_size_Bytes (auth5_auth_method a)
     + encoded_property_size encoded_size_Bytes (auth5_auth_data a)"

definition v5_Auth_encoded_size :: "v5_Auth \<Rightarrow> nat \<Rightarrow> (EncodeError, nat) res" where
  "v5_Auth_encoded_size a limit =
     Ok (diag_packet_size 1 (v5_Auth_props_len a) (auth5_user_properties a) (auth5_reason_string a) limit)"

definition v5_Auth_props :: "v5_Auth \<Rightarrow> encoder" where
  "v5_Auth_props a =
     encs [encode_property encode_Bytes (auth5_auth_method a) pt_AUTH_METHOD,
           encode_property encode_Bytes (auth5_auth_data a) pt_AUTH_DATA]"

definition v5_Auth_encode :: "v5_Auth \<Rightarrow> nat \<Rightarrow> encoder" where
  "v5_Auth_encode a sz =
     diag_packet_encode 1 (put_u8 (u8_from_AuthReasonCode (auth5_reason_code a))) (v5_Auth_props a)
       (auth5_user_properties a) (auth5_reason_string a) sz"

interpretation aut5: consuming "v5_auth_step u" for u
  unfolding v5_auth_step_def by (intro consuming_get_u8 safe_intros)

lemma safe_Auth [safe_intros]: "safe_reader (v5_Auth_decode u)"
  unfolding v5_Auth_decode_def Let_def
  by (intro safe_get_u8_if safe_intros safe_while aut5.consuming_axioms)

definition v5_Auth_ok :: "(bytes \<Rightarrow> bool) \<Rightarrow> v5_Auth \<Rightarrow> bool" where
  "v5_Auth_ok u a \<longleftrightarrow> pred_option (str_ok u) (auth5_auth_method a) \<and> pred_option bin_ok (auth5_auth_data a) \<and>
     diag_ok u (auth5_user_properties a, auth5_reason_string a)"

definition v5_Auth_trim :: "v5_Auth \<Rightarrow> nat \<Rightarrow> v5_Auth" where
  "v5_Auth_trim a limit =
     (let f = diag_fit 1 (v5_Auth_props_len a) (auth5_user_properties a) (auth5_reason_string a) limit in
      a\<lparr>auth5_user_properties := fst f, auth5_reason_string := snd f\<rparr>)"

lemma v5_auth_props_loop:
  assumes "v5_Auth_ok u a" and "diag_ok u f"
  shows "while_remaining (v5_auth_step u) (v5_Auth_default\<lparr>auth5_reason_code := auth5_reason_code a\<rparr>)
      (fst (v5_Auth_props a) @ fst (diag_encode f)) =
    Ok (a\<lparr>auth5_user_properties := fst f, auth5_reason_string := snd f\<rparr>, [])"
proof -
  note simps = v5_auth_step_def pt_defs wbytes.read_value_enc wstr.read_value_enc wstr.read_value_enc_end field_enc field_dec
  have am: "auth5_auth_method st = None \<Longrightarrow> pred_option (str_ok u) v \<Longrightarrow>
      while_remaining (v5_auth_step u) st (fst (encode_property encode_Bytes v pt_AUTH_METHOD) @ r) =
      while_remaining (v5_auth_step u) (st\<lparr>auth5_auth_method := v\<rparr>) r" for st v r
    by (rule aut5.loop_property) (auto simp: simps)
  have ad: "auth5_auth_data st = None \<Longrightarrow> pred_option bin_ok v \<Longrightarrow>
      while_remaining (v5_auth_step u) st (fst (encode_property encode_Bytes v pt_AUTH_DATA) @ r) =
      while_remaining (v5_auth_step u) (st\<lparr>auth5_auth_data := v\<rparr>) r" for st v r
    by (rule aut5.loop_property) (auto simp: simps)
  have rs: "auth5_reason_string st = None \<Longrightarrow> pred_option (str_ok u) v \<Longrightarrow>
      while_remaining (v5_auth_step u) st (fst (encode_property encode_Bytes v pt_REASON_STRING)) =
      Ok (st\<lparr>auth5_reason_string := v\<rparr>, [])" for st v
    by (rule aut5.loop_property_end) (auto simp: simps)
  have fold: "foldl (\<lambda>st p. st\<lparr>auth5_user_properties := auth5_user_properties st @ [p]\<rparr>) st ps =
      st\<lparr>auth5_user_properties := auth5_user_properties st @ ps\<rparr>" for st ps
    by (induction ps arbitrary: st) simp_all
  have up: "list_all (uprop_ok u) ps \<Longrightarrow>
      while_remaining (v5_auth_step u) st (fst (encode_UserProperties ps) @ r) =
      while_remaining (v5_auth_step u) (st\<lparr>auth5_user_properties := auth5_user_properties st @ ps\<rparr>) r" for st ps r
    by (subst fold [symmetric], rule aut5.loop_user_properties) (auto simp: simps)
  have ok: "pred_option (str_ok u) (auth5_auth_method a)" "pred_option bin_ok (auth5_auth_data a)"
    "list_all (uprop_ok u) (fst f)" "pred_option (str_ok u) (snd f)"
    using assms by (simp_all add: v5_Auth_ok_def diag_ok_def)
  have bytes: "fst (v5_Auth_props a) @ fst (diag_encode f) =
      fst (encode_property encode_Bytes (auth5_auth_method a) pt_AUTH_METHOD) @
      fst (encode_property encode_Bytes (auth5_auth_data a) pt_AUTH_DATA) @
      fst (encode_UserProperties (fst f)) @ fst (encode_property encode_Bytes (snd f) pt_REASON_STRING)"
    using ok by (simp add: v5_Auth_props_def diag_encode_bytes [OF assms(2)] property_ok)
  show ?thesis
    unfolding bytes using ok by (cases a) (simp add: am ad rs up v5_Auth_default_def)
qed

interpretation authp5: encode_ltd "\<lambda>_. AUTH" "\<lambda>_. v5_Auth_decode u" v5_Auth_encode
  v5_Auth_encoded_size "v5_Auth_ok u" v5_Auth_trim for u
proof
  fix x :: v5_Auth and limit n
  assume x: "v5_Auth_ok u x" and sz: "v5_Auth_encoded_size x limit = Ok n" and n: "n < 2 ^ 28"
  have pr: "snd (v5_Auth_props x) = Ok ()" "length (fst (v5_Auth_props x)) = v5_Auth_props_len x"
    using x by (auto simp: v5_Auth_ok_def v5_Auth_props_def v5_Auth_props_len_def property_ok property_length)
  have d: "diag_ok u (auth5_user_properties x, auth5_reason_string x)" using x by (simp add: v5_Auth_ok_def)
  let ?f = "diag_fit 1 (length (fst (v5_Auth_props x))) (auth5_user_properties x) (auth5_reason_string x) limit"
  have f: "diag_ok u ?f" by (rule diag_fit_ok [OF d])
  have "n = diag_packet_size 1 (length (fst (v5_Auth_props x))) (auth5_user_properties x) (auth5_reason_string x) limit"
    using sz pr(2) by (simp add: v5_Auth_encoded_size_def)
  note b = diag_packet_body [where header = "put_u8 (u8_from_AuthReasonCode (auth5_reason_code x))", OF this n _ _ pr(1) d]
  show "snd (v5_Auth_encode x n) = Ok ()" "length (fst (v5_Auth_encode x n)) = n"
    using b by (simp_all add: v5_Auth_encode_def)
  show "v5_Auth_decode u (fst (v5_Auth_encode x n)) = Ok (v5_Auth_trim x limit, [])"
    using b(1,3) take_properties_all [OF b(3)] write_variable_length_nonempty [OF b(3)] v5_auth_props_loop [OF x f]
    by (simp add: v5_Auth_encode_def v5_Auth_decode_def within_def v5_Auth_trim_def Let_def pr(2) del: length_append)
qed

end
