(* ===== verification/V5_Connack.thy ===== *)
theory V5_Connack
  imports V5_Acks
begin

text \<open>
  \<open>src/v5/codec/packet/connack.rs\<close>: the CONNACK packet. The variables of the property loop are a
  record of their own, since a property that was not sent has a default value in the packet.
\<close>

definition RECEIVE_MAX_DEFAULT :: u16 where "RECEIVE_MAX_DEFAULT = 65535"

record v5_ConnectAck =
  cack5_session_present :: bool
  cack5_reason_code :: ConnectAckReason
  cack5_session_expiry_interval_secs :: "u32 option"
  cack5_receive_max :: u16
  cack5_max_qos :: QoS
  cack5_max_packet_size :: "u32 option"
  cack5_assigned_client_id :: "bytes option"
  cack5_topic_alias_max :: u16
  cack5_retain_available :: bool
  cack5_wildcard_subscription_available :: bool
  cack5_subscription_identifiers_available :: bool
  cack5_shared_subscription_available :: bool
  cack5_server_keepalive_sec :: "u16 option"
  cack5_response_info :: "bytes option"
  cack5_server_reference :: "bytes option"
  cack5_auth_method :: "bytes option"
  cack5_auth_data :: "bytes option"
  cack5_reason_string :: "bytes option"
  cack5_user_properties :: "UserProperty list"

definition v5_ConnectAck_default :: v5_ConnectAck where
  "v5_ConnectAck_default = \<lparr>cack5_session_present = False, cack5_reason_code = CA_Success,
     cack5_session_expiry_interval_secs = None,
     cack5_receive_max = RECEIVE_MAX_DEFAULT,
     cack5_max_qos = ExactlyOnce,
     cack5_max_packet_size = None,
     cack5_assigned_client_id = None,
     cack5_topic_alias_max = 0,
     cack5_retain_available = True,
     cack5_wildcard_subscription_available = True,
     cack5_subscription_identifiers_available = True,
     cack5_shared_subscription_available = True,
     cack5_server_keepalive_sec = None,
     cack5_response_info = None,
     cack5_server_reference = None,
     cack5_auth_method = None,
     cack5_auth_data = None,
     cack5_reason_string = None,
     cack5_user_properties = []\<rparr>"

text \<open>The local variables of the property loop.\<close>

record v5_ConnAckLocals =
  cal_session_expiry_interval_secs :: "u32 option"
  cal_receive_max :: "u16 option"
  cal_max_qos :: "QoS option"
  cal_retain_available :: "bool option"
  cal_max_packet_size :: "u32 option"
  cal_assigned_client_id :: "bytes option"
  cal_topic_alias_max :: "u16 option"
  cal_reason_string :: "bytes option"
  cal_user_properties :: "UserProperty list"
  cal_wildcard_sub_avail :: "bool option"
  cal_sub_ids_avail :: "bool option"
  cal_shared_sub_avail :: "bool option"
  cal_server_ka_sec :: "u16 option"
  cal_response_info :: "bytes option"
  cal_server_reference :: "bytes option"
  cal_auth_method :: "bytes option"
  cal_auth_data :: "bytes option"

definition cal_init :: v5_ConnAckLocals where
  "cal_init = \<lparr>cal_session_expiry_interval_secs = None,
     cal_receive_max = None,
     cal_max_qos = None,
     cal_retain_available = None,
     cal_max_packet_size = None,
     cal_assigned_client_id = None,
     cal_topic_alias_max = None,
     cal_reason_string = None,
     cal_user_properties = [],
     cal_wildcard_sub_avail = None,
     cal_sub_ids_avail = None,
     cal_shared_sub_avail = None,
     cal_server_ka_sec = None,
     cal_response_info = None,
     cal_server_reference = None,
     cal_auth_method = None,
     cal_auth_data = None\<rparr>"

definition v5_connack_step :: "(bytes \<Rightarrow> bool) \<Rightarrow> v5_ConnAckLocals \<Rightarrow> v5_ConnAckLocals decoder" where
  "v5_connack_step u st =
     dbind get_u8 (\<lambda>prop_id.
       if prop_id = pt_SESS_EXPIRY_INT then
         dbind (read_value decode_u32 (cal_session_expiry_interval_secs st)) (\<lambda>v. dreturn (st\<lparr>cal_session_expiry_interval_secs := v\<rparr>))
       else if prop_id = pt_RECEIVE_MAX then
         dbind (read_value decode_NonZeroU16 (cal_receive_max st)) (\<lambda>v. dreturn (st\<lparr>cal_receive_max := v\<rparr>))
       else if prop_id = pt_MAX_QOS then
         ensure (cal_max_qos st = None) DE_MalformedPacket (
         dbind has_remaining (\<lambda>h. ensure h DE_InvalidLength (
         dbind get_u8 (\<lambda>b.
         dbind (dlift (QoS_try_from b)) (\<lambda>q. dreturn (st\<lparr>cal_max_qos := Some q\<rparr>))))))
       else if prop_id = pt_RETAIN_AVAIL then
         dbind (read_value decode_bool (cal_retain_available st)) (\<lambda>v. dreturn (st\<lparr>cal_retain_available := v\<rparr>))
       else if prop_id = pt_MAX_PACKET_SIZE then
         dbind (read_value decode_u32 (cal_max_packet_size st)) (\<lambda>v. dreturn (st\<lparr>cal_max_packet_size := v\<rparr>))
       else if prop_id = pt_ASSND_CLIENT_ID then
         dbind (read_value (decode_ByteString u) (cal_assigned_client_id st)) (\<lambda>v. dreturn (st\<lparr>cal_assigned_client_id := v\<rparr>))
       else if prop_id = pt_TOPIC_ALIAS_MAX then
         dbind (read_value decode_u16 (cal_topic_alias_max st)) (\<lambda>v. dreturn (st\<lparr>cal_topic_alias_max := v\<rparr>))
       else if prop_id = pt_REASON_STRING then
         dbind (read_value (decode_ByteString u) (cal_reason_string st)) (\<lambda>v. dreturn (st\<lparr>cal_reason_string := v\<rparr>))
       else if prop_id = pt_USER then
         dbind (decode_UserProperty u) (\<lambda>p. dreturn (st\<lparr>cal_user_properties := cal_user_properties st @ [p]\<rparr>))
       else if prop_id = pt_WILDCARD_SUB_AVAIL then
         dbind (read_value decode_bool (cal_wildcard_sub_avail st)) (\<lambda>v. dreturn (st\<lparr>cal_wildcard_sub_avail := v\<rparr>))
       else if prop_id = pt_SUB_IDS_AVAIL then
         dbind (read_value decode_bool (cal_sub_ids_avail st)) (\<lambda>v. dreturn (st\<lparr>cal_sub_ids_avail := v\<rparr>))
       else if prop_id = pt_SHARED_SUB_AVAIL then
         dbind (read_value decode_bool (cal_shared_sub_avail st)) (\<lambda>v. dreturn (st\<lparr>cal_shared_sub_avail := v\<rparr>))
       else if prop_id = pt_SERVER_KA then
         dbind (read_value decode_u16 (cal_server_ka_sec st)) (\<lambda>v. dreturn (st\<lparr>cal_server_ka_sec := v\<rparr>))
       else if prop_id = pt_RESP_INFO then
         dbind (read_value (decode_ByteString u) (cal_response_info st)) (\<lambda>v. dreturn (st\<lparr>cal_response_info := v\<rparr>))
       else if prop_id = pt_SERVER_REF then
         dbind (read_value (decode_ByteString u) (cal_server_reference st)) (\<lambda>v. dreturn (st\<lparr>cal_server_reference := v\<rparr>))
       else if prop_id = pt_AUTH_METHOD then
         dbind (read_value (decode_ByteString u) (cal_auth_method st)) (\<lambda>v. dreturn (st\<lparr>cal_auth_method := v\<rparr>))
       else if prop_id = pt_AUTH_DATA then
         dbind (read_value decode_Bytes (cal_auth_data st)) (\<lambda>v. dreturn (st\<lparr>cal_auth_data := v\<rparr>))
       else dlift (Err DE_MalformedPacket))"

definition cal_packet :: "bool \<Rightarrow> ConnectAckReason \<Rightarrow> v5_ConnAckLocals \<Rightarrow> v5_ConnectAck" where
  "cal_packet session_present reason_code st = \<lparr>cack5_session_present = session_present, cack5_reason_code = reason_code,
     cack5_session_expiry_interval_secs = cal_session_expiry_interval_secs st,
     cack5_receive_max = unwrap_or (cal_receive_max st) RECEIVE_MAX_DEFAULT,
     cack5_max_qos = unwrap_or (cal_max_qos st) ExactlyOnce,
     cack5_max_packet_size = cal_max_packet_size st,
     cack5_assigned_client_id = cal_assigned_client_id st,
     cack5_topic_alias_max = unwrap_or (cal_topic_alias_max st) 0,
     cack5_retain_available = unwrap_or (cal_retain_available st) True,
     cack5_wildcard_subscription_available = unwrap_or (cal_wildcard_sub_avail st) True,
     cack5_subscription_identifiers_available = unwrap_or (cal_sub_ids_avail st) True,
     cack5_shared_subscription_available = unwrap_or (cal_shared_sub_avail st) True,
     cack5_server_keepalive_sec = cal_server_ka_sec st,
     cack5_response_info = cal_response_info st,
     cack5_server_reference = cal_server_reference st,
     cack5_auth_method = cal_auth_method st,
     cack5_auth_data = cal_auth_data st,
     cack5_reason_string = cal_reason_string st,
     cack5_user_properties = cal_user_properties st\<rparr>"

definition v5_ConnectAck_decode :: "(bytes \<Rightarrow> bool) \<Rightarrow> v5_ConnectAck decoder" where
  "v5_ConnectAck_decode u =
     dbind remaining (\<lambda>n. ensure (2 \<le> n) DE_InvalidLength (
     dbind get_u8 (\<lambda>bits.
     dbind (dlift (ok_or (flags_from_bits CAF_SESSION_PRESENT bits) ConnAckReservedFlagSet)) (\<lambda>flags.
     dbind get_u8 (\<lambda>code.
     dbind (dlift (ConnectAckReason_try_from code)) (\<lambda>reason_code.
     dbind take_properties (\<lambda>prop_src.
     dbind (within prop_src (while_remaining (v5_connack_step u) cal_init)) (\<lambda>st.
     dbind has_remaining (\<lambda>h. ensure (\<not> h) DE_InvalidLength (
     dreturn (cal_packet (flags_contains flags CAF_SESSION_PRESENT) reason_code st)))))))))))"

definition v5_ConnectAck_props_len :: "v5_ConnectAck \<Rightarrow> nat" where
  "v5_ConnectAck_props_len a =
     encoded_property_size encoded_size_u32 (cack5_session_expiry_interval_secs a)
     + encoded_property_size_default encoded_size_u16 (cack5_receive_max a) RECEIVE_MAX_DEFAULT
     + (if cack5_max_qos a < ExactlyOnce then 1 + 1 else 0)
     + encoded_property_size encoded_size_u32 (cack5_max_packet_size a)
     + encoded_property_size encoded_size_Bytes (cack5_assigned_client_id a)
     + encoded_property_size_default encoded_size_bool (cack5_retain_available a) True
     + encoded_property_size_default encoded_size_bool (cack5_wildcard_subscription_available a) True
     + encoded_property_size_default encoded_size_bool (cack5_subscription_identifiers_available a) True
     + encoded_property_size_default encoded_size_bool (cack5_shared_subscription_available a) True
     + encoded_property_size encoded_size_u16 (cack5_server_keepalive_sec a)
     + encoded_property_size encoded_size_Bytes (cack5_response_info a)
     + encoded_property_size encoded_size_Bytes (cack5_server_reference a)
     + encoded_property_size encoded_size_Bytes (cack5_auth_method a)
     + encoded_property_size encoded_size_Bytes (cack5_auth_data a)
     + (if 0 < cack5_topic_alias_max a then 1 + encoded_size_u16 (cack5_topic_alias_max a) else 0)"

definition v5_ConnectAck_encoded_size :: "v5_ConnectAck \<Rightarrow> nat \<Rightarrow> (EncodeError, nat) res" where
  "v5_ConnectAck_encoded_size a limit =
     Ok (diag_packet_size 2 (v5_ConnectAck_props_len a) (cack5_user_properties a) (cack5_reason_string a) limit)"

definition encode_max_qos :: "QoS \<Rightarrow> encoder" where
  "encode_max_qos q = (if q < ExactlyOnce then put_slice [pt_MAX_QOS, u8_from_QoS q] else eok [])"

definition v5_ConnectAck_props :: "v5_ConnectAck \<Rightarrow> encoder" where
  "v5_ConnectAck_props a =
     encs [encode_property encode_u32 (cack5_session_expiry_interval_secs a) pt_SESS_EXPIRY_INT,
           encode_property_default encode_u16 (cack5_receive_max a) RECEIVE_MAX_DEFAULT pt_RECEIVE_MAX,
           encode_max_qos (cack5_max_qos a),
           encode_property_default encode_bool (cack5_retain_available a) True pt_RETAIN_AVAIL,
           encode_property encode_u32 (cack5_max_packet_size a) pt_MAX_PACKET_SIZE,
           encode_property encode_Bytes (cack5_assigned_client_id a) pt_ASSND_CLIENT_ID,
           encode_property_default encode_u16 (cack5_topic_alias_max a) 0 pt_TOPIC_ALIAS_MAX,
           encode_property_default encode_bool (cack5_wildcard_subscription_available a) True pt_WILDCARD_SUB_AVAIL,
           encode_property_default encode_bool (cack5_subscription_identifiers_available a) True pt_SUB_IDS_AVAIL,
           encode_property_default encode_bool (cack5_shared_subscription_available a) True pt_SHARED_SUB_AVAIL,
           encode_property encode_u16 (cack5_server_keepalive_sec a) pt_SERVER_KA,
           encode_property encode_Bytes (cack5_response_info a) pt_RESP_INFO,
           encode_property encode_Bytes (cack5_server_reference a) pt_SERVER_REF,
           encode_property encode_Bytes (cack5_auth_method a) pt_AUTH_METHOD,
           encode_property encode_Bytes (cack5_auth_data a) pt_AUTH_DATA]"

definition v5_ConnectAck_encode :: "v5_ConnectAck \<Rightarrow> nat \<Rightarrow> encoder" where
  "v5_ConnectAck_encode a sz =
     diag_packet_encode 2
       (put_slice [of_bool (cack5_session_present a), u8_from_ConnectAckReason (cack5_reason_code a)])
       (v5_ConnectAck_props a) (cack5_user_properties a) (cack5_reason_string a) sz"

section \<open>Decoding inverts encoding\<close>

interpretation cal5: consuming "v5_connack_step u" for u
  unfolding v5_connack_step_def by (intro consuming_get_u8 safe_get_u8_ensure safe_intros)

lemma safe_ConnectAck [safe_intros]: "safe_reader (v5_ConnectAck_decode u)"
  unfolding v5_ConnectAck_decode_def
  by (intro safe_two_bytes safe_intros safe_while cal5.consuming_axioms) simp

definition v5_ConnectAck_ok :: "(bytes \<Rightarrow> bool) \<Rightarrow> v5_ConnectAck \<Rightarrow> bool" where
  "v5_ConnectAck_ok u a \<longleftrightarrow> cack5_receive_max a \<noteq> 0 \<and> pred_option (str_ok u) (cack5_assigned_client_id a) \<and>
     pred_option (str_ok u) (cack5_response_info a) \<and> pred_option (str_ok u) (cack5_server_reference a) \<and>
     pred_option (str_ok u) (cack5_auth_method a) \<and> pred_option bin_ok (cack5_auth_data a) \<and>
     diag_ok u (cack5_user_properties a, cack5_reason_string a)"

definition v5_ConnectAck_trim :: "v5_ConnectAck \<Rightarrow> nat \<Rightarrow> v5_ConnectAck" where
  "v5_ConnectAck_trim a limit =
     (let f = diag_fit 2 (v5_ConnectAck_props_len a) (cack5_user_properties a) (cack5_reason_string a) limit in
      a\<lparr>cack5_user_properties := fst f, cack5_reason_string := snd f\<rparr>)"

text \<open>The loop variables after all properties of a packet have been read.\<close>

definition cal_of :: "v5_ConnectAck \<Rightarrow> UserProperty list \<times> bytes option \<Rightarrow> v5_ConnAckLocals" where
  "cal_of a f = \<lparr>cal_session_expiry_interval_secs = cack5_session_expiry_interval_secs a,
     cal_receive_max = (if cack5_receive_max a = RECEIVE_MAX_DEFAULT then None else Some (cack5_receive_max a)),
     cal_max_qos = (if cack5_max_qos a < ExactlyOnce then Some (cack5_max_qos a) else None),
     cal_retain_available = (if cack5_retain_available a = True then None else Some (cack5_retain_available a)),
     cal_max_packet_size = cack5_max_packet_size a,
     cal_assigned_client_id = cack5_assigned_client_id a,
     cal_topic_alias_max = (if cack5_topic_alias_max a = 0 then None else Some (cack5_topic_alias_max a)),
     cal_reason_string = snd f,
     cal_user_properties = fst f,
     cal_wildcard_sub_avail = (if cack5_wildcard_subscription_available a = True then None else Some (cack5_wildcard_subscription_available a)),
     cal_sub_ids_avail = (if cack5_subscription_identifiers_available a = True then None else Some (cack5_subscription_identifiers_available a)),
     cal_shared_sub_avail = (if cack5_shared_subscription_available a = True then None else Some (cack5_shared_subscription_available a)),
     cal_server_ka_sec = cack5_server_keepalive_sec a,
     cal_response_info = cack5_response_info a,
     cal_server_reference = cack5_server_reference a,
     cal_auth_method = cack5_auth_method a,
     cal_auth_data = cack5_auth_data a\<rparr>"

lemma cal_packet_of:
  "cal_packet (cack5_session_present a) (cack5_reason_code a) (cal_of a f) =
     a\<lparr>cack5_user_properties := fst f, cack5_reason_string := snd f\<rparr>"
proof -
  have q: "\<not> q < ExactlyOnce \<Longrightarrow> q = ExactlyOnce" for q :: QoS by (cases q) (simp_all add: less_QoS_def)
  have q2: "unwrap_or (if q < ExactlyOnce then Some q else None) ExactlyOnce = q" for q using q by (auto simp: unwrap_or_def)
  have d: "unwrap_or (if v = d then None else Some v) d = v" for v d by (auto simp: unwrap_or_def)
  show ?thesis
    by (simp only: cal_packet_def cal_of_def v5_ConnAckLocals.simps q2 d) (cases a, simp)
qed

lemma v5_connack_props_loop:
  assumes "v5_ConnectAck_ok u a" and "diag_ok u f"
  shows "while_remaining (v5_connack_step u) cal_init (fst (v5_ConnectAck_props a) @ fst (diag_encode f)) = Ok (cal_of a f, [])"
proof -
  note simps = v5_connack_step_def pt_defs wu16.read_value_enc wu32.read_value_enc wbool.read_value_enc
    wnz16.read_value_enc wstr.read_value_enc wstr.read_value_enc_end wbytes.read_value_enc field_enc field_dec
  have p0: "cal_session_expiry_interval_secs st = None \<Longrightarrow> while_remaining (v5_connack_step u) st (fst (encode_property encode_u32 v pt_SESS_EXPIRY_INT) @ r) =
      while_remaining (v5_connack_step u) (st\<lparr>cal_session_expiry_interval_secs := v\<rparr>) r" for st v r
    by (rule cal5.loop_property) (auto simp: simps)
  have p1: "cal_receive_max st = None \<Longrightarrow> v \<noteq> 0 \<Longrightarrow> while_remaining (v5_connack_step u) st (fst (encode_property_default encode_u16 v RECEIVE_MAX_DEFAULT pt_RECEIVE_MAX) @ r) =
      while_remaining (v5_connack_step u) (st\<lparr>cal_receive_max := (if v = RECEIVE_MAX_DEFAULT then None else Some v)\<rparr>) r" for st v r
    by (rule cal5.loop_property_default) (auto simp: simps)
  have p2: "cal_max_qos st = None \<Longrightarrow> while_remaining (v5_connack_step u) st (fst (encode_max_qos v) @ r) =
      while_remaining (v5_connack_step u) (st\<lparr>cal_max_qos := (if v < ExactlyOnce then Some v else None)\<rparr>) r" for st v r
  proof (cases "v < ExactlyOnce")
    case False
    assume "cal_max_qos st = None"
    then have "st\<lparr>cal_max_qos := None\<rparr> = st" by simp
    then show ?thesis using False by (simp add: encode_max_qos_def)
  qed (use cal5.loop_block [of u st "[pt_MAX_QOS, u8_from_QoS v]" r "st\<lparr>cal_max_qos := Some v\<rparr>"]
      in \<open>simp add: encode_max_qos_def simps\<close>)
  have p3: "cal_retain_available st = None \<Longrightarrow> while_remaining (v5_connack_step u) st (fst (encode_property_default encode_bool v True pt_RETAIN_AVAIL) @ r) =
      while_remaining (v5_connack_step u) (st\<lparr>cal_retain_available := (if v = True then None else Some v)\<rparr>) r" for st v r
    by (rule cal5.loop_property_default) (auto simp: simps)
  have p4: "cal_max_packet_size st = None \<Longrightarrow> while_remaining (v5_connack_step u) st (fst (encode_property encode_u32 v pt_MAX_PACKET_SIZE) @ r) =
      while_remaining (v5_connack_step u) (st\<lparr>cal_max_packet_size := v\<rparr>) r" for st v r
    by (rule cal5.loop_property) (auto simp: simps)
  have p5: "cal_assigned_client_id st = None \<Longrightarrow> pred_option (str_ok u) v \<Longrightarrow>
      while_remaining (v5_connack_step u) st (fst (encode_property encode_Bytes v pt_ASSND_CLIENT_ID) @ r) =
      while_remaining (v5_connack_step u) (st\<lparr>cal_assigned_client_id := v\<rparr>) r" for st v r
    by (rule cal5.loop_property) (auto simp: simps)
  have p6: "cal_topic_alias_max st = None \<Longrightarrow> while_remaining (v5_connack_step u) st (fst (encode_property_default encode_u16 v 0 pt_TOPIC_ALIAS_MAX) @ r) =
      while_remaining (v5_connack_step u) (st\<lparr>cal_topic_alias_max := (if v = 0 then None else Some v)\<rparr>) r" for st v r
    by (rule cal5.loop_property_default) (auto simp: simps)
  have p7: "cal_wildcard_sub_avail st = None \<Longrightarrow> while_remaining (v5_connack_step u) st (fst (encode_property_default encode_bool v True pt_WILDCARD_SUB_AVAIL) @ r) =
      while_remaining (v5_connack_step u) (st\<lparr>cal_wildcard_sub_avail := (if v = True then None else Some v)\<rparr>) r" for st v r
    by (rule cal5.loop_property_default) (auto simp: simps)
  have p8: "cal_sub_ids_avail st = None \<Longrightarrow> while_remaining (v5_connack_step u) st (fst (encode_property_default encode_bool v True pt_SUB_IDS_AVAIL) @ r) =
      while_remaining (v5_connack_step u) (st\<lparr>cal_sub_ids_avail := (if v = True then None else Some v)\<rparr>) r" for st v r
    by (rule cal5.loop_property_default) (auto simp: simps)
  have p9: "cal_shared_sub_avail st = None \<Longrightarrow> while_remaining (v5_connack_step u) st (fst (encode_property_default encode_bool v True pt_SHARED_SUB_AVAIL) @ r) =
      while_remaining (v5_connack_step u) (st\<lparr>cal_shared_sub_avail := (if v = True then None else Some v)\<rparr>) r" for st v r
    by (rule cal5.loop_property_default) (auto simp: simps)
  have p10: "cal_server_ka_sec st = None \<Longrightarrow> while_remaining (v5_connack_step u) st (fst (encode_property encode_u16 v pt_SERVER_KA) @ r) =
      while_remaining (v5_connack_step u) (st\<lparr>cal_server_ka_sec := v\<rparr>) r" for st v r
    by (rule cal5.loop_property) (auto simp: simps)
  have p11: "cal_response_info st = None \<Longrightarrow> pred_option (str_ok u) v \<Longrightarrow>
      while_remaining (v5_connack_step u) st (fst (encode_property encode_Bytes v pt_RESP_INFO) @ r) =
      while_remaining (v5_connack_step u) (st\<lparr>cal_response_info := v\<rparr>) r" for st v r
    by (rule cal5.loop_property) (auto simp: simps)
  have p12: "cal_server_reference st = None \<Longrightarrow> pred_option (str_ok u) v \<Longrightarrow>
      while_remaining (v5_connack_step u) st (fst (encode_property encode_Bytes v pt_SERVER_REF) @ r) =
      while_remaining (v5_connack_step u) (st\<lparr>cal_server_reference := v\<rparr>) r" for st v r
    by (rule cal5.loop_property) (auto simp: simps)
  have p13: "cal_auth_method st = None \<Longrightarrow> pred_option (str_ok u) v \<Longrightarrow>
      while_remaining (v5_connack_step u) st (fst (encode_property encode_Bytes v pt_AUTH_METHOD) @ r) =
      while_remaining (v5_connack_step u) (st\<lparr>cal_auth_method := v\<rparr>) r" for st v r
    by (rule cal5.loop_property) (auto simp: simps)
  have p14: "cal_auth_data st = None \<Longrightarrow> pred_option bin_ok v \<Longrightarrow>
      while_remaining (v5_connack_step u) st (fst (encode_property encode_Bytes v pt_AUTH_DATA) @ r) =
      while_remaining (v5_connack_step u) (st\<lparr>cal_auth_data := v\<rparr>) r" for st v r
    by (rule cal5.loop_property) (auto simp: simps)
  have rs: "cal_reason_string st = None \<Longrightarrow> pred_option (str_ok u) v \<Longrightarrow>
      while_remaining (v5_connack_step u) st (fst (encode_property encode_Bytes v pt_REASON_STRING)) =
      Ok (st\<lparr>cal_reason_string := v\<rparr>, [])" for st v
    by (rule cal5.loop_property_end) (auto simp: simps)
  have fold: "foldl (\<lambda>st p. st\<lparr>cal_user_properties := cal_user_properties st @ [p]\<rparr>) st ps =
      st\<lparr>cal_user_properties := cal_user_properties st @ ps\<rparr>" for st ps
    by (induction ps arbitrary: st) simp_all
  have up: "list_all (uprop_ok u) ps \<Longrightarrow>
      while_remaining (v5_connack_step u) st (fst (encode_UserProperties ps) @ r) =
      while_remaining (v5_connack_step u) (st\<lparr>cal_user_properties := cal_user_properties st @ ps\<rparr>) r" for st ps r
    by (subst fold [symmetric], rule cal5.loop_user_properties) (auto simp: simps)
  have q: "snd (encode_max_qos v) = Ok ()" for v by (simp add: encode_max_qos_def)
  have ok: "cack5_receive_max a \<noteq> 0" "pred_option (str_ok u) (cack5_assigned_client_id a)"
     "pred_option (str_ok u) (cack5_response_info a)" "pred_option (str_ok u) (cack5_server_reference a)"
     "pred_option (str_ok u) (cack5_auth_method a)" "pred_option bin_ok (cack5_auth_data a)"
     "list_all (uprop_ok u) (fst f)" "pred_option (str_ok u) (snd f)"
    using assms by (simp_all add: v5_ConnectAck_ok_def diag_ok_def)
  show ?thesis
    using ok by (simp add: v5_ConnectAck_props_def diag_encode_bytes [OF assms(2)] property_ok q
      p0 p1 p2 p3 p4 p5 p6 p7 p8 p9 p10 p11 p12 p13 p14 rs up cal_init_def cal_of_def)
qed

lemma v5_ConnectAck_props_ok:
  assumes "v5_ConnectAck_ok u a"
  shows "snd (v5_ConnectAck_props a) = Ok ()" and "length (fst (v5_ConnectAck_props a)) = v5_ConnectAck_props_len a"
proof -
  have q: "snd (encode_max_qos v) = Ok ()" "length (fst (encode_max_qos v)) = (if v < ExactlyOnce then 1 + 1 else 0)" for v
    by (simp_all add: encode_max_qos_def)
  have ok: "cack5_receive_max a \<noteq> 0" "pred_option (str_ok u) (cack5_assigned_client_id a)"
     "pred_option (str_ok u) (cack5_response_info a)" "pred_option (str_ok u) (cack5_server_reference a)"
     "pred_option (str_ok u) (cack5_auth_method a)" "pred_option bin_ok (cack5_auth_data a)"
    using assms by (simp_all add: v5_ConnectAck_ok_def)
  show "snd (v5_ConnectAck_props a) = Ok ()"
    using ok by (simp add: v5_ConnectAck_props_def property_ok q)
  have t: "(if 0 < w then 1 + encoded_size_u16 w else 0) = encoded_property_size_default encoded_size_u16 w 0" for w
    by (simp add: encoded_property_size_default_def word_greater_zero_iff)
  show "length (fst (v5_ConnectAck_props a)) = v5_ConnectAck_props_len a"
    using ok by (simp add: v5_ConnectAck_props_def v5_ConnectAck_props_len_def property_ok property_length q t del: One_nat_def)
qed

interpretation connack5: encode_ltd "\<lambda>_. CONNACK" "\<lambda>_. v5_ConnectAck_decode u" v5_ConnectAck_encode
  v5_ConnectAck_encoded_size "v5_ConnectAck_ok u" v5_ConnectAck_trim for u
proof
  fix x :: v5_ConnectAck and limit n
  assume x: "v5_ConnectAck_ok u x" and sz: "v5_ConnectAck_encoded_size x limit = Ok n" and n: "n < 2 ^ 28"
  note pr = v5_ConnectAck_props_ok [OF x]
  have d: "diag_ok u (cack5_user_properties x, cack5_reason_string x)" using x by (simp add: v5_ConnectAck_ok_def)
  let ?f = "diag_fit 2 (length (fst (v5_ConnectAck_props x))) (cack5_user_properties x) (cack5_reason_string x) limit"
  have f: "diag_ok u ?f" by (rule diag_fit_ok [OF d])
  have "n = diag_packet_size 2 (length (fst (v5_ConnectAck_props x))) (cack5_user_properties x) (cack5_reason_string x) limit"
    using sz pr(2) by (simp add: v5_ConnectAck_encoded_size_def)
  note b = diag_packet_body [where header = "put_slice [of_bool (cack5_session_present x), u8_from_ConnectAckReason (cack5_reason_code x)]",
      OF this n _ _ pr(1) d]
  have fl: "flags_from_bits CAF_SESSION_PRESENT (of_bool q) = Some (of_bool q)"
    "flags_contains (of_bool q) CAF_SESSION_PRESENT = q" for q
    by (cases q; simp add: flags_from_bits_def flags_contains_def flag_defs)+
  show "snd (v5_ConnectAck_encode x n) = Ok ()" "length (fst (v5_ConnectAck_encode x n)) = n"
    using b by (simp_all add: v5_ConnectAck_encode_def)
  show "v5_ConnectAck_decode u (fst (v5_ConnectAck_encode x n)) = Ok (v5_ConnectAck_trim x limit, [])"
    using b(1,3) take_properties_all [OF b(3)] v5_connack_props_loop [OF x f] fl
    by (simp add: v5_ConnectAck_encode_def v5_ConnectAck_decode_def within_def v5_ConnectAck_trim_def Let_def pr(2)
      cal_packet_of del: length_append of_bool_eq_0_iff)
qed

end
