(* ===== verification/V5_Connect.thy ===== *)
theory V5_Connect
  imports V5_Connack
begin

text \<open>
  \<open>src/v5/codec/packet/connect.rs\<close>: the CONNECT packet with its last will.
\<close>

record v5_LastWill =
  will5_qos :: QoS
  will5_retain :: bool
  will5_topic :: bytes
  will5_message :: bytes
  will5_will_delay_interval_sec :: "u32 option"
  will5_correlation_data :: "bytes option"
  will5_message_expiry_interval :: "u32 option"
  will5_content_type :: "bytes option"
  will5_user_properties :: "UserProperty list"
  will5_is_utf8_payload :: "bool option"
  will5_response_topic :: "bytes option"

record v5_Connect =
  con5_clean_start :: bool
  con5_keep_alive :: u16
  con5_session_expiry_interval_secs :: u32
  con5_auth_method :: "bytes option"
  con5_auth_data :: "bytes option"
  con5_request_problem_info :: bool
  con5_request_response_info :: bool
  con5_receive_max :: "u16 option"
  con5_topic_alias_max :: u16
  con5_user_properties :: "UserProperty list"
  con5_max_packet_size :: "u32 option"
  con5_last_will :: "v5_LastWill option"
  con5_client_id :: bytes
  con5_username :: "bytes option"
  con5_password :: "bytes option"

definition v5_Connect_default :: v5_Connect where
  "v5_Connect_default = \<lparr>con5_clean_start = False, con5_keep_alive = 0, con5_session_expiry_interval_secs = 0,
     con5_auth_method = None, con5_auth_data = None, con5_request_problem_info = True,
     con5_request_response_info = False, con5_receive_max = None, con5_topic_alias_max = 0,
     con5_user_properties = [], con5_max_packet_size = None, con5_last_will = None, con5_client_id = [],
     con5_username = None, con5_password = None\<rparr>"

definition v5_Connect_client_id :: "bytes \<Rightarrow> v5_Connect \<Rightarrow> v5_Connect" where
  "v5_Connect_client_id client_id c = c\<lparr>con5_client_id := client_id\<rparr>"

definition v5_Connect_receive_max :: "u16 \<Rightarrow> v5_Connect \<Rightarrow> v5_Connect" where
  "v5_Connect_receive_max mx c =
     (case NonZero_new mx of Some num \<Rightarrow> c\<lparr>con5_receive_max := Some num\<rparr> | None \<Rightarrow> c\<lparr>con5_receive_max := None\<rparr>)"

section \<open>Decoding\<close>

text \<open>The local variables of the two property loops.\<close>

record v5_ConnectLocals =
  cl_session_expiry_interval_secs :: "u32 option"
  cl_auth_method :: "bytes option"
  cl_auth_data :: "bytes option"
  cl_request_problem_info :: "bool option"
  cl_request_response_info :: "bool option"
  cl_receive_max :: "u16 option"
  cl_topic_alias_max :: "u16 option"
  cl_user_properties :: "UserProperty list"
  cl_max_packet_size :: "u32 option"

definition cl_init :: v5_ConnectLocals where
  "cl_init = \<lparr>cl_session_expiry_interval_secs = None,
     cl_auth_method = None,
     cl_auth_data = None,
     cl_request_problem_info = None,
     cl_request_response_info = None,
     cl_receive_max = None,
     cl_topic_alias_max = None,
     cl_user_properties = [],
     cl_max_packet_size = None\<rparr>"

record v5_WillLocals =
  wl_will_delay_interval_sec :: "u32 option"
  wl_correlation_data :: "bytes option"
  wl_message_expiry_interval :: "u32 option"
  wl_content_type :: "bytes option"
  wl_is_utf8_payload :: "bool option"
  wl_response_topic :: "bytes option"
  wl_user_properties :: "UserProperty list"

definition wl_init :: v5_WillLocals where
  "wl_init = \<lparr>wl_will_delay_interval_sec = None,
     wl_correlation_data = None,
     wl_message_expiry_interval = None,
     wl_content_type = None,
     wl_is_utf8_payload = None,
     wl_response_topic = None,
     wl_user_properties = []\<rparr>"

definition v5_connect_step :: "(bytes \<Rightarrow> bool) \<Rightarrow> v5_ConnectLocals \<Rightarrow> v5_ConnectLocals decoder" where
  "v5_connect_step u st =
     dbind get_u8 (\<lambda>prop_id.
       if prop_id = pt_SESS_EXPIRY_INT then
         dbind (read_value decode_u32 (cl_session_expiry_interval_secs st)) (\<lambda>v. dreturn (st\<lparr>cl_session_expiry_interval_secs := v\<rparr>))
       else if prop_id = pt_AUTH_METHOD then
         dbind (read_value (decode_ByteString u) (cl_auth_method st)) (\<lambda>v. dreturn (st\<lparr>cl_auth_method := v\<rparr>))
       else if prop_id = pt_AUTH_DATA then
         dbind (read_value decode_Bytes (cl_auth_data st)) (\<lambda>v. dreturn (st\<lparr>cl_auth_data := v\<rparr>))
       else if prop_id = pt_REQ_PROB_INFO then
         dbind (read_value decode_bool (cl_request_problem_info st)) (\<lambda>v. dreturn (st\<lparr>cl_request_problem_info := v\<rparr>))
       else if prop_id = pt_REQ_RESP_INFO then
         dbind (read_value decode_bool (cl_request_response_info st)) (\<lambda>v. dreturn (st\<lparr>cl_request_response_info := v\<rparr>))
       else if prop_id = pt_RECEIVE_MAX then
         dbind (read_value decode_NonZeroU16 (cl_receive_max st)) (\<lambda>v. dreturn (st\<lparr>cl_receive_max := v\<rparr>))
       else if prop_id = pt_TOPIC_ALIAS_MAX then
         dbind (read_value decode_u16 (cl_topic_alias_max st)) (\<lambda>v. dreturn (st\<lparr>cl_topic_alias_max := v\<rparr>))
       else if prop_id = pt_USER then
         dbind (decode_UserProperty u) (\<lambda>p. dreturn (st\<lparr>cl_user_properties := cl_user_properties st @ [p]\<rparr>))
       else if prop_id = pt_MAX_PACKET_SIZE then
         dbind (read_value decode_NonZeroU32 (cl_max_packet_size st)) (\<lambda>v. dreturn (st\<lparr>cl_max_packet_size := v\<rparr>))
       else dlift (Err DE_MalformedPacket))"

definition v5_will_step :: "(bytes \<Rightarrow> bool) \<Rightarrow> v5_WillLocals \<Rightarrow> v5_WillLocals decoder" where
  "v5_will_step u st =
     dbind get_u8 (\<lambda>prop_id.
       if prop_id = pt_WILL_DELAY_INT then
         dbind (read_value decode_u32 (wl_will_delay_interval_sec st)) (\<lambda>v. dreturn (st\<lparr>wl_will_delay_interval_sec := v\<rparr>))
       else if prop_id = pt_CORR_DATA then
         dbind (read_value decode_Bytes (wl_correlation_data st)) (\<lambda>v. dreturn (st\<lparr>wl_correlation_data := v\<rparr>))
       else if prop_id = pt_MSG_EXPIRY_INT then
         dbind (read_value decode_NonZeroU32 (wl_message_expiry_interval st)) (\<lambda>v. dreturn (st\<lparr>wl_message_expiry_interval := v\<rparr>))
       else if prop_id = pt_CONTENT_TYPE then
         dbind (read_value (decode_ByteString u) (wl_content_type st)) (\<lambda>v. dreturn (st\<lparr>wl_content_type := v\<rparr>))
       else if prop_id = pt_UTF8_PAYLOAD then
         dbind (read_value decode_bool (wl_is_utf8_payload st)) (\<lambda>v. dreturn (st\<lparr>wl_is_utf8_payload := v\<rparr>))
       else if prop_id = pt_RESP_TOPIC then
         dbind (read_value (decode_ByteString u) (wl_response_topic st)) (\<lambda>v. dreturn (st\<lparr>wl_response_topic := v\<rparr>))
       else if prop_id = pt_USER then
         dbind (decode_UserProperty u) (\<lambda>p. dreturn (st\<lparr>wl_user_properties := wl_user_properties st @ [p]\<rparr>))
       else dlift (Err DE_MalformedPacket))"

definition v5_decode_last_will :: "(bytes \<Rightarrow> bool) \<Rightarrow> u8 \<Rightarrow> v5_LastWill decoder" where
  "v5_decode_last_will u flags =
     dbind take_properties (\<lambda>prop_src.
     dbind (within prop_src (while_remaining (v5_will_step u) wl_init)) (\<lambda>st.
     dbind (decode_ByteString u) (\<lambda>topic.
     dbind decode_Bytes (\<lambda>message.
     dbind (dlift (QoS_try_from (will_qos_bits flags))) (\<lambda>qos.
     dreturn \<lparr>will5_qos = qos, will5_retain = flags_contains flags CF_WILL_RETAIN,
       will5_topic = topic, will5_message = message,
       will5_will_delay_interval_sec = wl_will_delay_interval_sec st,
       will5_correlation_data = wl_correlation_data st,
       will5_message_expiry_interval = wl_message_expiry_interval st,
       will5_content_type = wl_content_type st, will5_user_properties = wl_user_properties st,
       will5_is_utf8_payload = wl_is_utf8_payload st, will5_response_topic = wl_response_topic st\<rparr>)))))"

text \<open>The fixed part of \<open>Connect::decode\<close>: flags and keep-alive.\<close>

definition v5_connect_header :: "(u8 \<times> u16) decoder" where
  "v5_connect_header =
     dbind remaining (\<lambda>n. ensure (10 \<le> n) DE_InvalidLength (
     dbind get_u16 (\<lambda>len.
     dbind (peek 4) (\<lambda>name. ensure (len = 4 \<and> name = MQTT) InvalidProtocol (
     dbind (split_to 4) (\<lambda>_.
     dbind get_u8 (\<lambda>level. ensure (level = MQTT_LEVEL_5) UnsupportedProtocolLevel (
     dbind get_u8 (\<lambda>bits.
     dbind (dlift (ok_or (flags_from_bits ConnectFlags_all bits) ConnectReservedFlagSet)) (\<lambda>flags.
     dbind get_u16 (\<lambda>keep_alive.
     dreturn (flags, keep_alive))))))))))))"

definition v5_Connect_decode :: "(bytes \<Rightarrow> bool) \<Rightarrow> v5_Connect decoder" where
  "v5_Connect_decode u =
     dbind v5_connect_header (\<lambda>hdr. let flags = fst hdr; keep_alive = snd hdr in
     dbind take_properties (\<lambda>prop_src.
     dbind (within prop_src (while_remaining (v5_connect_step u) cl_init)) (\<lambda>st.
     dbind (decode_ByteString u) (\<lambda>client_id.
     ensure (client_id \<noteq> [] \<or> flags_contains flags CF_CLEAN_START) InvalidClientId (
     dbind (decode_flagged (flags_contains flags CF_WILL) (v5_decode_last_will u flags)) (\<lambda>last_will.
     dbind (decode_flagged (flags_contains flags CF_USERNAME) (decode_ByteString u)) (\<lambda>username.
     dbind (decode_flagged (flags_contains flags CF_PASSWORD) decode_Bytes) (\<lambda>password.
     dreturn \<lparr>con5_clean_start = flags_contains flags CF_CLEAN_START, con5_keep_alive = keep_alive,
       con5_session_expiry_interval_secs = unwrap_or (cl_session_expiry_interval_secs st) 0,
       con5_auth_method = cl_auth_method st, con5_auth_data = cl_auth_data st,
       con5_request_problem_info = unwrap_or (cl_request_problem_info st) True,
       con5_request_response_info = unwrap_or (cl_request_response_info st) False,
       con5_receive_max = cl_receive_max st, con5_topic_alias_max = unwrap_or (cl_topic_alias_max st) 0,
       con5_user_properties = cl_user_properties st, con5_max_packet_size = cl_max_packet_size st,
       con5_last_will = last_will, con5_client_id = client_id, con5_username = username,
       con5_password = password\<rparr>))))))))"

section \<open>Encoding\<close>

definition v5_will_properties_len :: "v5_LastWill \<Rightarrow> nat" where
  "v5_will_properties_len w =
     encoded_property_size encoded_size_u32 (will5_will_delay_interval_sec w)
     + encoded_property_size encoded_size_Bytes (will5_correlation_data w)
     + encoded_property_size encoded_size_u32 (will5_message_expiry_interval w)
     + encoded_property_size encoded_size_Bytes (will5_content_type w)
     + encoded_property_size encoded_size_bool (will5_is_utf8_payload w)
     + encoded_property_size encoded_size_Bytes (will5_response_topic w)
     + encoded_size_UserProperties (will5_user_properties w)"

definition v5_connect_properties_len :: "v5_Connect \<Rightarrow> nat" where
  "v5_connect_properties_len c =
     encoded_property_size encoded_size_Bytes (con5_auth_method c)
     + encoded_property_size encoded_size_Bytes (con5_auth_data c)
     + encoded_property_size_default encoded_size_u32 (con5_session_expiry_interval_secs c) 0
     + encoded_property_size_default encoded_size_bool (con5_request_problem_info c) True
     + encoded_property_size_default encoded_size_bool (con5_request_response_info c) False
     + encoded_property_size encoded_size_u16 (con5_receive_max c)
     + encoded_property_size encoded_size_u32 (con5_max_packet_size c)
     + encoded_property_size_default encoded_size_u16 (con5_topic_alias_max c) 0
     + encoded_size_UserProperties (con5_user_properties c)"

definition v5_Connect_encoded_size :: "v5_Connect \<Rightarrow> nat \<Rightarrow> (EncodeError, nat) res" where
  "v5_Connect_encoded_size c limit =
     (let prop_len = v5_connect_properties_len c in
      Ok (6 + 1 + 1 + 2 + var_int_len prop_len + prop_len + encoded_size_Bytes (con5_client_id c)
        + (case con5_last_will c of None \<Rightarrow> 0
           | Some will \<Rightarrow> (let prop_len = v5_will_properties_len will in
               var_int_len prop_len + prop_len + encoded_size_Bytes (will5_topic will)
               + encoded_size_Bytes (will5_message will)))
        + (case con5_username c of None \<Rightarrow> 0 | Some v \<Rightarrow> encoded_size_Bytes v)
        + (case con5_password c of None \<Rightarrow> 0 | Some v \<Rightarrow> encoded_size_Bytes v)))"

definition v5_will_props :: "v5_LastWill \<Rightarrow> encoder" where
  "v5_will_props will =
     encs [encode_property encode_u32 (will5_will_delay_interval_sec will) pt_WILL_DELAY_INT,
           encode_property encode_bool (will5_is_utf8_payload will) pt_UTF8_PAYLOAD,
           encode_property encode_u32 (will5_message_expiry_interval will) pt_MSG_EXPIRY_INT,
           encode_property encode_Bytes (will5_content_type will) pt_CONTENT_TYPE,
           encode_property encode_Bytes (will5_response_topic will) pt_RESP_TOPIC,
           encode_property encode_Bytes (will5_correlation_data will) pt_CORR_DATA,
           encode_UserProperties (will5_user_properties will)]"

definition v5_connect_props :: "v5_Connect \<Rightarrow> encoder" where
  "v5_connect_props c =
     encs [encode_property_default encode_u32 (con5_session_expiry_interval_secs c) 0 pt_SESS_EXPIRY_INT,
           encode_property encode_Bytes (con5_auth_method c) pt_AUTH_METHOD,
           encode_property encode_Bytes (con5_auth_data c) pt_AUTH_DATA,
           encode_property_default encode_bool (con5_request_problem_info c) True pt_REQ_PROB_INFO,
           encode_property_default encode_bool (con5_request_response_info c) False pt_REQ_RESP_INFO,
           encode_property encode_u16 (con5_receive_max c) pt_RECEIVE_MAX,
           encode_property encode_u32 (con5_max_packet_size c) pt_MAX_PACKET_SIZE,
           encode_property_default encode_u16 (con5_topic_alias_max c) 0 pt_TOPIC_ALIAS_MAX,
           encode_UserProperties (con5_user_properties c)]"

definition v5_encode_will :: "v5_LastWill \<Rightarrow> encoder" where
  "v5_encode_will will =
     encs [write_variable_length (as_u32 (v5_will_properties_len will)), v5_will_props will,
           encode_Bytes (will5_topic will), encode_Bytes (will5_message will)]"

definition v5_Connect_encode :: "v5_Connect \<Rightarrow> nat \<Rightarrow> encoder" where
  "v5_Connect_encode c sz =
     encs [encode_Bytes MQTT,
           put_slice [MQTT_LEVEL_5,
             connect_flags (con5_username c \<noteq> None) (con5_password c \<noteq> None)
               (map_option (\<lambda>w. (will5_qos w, will5_retain w)) (con5_last_will c)) (con5_clean_start c)],
           encode_u16 (con5_keep_alive c),
           write_variable_length (as_u32 (v5_connect_properties_len c)), v5_connect_props c,
           encode_Bytes (con5_client_id c),
           encode_opt v5_encode_will (con5_last_will c),
           encode_opt encode_Bytes (con5_username c),
           encode_opt encode_Bytes (con5_password c)]"

section \<open>Decoding inverts encoding\<close>

interpretation cl5: consuming "v5_connect_step u" for u
  unfolding v5_connect_step_def by (intro consuming_get_u8 safe_intros)

interpretation wl5: consuming "v5_will_step u" for u
  unfolding v5_will_step_def by (intro consuming_get_u8 safe_intros)

lemma safe_connect_header [safe_intros]: "safe_reader v5_connect_header"
proof (rule safe_readerI)
  show "v5_connect_header s \<noteq> Panic" for s
  proof (cases "10 \<le> length s")
    case True
    then obtain a b c d e f g h i j r where "s = a # b # c # d # e # f # g # h # i # j # r" by (rule ten_bytes)
    then show ?thesis by (auto simp: v5_connect_header_def peek_def split_to_def bindR_eq_Panic bindR_eq_Ok split: if_splits)
  qed (simp add: v5_connect_header_def)
  show "length r \<le> length s" if "v5_connect_header s = Ok (x, r)" for s x r
    using that
    by (auto simp: v5_connect_header_def peek_def bindR_eq_Ok get_u8_eq_Ok get_u16_eq_Ok split_to_eq_Ok split: if_splits)
qed

lemma safe_Connect [safe_intros]: "safe_reader (v5_Connect_decode u)"
  unfolding v5_Connect_decode_def v5_decode_last_will_def Let_def
  by (intro safe_intros safe_while cl5.consuming_axioms wl5.consuming_axioms)

definition v5_LastWill_ok :: "(bytes \<Rightarrow> bool) \<Rightarrow> v5_LastWill \<Rightarrow> bool" where
  "v5_LastWill_ok u w \<longleftrightarrow> str_ok u (will5_topic w) \<and> bin_ok (will5_message w) \<and>
     pred_option (\<lambda>w. w \<noteq> 0) (will5_message_expiry_interval w) \<and>
     pred_option (str_ok u) (will5_content_type w) \<and>
     pred_option (str_ok u) (will5_response_topic w) \<and>
     pred_option bin_ok (will5_correlation_data w) \<and>
     list_all (uprop_ok u) (will5_user_properties w)"

definition v5_Connect_ok :: "(bytes \<Rightarrow> bool) \<Rightarrow> v5_Connect \<Rightarrow> bool" where
  "v5_Connect_ok u c \<longleftrightarrow> str_ok u (con5_client_id c) \<and> (con5_client_id c \<noteq> [] \<or> con5_clean_start c) \<and>
     pred_option (str_ok u) (con5_auth_method c) \<and>
     pred_option bin_ok (con5_auth_data c) \<and>
     pred_option (\<lambda>w. w \<noteq> 0) (con5_receive_max c) \<and>
     pred_option (\<lambda>w. w \<noteq> 0) (con5_max_packet_size c) \<and>
     list_all (uprop_ok u) (con5_user_properties c) \<and> pred_option (v5_LastWill_ok u) (con5_last_will c) \<and>
     pred_option (str_ok u) (con5_username c) \<and> pred_option bin_ok (con5_password c)"

definition wl_of :: "v5_LastWill \<Rightarrow> v5_WillLocals" where
  "wl_of w = \<lparr>wl_will_delay_interval_sec = will5_will_delay_interval_sec w,
     wl_correlation_data = will5_correlation_data w,
     wl_message_expiry_interval = will5_message_expiry_interval w,
     wl_content_type = will5_content_type w,
     wl_is_utf8_payload = will5_is_utf8_payload w,
     wl_response_topic = will5_response_topic w,
     wl_user_properties = will5_user_properties w\<rparr>"

lemma v5_will_step_loop:
  assumes "v5_LastWill_ok u w"
  shows "while_remaining (v5_will_step u) wl_init (fst (v5_will_props w)) = Ok (wl_of w, [])"
proof -
  note simps = v5_will_step_def pt_defs wu16.read_value_enc wu32.read_value_enc wbool.read_value_enc
    wnz16.read_value_enc wnz32.read_value_enc wstr.read_value_enc wbytes.read_value_enc field_enc field_dec
  have p0: "wl_will_delay_interval_sec st = None \<Longrightarrow> while_remaining (v5_will_step u) st (fst (encode_property encode_u32 v pt_WILL_DELAY_INT) @ r) =
      while_remaining (v5_will_step u) (st\<lparr>wl_will_delay_interval_sec := v\<rparr>) r" for st v r
    by (rule wl5.loop_property) (auto simp: simps)
  have p1: "wl_is_utf8_payload st = None \<Longrightarrow> while_remaining (v5_will_step u) st (fst (encode_property encode_bool v pt_UTF8_PAYLOAD) @ r) =
      while_remaining (v5_will_step u) (st\<lparr>wl_is_utf8_payload := v\<rparr>) r" for st v r
    by (rule wl5.loop_property) (auto simp: simps)
  have p2: "wl_message_expiry_interval st = None \<Longrightarrow> pred_option (\<lambda>w. w \<noteq> 0) v \<Longrightarrow>
      while_remaining (v5_will_step u) st (fst (encode_property encode_u32 v pt_MSG_EXPIRY_INT) @ r) =
      while_remaining (v5_will_step u) (st\<lparr>wl_message_expiry_interval := v\<rparr>) r" for st v r
    by (rule wl5.loop_property) (auto simp: simps)
  have p3: "wl_content_type st = None \<Longrightarrow> pred_option (str_ok u) v \<Longrightarrow>
      while_remaining (v5_will_step u) st (fst (encode_property encode_Bytes v pt_CONTENT_TYPE) @ r) =
      while_remaining (v5_will_step u) (st\<lparr>wl_content_type := v\<rparr>) r" for st v r
    by (rule wl5.loop_property) (auto simp: simps)
  have p4: "wl_response_topic st = None \<Longrightarrow> pred_option (str_ok u) v \<Longrightarrow>
      while_remaining (v5_will_step u) st (fst (encode_property encode_Bytes v pt_RESP_TOPIC) @ r) =
      while_remaining (v5_will_step u) (st\<lparr>wl_response_topic := v\<rparr>) r" for st v r
    by (rule wl5.loop_property) (auto simp: simps)
  have p5: "wl_correlation_data st = None \<Longrightarrow> pred_option bin_ok v \<Longrightarrow>
      while_remaining (v5_will_step u) st (fst (encode_property encode_Bytes v pt_CORR_DATA) @ r) =
      while_remaining (v5_will_step u) (st\<lparr>wl_correlation_data := v\<rparr>) r" for st v r
    by (rule wl5.loop_property) (auto simp: simps)
  have fold: "foldl (\<lambda>st p. st\<lparr>wl_user_properties := wl_user_properties st @ [p]\<rparr>) st ps =
      st\<lparr>wl_user_properties := wl_user_properties st @ ps\<rparr>" for st ps
    by (induction ps arbitrary: st) simp_all
  have up: "list_all (uprop_ok u) ps \<Longrightarrow>
      while_remaining (v5_will_step u) st (fst (encode_UserProperties ps)) =
      Ok (st\<lparr>wl_user_properties := wl_user_properties st @ ps\<rparr>, [])" for st ps
    by (subst fold [symmetric], rule wl5.loop_user_properties_end) (auto simp: simps)
  show ?thesis
    using assms unfolding v5_LastWill_ok_def by (elim conjE) (simp add: v5_will_props_def property_ok encode_UserProperties_ok p0 p1 p2 p3 p4 p5 up wl_init_def wl_of_def)
qed

lemma v5_will_props_ok:
  assumes "v5_LastWill_ok u w"
  shows "snd (v5_will_props w) = Ok ()" and "length (fst (v5_will_props w)) = v5_will_properties_len w"
  using assms
  by (auto simp: v5_LastWill_ok_def v5_will_props_def v5_will_properties_len_def property_ok property_length encode_UserProperties_ok encode_UserProperties_length)


definition cl_of :: "v5_Connect \<Rightarrow> v5_ConnectLocals" where
  "cl_of c = \<lparr>cl_session_expiry_interval_secs = (if con5_session_expiry_interval_secs c = 0 then None else Some (con5_session_expiry_interval_secs c)),
     cl_auth_method = con5_auth_method c,
     cl_auth_data = con5_auth_data c,
     cl_request_problem_info = (if con5_request_problem_info c = True then None else Some (con5_request_problem_info c)),
     cl_request_response_info = (if con5_request_response_info c = False then None else Some (con5_request_response_info c)),
     cl_receive_max = con5_receive_max c,
     cl_topic_alias_max = (if con5_topic_alias_max c = 0 then None else Some (con5_topic_alias_max c)),
     cl_user_properties = con5_user_properties c,
     cl_max_packet_size = con5_max_packet_size c\<rparr>"

lemma v5_connect_step_loop:
  assumes "v5_Connect_ok u c"
  shows "while_remaining (v5_connect_step u) cl_init (fst (v5_connect_props c)) = Ok (cl_of c, [])"
proof -
  note simps = v5_connect_step_def pt_defs wu16.read_value_enc wu32.read_value_enc wbool.read_value_enc
    wnz16.read_value_enc wnz32.read_value_enc wstr.read_value_enc wbytes.read_value_enc field_enc field_dec
  have p0: "cl_session_expiry_interval_secs st = None \<Longrightarrow> while_remaining (v5_connect_step u) st (fst (encode_property_default encode_u32 v 0 pt_SESS_EXPIRY_INT) @ r) =
      while_remaining (v5_connect_step u) (st\<lparr>cl_session_expiry_interval_secs := (if v = 0 then None else Some v)\<rparr>) r" for st v r
    by (rule cl5.loop_property_default) (auto simp: simps)
  have p1: "cl_auth_method st = None \<Longrightarrow> pred_option (str_ok u) v \<Longrightarrow>
      while_remaining (v5_connect_step u) st (fst (encode_property encode_Bytes v pt_AUTH_METHOD) @ r) =
      while_remaining (v5_connect_step u) (st\<lparr>cl_auth_method := v\<rparr>) r" for st v r
    by (rule cl5.loop_property) (auto simp: simps)
  have p2: "cl_auth_data st = None \<Longrightarrow> pred_option bin_ok v \<Longrightarrow>
      while_remaining (v5_connect_step u) st (fst (encode_property encode_Bytes v pt_AUTH_DATA) @ r) =
      while_remaining (v5_connect_step u) (st\<lparr>cl_auth_data := v\<rparr>) r" for st v r
    by (rule cl5.loop_property) (auto simp: simps)
  have p3: "cl_request_problem_info st = None \<Longrightarrow> while_remaining (v5_connect_step u) st (fst (encode_property_default encode_bool v True pt_REQ_PROB_INFO) @ r) =
      while_remaining (v5_connect_step u) (st\<lparr>cl_request_problem_info := (if v = True then None else Some v)\<rparr>) r" for st v r
    by (rule cl5.loop_property_default) (auto simp: simps)
  have p4: "cl_request_response_info st = None \<Longrightarrow> while_remaining (v5_connect_step u) st (fst (encode_property_default encode_bool v False pt_REQ_RESP_INFO) @ r) =
      while_remaining (v5_connect_step u) (st\<lparr>cl_request_response_info := (if v = False then None else Some v)\<rparr>) r" for st v r
    by (rule cl5.loop_property_default) (auto simp: simps)
  have p5: "cl_receive_max st = None \<Longrightarrow> pred_option (\<lambda>w. w \<noteq> 0) v \<Longrightarrow>
      while_remaining (v5_connect_step u) st (fst (encode_property encode_u16 v pt_RECEIVE_MAX) @ r) =
      while_remaining (v5_connect_step u) (st\<lparr>cl_receive_max := v\<rparr>) r" for st v r
    by (rule cl5.loop_property) (auto simp: simps)
  have p6: "cl_max_packet_size st = None \<Longrightarrow> pred_option (\<lambda>w. w \<noteq> 0) v \<Longrightarrow>
      while_remaining (v5_connect_step u) st (fst (encode_property encode_u32 v pt_MAX_PACKET_SIZE) @ r) =
      while_remaining (v5_connect_step u) (st\<lparr>cl_max_packet_size := v\<rparr>) r" for st v r
    by (rule cl5.loop_property) (auto simp: simps)
  have p7: "cl_topic_alias_max st = None \<Longrightarrow> while_remaining (v5_connect_step u) st (fst (encode_property_default encode_u16 v 0 pt_TOPIC_ALIAS_MAX) @ r) =
      while_remaining (v5_connect_step u) (st\<lparr>cl_topic_alias_max := (if v = 0 then None else Some v)\<rparr>) r" for st v r
    by (rule cl5.loop_property_default) (auto simp: simps)
  have fold: "foldl (\<lambda>st p. st\<lparr>cl_user_properties := cl_user_properties st @ [p]\<rparr>) st ps =
      st\<lparr>cl_user_properties := cl_user_properties st @ ps\<rparr>" for st ps
    by (induction ps arbitrary: st) simp_all
  have up: "list_all (uprop_ok u) ps \<Longrightarrow>
      while_remaining (v5_connect_step u) st (fst (encode_UserProperties ps)) =
      Ok (st\<lparr>cl_user_properties := cl_user_properties st @ ps\<rparr>, [])" for st ps
    by (subst fold [symmetric], rule cl5.loop_user_properties_end) (auto simp: simps)
  show ?thesis
    using assms unfolding v5_Connect_ok_def by (elim conjE) (simp add: v5_connect_props_def property_ok encode_UserProperties_ok p0 p1 p2 p3 p4 p5 p6 p7 up cl_init_def cl_of_def)
qed

lemma v5_connect_props_ok:
  assumes "v5_Connect_ok u c"
  shows "snd (v5_connect_props c) = Ok ()" and "length (fst (v5_connect_props c)) = v5_connect_properties_len c"
  using assms
  by (auto simp: v5_Connect_ok_def v5_connect_props_def v5_connect_properties_len_def property_ok property_length encode_UserProperties_ok encode_UserProperties_length)


lemma v5_will_roundtrip:
  assumes "v5_LastWill_ok u w" and "v5_will_properties_len w < 2 ^ 28"
    and "flags_contains flags CF_WILL_RETAIN = will5_retain w" and "QoS_try_from (will_qos_bits flags) = Ok (will5_qos w)"
  shows "snd (v5_encode_will w) = Ok ()"
    and "length (fst (v5_encode_will w)) = varint_len (v5_will_properties_len w) + v5_will_properties_len w +
      encoded_size_Bytes (will5_topic w) + encoded_size_Bytes (will5_message w)"
    and "v5_decode_last_will u flags (fst (v5_encode_will w) @ r) = Ok (w, r)"
proof -
  note pr = v5_will_props_ok [OF assms(1)]
  have f: "str_ok u (will5_topic w)" "bin_ok (will5_message w)" using assms(1) by (simp_all add: v5_LastWill_ok_def)
  have l: "snd (write_variable_length (v5_will_properties_len w)) = Ok ()"
    "length (fst (write_variable_length (v5_will_properties_len w))) = varint_len (v5_will_properties_len w)"
    "as_u32 (v5_will_properties_len w) = v5_will_properties_len w"
    using assms(2) length_write_variable_length [of "v5_will_properties_len w"] by simp_all
  have e: "v5_encode_will w = eok (fst (write_variable_length (length (fst (v5_will_props w)))) @ fst (v5_will_props w) @
      fst (encode_Bytes (will5_topic w)) @ fst (encode_Bytes (will5_message w)))"
    using pr l f by (intro eok_eqI) (simp_all add: v5_encode_will_def field_enc)
  show "snd (v5_encode_will w) = Ok ()" by (simp add: e)
  show "length (fst (v5_encode_will w)) = varint_len (v5_will_properties_len w) + v5_will_properties_len w +
      encoded_size_Bytes (will5_topic w) + encoded_size_Bytes (will5_message w)"
    unfolding e using pr l f by (simp add: field_enc)
  have p: "length (fst (v5_will_props w)) \<le> 268435455" using pr(2) assms(2) by simp
  show "v5_decode_last_will u flags (fst (v5_encode_will w) @ r) = Ok (w, r)"
    using f assms(3,4)
    by (simp add: e v5_decode_last_will_def take_properties_write [OF p] within_def v5_will_step_loop [OF assms(1)] field_dec)
      (simp add: wl_of_def)
qed

lemma v5_connect_header_read:
  "v5_connect_header (fst (encode_Bytes MQTT) @ [MQTT_LEVEL_5, connect_flags us pw w cl] @ fst (encode_u16 ka) @ r) =
     Ok ((connect_flags us pw w cl, ka), r)"
proof -
  have name: "split_to 4 (0x4D # 0x51 # 0x54 # 0x54 # s) = Ok (MQTT, s)"
    "peek 4 (0x4D # 0x51 # 0x54 # 0x54 # s) = Ok (MQTT, 0x4D # 0x51 # 0x54 # 0x54 # s)" for s
    by (simp_all add: split_to_def peek_def MQTT_def)
  show ?thesis
    by (simp add: v5_connect_header_def MQTT_header name connect_flags_simps(1) encode_u16_def)
qed

interpretation connect5: encode_ltd "\<lambda>_. CONNECT" "\<lambda>_. v5_Connect_decode u" v5_Connect_encode
  v5_Connect_encoded_size "v5_Connect_ok u" "\<lambda>x _. x" for u
proof
  fix x :: v5_Connect and limit n
  assume x: "v5_Connect_ok u x" and sz: "v5_Connect_encoded_size x limit = Ok n" and n: "n < 2 ^ 28"
  note pr = v5_connect_props_ok [OF x]
  let ?pl = "v5_connect_properties_len x"
  have pl: "?pl < 2 ^ 28" using sz n by (simp add: v5_Connect_encoded_size_def Let_def)
  have wl: "v5_will_properties_len w < 2 ^ 28" if "con5_last_will x = Some w" for w
    using sz n that by (simp add: v5_Connect_encoded_size_def Let_def)
  have l: "snd (write_variable_length ?pl) = Ok ()"
    "length (fst (write_variable_length ?pl)) = varint_len ?pl" "as_u32 ?pl = ?pl"
    using pl length_write_variable_length [of ?pl] by simp_all
  have f: "str_ok u (con5_client_id x)" "con5_client_id x \<noteq> [] \<or> con5_clean_start x"
    "pred_option (v5_LastWill_ok u) (con5_last_will x)"
    "pred_option (str_ok u) (con5_username x)" "pred_option bin_ok (con5_password x)"
    using x by (simp_all add: v5_Connect_ok_def)
  let ?flags = "connect_flags (con5_username x \<noteq> None) (con5_password x \<noteq> None)
    (map_option (\<lambda>w. (will5_qos w, will5_retain w)) (con5_last_will x)) (con5_clean_start x)"
  have w: "v5_LastWill_ok u w" "flags_contains ?flags CF_WILL_RETAIN = will5_retain w"
    "QoS_try_from (will_qos_bits ?flags) = Ok (will5_qos w)" if "con5_last_will x = Some w" for w
    using that f(3) by (simp_all add: connect_flags_simps)
  note will = v5_will_roundtrip [OF w(1) wl w(2,3)]
  have wo: "snd (encode_opt v5_encode_will (con5_last_will x)) = Ok ()"
    "length (fst (encode_opt v5_encode_will (con5_last_will x))) =
      (case con5_last_will x of None \<Rightarrow> 0 | Some w \<Rightarrow> varint_len (v5_will_properties_len w) + v5_will_properties_len w +
        encoded_size_Bytes (will5_topic w) + encoded_size_Bytes (will5_message w))"
    using will by (cases "con5_last_will x"; simp)+
  have uo: "snd (encode_opt encode_Bytes (con5_username x)) = Ok ()"
    "length (fst (encode_opt encode_Bytes (con5_username x))) = (case con5_username x of None \<Rightarrow> 0 | Some v \<Rightarrow> encoded_size_Bytes v)"
    using f(4) by (cases "con5_username x"; simp add: field_enc)+
  have po: "snd (encode_opt encode_Bytes (con5_password x)) = Ok ()"
    "length (fst (encode_opt encode_Bytes (con5_password x))) = (case con5_password x of None \<Rightarrow> 0 | Some v \<Rightarrow> encoded_size_Bytes v)"
    using f(5) by (cases "con5_password x"; simp add: field_enc)+
  have e: "v5_Connect_encode x n = eok (fst (encode_Bytes MQTT) @ [MQTT_LEVEL_5, ?flags] @ fst (encode_u16 (con5_keep_alive x)) @
      fst (write_variable_length (length (fst (v5_connect_props x)))) @ fst (v5_connect_props x) @
      fst (encode_Bytes (con5_client_id x)) @ fst (encode_opt v5_encode_will (con5_last_will x)) @
      fst (encode_opt encode_Bytes (con5_username x)) @ fst (encode_opt encode_Bytes (con5_password x)))"
    using pr l f(1) wo uo po by (intro eok_eqI) (simp_all add: v5_Connect_encode_def field_enc MQTT_header)
  show "snd (v5_Connect_encode x n) = Ok ()" by (simp add: e)
  have vi: "var_int_len ?pl = varint_len ?pl" by (rule var_int_len_eq [OF pl])
  have vw: "var_int_len (v5_will_properties_len w) = varint_len (v5_will_properties_len w)" if "con5_last_will x = Some w" for w
    by (rule var_int_len_eq [OF wl [OF that]])
  show "length (fst (v5_Connect_encode x n)) = n"
    unfolding e using pr l f(1) wo uo po sz vi vw
    by (cases "con5_last_will x") (auto simp: v5_Connect_encoded_size_def Let_def field_enc MQTT_header encoded_size_u16_def)
  have p: "length (fst (v5_connect_props x)) \<le> 268435455" using pr(2) pl by simp
  have df: "decode_flagged (flags_contains ?flags CF_WILL) (v5_decode_last_will u ?flags)
      (fst (encode_opt v5_encode_will (con5_last_will x)) @ r) = Ok (con5_last_will x, r)"
    "decode_flagged (flags_contains ?flags CF_USERNAME) (decode_ByteString u)
      (fst (encode_opt encode_Bytes (con5_username x)) @ r) = Ok (con5_username x, r)"
    "decode_flagged (flags_contains ?flags CF_PASSWORD) decode_Bytes
      (fst (encode_opt encode_Bytes (con5_password x))) = Ok (con5_password x, [])" for r
    subgoal using will(3) by (cases "con5_last_will x") (simp_all add: connect_flags_simps decode_flagged_def)
    subgoal using f(4) by (cases "con5_username x") (simp_all add: connect_flags_simps decode_flagged_def field_dec)
    subgoal using f(5) by (cases "con5_password x") (simp_all add: connect_flags_simps decode_flagged_def field_dec)
    done
  have cs: "flags_contains ?flags CF_CLEAN_START = con5_clean_start x" by (simp add: connect_flags_simps)
  have rest: "decode_ByteString u (fst (encode_Bytes (con5_client_id x)) @ r) = Ok (con5_client_id x, r)" for r
    by (rule wstr.dec_enc [OF f(1)])
  show "v5_Connect_decode u (fst (v5_Connect_encode x n)) = Ok (x, [])"
    using f(2)
    by (simp only: e fst_eok v5_Connect_decode_def dbind_apply v5_connect_header_read bindR.simps prod.case Let_def fst_conv snd_conv
        take_properties_write [OF p] within_def v5_connect_step_loop [OF x] rest ensure_apply cs if_True df dreturn_apply)
      (cases x, simp add: cl_of_def unwrap_or_def)
qed

end
