(* ===== verification/V5_Messages.thy ===== *)
theory V5_Messages
  imports V5_Acks
begin

text \<open>
  \<open>src/v5/codec/packet/publish.rs\<close> and the SUBSCRIBE and UNSUBSCRIBE packets of \<open>subscribe.rs\<close>.
\<close>

section \<open>PUBLISH\<close>

record v5_PublishProperties =
  pp5_topic_alias :: "u16 option"
  pp5_correlation_data :: "bytes option"
  pp5_message_expiry_interval :: "u32 option"
  pp5_content_type :: "bytes option"
  pp5_user_properties :: "UserProperty list"
  pp5_is_utf8_payload :: bool
  pp5_response_topic :: "bytes option"
  pp5_subscription_ids :: "u32 list"

record v5_Publish =
  pub5_dup :: bool
  pub5_retain :: bool
  pub5_qos :: QoS
  pub5_packet_id :: "u16 option"
  pub5_topic :: bytes
  pub5_payload :: bytes
  pub5_properties :: v5_PublishProperties

text \<open>The local variables of \<open>parse_publish_properties\<close>.\<close>

record v5_PublishLocals =
  pl_message_expiry_interval :: "u32 option"
  pl_topic_alias :: "u16 option"
  pl_content_type :: "bytes option"
  pl_correlation_data :: "bytes option"
  pl_subscription_ids :: "u32 list"
  pl_response_topic :: "bytes option"
  pl_is_utf8_payload :: "bool option"
  pl_user_props :: "UserProperty list"

definition pl_init :: v5_PublishLocals where
  "pl_init = \<lparr>pl_message_expiry_interval = None, pl_topic_alias = None, pl_content_type = None,
     pl_correlation_data = None, pl_subscription_ids = [], pl_response_topic = None,
     pl_is_utf8_payload = None, pl_user_props = []\<rparr>"

text \<open>A subscription identifier: a variable-length integer that is not zero.\<close>

definition decode_sub_id :: "u32 decoder" where
  "decode_sub_id =
     dbind decode_variable_length_cursor (\<lambda>val.
     dlift (ok_or (NonZero_new (of_nat val)) DE_MalformedPacket))"

definition v5_publish_step :: "(bytes \<Rightarrow> bool) \<Rightarrow> v5_PublishLocals \<Rightarrow> v5_PublishLocals decoder" where
  "v5_publish_step u st =
     dbind get_u8 (\<lambda>prop_id.
       if prop_id = pt_UTF8_PAYLOAD then
         dbind (read_value decode_bool (pl_is_utf8_payload st)) (\<lambda>v. dreturn (st\<lparr>pl_is_utf8_payload := v\<rparr>))
       else if prop_id = pt_MSG_EXPIRY_INT then
         dbind (read_value decode_NonZeroU32 (pl_message_expiry_interval st)) (\<lambda>v. dreturn (st\<lparr>pl_message_expiry_interval := v\<rparr>))
       else if prop_id = pt_CONTENT_TYPE then
         dbind (read_value (decode_ByteString u) (pl_content_type st)) (\<lambda>v. dreturn (st\<lparr>pl_content_type := v\<rparr>))
       else if prop_id = pt_RESP_TOPIC then
         dbind (read_value (decode_ByteString u) (pl_response_topic st)) (\<lambda>v. dreturn (st\<lparr>pl_response_topic := v\<rparr>))
       else if prop_id = pt_CORR_DATA then
         dbind (read_value decode_Bytes (pl_correlation_data st)) (\<lambda>v. dreturn (st\<lparr>pl_correlation_data := v\<rparr>))
       else if prop_id = pt_SUB_ID then
         dbind decode_sub_id (\<lambda>i. dreturn (st\<lparr>pl_subscription_ids := pl_subscription_ids st @ [i]\<rparr>))
       else if prop_id = pt_TOPIC_ALIAS then
         dbind (read_value decode_NonZeroU16 (pl_topic_alias st)) (\<lambda>v. dreturn (st\<lparr>pl_topic_alias := v\<rparr>))
       else if prop_id = pt_USER then
         dbind (decode_UserProperty u) (\<lambda>p. dreturn (st\<lparr>pl_user_props := pl_user_props st @ [p]\<rparr>))
       else dlift (Err DE_MalformedPacket))"

definition v5_parse_publish_properties :: "(bytes \<Rightarrow> bool) \<Rightarrow> v5_PublishProperties decoder" where
  "v5_parse_publish_properties u =
     dbind take_properties (\<lambda>prop_src.
     dbind (within prop_src (while_remaining (v5_publish_step u) pl_init)) (\<lambda>st.
     dreturn \<lparr>pp5_topic_alias = pl_topic_alias st, pp5_correlation_data = pl_correlation_data st,
       pp5_message_expiry_interval = pl_message_expiry_interval st, pp5_content_type = pl_content_type st,
       pp5_user_properties = pl_user_props st, pp5_is_utf8_payload = unwrap_or (pl_is_utf8_payload st) False,
       pp5_response_topic = pl_response_topic st, pp5_subscription_ids = pl_subscription_ids st\<rparr>))"

definition v5_Publish_decode :: "(bytes \<Rightarrow> bool) \<Rightarrow> u8 \<Rightarrow> v5_Publish decoder" where
  "v5_Publish_decode u packet_flags =
     dbind (decode_ByteString u) (\<lambda>topic.
     dbind (dlift (QoS_try_from (publish_qos_bits packet_flags))) (\<lambda>qos.
     dbind (decode_flagged (qos \<noteq> AtMostOnce) decode_NonZeroU16) (\<lambda>packet_id.
     dbind (v5_parse_publish_properties u) (\<lambda>properties.
     dbind split_rest (\<lambda>payload.
     dreturn \<lparr>pub5_dup = (packet_flags AND 0b1000 = 0b1000), pub5_retain = (packet_flags AND 0b0001 = 0b0001),
       pub5_qos = qos, pub5_packet_id = packet_id, pub5_topic = topic, pub5_payload = payload,
       pub5_properties = properties\<rparr>)))))"

definition sub_ids_size :: "u32 list \<Rightarrow> nat" where
  "sub_ids_size ids = foldl (\<lambda>acc i. acc + 1 + var_int_len (unat i)) 0 ids"

definition v5_publish_props_len :: "v5_PublishProperties \<Rightarrow> nat" where
  "v5_publish_props_len p =
     encoded_property_size encoded_size_u16 (pp5_topic_alias p)
     + encoded_property_size encoded_size_Bytes (pp5_correlation_data p)
     + encoded_property_size encoded_size_u32 (pp5_message_expiry_interval p)
     + encoded_property_size encoded_size_Bytes (pp5_content_type p)
     + encoded_property_size_default encoded_size_bool (pp5_is_utf8_payload p) False
     + encoded_property_size encoded_size_Bytes (pp5_response_topic p)
     + sub_ids_size (pp5_subscription_ids p)
     + encoded_size_UserProperties (pp5_user_properties p)"

definition v5_PublishProperties_encoded_size :: "v5_PublishProperties \<Rightarrow> nat" where
  "v5_PublishProperties_encoded_size p =
     (let prop_len = v5_publish_props_len p in prop_len + var_int_len prop_len)"

definition v5_Publish_encoded_size :: "v5_Publish \<Rightarrow> nat \<Rightarrow> (EncodeError, nat) res" where
  "v5_Publish_encoded_size p limit =
     (let packet_id_size = (if pub5_qos p = AtMostOnce then 0 else 2) in
      Ok (encoded_size_Bytes (pub5_topic p) + packet_id_size
        + v5_PublishProperties_encoded_size (pub5_properties p) + length (pub5_payload p)))"

definition encode_sub_ids :: "u32 list \<Rightarrow> encoder" where
  "encode_sub_ids ids = encs (map (\<lambda>i. encs [put_u8 pt_SUB_ID, write_variable_length (unat i)]) ids)"

definition v5_publish_props :: "v5_PublishProperties \<Rightarrow> encoder" where
  "v5_publish_props p =
     encs [encode_property encode_u16 (pp5_topic_alias p) pt_TOPIC_ALIAS,
           encode_property encode_Bytes (pp5_correlation_data p) pt_CORR_DATA,
           encode_property encode_u32 (pp5_message_expiry_interval p) pt_MSG_EXPIRY_INT,
           encode_property encode_Bytes (pp5_content_type p) pt_CONTENT_TYPE,
           encode_property_default encode_bool (pp5_is_utf8_payload p) False pt_UTF8_PAYLOAD,
           encode_property encode_Bytes (pp5_response_topic p) pt_RESP_TOPIC,
           encode_sub_ids (pp5_subscription_ids p),
           encode_UserProperties (pp5_user_properties p)]"

definition v5_PublishProperties_encode :: "v5_PublishProperties \<Rightarrow> nat \<Rightarrow> encoder" where
  "v5_PublishProperties_encode p sz =
     elift (var_int_len_from_size sz) (\<lambda>prop_len.
       encs [write_variable_length prop_len, v5_publish_props p])"

definition v5_publish_head :: "v5_Publish \<Rightarrow> encoder" where
  "v5_publish_head p =
     encs [encode_Bytes (pub5_topic p),
           (if pub5_qos p = AtMostOnce then
              (if pub5_packet_id p \<noteq> None then eerr EE_MalformedPacket else eok [])
            else elift (ok_or (pub5_packet_id p) EE_PacketIdRequired) encode_u16)]"

definition v5_Publish_encode :: "v5_Publish \<Rightarrow> nat \<Rightarrow> encoder" where
  "v5_Publish_encode p sz =
     encs [v5_publish_head p,
           elift (checked_sub sz (as_u32 (length (fst (v5_publish_head p)) + length (pub5_payload p))))
             (v5_PublishProperties_encode (pub5_properties p)),
           put_slice (pub5_payload p)]"

section \<open>SUBSCRIBE\<close>

record SubscriptionOptions =
  so_qos :: QoS
  so_no_local :: bool
  so_retain_as_published :: bool
  so_retain_handling :: RetainHandling

definition SubscriptionOptions_default :: SubscriptionOptions where
  "SubscriptionOptions_default = \<lparr>so_qos = AtMostOnce, so_no_local = False, so_retain_as_published = False,
     so_retain_handling = RH_AtSubscribe\<rparr>"

record v5_Subscribe =
  sub5_packet_id :: u16
  sub5_id :: "u32 option"
  sub5_user_properties :: "UserProperty list"
  sub5_topic_filters :: "(bytes \<times> SubscriptionOptions) list"

definition retain_handling_bits :: "u8 \<Rightarrow> u8" where
  "retain_handling_bits val = drop_bit 4 (val AND 0b00110000)"

definition decode_SubscriptionOptions :: "SubscriptionOptions decoder" where
  "decode_SubscriptionOptions =
     dbind has_remaining (\<lambda>h. ensure h DE_InvalidLength (
     dbind get_u8 (\<lambda>val.
     dbind (dlift (QoS_try_from (val AND 0b00000011))) (\<lambda>qos.
     dbind (dlift (RetainHandling_try_from (retain_handling_bits val))) (\<lambda>rh.
     dreturn \<lparr>so_qos = qos, so_no_local = (val AND 0b00000100 \<noteq> 0),
       so_retain_as_published = (val AND 0b00001000 \<noteq> 0), so_retain_handling = rh\<rparr>)))))"

definition SubscriptionOptions_byte :: "SubscriptionOptions \<Rightarrow> u8" where
  "SubscriptionOptions_byte o' =
     u8_from_QoS (so_qos o') OR push_bit 2 (of_bool (so_no_local o')) OR
     push_bit 3 (of_bool (so_retain_as_published o')) OR push_bit 4 (u8_from_RetainHandling (so_retain_handling o'))"

definition encode_SubscriptionOptions :: "SubscriptionOptions \<Rightarrow> encoder" where
  "encode_SubscriptionOptions o' = put_u8 (SubscriptionOptions_byte o')"

definition v5_subscribe_prop_step ::
    "(bytes \<Rightarrow> bool) \<Rightarrow> u32 option \<times> UserProperty list \<Rightarrow> (u32 option \<times> UserProperty list) decoder" where
  "v5_subscribe_prop_step u st =
     dbind get_u8 (\<lambda>prop_id.
       if prop_id = pt_SUB_ID then
         ensure (fst st = None) DE_MalformedPacket (dbind decode_sub_id (\<lambda>i. dreturn (Some i, snd st)))
       else if prop_id = pt_USER then
         dbind (decode_UserProperty u) (\<lambda>p. dreturn (fst st, snd st @ [p]))
       else dlift (Err DE_MalformedPacket))"

definition v5_subscribe_filter_step ::
    "(bytes \<Rightarrow> bool) \<Rightarrow> (bytes \<times> SubscriptionOptions) list \<Rightarrow> (bytes \<times> SubscriptionOptions) list decoder" where
  "v5_subscribe_filter_step u tfs =
     dbind (decode_ByteString u) (\<lambda>topic.
     dbind decode_SubscriptionOptions (\<lambda>opts.
     dreturn (tfs @ [(topic, opts)])))"

definition v5_Subscribe_decode :: "(bytes \<Rightarrow> bool) \<Rightarrow> v5_Subscribe decoder" where
  "v5_Subscribe_decode u =
     dbind decode_NonZeroU16 (\<lambda>packet_id.
     dbind take_properties (\<lambda>prop_src.
     dbind (within prop_src (while_remaining (v5_subscribe_prop_step u) (None, []))) (\<lambda>props.
     dbind (while_remaining (v5_subscribe_filter_step u) []) (\<lambda>topic_filters.
     dreturn \<lparr>sub5_packet_id = packet_id, sub5_id = fst props, sub5_user_properties = snd props,
       sub5_topic_filters = topic_filters\<rparr>))))"

definition v5_subscribe_props_len :: "v5_Subscribe \<Rightarrow> nat" where
  "v5_subscribe_props_len s =
     (case sub5_id s of None \<Rightarrow> 0 | Some v \<Rightarrow> 1 + var_int_len (unat v))
     + encoded_size_UserProperties (sub5_user_properties s)"

definition v5_Subscribe_encoded_size :: "v5_Subscribe \<Rightarrow> nat \<Rightarrow> (EncodeError, nat) res" where
  "v5_Subscribe_encoded_size s limit =
     (let prop_len = v5_subscribe_props_len s;
          payload_len = foldl (\<lambda>acc (filter, _). acc + encoded_size_Bytes filter + 1) 0 (sub5_topic_filters s) in
      Ok (encoded_size_u16 (sub5_packet_id s) + var_int_len prop_len + prop_len + payload_len))"

definition encode_filter :: "bytes \<times> SubscriptionOptions \<Rightarrow> encoder" where
  "encode_filter x = encs [encode_Bytes (fst x), encode_SubscriptionOptions (snd x)]"

definition v5_Subscribe_encode :: "v5_Subscribe \<Rightarrow> nat \<Rightarrow> encoder" where
  "v5_Subscribe_encode s sz =
     encs [encode_u16 (sub5_packet_id s),
           write_variable_length (as_u32 (v5_subscribe_props_len s)),
           encode_opt (\<lambda>i. encs [put_u8 pt_SUB_ID, write_variable_length (unat i)]) (sub5_id s),
           encode_UserProperties (sub5_user_properties s),
           encs (map encode_filter (sub5_topic_filters s))]"

section \<open>UNSUBSCRIBE\<close>

record v5_Unsubscribe =
  unsub5_packet_id :: u16
  unsub5_user_properties :: "UserProperty list"
  unsub5_topic_filters :: "bytes list"

definition v5_unsubscribe_prop_step :: "(bytes \<Rightarrow> bool) \<Rightarrow> UserProperty list \<Rightarrow> UserProperty list decoder" where
  "v5_unsubscribe_prop_step u st =
     dbind get_u8 (\<lambda>prop_id.
       if prop_id = pt_USER then dbind (decode_UserProperty u) (\<lambda>p. dreturn (st @ [p]))
       else dlift (Err DE_MalformedPacket))"

definition v5_unsubscribe_filter_step :: "(bytes \<Rightarrow> bool) \<Rightarrow> bytes list \<Rightarrow> bytes list decoder" where
  "v5_unsubscribe_filter_step u tfs = dbind (decode_ByteString u) (\<lambda>topic. dreturn (tfs @ [topic]))"

definition v5_Unsubscribe_decode :: "(bytes \<Rightarrow> bool) \<Rightarrow> v5_Unsubscribe decoder" where
  "v5_Unsubscribe_decode u =
     dbind decode_NonZeroU16 (\<lambda>packet_id.
     dbind take_properties (\<lambda>prop_src.
     dbind (within prop_src (while_remaining (v5_unsubscribe_prop_step u) [])) (\<lambda>user_properties.
     dbind (while_remaining (v5_unsubscribe_filter_step u) []) (\<lambda>topic_filters.
     dreturn \<lparr>unsub5_packet_id = packet_id, unsub5_user_properties = user_properties,
       unsub5_topic_filters = topic_filters\<rparr>))))"

definition v5_Unsubscribe_encoded_size :: "v5_Unsubscribe \<Rightarrow> nat \<Rightarrow> (EncodeError, nat) res" where
  "v5_Unsubscribe_encoded_size s limit =
     (let prop_len = encoded_size_UserProperties (unsub5_user_properties s) in
      Ok (2 + var_int_len prop_len + prop_len
        + foldl (\<lambda>acc filter. acc + 2 + length filter) 0 (unsub5_topic_filters s)))"

definition v5_Unsubscribe_encode :: "v5_Unsubscribe \<Rightarrow> nat \<Rightarrow> encoder" where
  "v5_Unsubscribe_encode s sz =
     encs [encode_u16 (unsub5_packet_id s),
           write_variable_length (as_u32 (encoded_size_UserProperties (unsub5_user_properties s))),
           encode_UserProperties (unsub5_user_properties s),
           encs (map encode_Bytes (unsub5_topic_filters s))]"

section \<open>Decoding inverts encoding: PUBLISH\<close>

definition sub_id_ok :: "u32 \<Rightarrow> bool" where
  "sub_id_ok i \<longleftrightarrow> i \<noteq> 0 \<and> unat i < 2 ^ 28"

lemma decode_sub_id_enc:
  "sub_id_ok i \<Longrightarrow> decode_sub_id (fst (write_variable_length (unat i)) @ r) = Ok (i, r)"
  using decode_write_variable_length [of "unat i" r] by (simp add: decode_sub_id_def sub_id_ok_def NonZero_new_def)

lemma safe_sub_id [safe_intros]: "safe_reader decode_sub_id"
  unfolding decode_sub_id_def by (intro safe_intros)

lemma sub_ids_size_Nil [simp]: "sub_ids_size [] = 0"
  and sub_ids_size_Cons [simp]: "sub_ids_size (i # is) = Suc (var_int_len (unat i)) + sub_ids_size is"
proof -
  have "(\<lambda>acc i. acc + 1 + var_int_len (unat i)) = (\<lambda>acc i :: u32. acc + Suc (var_int_len (unat i)))" by auto
  then show "sub_ids_size [] = 0" "sub_ids_size (i # is) = Suc (var_int_len (unat i)) + sub_ids_size is"
    by (simp_all only: sub_ids_size_def foldl_add_nat) simp_all
qed

lemma encode_sub_ids_ok:
  assumes "list_all sub_id_ok is"
  shows "snd (encode_sub_ids is) = Ok ()" and "length (fst (encode_sub_ids is)) = sub_ids_size is"
    and "fst (encode_sub_ids is) = concat (map (\<lambda>i. pt_SUB_ID # fst (write_variable_length (unat i))) is)"
  using assms
  by (induction "is") (auto simp: encode_sub_ids_def sub_id_ok_def var_int_len_eq length_write_variable_length)

definition v5_PublishProperties_ok :: "(bytes \<Rightarrow> bool) \<Rightarrow> v5_PublishProperties \<Rightarrow> bool" where
  "v5_PublishProperties_ok u p \<longleftrightarrow> pred_option (\<lambda>w. w \<noteq> 0) (pp5_topic_alias p) \<and>
     pred_option bin_ok (pp5_correlation_data p) \<and> pred_option (\<lambda>w. w \<noteq> 0) (pp5_message_expiry_interval p) \<and>
     pred_option (str_ok u) (pp5_content_type p) \<and> pred_option (str_ok u) (pp5_response_topic p) \<and>
     list_all sub_id_ok (pp5_subscription_ids p) \<and> list_all (uprop_ok u) (pp5_user_properties p)"

definition v5_Publish_ok :: "(bytes \<Rightarrow> bool) \<Rightarrow> v5_Publish \<Rightarrow> bool" where
  "v5_Publish_ok u p \<longleftrightarrow> str_ok u (pub5_topic p) \<and> (pub5_packet_id p = None \<longleftrightarrow> pub5_qos p = AtMostOnce) \<and>
     pub5_packet_id p \<noteq> Some 0 \<and> v5_PublishProperties_ok u (pub5_properties p)"

interpretation pl5: consuming "v5_publish_step u" for u
  unfolding v5_publish_step_def by (intro consuming_get_u8 safe_intros)

lemma safe_Publish [safe_intros]: "safe_reader (v5_Publish_decode u fl)"
  unfolding v5_Publish_decode_def v5_parse_publish_properties_def
  by (intro safe_intros safe_while pl5.consuming_axioms)

definition pl_of :: "v5_PublishProperties \<Rightarrow> v5_PublishLocals" where
  "pl_of p = \<lparr>pl_message_expiry_interval = pp5_message_expiry_interval p, pl_topic_alias = pp5_topic_alias p,
     pl_content_type = pp5_content_type p, pl_correlation_data = pp5_correlation_data p,
     pl_subscription_ids = pp5_subscription_ids p, pl_response_topic = pp5_response_topic p,
     pl_is_utf8_payload = (if pp5_is_utf8_payload p = False then None else Some (pp5_is_utf8_payload p)),
     pl_user_props = pp5_user_properties p\<rparr>"

lemma v5_publish_step_loop:
  assumes "v5_PublishProperties_ok u p"
  shows "while_remaining (v5_publish_step u) pl_init (fst (v5_publish_props p)) = Ok (pl_of p, [])"
proof -
  note simps = v5_publish_step_def pt_defs wbool.read_value_enc
    wnz16.read_value_enc wnz32.read_value_enc wstr.read_value_enc wbytes.read_value_enc field_enc field_dec decode_sub_id_enc
  have p0: "pl_topic_alias st = None \<Longrightarrow> pred_option (\<lambda>w. w \<noteq> 0) v \<Longrightarrow>
      while_remaining (v5_publish_step u) st (fst (encode_property encode_u16 v pt_TOPIC_ALIAS) @ r) =
      while_remaining (v5_publish_step u) (st\<lparr>pl_topic_alias := v\<rparr>) r" for st v r
    by (rule pl5.loop_property) (auto simp: simps)
  have p1: "pl_correlation_data st = None \<Longrightarrow> pred_option bin_ok v \<Longrightarrow>
      while_remaining (v5_publish_step u) st (fst (encode_property encode_Bytes v pt_CORR_DATA) @ r) =
      while_remaining (v5_publish_step u) (st\<lparr>pl_correlation_data := v\<rparr>) r" for st v r
    by (rule pl5.loop_property) (auto simp: simps)
  have p2: "pl_message_expiry_interval st = None \<Longrightarrow> pred_option (\<lambda>w. w \<noteq> 0) v \<Longrightarrow>
      while_remaining (v5_publish_step u) st (fst (encode_property encode_u32 v pt_MSG_EXPIRY_INT) @ r) =
      while_remaining (v5_publish_step u) (st\<lparr>pl_message_expiry_interval := v\<rparr>) r" for st v r
    by (rule pl5.loop_property) (auto simp: simps)
  have p3: "pl_content_type st = None \<Longrightarrow> pred_option (str_ok u) v \<Longrightarrow>
      while_remaining (v5_publish_step u) st (fst (encode_property encode_Bytes v pt_CONTENT_TYPE) @ r) =
      while_remaining (v5_publish_step u) (st\<lparr>pl_content_type := v\<rparr>) r" for st v r
    by (rule pl5.loop_property) (auto simp: simps)
  have p4: "pl_is_utf8_payload st = None \<Longrightarrow> while_remaining (v5_publish_step u) st (fst (encode_property_default encode_bool v False pt_UTF8_PAYLOAD) @ r) =
      while_remaining (v5_publish_step u) (st\<lparr>pl_is_utf8_payload := (if v = False then None else Some v)\<rparr>) r" for st v r
    by (rule pl5.loop_property_default) (auto simp: simps)
  have p5: "pl_response_topic st = None \<Longrightarrow> pred_option (str_ok u) v \<Longrightarrow>
      while_remaining (v5_publish_step u) st (fst (encode_property encode_Bytes v pt_RESP_TOPIC) @ r) =
      while_remaining (v5_publish_step u) (st\<lparr>pl_response_topic := v\<rparr>) r" for st v r
    by (rule pl5.loop_property) (auto simp: simps)
  have ids: "list_all sub_id_ok is \<Longrightarrow> while_remaining (v5_publish_step u) st (fst (encode_sub_ids is) @ r) =
      while_remaining (v5_publish_step u) (st\<lparr>pl_subscription_ids := pl_subscription_ids st @ is\<rparr>) r" for st "is" r
  proof -
    assume ok: "list_all sub_id_ok is"
    have f: "foldl (\<lambda>st i. st\<lparr>pl_subscription_ids := pl_subscription_ids st @ [i]\<rparr>) st is =
        st\<lparr>pl_subscription_ids := pl_subscription_ids st @ is\<rparr>"
      by (induction "is" arbitrary: st) simp_all
    show ?thesis unfolding encode_sub_ids_ok(3) [OF ok] f [symmetric]
      by (rule pl5.loop_list) (use ok in \<open>auto simp: simps list_all_iff\<close>)
  qed
  have fold: "foldl (\<lambda>st p. st\<lparr>pl_user_props := pl_user_props st @ [p]\<rparr>) st ps =
      st\<lparr>pl_user_props := pl_user_props st @ ps\<rparr>" for st ps
    by (induction ps arbitrary: st) simp_all
  have up: "list_all (uprop_ok u) ps \<Longrightarrow> while_remaining (v5_publish_step u) st (fst (encode_UserProperties ps)) =
      Ok (st\<lparr>pl_user_props := pl_user_props st @ ps\<rparr>, [])" for st ps
    by (subst fold [symmetric], rule pl5.loop_user_properties_end) (auto simp: simps)
  show ?thesis
    using assms unfolding v5_PublishProperties_ok_def
    by (elim conjE) (simp add: v5_publish_props_def property_ok encode_UserProperties_ok encode_sub_ids_ok(1) p0 p1 p2 p3 p4 p5 ids up
        pl_init_def pl_of_def)
qed

lemma v5_publish_props_ok:
  assumes "v5_PublishProperties_ok u p"
  shows "snd (v5_publish_props p) = Ok ()" and "length (fst (v5_publish_props p)) = v5_publish_props_len p"
  using assms
  by (auto simp: v5_PublishProperties_ok_def v5_publish_props_def v5_publish_props_len_def property_ok property_length
      encode_UserProperties_ok encode_UserProperties_length encode_sub_ids_ok(1,2))

lemma v5_PublishProperties_roundtrip:
  assumes "v5_PublishProperties_ok u p" and "v5_PublishProperties_encoded_size p < 2 ^ 28"
  shows "snd (v5_PublishProperties_encode p (v5_PublishProperties_encoded_size p)) = Ok ()"
    and "length (fst (v5_PublishProperties_encode p (v5_PublishProperties_encoded_size p))) = v5_PublishProperties_encoded_size p"
    and "v5_parse_publish_properties u (fst (v5_PublishProperties_encode p (v5_PublishProperties_encoded_size p)) @ r) = Ok (p, r)"
proof -
  let ?n = "v5_publish_props_len p"
  note pr = v5_publish_props_ok [OF assms(1)]
  have n: "?n < 2 ^ 28" using assms(2) by (simp add: v5_PublishProperties_encoded_size_def Let_def)
  have sz: "v5_PublishProperties_encoded_size p = varint_len ?n + ?n"
    by (simp add: v5_PublishProperties_encoded_size_def Let_def var_int_len_eq [OF n])
  have l: "snd (write_variable_length ?n) = Ok ()" "length (fst (write_variable_length ?n)) = varint_len ?n"
    using n length_write_variable_length [of ?n] by simp_all
  have e: "v5_PublishProperties_encode p (v5_PublishProperties_encoded_size p) =
      eok (fst (write_variable_length (length (fst (v5_publish_props p)))) @ fst (v5_publish_props p))"
    using pr l by (intro eok_eqI) (simp_all add: v5_PublishProperties_encode_def sz var_int_len_from_size_eq [OF n])
  show "snd (v5_PublishProperties_encode p (v5_PublishProperties_encoded_size p)) = Ok ()" by (simp add: e)
  show "length (fst (v5_PublishProperties_encode p (v5_PublishProperties_encoded_size p))) = v5_PublishProperties_encoded_size p"
    unfolding e using pr l by (simp add: sz)
  have "length (fst (v5_publish_props p)) \<le> 268435455" using pr(2) n by simp
  then show "v5_parse_publish_properties u (fst (v5_PublishProperties_encode p (v5_PublishProperties_encoded_size p)) @ r) = Ok (p, r)"
    by (simp add: e v5_parse_publish_properties_def take_properties_write within_def v5_publish_step_loop [OF assms(1)])
      (cases p, simp add: pl_of_def unwrap_or_def)
qed

interpretation publish5: encode_ltd "\<lambda>p. publish_first_byte (pub5_qos p) (pub5_dup p) (pub5_retain p)"
  "\<lambda>fb. v5_Publish_decode u (fb AND 0b00001111)" v5_Publish_encode v5_Publish_encoded_size "v5_Publish_ok u" "\<lambda>x _. x" for u
proof
  fix x :: v5_Publish and limit n
  assume x: "v5_Publish_ok u x" and sz: "v5_Publish_encoded_size x limit = Ok n" and n: "n < 2 ^ 28"
  let ?ps = "v5_PublishProperties_encoded_size (pub5_properties x)" and ?hd = "v5_publish_head x"
  have f: "str_ok u (pub5_topic x)" "pub5_packet_id x = None \<longleftrightarrow> pub5_qos x = AtMostOnce" "pub5_packet_id x \<noteq> Some 0"
    "v5_PublishProperties_ok u (pub5_properties x)"
    using x by (simp_all add: v5_Publish_ok_def)
  have hd: "v5_publish_head x = eok (fst (encode_Bytes (pub5_topic x)) @ fst (encode_opt encode_u16 (pub5_packet_id x)))"
    using f by (intro eok_eqI; cases "pub5_packet_id x") (simp_all add: v5_publish_head_def field_enc)
  then have hs: "snd ?hd = Ok ()" by simp
  have hl: "length (fst ?hd) = encoded_size_Bytes (pub5_topic x) + (if pub5_qos x = AtMostOnce then 0 else 2)"
    unfolding hd using f by (cases "pub5_packet_id x") (simp_all add: field_enc field_size)
  have n_eq: "n = length (fst ?hd) + ?ps + length (pub5_payload x)"
    using sz hl by (simp add: v5_Publish_encoded_size_def Let_def)
  have ps: "?ps < 2 ^ 28" using n n_eq by simp
  note pr = v5_PublishProperties_roundtrip [OF f(4) ps]
  have c: "checked_sub n (as_u32 (length (fst ?hd) + length (pub5_payload x))) = (Ok ?ps :: (EncodeError, nat) res)"
    using n n_eq by (simp add: checked_sub_def)
  have e: "v5_Publish_encode x n = eok (fst ?hd @ fst (v5_PublishProperties_encode (pub5_properties x) ?ps) @ pub5_payload x)"
    using pr(1) hs by (intro eok_eqI) (simp_all add: v5_Publish_encode_def c)
  show "snd (v5_Publish_encode x n) = Ok ()" by (simp add: e)
  show "length (fst (v5_Publish_encode x n)) = n" unfolding e using pr(2) n_eq by simp
  show "v5_Publish_decode u (publish_first_byte (pub5_qos x) (pub5_dup x) (pub5_retain x) AND 0b00001111)
      (fst (v5_Publish_encode x n)) = Ok (x, [])"
    using f
    by (cases "pub5_packet_id x") (simp_all add: e hd v5_Publish_decode_def publish_first_byte_read decode_flagged_def field_dec pr(3))
qed

section \<open>Decoding inverts encoding: SUBSCRIBE and UNSUBSCRIBE\<close>

lemma SubscriptionOptions_bits:
  "QoS_try_from (SubscriptionOptions_byte o' AND 0b00000011) = Ok (so_qos o')"
  "RetainHandling_try_from (retain_handling_bits (SubscriptionOptions_byte o')) = Ok (so_retain_handling o')"
  "SubscriptionOptions_byte o' AND 0b00000100 \<noteq> 0 \<longleftrightarrow> so_no_local o'"
  "SubscriptionOptions_byte o' AND 0b00001000 \<noteq> 0 \<longleftrightarrow> so_retain_as_published o'"
  by (cases "so_qos o'"; cases "so_no_local o'"; cases "so_retain_as_published o'"; cases "so_retain_handling o'";
      simp add: SubscriptionOptions_byte_def retain_handling_bits_def enum_try_from_def QoS_variants_def
        RetainHandling_variants_def)+

lemma decode_SubscriptionOptions_enc: "decode_SubscriptionOptions (SubscriptionOptions_byte o' # r) = Ok (o', r)"
  by (simp add: decode_SubscriptionOptions_def SubscriptionOptions_bits)

lemma safe_SubscriptionOptions [safe_intros]: "safe_reader decode_SubscriptionOptions"
  unfolding decode_SubscriptionOptions_def by (intro safe_get_u8_ensure safe_intros)

interpretation sp5: consuming "v5_subscribe_prop_step u" for u
  unfolding v5_subscribe_prop_step_def by (intro consuming_get_u8 safe_intros)

interpretation up5: consuming "v5_unsubscribe_prop_step u" for u
  unfolding v5_unsubscribe_prop_step_def by (intro consuming_get_u8 safe_intros)

lemma consuming_string:
  assumes "\<And>st x. safe_reader (f st x)"
  shows "consuming (\<lambda>st. dbind (decode_ByteString u) (f st))"
proof
  show "length s' < length s" if "dbind (decode_ByteString u) (f st) s = Ok (st', s')" for st s st' s'
    using that by (auto simp: bindR_eq_Ok dest!: wstr.dec_consumes safe_reader_length [OF assms])
  show "dbind (decode_ByteString u) (f st) s \<noteq> Panic" if "s \<noteq> []" for st s
    using safe_reader_not_Panic [OF assms] by (auto simp: bindR_eq_Panic field_no_panic)
qed

interpretation sf5: consuming "v5_subscribe_filter_step u" for u
  unfolding v5_subscribe_filter_step_def by (intro consuming_string safe_intros)

interpretation uf5: consuming "v5_unsubscribe_filter_step u" for u
  unfolding v5_unsubscribe_filter_step_def by (intro consuming_string safe_intros)

lemma safe_Subscribe [safe_intros]: "safe_reader (v5_Subscribe_decode u)" "safe_reader (v5_Unsubscribe_decode u)"
  unfolding v5_Subscribe_decode_def v5_Unsubscribe_decode_def
  by (intro safe_intros safe_while sp5.consuming_axioms up5.consuming_axioms sf5.consuming_axioms uf5.consuming_axioms)+

definition v5_Subscribe_ok :: "(bytes \<Rightarrow> bool) \<Rightarrow> v5_Subscribe \<Rightarrow> bool" where
  "v5_Subscribe_ok u s \<longleftrightarrow> sub5_packet_id s \<noteq> 0 \<and> pred_option sub_id_ok (sub5_id s) \<and>
     list_all (uprop_ok u) (sub5_user_properties s) \<and> list_all (\<lambda>(f, _). str_ok u f) (sub5_topic_filters s)"

definition v5_Unsubscribe_ok :: "(bytes \<Rightarrow> bool) \<Rightarrow> v5_Unsubscribe \<Rightarrow> bool" where
  "v5_Unsubscribe_ok u s \<longleftrightarrow> unsub5_packet_id s \<noteq> 0 \<and>
     list_all (uprop_ok u) (unsub5_user_properties s) \<and> list_all (str_ok u) (unsub5_topic_filters s)"

definition sub_props :: "v5_Subscribe \<Rightarrow> encoder" where
  "sub_props s = encs [encode_opt (\<lambda>i. encs [put_u8 pt_SUB_ID, write_variable_length (unat i)]) (sub5_id s),
     encode_UserProperties (sub5_user_properties s)]"

lemma foldl_user_snd: "foldl (\<lambda>st p. (fst st, snd st @ [p])) st ps = (fst st, snd st @ ps)"
  by (induction ps arbitrary: st) simp_all

lemma sub_props_ok:
  assumes "v5_Subscribe_ok u s"
  shows "snd (sub_props s) = Ok ()" and "length (fst (sub_props s)) = v5_subscribe_props_len s"
    and "while_remaining (v5_subscribe_prop_step u) (None, []) (fst (sub_props s)) =
      Ok ((sub5_id s, sub5_user_properties s), [])"
proof -
  have ok: "pred_option sub_id_ok (sub5_id s)" "list_all (uprop_ok u) (sub5_user_properties s)"
    using assms by (simp_all add: v5_Subscribe_ok_def)
  have i: "snd (write_variable_length (unat v)) = Ok ()" "length (fst (write_variable_length (unat v))) = var_int_len (unat v)"
    "sub_id_ok v" if "sub5_id s = Some v" for v
    using ok(1) that length_write_variable_length [of "unat v"] by (auto simp: sub_id_ok_def var_int_len_eq)
  show "snd (sub_props s) = Ok ()" "length (fst (sub_props s)) = v5_subscribe_props_len s"
    using ok i by (cases "sub5_id s"; simp add: sub_props_def v5_subscribe_props_len_def encode_UserProperties_ok
        encode_UserProperties_length)+
  have up: "while_remaining (v5_subscribe_prop_step u) (v, []) (fst (encode_UserProperties (sub5_user_properties s))) =
      Ok ((v, sub5_user_properties s), [])" for v
    using sp5.loop_user_properties_end [OF ok(2), of u "\<lambda>st p. (fst st, snd st @ [p])" "(v, [])"]
    by (simp add: v5_subscribe_prop_step_def pt_defs field_dec foldl_user_snd)
  show "while_remaining (v5_subscribe_prop_step u) (None, []) (fst (sub_props s)) = Ok ((sub5_id s, sub5_user_properties s), [])"
  proof (cases "sub5_id s")
    case None
    then show ?thesis using up encode_UserProperties_ok [OF ok(2)] by (simp add: sub_props_def)
  next
    case (Some v)
    have "while_remaining (v5_subscribe_prop_step u) (None, [])
        ((pt_SUB_ID # fst (write_variable_length (unat v))) @ fst (encode_UserProperties (sub5_user_properties s))) =
        while_remaining (v5_subscribe_prop_step u) (Some v, []) (fst (encode_UserProperties (sub5_user_properties s)))"
      using i(3) [OF Some] by (intro sp5.loop_block) (simp_all add: v5_subscribe_prop_step_def pt_defs decode_sub_id_enc)
    then show ?thesis using up i(1) [OF Some] encode_UserProperties_ok [OF ok(2)] Some by (simp add: sub_props_def)
  qed
qed

lemma unsub_props_loop:
  assumes "list_all (uprop_ok u) ps"
  shows "while_remaining (v5_unsubscribe_prop_step u) [] (fst (encode_UserProperties ps)) = Ok (ps, [])"
  using up5.loop_user_properties_end [OF assms, of u "\<lambda>st p. st @ [p]" "[]"]
  by (simp add: v5_unsubscribe_prop_step_def pt_defs field_dec)

lemma subscribe_filters:
  assumes "list_all (\<lambda>(f, _). str_ok u f) tfs"
  defines "e \<equiv> encs (map encode_filter tfs)"
  shows "snd e = Ok ()" and "length (fst e) = foldl (\<lambda>acc (filter, _). acc + encoded_size_Bytes filter + 1) 0 tfs"
    and "while_remaining (v5_subscribe_filter_step u) [] (fst e) = Ok (tfs, [])"
proof -
  have one: "snd (encode_filter x) = Ok ()" "fst (encode_filter x) = fst (encode_Bytes (fst x)) @ [SubscriptionOptions_byte (snd x)]" if "x \<in> set tfs" for x
    using that assms(1) by (auto simp: list_all_iff encode_filter_def encode_SubscriptionOptions_def field_enc)
  show ok: "snd e = Ok ()" unfolding e_def by (rule snd_encs_map [OF one(1)])
  have b: "fst e = concat (map (\<lambda>x. fst (encode_Bytes (fst x)) @ [SubscriptionOptions_byte (snd x)]) tfs)"
    unfolding e_def using fst_encs_map [of tfs encode_filter] one by (simp cong: map_cong)
  have s: "(\<lambda>acc (filter, _). acc + encoded_size_Bytes filter + 1) = (\<lambda>acc x :: bytes \<times> SubscriptionOptions. acc + (3 + length (fst x)))"
    by (auto simp: fun_eq_iff field_size)
  show "length (fst e) = foldl (\<lambda>acc (filter, _). acc + encoded_size_Bytes filter + 1) 0 tfs"
    unfolding b s foldl_add_nat using assms(1) by (induction tfs) (auto simp: field_enc field_size)
  have "while_remaining (v5_subscribe_filter_step u) []
      (concat (map (\<lambda>x. fst (encode_Bytes (fst x)) @ [SubscriptionOptions_byte (snd x)]) tfs) @ []) =
      while_remaining (v5_subscribe_filter_step u) (foldl (\<lambda>acc x. acc @ [x]) [] tfs) []"
    using assms(1) by (intro sf5.loop_list)
      (auto simp: v5_subscribe_filter_step_def field_dec decode_SubscriptionOptions_enc list_all_iff)
  then show "while_remaining (v5_subscribe_filter_step u) [] (fst e) = Ok (tfs, [])" by (simp add: b)
qed

lemma unsubscribe_filters:
  assumes "list_all (str_ok u) tfs"
  shows "snd (encs (map encode_Bytes tfs)) = Ok ()"
    and "length (fst (encs (map encode_Bytes tfs))) = foldl (\<lambda>acc filter. acc + 2 + length filter) 0 tfs"
    and "while_remaining (v5_unsubscribe_filter_step u) [] (fst (encs (map encode_Bytes tfs))) = Ok (tfs, [])"
proof -
  have one: "snd (encode_Bytes x) = Ok ()" if "x \<in> set tfs" for x
    using that assms by (auto simp: list_all_iff field_enc)
  show "snd (encs (map encode_Bytes tfs)) = Ok ()" by (rule snd_encs_map [OF one])
  have s: "(\<lambda>acc filter. acc + 2 + length filter) = (\<lambda>acc f :: bytes. acc + (2 + length f))" by (auto simp: fun_eq_iff)
  show "length (fst (encs (map encode_Bytes tfs))) = foldl (\<lambda>acc filter. acc + 2 + length filter) 0 tfs"
    unfolding fst_encs_map [of tfs encode_Bytes, OF one, simplified] s foldl_add_nat using assms by (induction tfs) (auto simp: field_enc field_size)
  have "while_remaining (v5_unsubscribe_filter_step u) [] (concat (map (\<lambda>x. fst (encode_Bytes x)) tfs) @ []) =
      while_remaining (v5_unsubscribe_filter_step u) (foldl (\<lambda>acc x. acc @ [x]) [] tfs) []"
    using assms by (intro uf5.loop_list)
      (auto simp: v5_unsubscribe_filter_step_def field_dec list_all_iff wstr.enc_nonempty)
  then show "while_remaining (v5_unsubscribe_filter_step u) [] (fst (encs (map encode_Bytes tfs))) = Ok (tfs, [])"
    by (simp add: fst_encs_map [of tfs encode_Bytes, OF one, simplified])
qed

interpretation subscribe5: encode_ltd "\<lambda>_. SUBSCRIBE" "\<lambda>_. v5_Subscribe_decode u" v5_Subscribe_encode
  v5_Subscribe_encoded_size "v5_Subscribe_ok u" "\<lambda>x _. x" for u
proof
  fix x :: v5_Subscribe and limit n
  assume x: "v5_Subscribe_ok u x" and sz: "v5_Subscribe_encoded_size x limit = Ok n" and n: "n < 2 ^ 28"
  let ?pl = "v5_subscribe_props_len x"
  let ?fs = "encs (map encode_filter (sub5_topic_filters x))"
  have f: "sub5_packet_id x \<noteq> 0" "list_all (\<lambda>(f, _). str_ok u f) (sub5_topic_filters x)"
    using x by (simp_all add: v5_Subscribe_ok_def)
  note pr = sub_props_ok [OF x] and fl = subscribe_filters [OF f(2)]
  have pl: "?pl < 2 ^ 28" using sz n by (simp add: v5_Subscribe_encoded_size_def Let_def)
  have l: "snd (write_variable_length ?pl) = Ok ()" "length (fst (write_variable_length ?pl)) = varint_len ?pl" "as_u32 ?pl = ?pl"
    using pl length_write_variable_length [of ?pl] by simp_all
  have split: "v5_Subscribe_encode x n = encs [encode_u16 (sub5_packet_id x), write_variable_length (as_u32 ?pl), sub_props x, ?fs]"
    by (simp add: v5_Subscribe_encode_def sub_props_def eseq_assoc eseq_nothing)
  have e: "v5_Subscribe_encode x n = eok (fst (encode_u16 (sub5_packet_id x)) @
      fst (write_variable_length (length (fst (sub_props x)))) @ fst (sub_props x) @ fst ?fs)"
    unfolding split using pr(1,2) l fl(1) by (intro eok_eqI) (simp_all add: field_enc)
  show "snd (v5_Subscribe_encode x n) = Ok ()" by (simp add: e)
  show "length (fst (v5_Subscribe_encode x n)) = n"
    unfolding e using pr(2) l fl(2) sz
    by (simp add: v5_Subscribe_encoded_size_def Let_def var_int_len_eq [OF pl] field_enc encoded_size_u16_def)
  have "length (fst (sub_props x)) \<le> 268435455" using pr(2) pl by simp
  then show "v5_Subscribe_decode u (fst (v5_Subscribe_encode x n)) = Ok (x, [])"
    using f(1) by (simp add: e v5_Subscribe_decode_def field_dec take_properties_write within_def pr(3) fl(3))
qed

interpretation unsubscribe5: encode_ltd "\<lambda>_. UNSUBSCRIBE" "\<lambda>_. v5_Unsubscribe_decode u" v5_Unsubscribe_encode
  v5_Unsubscribe_encoded_size "v5_Unsubscribe_ok u" "\<lambda>x _. x" for u
proof
  fix x :: v5_Unsubscribe and limit n
  assume x: "v5_Unsubscribe_ok u x" and sz: "v5_Unsubscribe_encoded_size x limit = Ok n" and n: "n < 2 ^ 28"
  let ?ups = "unsub5_user_properties x" let ?pl = "encoded_size_UserProperties ?ups"
  have f: "unsub5_packet_id x \<noteq> 0" "list_all (uprop_ok u) ?ups" "list_all (str_ok u) (unsub5_topic_filters x)"
    using x by (simp_all add: v5_Unsubscribe_ok_def)
  note fl = unsubscribe_filters [OF f(3)]
  note pr = encode_UserProperties_ok [OF f(2)] encode_UserProperties_length [OF f(2)]
  have pl: "?pl < 2 ^ 28" using sz n by (simp add: v5_Unsubscribe_encoded_size_def Let_def)
  have l: "snd (write_variable_length ?pl) = Ok ()" "length (fst (write_variable_length ?pl)) = varint_len ?pl" "as_u32 ?pl = ?pl"
    using pl length_write_variable_length [of ?pl] by simp_all
  have e: "v5_Unsubscribe_encode x n = eok (fst (encode_u16 (unsub5_packet_id x)) @
      fst (write_variable_length (length (fst (encode_UserProperties ?ups)))) @ fst (encode_UserProperties ?ups) @
      fst (encs (map encode_Bytes (unsub5_topic_filters x))))"
    using pr l fl(1) by (intro eok_eqI) (simp_all add: v5_Unsubscribe_encode_def field_enc)
  show "snd (v5_Unsubscribe_encode x n) = Ok ()" by (simp add: e)
  show "length (fst (v5_Unsubscribe_encode x n)) = n"
    unfolding e using pr(2) l fl(2) sz
    by (simp add: v5_Unsubscribe_encoded_size_def Let_def var_int_len_eq [OF pl] field_enc encoded_size_u16_def)
  have "length (fst (encode_UserProperties ?ups)) \<le> 268435455" using pr(2) pl by simp
  then show "v5_Unsubscribe_decode u (fst (v5_Unsubscribe_encode x n)) = Ok (x, [])"
    using f(1) by (simp add: e v5_Unsubscribe_decode_def field_dec take_properties_write within_def unsub_props_loop [OF f(2)] fl(3))
qed

end
