(* ===== verification/V5_Codec.thy ===== *)
theory V5_Codec
  imports V5_Connect V5_Messages Framing
begin

text \<open>
  The packet type, \<open>decode_packet\<close> and \<open>EncodeLtd for Packet\<close> of MQTT 5 (\<open>src/v5/codec/packet/mod.rs\<close>,
  \<open>decode.rs\<close>, \<open>encode.rs\<close>), and the frame codec \<open>src/v5/codec/codec.rs\<close> with its inbound and outbound
  size limits and the flags negotiated in CONNECT.
\<close>

section \<open>Packets\<close>

datatype v5_Packet =
    V5_Connect v5_Connect
  | V5_ConnectAck v5_ConnectAck
  | V5_Publish v5_Publish
  | V5_PublishAck v5_PublishAck
  | V5_PublishReceived v5_PublishAck
  | V5_PublishRelease v5_PublishAck2
  | V5_PublishComplete v5_PublishAck2
  | V5_Subscribe v5_Subscribe
  | V5_SubscribeAck v5_SubscribeAck
  | V5_Unsubscribe v5_Unsubscribe
  | V5_UnsubscribeAck v5_UnsubscribeAck
  | V5_PingRequest
  | V5_PingResponse
  | V5_Disconnect v5_Disconnect
  | V5_Auth v5_Auth

fun v5_packet_type :: "v5_Packet \<Rightarrow> u8" where
  "v5_packet_type (V5_Connect _) = CONNECT"
| "v5_packet_type (V5_ConnectAck _) = CONNACK"
| "v5_packet_type (V5_Publish _) = PUBLISH_START"
| "v5_packet_type (V5_PublishAck _) = PUBACK"
| "v5_packet_type (V5_PublishReceived _) = PUBREC"
| "v5_packet_type (V5_PublishRelease _) = PUBREL"
| "v5_packet_type (V5_PublishComplete _) = PUBCOMP"
| "v5_packet_type (V5_Subscribe _) = SUBSCRIBE"
| "v5_packet_type (V5_SubscribeAck _) = SUBACK"
| "v5_packet_type (V5_Unsubscribe _) = UNSUBSCRIBE"
| "v5_packet_type (V5_UnsubscribeAck _) = UNSUBACK"
| "v5_packet_type V5_PingRequest = PINGREQ"
| "v5_packet_type V5_PingResponse = PINGRESP"
| "v5_packet_type (V5_Disconnect _) = DISCONNECT"
| "v5_packet_type (V5_Auth _) = AUTH"

definition dmap :: "('a \<Rightarrow> 'b) \<Rightarrow> 'a decoder \<Rightarrow> 'b decoder" where
  "dmap f p = dbind p (\<lambda>x. dreturn (f x))"

definition v5_decode_body :: "(bytes \<Rightarrow> bool) \<Rightarrow> u8 \<Rightarrow> v5_Packet decoder" where
  "v5_decode_body u fb =
     (if PUBLISH_START \<le> fb \<and> fb \<le> PUBLISH_END then dmap V5_Publish (v5_Publish_decode u (fb AND 0b00001111))
      else if fb = PUBACK then dmap V5_PublishAck (v5_PublishAck_decode u)
      else if fb = PINGREQ then dreturn V5_PingRequest
      else if fb = PINGRESP then dreturn V5_PingResponse
      else if fb = SUBSCRIBE then dmap V5_Subscribe (v5_Subscribe_decode u)
      else if fb = SUBACK then dmap V5_SubscribeAck (v5_SubscribeAck_decode u)
      else if fb = UNSUBSCRIBE then dmap V5_Unsubscribe (v5_Unsubscribe_decode u)
      else if fb = UNSUBACK then dmap V5_UnsubscribeAck (v5_UnsubscribeAck_decode u)
      else if fb = CONNECT then dmap V5_Connect (v5_Connect_decode u)
      else if fb = CONNACK then dmap V5_ConnectAck (v5_ConnectAck_decode u)
      else if fb = DISCONNECT then dmap V5_Disconnect (v5_Disconnect_decode u)
      else if fb = AUTH then dmap V5_Auth (v5_Auth_decode u)
      else if fb = PUBREC then dmap V5_PublishReceived (v5_PublishAck_decode u)
      else if fb = PUBREL then dmap V5_PublishRelease (v5_PublishAck2_decode u)
      else if fb = PUBCOMP then dmap V5_PublishComplete (v5_PublishAck2_decode u)
      else dlift (Err UnsupportedPacketType))"

definition v5_decode_packet :: "(bytes \<Rightarrow> bool) \<Rightarrow> bytes \<Rightarrow> u8 \<Rightarrow> (DecodeError, v5_Packet) res" where
  "v5_decode_packet u src fb = bindR (v5_decode_body u fb src) (\<lambda>(p, _). Ok p)"

fun v5_encoded_size :: "v5_Packet \<Rightarrow> nat \<Rightarrow> (EncodeError, nat) res" where
  "v5_encoded_size (V5_Connect c) limit = v5_Connect_encoded_size c limit"
| "v5_encoded_size (V5_Publish p) limit = v5_Publish_encoded_size p limit"
| "v5_encoded_size (V5_ConnectAck a) limit = v5_ConnectAck_encoded_size a limit"
| "v5_encoded_size (V5_PublishAck a) limit = pub_ack_encoded_size a limit"
| "v5_encoded_size (V5_PublishReceived a) limit = pub_ack_encoded_size a limit"
| "v5_encoded_size (V5_PublishRelease a) limit = pub_ack_encoded_size a limit"
| "v5_encoded_size (V5_PublishComplete a) limit = pub_ack_encoded_size a limit"
| "v5_encoded_size (V5_Subscribe s) limit = v5_Subscribe_encoded_size s limit"
| "v5_encoded_size (V5_SubscribeAck a) limit = v5_SubscribeAck_encoded_size a limit"
| "v5_encoded_size (V5_Unsubscribe s) limit = v5_Unsubscribe_encoded_size s limit"
| "v5_encoded_size (V5_UnsubscribeAck a) limit = v5_UnsubscribeAck_encoded_size a limit"
| "v5_encoded_size V5_PingRequest limit = Ok 0"
| "v5_encoded_size V5_PingResponse limit = Ok 0"
| "v5_encoded_size (V5_Disconnect d) limit = v5_Disconnect_encoded_size d limit"
| "v5_encoded_size (V5_Auth a) limit = v5_Auth_encoded_size a limit"

fun v5_encode :: "v5_Packet \<Rightarrow> nat \<Rightarrow> encoder" where
  "v5_encode (V5_Connect c) n = encs [put_u8 CONNECT, write_variable_length n, v5_Connect_encode c n]"
| "v5_encode (V5_ConnectAck a) n = encs [put_u8 CONNACK, write_variable_length n, v5_ConnectAck_encode a n]"
| "v5_encode (V5_Publish p) n =
     encs [put_u8 (publish_first_byte (pub5_qos p) (pub5_dup p) (pub5_retain p)), write_variable_length n,
           v5_Publish_encode p n]"
| "v5_encode (V5_PublishAck a) n = encs [put_u8 PUBACK, write_variable_length n, v5_PublishAck_encode a n]"
| "v5_encode (V5_PublishReceived a) n = encs [put_u8 PUBREC, write_variable_length n, v5_PublishAck_encode a n]"
| "v5_encode (V5_PublishRelease a) n = encs [put_u8 PUBREL, write_variable_length n, v5_PublishAck2_encode a n]"
| "v5_encode (V5_PublishComplete a) n = encs [put_u8 PUBCOMP, write_variable_length n, v5_PublishAck2_encode a n]"
| "v5_encode (V5_Subscribe s) n = encs [put_u8 SUBSCRIBE, write_variable_length n, v5_Subscribe_encode s n]"
| "v5_encode (V5_SubscribeAck a) n = encs [put_u8 SUBACK, write_variable_length n, v5_SubscribeAck_encode a n]"
| "v5_encode (V5_Unsubscribe s) n = encs [put_u8 UNSUBSCRIBE, write_variable_length n, v5_Unsubscribe_encode s n]"
| "v5_encode (V5_UnsubscribeAck a) n = encs [put_u8 UNSUBACK, write_variable_length n, v5_UnsubscribeAck_encode a n]"
| "v5_encode V5_PingRequest n = put_slice [PINGREQ, 0]"
| "v5_encode V5_PingResponse n = put_slice [PINGRESP, 0]"
| "v5_encode (V5_Disconnect d) n = encs [put_u8 DISCONNECT, write_variable_length n, v5_Disconnect_encode d n]"
| "v5_encode (V5_Auth a) n = encs [put_u8 AUTH, write_variable_length n, v5_Auth_encode a n]"

section \<open>The codec\<close>

definition CodecFlag_NO_PROBLEM_INFO :: u8 where "CodecFlag_NO_PROBLEM_INFO = 0b00000001"
definition CodecFlag_NO_RETAIN :: u8 where "CodecFlag_NO_RETAIN = 0b00000010"
definition CodecFlag_NO_SUB_IDS :: u8 where "CodecFlag_NO_SUB_IDS = 0b00001000"

lemmas codec_flag_defs = CodecFlag_NO_PROBLEM_INFO_def CodecFlag_NO_RETAIN_def CodecFlag_NO_SUB_IDS_def

definition flags_set :: "u8 \<Rightarrow> bool \<Rightarrow> u8 \<Rightarrow> u8" where
  "flags_set f val flags = (if val then flags OR f else flags AND NOT f)"

record v5_Codec =
  c5_state :: DecodeState
  c5_max_in_size :: nat
  c5_max_out_size :: nat
  c5_flags :: u8

definition v5_Codec_new :: v5_Codec where
  "v5_Codec_new = \<lparr>c5_state = FrameHeader, c5_max_in_size = 0, c5_max_out_size = 0, c5_flags = 0\<rparr>"

definition v5_set_max_inbound_size :: "nat \<Rightarrow> v5_Codec \<Rightarrow> v5_Codec" where
  "v5_set_max_inbound_size sz c = c\<lparr>c5_max_in_size := sz\<rparr>"

definition v5_set_max_outbound_size :: "nat \<Rightarrow> v5_Codec \<Rightarrow> v5_Codec" where
  "v5_set_max_outbound_size sz c = c\<lparr>c5_max_out_size := (if 5 < sz then sz - 5 else sz)\<rparr>"

definition v5_retain_available :: "v5_Codec \<Rightarrow> bool" where
  "v5_retain_available c \<longleftrightarrow> \<not> flags_contains (c5_flags c) CodecFlag_NO_RETAIN"

definition v5_sub_ids_available :: "v5_Codec \<Rightarrow> bool" where
  "v5_sub_ids_available c \<longleftrightarrow> \<not> flags_contains (c5_flags c) CodecFlag_NO_SUB_IDS"

definition v5_set_retain_available :: "bool \<Rightarrow> v5_Codec \<Rightarrow> v5_Codec" where
  "v5_set_retain_available val c = c\<lparr>c5_flags := flags_set CodecFlag_NO_RETAIN (\<not> val) (c5_flags c)\<rparr>"

definition v5_set_sub_ids_available :: "bool \<Rightarrow> v5_Codec \<Rightarrow> v5_Codec" where
  "v5_set_sub_ids_available val c = c\<lparr>c5_flags := flags_set CodecFlag_NO_SUB_IDS (\<not> val) (c5_flags c)\<rparr>"

type_synonym v5_decode_result = "(v5_Packet, v5_Codec) decode_result"

text \<open>After a packet the machine waits for a header again; CONNECT sets the problem-info flag.\<close>

definition v5_finish :: "v5_Packet \<Rightarrow> v5_Codec \<Rightarrow> v5_Codec" where
  "v5_finish packet c =
     (case packet of
        V5_Connect pkt \<Rightarrow> c\<lparr>c5_state := FrameHeader, c5_flags :=
          flags_set CodecFlag_NO_PROBLEM_INFO (\<not> con5_request_problem_info pkt) (c5_flags c)\<rparr>
      | _ \<Rightarrow> c\<lparr>c5_state := FrameHeader\<rparr>)"

definition v5_decode_frame :: "(bytes \<Rightarrow> bool) \<Rightarrow> v5_Codec \<Rightarrow> FixedHeader \<Rightarrow> bytes \<Rightarrow> v5_decode_result" where
  "v5_decode_frame u c fixed src =
     (if length src < remaining_length fixed then (Ok None, c, src)
      else
        let packet_buf = take (remaining_length fixed) src;
            src' = drop (remaining_length fixed) src in
        case v5_decode_packet u packet_buf (first_byte fixed) of
          Ok packet \<Rightarrow> (Ok (Some (packet, remaining_length fixed)), v5_finish packet c, src')
        | Err e \<Rightarrow> (Err e, c, src')
        | Panic \<Rightarrow> (Panic, c, src'))"

definition v5_codec_decode :: "(bytes \<Rightarrow> bool) \<Rightarrow> v5_Codec \<Rightarrow> bytes \<Rightarrow> v5_decode_result" where
  "v5_codec_decode u c src =
     (case c5_state c of
        FrameHeader \<Rightarrow>
          if length src < 2 then (Ok None, c, src)
          else (case decode_variable_length (tl src) of
              Err e \<Rightarrow> (Err e, c, src)
            | Panic \<Rightarrow> (Panic, c, src)
            | Ok None \<Rightarrow> (Ok None, c, src)
            | Ok (Some (rem_len, consumed)) \<Rightarrow>
                if c5_max_in_size c \<noteq> 0 \<and> c5_max_in_size c < rem_len then (Err MaxSizeExceeded, c, src)
                else
                  let src' = drop (consumed + 1) src;
                      fixed = \<lparr>first_byte = hd src, remaining_length = rem_len\<rparr>;
                      c' = c\<lparr>c5_state := Frame fixed\<rparr> in
                  if length src' < rem_len then (Ok None, c', src')
                  else v5_decode_frame u c' fixed src')
      | Frame fixed \<Rightarrow> v5_decode_frame u c fixed src)"

text \<open>The match of \<open>Codec::encode\<close> for a peer that asked for no problem information.\<close>

fun v5_strip_problem_info :: "v5_Packet \<Rightarrow> v5_Packet" where
  "v5_strip_problem_info (V5_PublishAck a) = V5_PublishAck (a\<lparr>ack5_properties := [], ack5_reason_string := None\<rparr>)"
| "v5_strip_problem_info (V5_PublishReceived a) = V5_PublishReceived (a\<lparr>ack5_properties := [], ack5_reason_string := None\<rparr>)"
| "v5_strip_problem_info (V5_PublishRelease a) = V5_PublishRelease (a\<lparr>ack5_properties := [], ack5_reason_string := None\<rparr>)"
| "v5_strip_problem_info (V5_PublishComplete a) = V5_PublishComplete (a\<lparr>ack5_properties := [], ack5_reason_string := None\<rparr>)"
| "v5_strip_problem_info (V5_Subscribe s) = V5_Subscribe (s\<lparr>sub5_user_properties := []\<rparr>)"
| "v5_strip_problem_info (V5_SubscribeAck a) = V5_SubscribeAck (a\<lparr>sack5_properties := [], sack5_reason_string := None\<rparr>)"
| "v5_strip_problem_info (V5_Unsubscribe s) = V5_Unsubscribe (s\<lparr>unsub5_user_properties := []\<rparr>)"
| "v5_strip_problem_info (V5_UnsubscribeAck a) = V5_UnsubscribeAck (a\<lparr>sack5_properties := [], sack5_reason_string := None\<rparr>)"
| "v5_strip_problem_info (V5_Auth a) = V5_Auth (a\<lparr>auth5_user_properties := [], auth5_reason_string := None\<rparr>)"
| "v5_strip_problem_info p = p"

definition v5_out_limit :: "v5_Codec \<Rightarrow> nat" where
  "v5_out_limit c = (if c5_max_out_size c \<noteq> 0 then c5_max_out_size c else MAX_PACKET_SIZE)"

definition v5_out_packet :: "v5_Codec \<Rightarrow> v5_Packet \<Rightarrow> v5_Packet" where
  "v5_out_packet c item = (if flags_contains (c5_flags c) CodecFlag_NO_PROBLEM_INFO then v5_strip_problem_info item else item)"

definition v5_codec_encode :: "v5_Codec \<Rightarrow> v5_Packet \<Rightarrow> encoder" where
  "v5_codec_encode c item =
     (let item' = v5_out_packet c item; max_size = v5_out_limit c in
      elift (v5_encoded_size item' max_size) (\<lambda>content_size.
        if max_size < content_size then eerr OverMaxPacketSize
        else v5_encode item' (as_u32 content_size)))"

section \<open>The codec is a frame machine\<close>

lemma dmap_apply [simp]: "dmap f p s = bindR (p s) (\<lambda>(x, r). Ok (f x, r))"
  by (simp add: dmap_def)

lemma safe_dmap [safe_intros]: "safe_reader p \<Longrightarrow> safe_reader (dmap f p)"
  unfolding dmap_def by (intro safe_intros)

lemma v5_decode_packet_not_Panic: "v5_decode_packet u src fb \<noteq> Panic"
proof -
  have "safe_reader (v5_decode_body u fb)" unfolding v5_decode_body_def by (intro safe_intros)
  then show ?thesis by (auto simp: v5_decode_packet_def bindR_eq_Panic dest: safe_reader_not_Panic)
qed

interpretation codec5: framing c5_state "\<lambda>s c. c\<lparr>c5_state := s\<rparr>" c5_max_in_size "v5_decode_packet u"
  v5_finish "v5_codec_decode u" for u
proof
  have arm: "v5_decode_frame u c fixed src = frame_arm (v5_decode_packet u) v5_finish c fixed src"
    for c fixed src by (simp add: v5_decode_frame_def frame_arm_def Let_def)
  show "c5_state c = Frame fixed \<Longrightarrow> v5_codec_decode u c src =
      frame_arm (v5_decode_packet u) v5_finish c fixed src" for c fixed src
    by (simp add: v5_codec_decode_def arm)
  show "c5_state c = FrameHeader \<Longrightarrow> bs \<noteq> [] \<Longrightarrow> v5_codec_decode u c (fb # bs) =
      (case decode_variable_length bs of
         Err e \<Rightarrow> (Err e, c, fb # bs)
       | Panic \<Rightarrow> (Panic, c, fb # bs)
       | Ok None \<Rightarrow> (Ok None, c, fb # bs)
       | Ok (Some (n, k)) \<Rightarrow>
           if within_limit n (c5_max_in_size c) then
             frame_arm (v5_decode_packet u) v5_finish
               (c\<lparr>c5_state := Frame \<lparr>first_byte = fb, remaining_length = n\<rparr>\<rparr>)
               \<lparr>first_byte = fb, remaining_length = n\<rparr> (drop k bs)
           else (Err MaxSizeExceeded, c, fb # bs))" for c bs fb
    by (auto simp: v5_codec_decode_def arm frame_arm_def Let_def Suc_le_eq not_less split: res.splits option.splits)
qed (simp_all add: v5_decode_packet_not_Panic v5_codec_decode_def v5_finish_def split: v5_Packet.splits)

section \<open>Encoded packets decode to themselves\<close>

text \<open>
  Well-formed packets: strings are valid UTF-8 and fit their two-byte length, identifiers are not
  zero, subscription identifiers fit a variable-length integer, and the conditions of the 3.1.1 codec
  on PUBLISH and CONNECT hold.
\<close>

fun v5_wf :: "(bytes \<Rightarrow> bool) \<Rightarrow> v5_Packet \<Rightarrow> bool" where
  "v5_wf u (V5_Connect c) \<longleftrightarrow> v5_Connect_ok u c"
| "v5_wf u (V5_ConnectAck a) \<longleftrightarrow> v5_ConnectAck_ok u a"
| "v5_wf u (V5_Publish p) \<longleftrightarrow> v5_Publish_ok u p"
| "v5_wf u (V5_PublishAck a) \<longleftrightarrow> pub_ack_ok u a"
| "v5_wf u (V5_PublishReceived a) \<longleftrightarrow> pub_ack_ok u a"
| "v5_wf u (V5_PublishRelease a) \<longleftrightarrow> pub_ack_ok u a"
| "v5_wf u (V5_PublishComplete a) \<longleftrightarrow> pub_ack_ok u a"
| "v5_wf u (V5_Subscribe s) \<longleftrightarrow> v5_Subscribe_ok u s"
| "v5_wf u (V5_SubscribeAck a) \<longleftrightarrow> status_ack_ok u a"
| "v5_wf u (V5_Unsubscribe s) \<longleftrightarrow> v5_Unsubscribe_ok u s"
| "v5_wf u (V5_UnsubscribeAck a) \<longleftrightarrow> status_ack_ok u a"
| "v5_wf u V5_PingRequest \<longleftrightarrow> True"
| "v5_wf u V5_PingResponse \<longleftrightarrow> True"
| "v5_wf u (V5_Disconnect d) \<longleftrightarrow> v5_Disconnect_ok u d"
| "v5_wf u (V5_Auth a) \<longleftrightarrow> v5_Auth_ok u a"

text \<open>The packet less the diagnostic properties that do not fit the limit.\<close>

fun v5_trim :: "v5_Packet \<Rightarrow> nat \<Rightarrow> v5_Packet" where
  "v5_trim (V5_ConnectAck a) limit = V5_ConnectAck (v5_ConnectAck_trim a limit)"
| "v5_trim (V5_PublishAck a) limit = V5_PublishAck (pub_ack_trim a limit)"
| "v5_trim (V5_PublishReceived a) limit = V5_PublishReceived (pub_ack_trim a limit)"
| "v5_trim (V5_PublishRelease a) limit = V5_PublishRelease (pub_ack_trim a limit)"
| "v5_trim (V5_PublishComplete a) limit = V5_PublishComplete (pub_ack_trim a limit)"
| "v5_trim (V5_SubscribeAck a) limit = V5_SubscribeAck (status_ack_trim a limit)"
| "v5_trim (V5_UnsubscribeAck a) limit = V5_UnsubscribeAck (status_ack_trim a limit)"
| "v5_trim (V5_Disconnect d) limit = V5_Disconnect (v5_Disconnect_trim d limit)"
| "v5_trim (V5_Auth a) limit = V5_Auth (v5_Auth_trim a limit)"
| "v5_trim p limit = p"

text \<open>When all diagnostic properties fit.\<close>

fun v5_fits :: "v5_Packet \<Rightarrow> nat \<Rightarrow> bool" where
  "v5_fits (V5_ConnectAck a) limit \<longleftrightarrow>
     diag_size (cack5_user_properties a, cack5_reason_string a) + v5_ConnectAck_props_len a + 6 \<le> limit"
| "v5_fits (V5_PublishAck a) limit \<longleftrightarrow> diag_size (ack5_properties a, ack5_reason_string a) + 11 \<le> limit"
| "v5_fits (V5_PublishReceived a) limit \<longleftrightarrow> diag_size (ack5_properties a, ack5_reason_string a) + 11 \<le> limit"
| "v5_fits (V5_PublishRelease a) limit \<longleftrightarrow> diag_size (ack5_properties a, ack5_reason_string a) + 11 \<le> limit"
| "v5_fits (V5_PublishComplete a) limit \<longleftrightarrow> diag_size (ack5_properties a, ack5_reason_string a) + 11 \<le> limit"
| "v5_fits (V5_SubscribeAck a) limit \<longleftrightarrow>
     diag_size (sack5_properties a, sack5_reason_string a) + length (sack5_status a) + 6 \<le> limit"
| "v5_fits (V5_UnsubscribeAck a) limit \<longleftrightarrow>
     diag_size (sack5_properties a, sack5_reason_string a) + length (sack5_status a) + 6 \<le> limit"
| "v5_fits (V5_Disconnect d) limit \<longleftrightarrow>
     diag_size (dis5_user_properties d, dis5_reason_string d) + v5_Disconnect_props_len d + 5 \<le> limit"
| "v5_fits (V5_Auth a) limit \<longleftrightarrow>
     diag_size (auth5_user_properties a, auth5_reason_string a) + v5_Auth_props_len a + 5 \<le> limit"
| "v5_fits p limit \<longleftrightarrow> True"

lemma v5_trim_fits: "v5_fits p limit \<Longrightarrow> v5_trim p limit = p"
  by (cases p) (auto simp: v5_ConnectAck_trim_def pub_ack_trim_def status_ack_trim_def v5_Disconnect_trim_def
      v5_Auth_trim_def Let_def diag_fit_def ack_fit_all fit_props_all)

definition v5_frame_ok :: "(bytes \<Rightarrow> bool) \<Rightarrow> v5_Packet \<Rightarrow> nat \<Rightarrow> nat \<Rightarrow> bool" where
  "v5_frame_ok u p limit n \<longleftrightarrow>
     (\<exists>fb body. v5_encode p n = eok (fb # fst (write_variable_length n) @ body) \<and> length body = n \<and>
        v5_decode_packet u body fb = Ok (v5_trim p limit))"

lemma v5_frame_okI:
  assumes "v5_encode p n = encs [put_u8 fb, write_variable_length n, e]"
    and "encs [put_u8 fb, write_variable_length n, e] = eok (fb # fst (write_variable_length n) @ fst e)"
    and "length (fst e) = n" and "v5_decode_body u fb (fst e) = Ok (v5_trim p limit, [])"
  shows "v5_frame_ok u p limit n"
  unfolding v5_frame_ok_def using assms
  by (intro exI [of _ fb] exI [of _ "fst e"]) (simp add: v5_decode_packet_def)

lemma publish_first_byte_range:
  "PUBLISH_START \<le> publish_first_byte q d r \<and> publish_first_byte q d r \<le> PUBLISH_END"
  by (cases q; cases d; cases r; simp add: publish_first_byte_def packet_type_defs)

lemma v5_frame:
  assumes "v5_wf u p" and "v5_encoded_size p limit = Ok n" and "n < 2 ^ 28"
  shows "v5_frame_ok u p limit n"
proof (cases p)
  case (V5_Connect x)
  then show ?thesis using assms connect5.frame [of u x limit n] connect5.body_length [of u x limit n] connect5.body_dec [of u x limit n]
    by (intro v5_frame_okI [where fb = CONNECT and e = "v5_Connect_encode x n"]) (simp_all add: v5_decode_body_def packet_type_defs)
next
  case (V5_ConnectAck x)
  then show ?thesis using assms connack5.frame [of u x limit n] connack5.body_length [of u x limit n] connack5.body_dec [of u x limit n]
    by (intro v5_frame_okI [where fb = CONNACK and e = "v5_ConnectAck_encode x n"]) (simp_all add: v5_decode_body_def packet_type_defs)
next
  case (V5_Publish x)
  let ?fb = "publish_first_byte (pub5_qos x) (pub5_dup x) (pub5_retain x)"
  from V5_Publish show ?thesis
    using assms publish5.frame [of u x limit n] publish5.body_length [of u x limit n] publish5.body_dec [of u x limit n]
    by (intro v5_frame_okI [where fb = ?fb and e = "v5_Publish_encode x n"])
      (simp_all add: v5_decode_body_def publish_first_byte_range)
next
  case (V5_PublishAck x)
  then show ?thesis using assms puback5.frame [of u x limit n] puback5.body_length [of u x limit n] puback5.body_dec [of u x limit n]
    by (intro v5_frame_okI [where fb = PUBACK and e = "v5_PublishAck_encode x n"]) (simp_all add: v5_decode_body_def packet_type_defs)
next
  case (V5_PublishReceived x)
  then show ?thesis using assms pubrec5.frame [of u x limit n] pubrec5.body_length [of u x limit n] pubrec5.body_dec [of u x limit n]
    by (intro v5_frame_okI [where fb = PUBREC and e = "v5_PublishAck_encode x n"]) (simp_all add: v5_decode_body_def packet_type_defs)
next
  case (V5_PublishRelease x)
  then show ?thesis using assms pubrel5.frame [of u x limit n] pubrel5.body_length [of u x limit n] pubrel5.body_dec [of u x limit n]
    by (intro v5_frame_okI [where fb = PUBREL and e = "v5_PublishAck2_encode x n"]) (simp_all add: v5_decode_body_def packet_type_defs)
next
  case (V5_PublishComplete x)
  then show ?thesis using assms pubcomp5.frame [of u x limit n] pubcomp5.body_length [of u x limit n] pubcomp5.body_dec [of u x limit n]
    by (intro v5_frame_okI [where fb = PUBCOMP and e = "v5_PublishAck2_encode x n"]) (simp_all add: v5_decode_body_def packet_type_defs)
next
  case (V5_Subscribe x)
  then show ?thesis using assms subscribe5.frame [of u x limit n] subscribe5.body_length [of u x limit n] subscribe5.body_dec [of u x limit n]
    by (intro v5_frame_okI [where fb = SUBSCRIBE and e = "v5_Subscribe_encode x n"]) (simp_all add: v5_decode_body_def packet_type_defs)
next
  case (V5_SubscribeAck x)
  then show ?thesis using assms suback5.frame [of u x limit n] suback5.body_length [of u x limit n] suback5.body_dec [of u x limit n]
    by (intro v5_frame_okI [where fb = SUBACK and e = "v5_SubscribeAck_encode x n"]) (simp_all add: v5_decode_body_def packet_type_defs)
next
  case (V5_Unsubscribe x)
  then show ?thesis using assms unsubscribe5.frame [of u x limit n] unsubscribe5.body_length [of u x limit n] unsubscribe5.body_dec [of u x limit n]
    by (intro v5_frame_okI [where fb = UNSUBSCRIBE and e = "v5_Unsubscribe_encode x n"]) (simp_all add: v5_decode_body_def packet_type_defs)
next
  case (V5_UnsubscribeAck x)
  then show ?thesis using assms unsuback5.frame [of u x limit n] unsuback5.body_length [of u x limit n] unsuback5.body_dec [of u x limit n]
    by (intro v5_frame_okI [where fb = UNSUBACK and e = "v5_UnsubscribeAck_encode x n"]) (simp_all add: v5_decode_body_def packet_type_defs)
next
  case (V5_Disconnect x)
  then show ?thesis using assms disconnect5.frame [of u x limit n] disconnect5.body_length [of u x limit n] disconnect5.body_dec [of u x limit n]
    by (intro v5_frame_okI [where fb = DISCONNECT and e = "v5_Disconnect_encode x n"]) (simp_all add: v5_decode_body_def packet_type_defs)
next
  case (V5_Auth x)
  then show ?thesis using assms authp5.frame [of u x limit n] authp5.body_length [of u x limit n] authp5.body_dec [of u x limit n]
    by (intro v5_frame_okI [where fb = AUTH and e = "v5_Auth_encode x n"]) (simp_all add: v5_decode_body_def packet_type_defs)
next
  case V5_PingRequest
  then show ?thesis unfolding v5_frame_ok_def using assms
    by (intro exI [of _ PINGREQ] exI [of _ "[]"])
      (simp add: write_variable_length_def put_slice_def v5_decode_packet_def v5_decode_body_def packet_type_defs)
next
  case V5_PingResponse
  then show ?thesis unfolding v5_frame_ok_def using assms
    by (intro exI [of _ PINGRESP] exI [of _ "[]"])
      (simp add: write_variable_length_def put_slice_def v5_decode_packet_def v5_decode_body_def packet_type_defs)
qed

section \<open>What the encoder writes\<close>

text \<open>The limits at which the size computations do not underflow.\<close>

fun v5_size_safe :: "v5_Packet \<Rightarrow> nat \<Rightarrow> bool" where
  "v5_size_safe (V5_PublishAck a) limit \<longleftrightarrow> 7 \<le> limit"
| "v5_size_safe (V5_PublishReceived a) limit \<longleftrightarrow> 7 \<le> limit"
| "v5_size_safe (V5_PublishRelease a) limit \<longleftrightarrow> 7 \<le> limit"
| "v5_size_safe (V5_PublishComplete a) limit \<longleftrightarrow> 7 \<le> limit"
| "v5_size_safe (V5_SubscribeAck a) limit \<longleftrightarrow>
     2 ^ 32 - 3 < length (sack5_status a) \<or> length (sack5_status a) + 2 \<le> limit"
| "v5_size_safe p limit \<longleftrightarrow> True"

lemma v5_encoded_size_safe:
  "if v5_size_safe p limit then \<exists>n. v5_encoded_size p limit = Ok n else v5_encoded_size p limit = Panic"
  by (cases p) (auto simp: v5_Connect_encoded_size_def v5_ConnectAck_encoded_size_def v5_Publish_encoded_size_def
      v5_Subscribe_encoded_size_def v5_SubscribeAck_encoded_size_def v5_Unsubscribe_encoded_size_def
      v5_UnsubscribeAck_encoded_size_def v5_Disconnect_encoded_size_def v5_Auth_encoded_size_def
      pub_ack_encoded_size_def PUBACK_HEADER_LEN_def checked_sub_def Let_def)

lemma v5_encode_unsafe:
  "\<not> v5_size_safe (v5_out_packet c p) (v5_out_limit c) \<Longrightarrow> v5_codec_encode c p = epanic"
  using v5_encoded_size_safe [of "v5_out_packet c p" "v5_out_limit c"] by (simp add: v5_codec_encode_def Let_def)

lemma v5_wf_out_packet: "v5_wf u p \<Longrightarrow> v5_wf u (v5_out_packet c p)"
  by (cases p) (auto simp: v5_out_packet_def pub_ack_ok_def status_ack_ok_def v5_Subscribe_ok_def
      v5_Unsubscribe_ok_def v5_Auth_ok_def diag_ok_def)

text \<open>The whole frame of a packet that respects the limits.\<close>

lemma v5_codec_encode_eq:
  assumes "v5_wf u p" and "v5_encoded_size (v5_out_packet c p) (v5_out_limit c) = Ok n"
    and "n \<le> v5_out_limit c" and "n \<le> 268435455"
  obtains fb body where "v5_codec_encode c p = eok (fb # fst (write_variable_length n) @ body)"
    and "length body = n" and "v5_decode_packet u body fb = Ok (v5_trim (v5_out_packet c p) (v5_out_limit c))"
proof -
  have n: "n < 2 ^ 28" "n < 2 ^ 32" using assms(4) by simp_all
  from v5_frame [OF v5_wf_out_packet [OF assms(1)] assms(2) n(1)] obtain fb body
    where "v5_encode (v5_out_packet c p) n = eok (fb # fst (write_variable_length n) @ body)"
      "length body = n" "v5_decode_packet u body fb = Ok (v5_trim (v5_out_packet c p) (v5_out_limit c))"
    unfolding v5_frame_ok_def by blast
  then show thesis using that assms(2,3) n(2) by (simp add: v5_codec_encode_def Let_def elift_def)
qed

lemma v5_codec_encode_length:
  assumes "v5_wf u p" and "v5_encoded_size (v5_out_packet c p) (v5_out_limit c) = Ok n"
    and "n \<le> v5_out_limit c" and "n \<le> 268435455"
  shows "snd (v5_codec_encode c p) = Ok ()" and "length (fst (v5_codec_encode c p)) = 1 + varint_len n + n"
  by (rule v5_codec_encode_eq [OF assms]; simp add: length_write_variable_length [OF assms(4)])+

lemma v5_decode_encode:
  assumes "v5_wf u p" and "v5_encoded_size (v5_out_packet c p) (v5_out_limit c) = Ok n"
    and "n \<le> v5_out_limit c" and "n \<le> 268435455"
    and "c5_state d = FrameHeader" and "within_limit n (c5_max_in_size d)"
  shows "v5_codec_decode u d (fst (v5_codec_encode c p) @ r) =
    (let q = v5_trim (v5_out_packet c p) (v5_out_limit c) in (Ok (Some (q, n)), v5_finish q d, r))"
proof (rule v5_codec_encode_eq [OF assms(1-4)])
  fix fb body
  assume enc: "v5_codec_encode c p = eok (fb # fst (write_variable_length n) @ body)" and len: "length body = n"
    and dec: "v5_decode_packet u body fb = Ok (v5_trim (v5_out_packet c p) (v5_out_limit c))"
  have fin: "v5_finish q (d\<lparr>c5_state := s\<rparr>) = v5_finish q d" for q s
    by (simp add: v5_finish_def split: v5_Packet.splits)
  show ?thesis
    using codec5.decode_whole_frame [OF assms(5), of body u fb _ r] assms(4,6) enc len dec
    by (simp add: Let_def fin)
qed

definition v5_codec_inv :: "v5_Codec \<Rightarrow> bool" where
  "v5_codec_inv c \<longleftrightarrow> frame_in_limit (c5_state c) (c5_max_in_size c)"

section \<open>Properties\<close>

definition v5_sample :: v5_Packet where
  "v5_sample = V5_PublishAck \<lparr>ack5_packet_id = 258, ack5_reason_code = PA_UnspecifiedError,
     ack5_properties = [([0x61], [0x62])], ack5_reason_string = Some [0x31, 0x32, 0x33]\<rparr>"

text \<open>The inbound size limit of MQTT 5 holds on every path: a codec that respects its limit still
  does after any call, no call changes the limit, and no packet is delivered whose remaining length
  exceeds it.\<close>

theorem v5_codec_inbound_limit:
  "v5_codec_inv c \<Longrightarrow> v5_codec_decode u c src = (res, c', src') \<Longrightarrow>
   v5_codec_inv c' \<and> c5_max_in_size c' = c5_max_in_size c \<and>
   (\<forall>p n. res = Ok (Some (p, n)) \<longrightarrow> c5_max_in_size c = 0 \<or> n \<le> c5_max_in_size c)"
  using codec5.decode_limit [of c u src res c' src'] by (auto simp: v5_codec_inv_def)

text \<open>C31: What \<open>Codec::encode\<close> does with a well-formed packet when the limit is at least 7 (and leaves
  room for the codes of a SUBACK) and at most the largest remaining length: the size computation
  succeeds, and either the packet is too big and refused with nothing written, or exactly the fixed
  header, its length field and the computed number of bytes are written.\<close>

theorem v5_codec_encode_outcome:
  assumes "v5_wf u p" and "v5_size_safe (v5_out_packet c p) (v5_out_limit c)" and "v5_out_limit c \<le> 268435455"
  shows "\<exists>n. v5_encoded_size (v5_out_packet c p) (v5_out_limit c) = Ok n \<and>
    (if v5_out_limit c < n then v5_codec_encode c p = eerr OverMaxPacketSize
     else snd (v5_codec_encode c p) = Ok () \<and> length (fst (v5_codec_encode c p)) = 1 + varint_len n + n)"
proof -
  obtain n where n: "v5_encoded_size (v5_out_packet c p) (v5_out_limit c) = Ok n"
    using v5_encoded_size_safe [of "v5_out_packet c p" "v5_out_limit c"] assms(2) by auto
  have "if v5_out_limit c < n then v5_codec_encode c p = eerr OverMaxPacketSize
     else snd (v5_codec_encode c p) = Ok () \<and> length (fst (v5_codec_encode c p)) = 1 + varint_len n + n"
    using v5_codec_encode_length [OF assms(1) n] assms(3) n by (auto simp: v5_codec_encode_def Let_def)
  then show ?thesis using n by blast
qed

theorem v5_codec_encode_outcome_witness:
  "length (fst (v5_codec_encode v5_Codec_new V5_PingRequest)) = 2"
proof -
  have out: "v5_out_packet v5_Codec_new V5_PingRequest = V5_PingRequest" "v5_out_limit v5_Codec_new = 268435455"
    by (simp_all add: v5_out_packet_def v5_out_limit_def v5_Codec_new_def flags_contains_def codec_flag_defs MAX_PACKET_SIZE_def)
  show ?thesis
    using v5_codec_encode_outcome [of "\<lambda>_. True" V5_PingRequest v5_Codec_new] by (simp add: out varint_len_def)
qed

text \<open>C32: The outbound limit the peer asks for holds for the whole packet: after
  \<open>set_max_outbound_size(sz)\<close> with \<open>sz > 5\<close> every frame that is written without an error has at most
  \<open>sz\<close> bytes, header included.\<close>

theorem v5_codec_outbound_limit:
  assumes "v5_wf u p" and "5 < sz" and "sz \<le> 268435460"
    and "snd (v5_codec_encode (v5_set_max_outbound_size sz c) p) = Ok ()"
  shows "length (fst (v5_codec_encode (v5_set_max_outbound_size sz c) p)) \<le> sz"
proof -
  let ?c = "v5_set_max_outbound_size sz c"
  have l: "v5_out_limit ?c = sz - 5" using assms(2) by (simp add: v5_out_limit_def v5_set_max_outbound_size_def)
  obtain n where n: "v5_encoded_size (v5_out_packet ?c p) (v5_out_limit ?c) = Ok n" and le: "n \<le> v5_out_limit ?c"
    using assms(4) by (auto simp: v5_codec_encode_def Let_def elift_def split: res.splits if_splits)
  have n4: "n \<le> 268435455" using le l assms(3) by simp
  have "varint_len n \<le> 4" by (simp add: varint_len_def)
  then show ?thesis using v5_codec_encode_length(2) [OF assms(1) n le n4] le l assms(2) by simp
qed

theorem v5_codec_outbound_limit_witness:
  "length (fst (v5_codec_encode (v5_set_max_outbound_size 6 v5_Codec_new) V5_PingRequest)) \<le> 6"
  by (rule v5_codec_outbound_limit [of "\<lambda>_. True"])
    (simp_all add: v5_codec_encode_def v5_out_packet_def v5_out_limit_def v5_set_max_outbound_size_def v5_Codec_new_def
      flags_contains_def codec_flag_defs elift_def put_slice_def)

text \<open>With a non-zero outbound limit below 7 the size computation of PUBACK, PUBREC, PUBREL and
  PUBCOMP subtracts below zero: encoding any of them panics (with overflow checks) instead of
  reporting \<open>OverMaxPacketSize\<close>.\<close>

theorem v5_encode_small_limit_panics:
  assumes "0 < c5_max_out_size c" and "c5_max_out_size c < 7"
  shows "v5_codec_encode c (V5_PublishAck a) = epanic \<and> v5_codec_encode c (V5_PublishReceived a) = epanic \<and>
    v5_codec_encode c (V5_PublishRelease b) = epanic \<and> v5_codec_encode c (V5_PublishComplete b) = epanic"
  using assms by (intro conjI v5_encode_unsafe) (simp_all add: v5_out_packet_def v5_out_limit_def)

theorem v5_encode_small_limit_panics_witness:
  "v5_codec_encode (v5_set_max_outbound_size 11 v5_Codec_new) v5_sample = epanic"
  using v5_encode_small_limit_panics [of "v5_set_max_outbound_size 11 v5_Codec_new"]
  by (simp add: v5_sample_def v5_set_max_outbound_size_def v5_Codec_new_def)

end
