(* ===== verification/Streams.thy ===== *)
theory Streams
  imports V3_Codec V5_Codec
begin

text \<open>
  What a connection reads from its stream. The stream dispatcher (\<open>src/io.rs\<close>) calls the decoder on the bytes read so far until it asks for
  more; \<open>read_all\<close> is this loop, \<open>feed\<close> is the loop for each chunk of bytes that arrives. On an error the dispatcher stops
  reading. Every codec that is a \<open>framing\<close> reads the same packets however the stream is cut, and reads back what was written.
\<close>

section \<open>Reading a stream\<close>

text \<open>The packets, and the error that ended them, if there is one, with the codec and the bytes that are left. A panic is
  \<open>None\<close>, as is running out of fuel; \<open>stream_read_total\<close> shows that there is neither with the fuel of \<open>stream_read\<close>.\<close>

type_synonym ('p, 'c) decode_fun = "'c \<Rightarrow> bytes \<Rightarrow> (DecodeError, ('p \<times> nat) option) res \<times> 'c \<times> bytes"

fun read_all :: "('p, 'c) decode_fun \<Rightarrow> nat \<Rightarrow> 'c \<Rightarrow> bytes \<Rightarrow> (('p \<times> nat) list \<times> DecodeError option \<times> 'c \<times> bytes) option" where
  "read_all decode 0 c src = None"
| "read_all decode (Suc n) c src =
     (case decode c src of
        (Ok None, c', src') \<Rightarrow> Some ([], None, c', src')
      | (Ok (Some item), c', src') \<Rightarrow> map_option (apfst (Cons item)) (read_all decode n c' src')
      | (Err e, c', src') \<Rightarrow> Some ([], Some e, c', src')
      | (Panic, _) \<Rightarrow> None)"

definition stream_read :: "('p, 'c) decode_fun \<Rightarrow> 'c \<Rightarrow> bytes \<Rightarrow> (('p \<times> nat) list \<times> DecodeError option \<times> 'c \<times> bytes) option" where
  "stream_read decode c src = read_all decode (length src + 2) c src"

fun feed :: "('p, 'c) decode_fun \<Rightarrow> 'c \<Rightarrow> bytes \<Rightarrow> bytes list \<Rightarrow> (('p \<times> nat) list \<times> DecodeError option) option" where
  "feed decode c buf [] = Some ([], None)"
| "feed decode c buf (chunk # chunks) =
     (case stream_read decode c (buf @ chunk) of
        None \<Rightarrow> None
      | Some (items, Some e, _) \<Rightarrow> Some (items, Some e)
      | Some (items, None, c', buf') \<Rightarrow> map_option (apfst (append items)) (feed decode c' buf' chunks))"

text \<open>What was read: the packets and how it ended.\<close>

definition outcome :: "'i \<times> 'e \<times> 'c \<times> bytes \<Rightarrow> 'i \<times> 'e" where
  "outcome r = (fst r, fst (snd r))"

lemma outcome_simps [simp]: "outcome (items, e, r) = (items, e)" "outcome (apfst f q) = apfst f (outcome q)"
  by (simp_all add: outcome_def split_beta)

text \<open>The four answers of a decoder.\<close>

lemma decode_answer:
  fixes d :: "(DecodeError, ('p \<times> nat) option) res \<times> 'c \<times> bytes"
  obtains (waits) c' src' where "d = (Ok None, c', src')" | (item) i c' src' where "d = (Ok (Some i), c', src')"
  | (error) e c' src' where "d = (Err e, c', src')" | (panic) "fst d = Panic"
proof (cases d)
  case (fields r c' src')
  show thesis
  proof (cases r)
    case (Ok x)
    then show thesis using fields waits item by (cases x) auto
  qed (use fields error panic in auto)
qed

lemma read_all_mono: "read_all decode n c src = Some r \<Longrightarrow> n \<le> m \<Longrightarrow> read_all decode m c src = Some r"
proof (induction n arbitrary: c src m r)
  case (Suc n)
  from Suc.prems(2) obtain k where k: "m = Suc k" "n \<le> k" by (cases m) auto
  show ?case
  proof (cases "decode c src" rule: decode_answer)
    case (item i c' src')
    then obtain q where "read_all decode n c' src' = Some q" "r = apfst (Cons i) q" using Suc.prems(1) by auto
    then show ?thesis using item k Suc.IH [of c' src' q k] by simp
  next
    case panic
    then show ?thesis using Suc.prems(1) by (auto split: prod.splits)
  qed (use Suc.prems(1) k in auto)
qed simp

context framing
begin

lemma decode_consumes:
  assumes "decode c src = (Ok (Some item), c', src')"
  shows "st c' = FrameHeader \<and> length src' \<le> length src \<and> (st c = FrameHeader \<longrightarrow> length src' < length src)"
proof (cases "st c")
  case FrameHeader
  then show ?thesis
  proof (cases rule: header_cases [where src = src])
    case (frame fb bs n k)
    then show ?thesis using assms by (auto simp: frame_arm_def split: if_splits res.splits)
  qed (use assms in auto)
next
  case (Frame f)
  then show ?thesis using assms by (auto simp: decode_frame frame_arm_def split: if_splits res.splits)
qed

lemma read_all_header_total: "st c = FrameHeader \<Longrightarrow> length src < n \<Longrightarrow> \<exists>r. read_all decode n c src = Some r"
proof (induction n arbitrary: c src)
  case (Suc n)
  show ?case
  proof (cases "decode c src" rule: decode_answer)
    case (item i c' src')
    then have "st c' = FrameHeader" "length src' < n" using decode_consumes [OF item] Suc.prems by auto
    then show ?thesis using item Suc.IH by force
  qed (use decode_no_panic in auto)
qed simp

lemma stream_read_total: "\<exists>r. stream_read decode c src = Some r"
proof -
  have "\<exists>r. read_all decode (Suc (Suc (length src))) c src = Some r"
  proof (cases "decode c src" rule: decode_answer)
    case (item i c' src')
    then have "st c' = FrameHeader" "length src' < Suc (length src)" using decode_consumes [OF item] by auto
    then obtain q where "read_all decode (Suc (length src)) c' src' = Some q" using read_all_header_total by blast
    then have "read_all decode (Suc (Suc (length src))) c src = Some (apfst (Cons i) q)"
      unfolding read_all.simps(2) [of decode "Suc (length src)"] item by (simp del: read_all.simps)
    then show ?thesis by blast
  qed (use decode_no_panic in auto)
  then show ?thesis by (simp add: stream_read_def)
qed

lemma stream_read_eq: "read_all decode n c src = Some r \<Longrightarrow> stream_read decode c src = Some r"
proof -
  assume r: "read_all decode n c src = Some r"
  obtain r' where r': "stream_read decode c src = Some r'" using stream_read_total by blast
  from read_all_mono [OF r, of "n + (length src + 2)"] read_all_mono [OF r' [unfolded stream_read_def], of "n + (length src + 2)"]
  show ?thesis using r' by simp
qed

text \<open>Reading on when more bytes arrive reads what reading all of them at once reads.\<close>

lemma read_all_resume:
  assumes "read_all decode n c src = Some (items, None, c', src')" and "read_all decode m c' (src' @ t) = Some r"
  shows "read_all decode (n + m) c (src @ t) = Some (apfst (append items) r)"
  using assms
proof (induction n arbitrary: c src items)
  case (Suc n)
  show ?case
  proof (cases "decode c src" rule: decode_answer)
    case (waits c1 s1)
    then have eq: "items = []" "c1 = c'" "s1 = src'" using Suc.prems(1) by auto
    have "read_all decode m c (src @ t) = Some r" using Suc.prems(2) decode_resume [OF waits, of t] eq by (cases m) auto
    then show ?thesis using read_all_mono [of decode m c "src @ t" r "Suc n + m"] eq by (cases r) simp
  next
    case (item i c1 s1)
    then obtain items' where r: "items = i # items'" "read_all decode n c1 s1 = Some (items', None, c', src')"
      using Suc.prems(1) by auto
    then show ?thesis using Suc.IH [OF r(2) Suc.prems(2)] item decode_append [of c src t] by (cases r) simp
  qed (use Suc.prems(1) in \<open>auto split: prod.splits\<close>)
qed simp

lemma read_all_error:
  assumes "read_all decode n c src = Some (items, Some e, c', src')"
  shows "read_all decode n c (src @ t) = Some (items, Some e, c', src' @ t)"
  using assms
proof (induction n arbitrary: c src items)
  case (Suc n)
  show ?case
  proof (cases "decode c src" rule: decode_answer)
    case (item i c1 s1)
    then obtain items' where r: "items = i # items'" "read_all decode n c1 s1 = Some (items', Some e, c', src')"
      using Suc.prems by auto
    then show ?thesis using Suc.IH [OF r(2)] item decode_append [of c src t] by simp
  next
    case (error e1 c1 s1)
    then show ?thesis using Suc.prems decode_append [of c src t] by simp
  qed (use Suc.prems in \<open>auto split: prod.splits\<close>)
qed simp

theorem feed_chunks: "feed decode c buf chunks = map_option outcome (stream_read decode c (buf @ concat chunks)) \<or> chunks = []"
proof (induction chunks arbitrary: c buf)
  case (Cons chunk chunks)
  obtain items e c' buf' where r: "stream_read decode c (buf @ chunk) = Some (items, e, c', buf')"
    using stream_read_total [of c "buf @ chunk"] by (metis prod_cases4)
  note r' = r [unfolded stream_read_def]
  obtain q where q: "stream_read decode c' (buf' @ concat chunks) = Some q" using stream_read_total by blast
  show ?case
  proof (cases e)
    case None
    note all = stream_read_eq [OF read_all_resume [OF r' [unfolded None] q [unfolded stream_read_def]]]
    show ?thesis
    proof (cases chunks)
      case Nil
      then show ?thesis using r None by simp
    next
      case (Cons a list)
      then have "feed decode c' buf' chunks = Some (outcome q)" using Cons.IH [of c' buf'] q by simp
      then show ?thesis using r None all by simp
    qed
  next
    case (Some e')
    from stream_read_eq [OF read_all_error [OF r' [unfolded Some], of "concat chunks"]] show ?thesis using r Some by simp
  qed
qed simp

corollary feed_from_start:
  assumes "st c = FrameHeader"
  shows "\<exists>r. stream_read decode c (concat chunks) = Some r \<and> feed decode c [] chunks = Some (outcome r)"
proof (cases "chunks = []")
  case True
  then show ?thesis using decode_short [OF assms, of "[]"] by (simp add: stream_read_def numeral_2_eq_2)
next
  case False
  obtain r where "stream_read decode c (concat chunks) = Some r" using stream_read_total by blast
  then show ?thesis using feed_chunks [of c "[]" chunks] False by simp
qed

text \<open>A stream of frames that are each decoded to a packet, whatever follows, is read as these packets.\<close>

lemma stream_read_frames:
  assumes "\<forall>(bs, q, n) \<in> set frames. \<forall>d r. st d = FrameHeader \<longrightarrow> limit d = limit c \<longrightarrow> decode d (bs @ r) = (Ok (Some (q, n)), finish q d, r)"
    and "st c = FrameHeader"
  shows "stream_read decode c (concat (map fst frames)) = Some (map snd frames, None, fold finish (map (fst \<circ> snd) frames) c, [])"
proof -
  have "read_all decode (Suc (length frames)) d (concat (map fst frames)) =
      Some (map snd frames, None, fold finish (map (fst \<circ> snd) frames) d, [])" if "st d = FrameHeader" "limit d = limit c" for d
    using assms(1) that
  proof (induction frames arbitrary: d)
    case Nil
    then show ?case using decode_short [of d "[]"] by simp
  next
    case (Cons frame frames)
    obtain bs q n where frame: "frame = (bs, q, n)" by (metis prod_cases3)
    then have dec: "decode d (bs @ concat (map fst frames)) = (Ok (Some (q, n)), finish q d, concat (map fst frames))"
      using Cons.prems by simp
    show ?case using Cons.IH [of "finish q d"] Cons.prems unfolding length_Cons read_all.simps(2) [of decode "Suc (length frames)"] frame
      by (simp add: dec del: read_all.simps)
  qed
  from stream_read_eq [OF this [OF assms(2) refl]] show ?thesis .
qed

end

section \<open>Both codecs\<close>

text \<open>A packet that codec \<open>c\<close> can write and codec \<open>d\<close> takes, its remaining length, and what is received of it.\<close>

definition v5_sent_size :: "v5_Codec \<Rightarrow> v5_Packet \<Rightarrow> nat" where
  "v5_sent_size c p = (case v5_encoded_size (v5_out_packet c p) (v5_out_limit c) of Ok n \<Rightarrow> n | _ \<Rightarrow> 0)"

definition v5_sendable :: "(bytes \<Rightarrow> bool) \<Rightarrow> v5_Codec \<Rightarrow> v5_Codec \<Rightarrow> v5_Packet \<Rightarrow> bool" where
  "v5_sendable u c d p \<longleftrightarrow> v5_wf u p \<and>
     (case v5_encoded_size (v5_out_packet c p) (v5_out_limit c) of
        Ok n \<Rightarrow> n \<le> v5_out_limit c \<and> n \<le> 268435455 \<and> within_limit n (c5_max_in_size d)
      | _ \<Rightarrow> False)"

definition v5_received :: "v5_Codec \<Rightarrow> v5_Packet \<Rightarrow> v5_Packet \<times> nat" where
  "v5_received c p = (v5_trim (v5_out_packet c p) (v5_out_limit c), v5_sent_size c p)"

lemma v5_sendable_decode:
  assumes "v5_sendable u c d p" and "c5_state d' = FrameHeader" and "c5_max_in_size d' = c5_max_in_size d"
  shows "v5_codec_decode u d' (fst (v5_codec_encode c p) @ r) = (Ok (Some (v5_received c p)), v5_finish (fst (v5_received c p)) d', r)"
  using assms v5_decode_encode [of u p c "v5_sent_size c p" d' r]
  by (auto simp: v5_sendable_def v5_received_def v5_sent_size_def Let_def split: res.splits)

lemma v5_sendable_encode: "v5_sendable u c d p \<Longrightarrow> snd (v5_codec_encode c p) = Ok ()"
  using v5_codec_encode_length(1) [of u p c] by (auto simp: v5_sendable_def split: res.splits)

lemma v5_stream_read:
  assumes "\<forall>p \<in> set ps. v5_sendable u c d p" and "c5_state d = FrameHeader"
  shows "stream_read (v5_codec_decode u) d (concat (map (\<lambda>p. fst (v5_codec_encode c p)) ps)) =
    Some (map (v5_received c) ps, None, fold v5_finish (map (fst \<circ> v5_received c) ps) d, [])"
  using codec5.stream_read_frames [of "map (\<lambda>p. (fst (v5_codec_encode c p), v5_received c p)) ps" d u] assms
    v5_sendable_decode [of u c d]
  by (auto simp: comp_def split_beta)

definition v3_sendable :: "(bytes \<Rightarrow> bool) \<Rightarrow> v3_Codec \<Rightarrow> v3_Packet \<Rightarrow> bool" where
  "v3_sendable u d p \<longleftrightarrow> v3_wf u p \<and> v3_get_encoded_size p \<le> 268435455 \<and> within_limit (v3_get_encoded_size p) (c3_max_size d)"

lemma v3_stream_read:
  assumes "\<forall>p \<in> set ps. v3_sendable u d p" and "c3_state d = FrameHeader"
  shows "stream_read (v3_codec_decode u) d (concat (map (\<lambda>p. fst (v3_codec_encode p)) ps)) =
    Some (map (\<lambda>p. (p, v3_get_encoded_size p)) ps, None, d, [])"
proof -
  have "v3_codec_decode u d' (fst (v3_codec_encode p) @ r) = (Ok (Some (p, v3_get_encoded_size p)), d'\<lparr>c3_state := FrameHeader\<rparr>, r)"
    if "p \<in> set ps" "c3_state d' = FrameHeader" "c3_max_size d' = c3_max_size d" for d' p r
    using v3_decode_encode(2) [of u p d' r] that assms(1) by (auto simp: v3_sendable_def)
  moreover have "fold (\<lambda>_ c. c\<lparr>c3_state := FrameHeader\<rparr>) xs d = d" for xs :: "v3_Packet list"
    using assms(2) by (cases d, induction xs) simp_all
  ultimately show ?thesis
    using codec3.stream_read_frames [of "map (\<lambda>p. (fst (v3_codec_encode p), p, v3_get_encoded_size p)) ps" d u] assms(2)
    by (auto simp: comp_def)
qed

section \<open>Properties\<close>

definition byte_by_byte :: "bytes \<Rightarrow> bytes list" where
  "byte_by_byte = map (\<lambda>b. [b])"

lemma concat_byte_by_byte [simp]: "concat (byte_by_byte bs) = bs"
  by (simp add: byte_by_byte_def)

lemma v5_sample_sendable:
  "v5_sendable (\<lambda>_. True) v5_Codec_new v5_Codec_new v5_sample" "v5_received v5_Codec_new v5_sample = (v5_sample, 17)"
  "v5_sendable (\<lambda>_. True) v5_Codec_new v5_Codec_new V5_PingRequest" "v5_received v5_Codec_new V5_PingRequest = (V5_PingRequest, 0)"
proof -
  have out: "v5_out_packet v5_Codec_new v5_sample = v5_sample" "v5_out_packet v5_Codec_new V5_PingRequest = V5_PingRequest"
    and l: "v5_out_limit v5_Codec_new = 268435455"
    by (simp_all add: v5_sample_def v5_out_packet_def v5_out_limit_def v5_Codec_new_def flags_contains_def codec_flag_defs MAX_PACKET_SIZE_def)
  have size: "v5_encoded_size v5_sample 268435455 = Ok 17" "v5_encoded_size V5_PingRequest 268435455 = Ok 0"
    by (simp_all add: v5_sample_def pub_ack_encoded_size_def PUBACK_HEADER_LEN_def ack_encoded_size_def encoded_size_opt_props_def
        opt_props_size_loop.simps Let_def var_int_len_eq varint_len_def encoded_size_UserProperty_def encoded_size_Bytes_def)
  have wf: "v5_wf (\<lambda>_. True) v5_sample" "c5_max_in_size v5_Codec_new = 0" and fits: "v5_fits v5_sample 268435455" "v5_fits V5_PingRequest 268435455"
    by (simp_all add: v5_sample_def pub_ack_ok_def diag_ok_def uprop_ok_def str_ok_def v5_Codec_new_def
        diag_size_def encoded_size_UserProperty_def encoded_size_Bytes_def encoded_size_UserProperties_def)
  show "v5_sendable (\<lambda>_. True) v5_Codec_new v5_Codec_new v5_sample" "v5_received v5_Codec_new v5_sample = (v5_sample, 17)"
    "v5_sendable (\<lambda>_. True) v5_Codec_new v5_Codec_new V5_PingRequest" "v5_received v5_Codec_new V5_PingRequest = (V5_PingRequest, 0)"
    using out l size wf fits by (simp_all add: v5_sendable_def v5_received_def v5_sent_size_def v5_trim_fits)
qed

text \<open>C30: What a connection reads from an MQTT 5 stream does not depend on how the stream is cut into chunks: the packets that are
  delivered while the chunks arrive one after the other, and the error that ends them if there is one, are those of reading the
  whole stream at once. Reading always comes to an end, without a panic, whatever the bytes are.\<close>

theorem v5_stream_chunks:
  "c5_state d = FrameHeader \<Longrightarrow>
   \<exists>r. stream_read (v5_codec_decode u) d (concat chunks) = Some r \<and> feed (v5_codec_decode u) d [] chunks = Some (outcome r)"
  by (rule codec5.feed_from_start)

theorem v5_stream_chunks_witness:
  "\<exists>r. stream_read (v5_codec_decode (\<lambda>_. True)) v5_Codec_new [0xC0, 0, 0xD0, 0] = Some r \<and>
     feed (v5_codec_decode (\<lambda>_. True)) v5_Codec_new [] [[0xC0], [0, 0xD0], [], [0]] = Some (outcome r)"
  using v5_stream_chunks [of v5_Codec_new "\<lambda>_. True" "[[0xC0], [0, 0xD0], [], [0]]"] by (simp add: v5_Codec_new_def)

text \<open>C2: A sequence of well-formed MQTT 5 packets that fit the limits is written without an error by one codec and is read by the
  other as this sequence, in order, with the size of each, however the stream of bytes is cut on the way, and without an error. Of
  each packet only the diagnostic properties that the limit or the settings of the peer exclude are lost; a packet
  whose diagnostic properties fit the limit loses none to it.\<close>

theorem v5_stream_roundtrip:
  assumes "\<forall>p \<in> set ps. v5_sendable u c d p" and "c5_state d = FrameHeader"
    and "concat chunks = concat (map (\<lambda>p. fst (v5_codec_encode c p)) ps)"
  shows "(\<forall>p \<in> set ps. snd (v5_codec_encode c p) = Ok ()) \<and>
    feed (v5_codec_decode u) d [] chunks = Some (map (v5_received c) ps, None) \<and>
    (\<forall>p \<in> set ps. v5_fits (v5_out_packet c p) (v5_out_limit c) \<longrightarrow> v5_received c p = (v5_out_packet c p, v5_sent_size c p))"
  using codec5.feed_from_start [OF assms(2), of u chunks] v5_stream_read [OF assms(1,2)] v5_sendable_encode assms(1)
  by (auto simp: assms(3) v5_received_def v5_trim_fits)

theorem v5_stream_roundtrip_witness:
  "feed (v5_codec_decode (\<lambda>_. True)) v5_Codec_new []
     (byte_by_byte (fst (v5_codec_encode v5_Codec_new V5_PingRequest) @ fst (v5_codec_encode v5_Codec_new v5_sample))) =
   Some ([(V5_PingRequest, 0), (v5_sample, 17)], None)"
  using v5_stream_roundtrip [of "[V5_PingRequest, v5_sample]" "\<lambda>_. True" v5_Codec_new v5_Codec_new
      "byte_by_byte (fst (v5_codec_encode v5_Codec_new V5_PingRequest) @ fst (v5_codec_encode v5_Codec_new v5_sample))"]
  by (simp add: v5_sample_sendable) (simp add: v5_Codec_new_def)

text \<open>C1: A sequence of well-formed MQTT 3.1.1 packets that fit the limits is written without an error and is read as this
  sequence, in order, with the size of each, however the stream of bytes is cut on the way, and without an error.\<close>

theorem v3_stream_roundtrip:
  assumes "\<forall>p \<in> set ps. v3_sendable u d p" and "c3_state d = FrameHeader"
    and "concat chunks = concat (map (\<lambda>p. fst (v3_codec_encode p)) ps)"
  shows "(\<forall>p \<in> set ps. snd (v3_codec_encode p) = Ok ()) \<and>
    feed (v3_codec_decode u) d [] chunks = Some (map (\<lambda>p. (p, v3_get_encoded_size p)) ps, None)"
proof
  show "\<forall>p \<in> set ps. snd (v3_codec_encode p) = Ok ()"
    using v3_decode_encode(1) [of u _ d] assms(1,2) by (auto simp: v3_sendable_def)
  show "feed (v3_codec_decode u) d [] chunks = Some (map (\<lambda>p. (p, v3_get_encoded_size p)) ps, None)"
    using codec3.feed_from_start [OF assms(2), of u chunks] v3_stream_read [OF assms(1,2)] by (simp add: assms(3))
qed

theorem v3_stream_roundtrip_witness:
  "feed (v3_codec_decode (\<lambda>_. True)) v3_Codec_new [] (byte_by_byte (fst (v3_codec_encode V3_PingRequest) @ fst (v3_codec_encode v3_sample))) =
   Some ([(V3_PingRequest, 0), (v3_sample, 10)], None)"
proof -
  have size: "v3_get_encoded_size v3_sample = 10" by (simp add: v3_sample_def v3_get_encoded_publish_size_def)
  have "v3_sendable (\<lambda>_. True) v3_Codec_new V3_PingRequest" "v3_sendable (\<lambda>_. True) v3_Codec_new v3_sample" "c3_state v3_Codec_new = FrameHeader"
    by (simp_all add: v3_sendable_def size v3_Codec_new_def, simp add: v3_sample_def str_ok_def)
  then show ?thesis
    using v3_stream_roundtrip [of "[V3_PingRequest, v3_sample]" "\<lambda>_. True" v3_Codec_new
        "byte_by_byte (fst (v3_codec_encode V3_PingRequest) @ fst (v3_codec_encode v3_sample))"]
    by (simp add: size)
qed

end
