(* ===== verification/Topic.thy ===== *)
theory Topic
  imports Prelude
begin

text \<open>
  \<open>src/topic.rs\<close>: topic filters. The byte scanner \<open>is_valid\<close> that the dispatchers call, the
  parser and printer of \<open>TopicFilter\<close>, and matching of a filter against a topic name or against
  another filter. Strings are UTF-8; the characters the code looks for are ASCII, so splitting
  and scanning work on bytes.
\<close>

definition PLUS :: u8 where "PLUS = 0x2B"
definition HASH :: u8 where "HASH = 0x23"
definition SLASH :: u8 where "SLASH = 0x2F"
definition DOLLAR :: u8 where "DOLLAR = 0x24"

lemmas topic_chars = PLUS_def HASH_def SLASH_def DOLLAR_def

lemma topic_chars_distinct [simp]:
  "PLUS \<noteq> HASH" "HASH \<noteq> PLUS" "PLUS \<noteq> SLASH" "SLASH \<noteq> PLUS" "HASH \<noteq> SLASH" "SLASH \<noteq> HASH"
  by (simp_all add: topic_chars)

section \<open>The byte scanner\<close>

datatype PrevState = PS_None | PS_LevelSep | PS_SingleWildcard | PS_MultiWildcard | PS_Other

text \<open>One iteration; \<open>None\<close> is \<open>return false\<close>.\<close>

definition is_valid_step :: "u8 \<Rightarrow> PrevState \<Rightarrow> PrevState option" where
  "is_valid_step current previous =
     (if previous = PS_MultiWildcard then None
      else if current = PLUS \<and> (previous = PS_None \<or> previous = PS_LevelSep) then Some PS_SingleWildcard
      else if current = HASH \<and> (previous = PS_None \<or> previous = PS_LevelSep) then Some PS_MultiWildcard
      else if current = PLUS \<or> current = HASH then None
      else if current = SLASH then Some PS_LevelSep
      else if previous = PS_SingleWildcard then None
      else Some PS_Other)"

fun is_valid_loop :: "PrevState \<Rightarrow> bytes \<Rightarrow> bool" where
  "is_valid_loop previous [] = True"
| "is_valid_loop previous (current # topic) =
     (case is_valid_step current previous of None \<Rightarrow> False | Some p \<Rightarrow> is_valid_loop p topic)"

definition topic_is_valid :: "bytes \<Rightarrow> bool" where
  "topic_is_valid topic = (if topic = [] then False else is_valid_loop PS_None topic)"

section \<open>Filters\<close>

datatype TopicFilterError = InvalidTopic | InvalidLevel

datatype TopicFilterLevel =
    TFL_Normal bytes | TFL_System bytes | TFL_Blank | TFL_SingleWildcard | TFL_MultiWildcard

type_synonym TopicFilter = "TopicFilterLevel list"

definition contains_wildcard :: "bytes \<Rightarrow> bool" where
  "contains_wildcard s \<longleftrightarrow> (\<exists>c \<in> set s. c = PLUS \<or> c = HASH)"

fun level_is_valid :: "TopicFilterLevel \<Rightarrow> bool" where
  "level_is_valid (TFL_Normal s) \<longleftrightarrow> \<not> contains_wildcard s"
| "level_is_valid (TFL_System s) \<longleftrightarrow> \<not> contains_wildcard s"
| "level_is_valid _ \<longleftrightarrow> True"

fun position :: "('a \<Rightarrow> bool) \<Rightarrow> 'a list \<Rightarrow> nat option" where
  "position P [] = None"
| "position P (x # xs) = (if P x then Some 0 else map_option Suc (position P xs))"

definition filter_is_valid :: "TopicFilter \<Rightarrow> bool" where
  "filter_is_valid f \<longleftrightarrow>
     (case position (\<lambda>level. \<not> level_is_valid level) f of
        Some p \<Rightarrow> Some p
      | None \<Rightarrow> position (\<lambda>(pos, level). case level of
            TFL_MultiWildcard \<Rightarrow> pos \<noteq> length f - 1
          | TFL_System _ \<Rightarrow> pos \<noteq> 0
          | _ \<Rightarrow> False) (enumerate 0 f)) = None"

text \<open>\<open>TryFrom<Vec<TopicFilterLevel>>\<close>.\<close>

definition filter_try_from_levels :: "TopicFilterLevel list \<Rightarrow> (TopicFilterError, TopicFilter) res" where
  "filter_try_from_levels v = (if filter_is_valid v then Ok v else Err InvalidTopic)"

definition is_system :: "bytes \<Rightarrow> bool" where
  "is_system s \<longleftrightarrow> s \<noteq> [] \<and> hd s = DOLLAR"

text \<open>\<open>str::split('/')\<close>.\<close>

fun split_slash :: "bytes \<Rightarrow> bytes list" where
  "split_slash [] = [[]]"
| "split_slash (c # cs) =
     (if c = SLASH then [] # split_slash cs
      else (case split_slash cs of [] \<Rightarrow> [[c]] | l # ls \<Rightarrow> (c # l) # ls))"

definition parse_level :: "nat \<Rightarrow> bytes \<Rightarrow> (TopicFilterError, TopicFilterLevel) res" where
  "parse_level idx level =
     (if level = [PLUS] then Ok TFL_SingleWildcard
      else if level = [HASH] then Ok TFL_MultiWildcard
      else if level = [] then Ok TFL_Blank
      else if contains_wildcard level then Err InvalidLevel
      else if idx = 0 \<and> is_system level then Ok (TFL_System level)
      else Ok (TFL_Normal level))"

text \<open>\<open>collect::<Result<Vec<_>, _>>()\<close>: the first error, or all levels.\<close>

fun parse_levels :: "nat \<Rightarrow> bytes list \<Rightarrow> (TopicFilterError, TopicFilterLevel list) res" where
  "parse_levels idx [] = Ok []"
| "parse_levels idx (l # ls) =
     bindR (parse_level idx l) (\<lambda>x. bindR (parse_levels (Suc idx) ls) (\<lambda>xs. Ok (x # xs)))"

definition filter_try_from :: "bytes \<Rightarrow> (TopicFilterError, TopicFilter) res" where
  "filter_try_from value =
     (if value = [] then Err InvalidTopic
      else bindR (parse_levels 0 (split_slash value))
        (\<lambda>topic. if filter_is_valid topic then Ok topic else Err InvalidTopic))"

primrec level_fmt :: "TopicFilterLevel \<Rightarrow> bytes" where
  "level_fmt (TFL_Normal s) = s"
| "level_fmt (TFL_System s) = s"
| "level_fmt TFL_Blank = []"
| "level_fmt TFL_SingleWildcard = [PLUS]"
| "level_fmt TFL_MultiWildcard = [HASH]"

text \<open>\<open>impl Display for TopicFilter\<close>: \<open>iter.next().unwrap()\<close> panics on a filter without levels.\<close>

fun filter_fmt_loop :: "TopicFilterLevel \<Rightarrow> TopicFilterLevel list \<Rightarrow> bytes" where
  "filter_fmt_loop level [] = level_fmt level"
| "filter_fmt_loop level (l # ls) = level_fmt level @ SLASH # filter_fmt_loop l ls"

definition filter_fmt :: "TopicFilter \<Rightarrow> ('e, bytes) res" where
  "filter_fmt f = (case f of [] \<Rightarrow> Panic | level # ls \<Rightarrow> Ok (filter_fmt_loop level ls))"

section \<open>Matching\<close>

text \<open>\<open>MatchLevel\<close> for a filter level and for a string.\<close>

definition match_level_impl :: "TopicFilterLevel \<Rightarrow> TopicFilterLevel \<Rightarrow> nat \<Rightarrow> bool" where
  "match_level_impl subset_level superset_level index =
     (case superset_level of
        TFL_Normal rhs \<Rightarrow> subset_level = TFL_Normal rhs
      | TFL_System rhs \<Rightarrow> subset_level = TFL_System rhs
      | TFL_Blank \<Rightarrow> subset_level = TFL_Blank
      | TFL_SingleWildcard \<Rightarrow> subset_level \<noteq> TFL_MultiWildcard
      | TFL_MultiWildcard \<Rightarrow> True)"

definition match_level_str :: "bytes \<Rightarrow> TopicFilterLevel \<Rightarrow> nat \<Rightarrow> bool" where
  "match_level_str s level index =
     (case level of
        TFL_Normal lhs \<Rightarrow> lhs = s
      | TFL_System lhs \<Rightarrow> is_system s \<and> lhs = s
      | TFL_Blank \<Rightarrow> s = []
      | TFL_SingleWildcard \<Rightarrow> \<not> (index = 0 \<and> is_system s)
      | TFL_MultiWildcard \<Rightarrow> \<not> (index = 0 \<and> is_system s))"

fun match_topic :: "('a \<Rightarrow> TopicFilterLevel \<Rightarrow> nat \<Rightarrow> bool) \<Rightarrow> nat \<Rightarrow> TopicFilter \<Rightarrow> 'a list \<Rightarrow> bool" where
  "match_topic ml index sups [] =
     (case sups of [] \<Rightarrow> True | level # _ \<Rightarrow> level = TFL_MultiWildcard)"
| "match_topic ml index [] (x # subs) = False"
| "match_topic ml index (TFL_SingleWildcard # sups) (x # subs) =
     (if \<not> ml x TFL_SingleWildcard index then False else match_topic ml (Suc index) sups subs)"
| "match_topic ml index (TFL_MultiWildcard # sups) (x # subs) = ml x TFL_MultiWildcard index"
| "match_topic ml index (level # sups) (x # subs) =
     (if ml x level index then match_topic ml (Suc index) sups subs else False)"

definition matches_filter :: "TopicFilter \<Rightarrow> TopicFilter \<Rightarrow> bool" where
  "matches_filter self topic = match_topic match_level_impl 0 self topic"

definition matches_topic :: "TopicFilter \<Rightarrow> bytes \<Rightarrow> bool" where
  "matches_topic self topic = match_topic match_level_str 0 self (split_slash topic)"

section \<open>The scanner accepts exactly what the parser accepts\<close>

text \<open>Both agree with this description of a valid list of levels.\<close>

fun levels_ok :: "bytes list \<Rightarrow> bool" where
  "levels_ok [] \<longleftrightarrow> True"
| "levels_ok (l # ls) \<longleftrightarrow>
     (if l = [HASH] then ls = [] else (l = [PLUS] \<or> \<not> contains_wildcard l) \<and> levels_ok ls)"

lemma split_slash_nonempty [simp]: "split_slash s \<noteq> []"
  by (induction s) (auto split: list.splits)

lemma contains_wildcard_Cons [simp]:
  "contains_wildcard (c # s) \<longleftrightarrow> c = PLUS \<or> c = HASH \<or> contains_wildcard s"
  "\<not> contains_wildcard []"
  by (auto simp: contains_wildcard_def)

lemma is_valid_loop_levels:
  "is_valid_loop PS_Other s \<longleftrightarrow>
     \<not> contains_wildcard (hd (split_slash s)) \<and> levels_ok (tl (split_slash s))"
  "is_valid_loop PS_SingleWildcard s \<longleftrightarrow> hd (split_slash s) = [] \<and> levels_ok (tl (split_slash s))"
  "is_valid_loop PS_MultiWildcard s \<longleftrightarrow> s = []"
  "is_valid_loop PS_LevelSep s \<longleftrightarrow> levels_ok (split_slash s)"
  "is_valid_loop PS_None s \<longleftrightarrow> levels_ok (split_slash s)"
proof (induction s)
  case (Cons c s)
  obtain l ls where ls: "split_slash s = l # ls" by (cases "split_slash s") auto
  have mw: "s = [] \<longleftrightarrow> l = [] \<and> ls = []" using ls by (cases s) (auto split: if_splits list.splits)
  { case 1 show ?case using Cons by (auto simp: is_valid_step_def ls) next
    case 2 show ?case using Cons by (auto simp: is_valid_step_def ls) next
    case 3 show ?case by (simp add: is_valid_step_def) next
    case 4 show ?case using Cons mw by (auto simp: is_valid_step_def ls) next
    case 5 show ?case using Cons mw by (auto simp: is_valid_step_def ls) }
qed auto

lemma position_None: "position P xs = None \<longleftrightarrow> (\<forall>x \<in> set xs. \<not> P x)"
  by (induction xs) auto

fun multi_last :: "TopicFilter \<Rightarrow> bool" where
  "multi_last [] \<longleftrightarrow> True"
| "multi_last (x # xs) \<longleftrightarrow> (x = TFL_MultiWildcard \<longrightarrow> xs = []) \<and> multi_last xs"

fun no_system :: "TopicFilter \<Rightarrow> bool" where
  "no_system [] \<longleftrightarrow> True"
| "no_system (x # xs) \<longleftrightarrow> (\<forall>s. x \<noteq> TFL_System s) \<and> no_system xs"

lemma positions_ok:
  "(\<forall>p \<in> set (enumerate n f). \<not> (case p of (pos, level) \<Rightarrow> case level of
       TFL_MultiWildcard \<Rightarrow> pos \<noteq> n + length f - 1 | TFL_System _ \<Rightarrow> pos \<noteq> 0 | _ \<Rightarrow> False)) \<longleftrightarrow>
   multi_last f \<and> no_system (if n = 0 then tl f else f)"
proof (induction f arbitrary: n)
  case (Cons x f)
  have "n + length (x # f) - 1 = Suc n + length f - 1" by simp
  then show ?case using Cons [of "Suc n"]
    by (cases x) (auto simp del: )
qed simp

lemma case_option_None: "(case x of Some p \<Rightarrow> Some p | None \<Rightarrow> y) = None \<longleftrightarrow> x = None \<and> y = None"
  by (cases x) auto

lemma filter_is_valid_iff:
  "filter_is_valid f \<longleftrightarrow> (\<forall>l \<in> set f. level_is_valid l) \<and> multi_last f \<and> no_system (tl f)"
  using positions_ok [of 0 f]
  by (simp only: filter_is_valid_def case_option_None position_None add_0 if_True simp_thms)

section \<open>Parser\<close>

definition lvl_of :: "nat \<Rightarrow> bytes \<Rightarrow> TopicFilterLevel" where
  "lvl_of i l = (if l = [PLUS] then TFL_SingleWildcard else if l = [HASH] then TFL_MultiWildcard
     else if l = [] then TFL_Blank else if i = 0 \<and> is_system l then TFL_System l else TFL_Normal l)"

fun lvls_of :: "nat \<Rightarrow> bytes list \<Rightarrow> TopicFilter" where
  "lvls_of i [] = []"
| "lvls_of i (l # ls) = lvl_of i l # lvls_of (Suc i) ls"

lemma parse_level_eq:
  "parse_level i l = (if l = [PLUS] \<or> l = [HASH] \<or> \<not> contains_wildcard l then Ok (lvl_of i l) else Err InvalidLevel)"
  by (auto simp: parse_level_def lvl_of_def)

lemma parse_levels_eq:
  "parse_levels i ls = (if \<forall>l \<in> set ls. l = [PLUS] \<or> l = [HASH] \<or> \<not> contains_wildcard l
     then Ok (lvls_of i ls) else Err InvalidLevel)"
  by (induction ls arbitrary: i) (auto simp: parse_level_eq)

lemma lvl_of_simps [simp]:
  "lvl_of i l = TFL_MultiWildcard \<longleftrightarrow> l = [HASH]"
  "lvl_of i l = TFL_SingleWildcard \<longleftrightarrow> l = [PLUS]"
  "lvl_of (Suc i) l \<noteq> TFL_System s"
  "level_fmt (lvl_of i l) = l"
  "level_is_valid (lvl_of i l) \<longleftrightarrow> l = [PLUS] \<or> l = [HASH] \<or> \<not> contains_wildcard l"
  by (auto simp: lvl_of_def)

lemma lvls_of_simps [simp]:
  "lvls_of i ls = [] \<longleftrightarrow> ls = []"
  "no_system (lvls_of (Suc i) ls)"
  "no_system (tl (lvls_of i ls))"
proof -
  have n: "no_system (lvls_of (Suc i) ls)" for i ls by (induction ls arbitrary: i) auto
  then show "no_system (lvls_of (Suc i) ls)" .
  show "lvls_of i ls = [] \<longleftrightarrow> ls = []" by (cases ls) auto
  show "no_system (tl (lvls_of i ls))" by (cases ls) (auto simp: n)
qed

lemma lvls_of_valid:
  "(\<forall>l \<in> set (lvls_of i ls). level_is_valid l) \<longleftrightarrow>
     (\<forall>l \<in> set ls. l = [PLUS] \<or> l = [HASH] \<or> \<not> contains_wildcard l)"
  by (induction i ls rule: lvls_of.induct) auto

lemma levels_ok_iff:
  "levels_ok ls \<longleftrightarrow> (\<forall>l \<in> set ls. l = [PLUS] \<or> l = [HASH] \<or> \<not> contains_wildcard l) \<and>
     multi_last (lvls_of i ls)"
  by (induction ls arbitrary: i) auto

lemma filter_try_from_eq:
  "filter_try_from s = (if s = [] then Err InvalidTopic
     else if levels_ok (split_slash s) then Ok (lvls_of 0 (split_slash s))
     else if \<forall>l \<in> set (split_slash s). l = [PLUS] \<or> l = [HASH] \<or> \<not> contains_wildcard l
     then Err InvalidTopic else Err InvalidLevel)"
  by (auto simp: filter_try_from_def parse_levels_eq filter_is_valid_iff lvls_of_valid levels_ok_iff [of _ 0])

lemma topic_is_valid_eq: "topic_is_valid s \<longleftrightarrow> s \<noteq> [] \<and> levels_ok (split_slash s)"
  by (simp add: topic_is_valid_def is_valid_loop_levels)


fun join_slash :: "bytes list \<Rightarrow> bytes" where
  "join_slash [] = []"
| "join_slash [l] = l"
| "join_slash (l # ls) = l @ SLASH # join_slash ls"

lemma join_split [simp]: "join_slash (split_slash s) = s"
proof (induction s)
  case (Cons c s)
  then show ?case by (cases "split_slash s" rule: join_slash.cases) auto
qed simp

lemma filter_fmt_loop_lvls:
  "filter_fmt_loop (lvl_of i l) (lvls_of (Suc i) ls) = join_slash (l # ls)"
  by (induction ls arbitrary: i l) auto

text \<open>Printing a parsed filter gives the text it was parsed from, without a panic.\<close>

lemma filter_fmt_parsed:
  assumes "filter_try_from s = Ok f"
  shows "filter_fmt f = Ok s"
proof -
  have f: "f = lvls_of 0 (split_slash s)" using assms by (auto simp: filter_try_from_eq split: if_splits)
  obtain l ls where s: "split_slash s = l # ls" by (cases "split_slash s") auto
  show ?thesis using join_split [of s] unfolding s by (simp add: f s filter_fmt_def filter_fmt_loop_lvls)
qed

lemma split_slash_append:
  assumes "SLASH \<notin> set l"
  shows "split_slash (l @ SLASH # s) = l # split_slash s" "split_slash l = [l]"
  using assms by (induction l) auto

section \<open>Matching a topic name\<close>

text \<open>
  The matching rule of the MQTT specification on the levels of the filter's text: a multi-level wildcard
  matches the rest (also nothing, the parent level), a single-level wildcard one level, and no
  wildcard in the first place matches a topic that starts with a dollar sign.
\<close>

fun levels_match :: "bytes list \<Rightarrow> bytes list \<Rightarrow> bool" where
  "levels_match [] ts \<longleftrightarrow> ts = []"
| "levels_match (l # ls) [] \<longleftrightarrow> l = [HASH]"
| "levels_match (l # ls) (t # ts) \<longleftrightarrow> l = [HASH] \<or> (l = [PLUS] \<or> l = t) \<and> levels_match ls ts"

definition spec_matches :: "bytes \<Rightarrow> bytes \<Rightarrow> bool" where
  "spec_matches flt t \<longleftrightarrow> levels_match (split_slash flt) (split_slash t) \<and>
     \<not> (is_system t \<and> hd (split_slash flt) \<in> {[PLUS], [HASH]})"

lemma lvl_of_Suc:
  "lvl_of (Suc i) l = (if l = [PLUS] then TFL_SingleWildcard else if l = [HASH] then TFL_MultiWildcard
     else if l = [] then TFL_Blank else TFL_Normal l)"
  by (simp add: lvl_of_def)

lemma match_topic_Suc:
  "match_topic match_level_str (Suc i) (lvls_of (Suc i) ls) ts \<longleftrightarrow> levels_match ls ts"
proof (induction ls ts arbitrary: i rule: levels_match.induct)
  case (1 ts)
  then show ?case by (cases ts) auto
qed (auto simp: lvl_of_Suc match_level_str_def)

lemma hd_split_slash: "is_system (hd (split_slash t)) \<longleftrightarrow> is_system t"
  by (cases t) (auto simp: is_system_def DOLLAR_def SLASH_def split: list.splits)

lemma match_topic_0:
  "match_topic match_level_str 0 (lvls_of 0 (l # ls)) (t # ts) \<longleftrightarrow>
     levels_match (l # ls) (t # ts) \<and> \<not> (is_system t \<and> l \<in> {[PLUS], [HASH]})"
  by (auto simp: lvl_of_def match_level_str_def match_topic_Suc)

lemma matches_topic_iff:
  assumes "filter_try_from s = Ok f"
  shows "matches_topic f t \<longleftrightarrow> spec_matches s t"
proof -
  have f: "f = lvls_of 0 (split_slash s)" using assms by (auto simp: filter_try_from_eq split: if_splits)
  obtain l ls where s: "split_slash s = l # ls" by (cases "split_slash s") auto
  obtain k ks where t: "split_slash t = k # ks" by (cases "split_slash t") auto
  show ?thesis using hd_split_slash [of t] match_topic_0 [of l ls k ks]
    by (simp add: matches_topic_def spec_matches_def f s t)
qed

section \<open>Filter inclusion\<close>

fun starts_wild :: "TopicFilter \<Rightarrow> bool" where
  "starts_wild (TFL_SingleWildcard # _) \<longleftrightarrow> True"
| "starts_wild (TFL_MultiWildcard # _) \<longleftrightarrow> True"
| "starts_wild _ \<longleftrightarrow> False"

lemma match_topic_trans:
  assumes "match_topic match_level_impl i f g" "match_topic match_level_str i g ts"
    and "\<not> (i = 0 \<and> starts_wild f \<and> ts \<noteq> [] \<and> is_system (hd ts))"
  shows "match_topic match_level_str i f ts"
  using assms
proof (induction f arbitrary: i g ts)
  case Nil
  then show ?case by (cases g) auto
next
  case (Cons l f)
  note simps = match_level_str_def match_level_impl_def
  show ?case
  proof (cases g)
    case Nil
    then show ?thesis using Cons.prems by (cases ts) (auto simp: simps)
  next
    case g: (Cons x g')
    show ?thesis
    proof (cases ts)
      case Nil
      then show ?thesis using Cons.prems g by (cases l) (auto simp: simps)
    next
      case (Cons t ts')
      then show ?thesis using Cons.prems Cons.IH [of "Suc i" g' ts'] g
        by (cases l; cases x) (auto simp: simps split: if_splits)
    qed
  qed
qed

section \<open>Properties\<close>

text \<open>C38: The scanner the dispatchers use to admit a topic filter accepts exactly the strings the
  \<open>TopicFilter\<close> parser accepts.\<close>

theorem topic_is_valid_iff_parses: "topic_is_valid s \<longleftrightarrow> (\<exists>f. filter_try_from s = Ok f)"
  by (auto simp: topic_is_valid_eq filter_try_from_eq)

text \<open>C34: A parsed filter matches a topic name exactly when the MQTT matching rule says so: level by
  level, a wildcard for one level or for the rest, and none in first place for a name that starts
  with a dollar sign.\<close>

theorem matches_topic_spec:
  "filter_try_from s = Ok f \<Longrightarrow> matches_topic f t \<longleftrightarrow> spec_matches s t"
  by (rule matches_topic_iff)

theorem matches_topic_spec_witness:
  "filter_try_from [PLUS, SLASH, HASH] = Ok [TFL_SingleWildcard, TFL_MultiWildcard] \<and>
   matches_topic [TFL_SingleWildcard, TFL_MultiWildcard] [97] \<and>
   \<not> matches_topic [TFL_SingleWildcard, TFL_MultiWildcard] [DOLLAR, SLASH, 97]"
proof -
  have *: "filter_try_from [PLUS, SLASH, HASH] = Ok [TFL_SingleWildcard, TFL_MultiWildcard]" by code_simp
  have "spec_matches [PLUS, SLASH, HASH] [97]" "\<not> spec_matches [PLUS, SLASH, HASH] [DOLLAR, SLASH, 97]"
    by code_simp+
  then show ?thesis using * matches_topic_spec [OF *] by blast
qed

text \<open>C39: Inclusion of filters is sound: when \<open>f\<close> includes \<open>g\<close> and \<open>g\<close> matches a topic name, so does
  \<open>f\<close>, unless \<open>f\<close> starts with a wildcard and the name with a dollar sign.\<close>

theorem matches_filter_sound:
  assumes "matches_filter f g" and "matches_topic g t" and "\<not> (starts_wild f \<and> is_system t)"
  shows "matches_topic f t"
  using match_topic_trans [of 0 f g "split_slash t"] assms
  by (simp add: matches_filter_def matches_topic_def hd_split_slash)

theorem matches_filter_sound_witness:
  "matches_filter [TFL_MultiWildcard] [TFL_Normal [97], TFL_SingleWildcard] \<and>
   matches_topic [TFL_Normal [97], TFL_SingleWildcard] [97, SLASH, 98] \<and>
   matches_topic [TFL_MultiWildcard] [97, SLASH, 98]"
proof -
  have "matches_filter [TFL_MultiWildcard] [TFL_Normal [97], TFL_SingleWildcard]"
    "matches_topic [TFL_Normal [97], TFL_SingleWildcard] [97, SLASH, 98]"
    "\<not> (starts_wild [TFL_MultiWildcard] \<and> is_system [97, SLASH, 98])"
    by code_simp+
  then show ?thesis using matches_filter_sound by blast
qed

text \<open>The exception is real: filter inclusion ignores the rule for names that start with a
  dollar sign, so the filter \<open>#\<close> is said to include \<open>$SYS/+\<close> although it matches none of the names
  the latter matches.\<close>

theorem matches_filter_system_unsound:
  "matches_filter [TFL_MultiWildcard] [TFL_System (DOLLAR # n), TFL_SingleWildcard] \<and>
   (matches_topic [TFL_System (DOLLAR # n), TFL_SingleWildcard] t \<longrightarrow>
    \<not> matches_topic [TFL_MultiWildcard] t)"
proof -
  obtain k ks where t: "split_slash t = k # ks" by (cases "split_slash t") auto
  show ?thesis by (auto simp: matches_filter_def matches_topic_def match_level_impl_def match_level_str_def t)
qed

theorem matches_filter_system_unsound_witness:
  "matches_topic [TFL_System (DOLLAR # [83]), TFL_SingleWildcard] [DOLLAR, 83, SLASH, 97] \<and>
   \<not> matches_topic [TFL_MultiWildcard] [DOLLAR, 83, SLASH, 97]"
proof -
  have "matches_topic [TFL_System (DOLLAR # [83]), TFL_SingleWildcard] [DOLLAR, 83, SLASH, 97]"
    by code_simp
  then show ?thesis using matches_filter_system_unsound by blast
qed

text \<open>A filter may be built from no levels at all; it passes the validity test, and printing it
  panics.\<close>

theorem empty_levels_print_panics:
  "filter_try_from_levels [] = Ok [] \<and> filter_fmt [] = (Panic :: (unit, bytes) res)"
  by (simp add: filter_try_from_levels_def filter_is_valid_def filter_fmt_def)

end
