(* ===== verification/Inflight.thy ===== *)
theory Inflight
  imports Prelude
begin

text \<open>
  \<open>src/inflight.rs\<close>: the service that limits the number and the total size of requests in flight.
  The wrapped service is outside the model; what a poll of its readiness returned is an argument.
  \<open>LocalWaker\<close> keeps at most one registered waker and \<open>wake\<close> takes it. The counters are a
  \<open>u16\<close> and a \<open>usize\<close> (64 bits); their arithmetic panics on overflow.
\<close>

record 'w CounterInner =
  max_cap :: u16
  cur_cap :: u16
  max_size :: nat
  cur_size :: nat
  task :: "'w option"

definition Counter_new :: "u16 \<Rightarrow> nat \<Rightarrow> 'w CounterInner" where
  "Counter_new cap sz = \<lparr>max_cap = cap, cur_cap = 0, max_size = sz, cur_size = 0, task = None\<rparr>"

definition counter_inc :: "u32 \<Rightarrow> 'w CounterInner \<Rightarrow> (unit, 'w CounterInner) res" where
  "counter_inc sz c =
     (if cur_cap c = 0xFFFF then Panic
      else if 2 ^ 64 \<le> cur_size c + unat sz then Panic
      else Ok (c\<lparr>cur_cap := cur_cap c + 1, cur_size := cur_size c + unat sz\<rparr>))"

text \<open>\<open>dec\<close> also returns the waker it woke.\<close>

definition counter_dec :: "u32 \<Rightarrow> 'w CounterInner \<Rightarrow> (unit, 'w CounterInner \<times> 'w option) res" where
  "counter_dec sz c =
     (if cur_cap c = 0 then Panic
      else if cur_size c < unat sz then Panic
      else
        let num = cur_cap c; csize = cur_size c; new_size = csize - unat sz;
            c' = c\<lparr>cur_cap := num - 1, cur_size := new_size\<rparr> in
        if num = max_cap c \<or> max_size c < csize \<and> new_size \<le> max_size c
        then Ok (c'\<lparr>task := None\<rparr>, task c)
        else Ok (c', None))"

definition counter_free :: "'w CounterInner \<Rightarrow> bool" where
  "counter_free c \<longleftrightarrow> (max_cap c = 0 \<or> cur_cap c < max_cap c) \<and> (max_size c = 0 \<or> cur_size c \<le> max_size c)"

definition counter_available :: "'w \<Rightarrow> 'w CounterInner \<Rightarrow> bool \<times> 'w CounterInner" where
  "counter_available w c = (if counter_free c then (True, c) else (False, c\<lparr>task := Some w\<rparr>))"

section \<open>The service\<close>

datatype 'e poll = Pending | Ready "('e, unit) res"

text \<open>A poll of \<open>ready\<close>: first the wrapped service, then the counter.\<close>

definition inflight_ready :: "'e poll \<Rightarrow> 'w \<Rightarrow> 'w CounterInner \<Rightarrow> 'e poll \<times> 'w CounterInner" where
  "inflight_ready inner w c =
     (case inner of
        Pending \<Rightarrow> (Pending, c)
      | Ready (Ok _) \<Rightarrow> (let (free, c') = counter_available w c in (if free then Ready (Ok ()) else Pending, c'))
      | Ready r \<Rightarrow> (Ready r, c))"

text \<open>The start of \<open>call\<close>: the guard that lives as long as the request, by its size.\<close>

definition inflight_call :: "u32 \<Rightarrow> 'w CounterInner \<Rightarrow> (unit, u32 \<times> 'w CounterInner) res" where
  "inflight_call req_size c =
     (let sz = (if 0 < max_size c then req_size else 0) in
      bindR (counter_inc sz c) (\<lambda>c'. Ok (sz, c')))"

section \<open>Runs of the service\<close>

text \<open>The counter together with the sizes held by the guards that are alive.\<close>

record 'w inflight =
  counter :: "'w CounterInner"
  guards :: "u32 list"

datatype 'w inflight_event = EvReady "unit poll" 'w | EvCall u32 | EvDrop nat "'w option"

inductive inflight_step :: "'w inflight \<Rightarrow> 'w inflight_event \<Rightarrow> 'w inflight \<Rightarrow> bool" where
  ready: "inflight_ready inner w (counter s) = (p, c) \<Longrightarrow>
     inflight_step s (EvReady inner w) (s\<lparr>counter := c\<rparr>)"
| call: "inflight_call n (counter s) = Ok (sz, c) \<Longrightarrow>
     inflight_step s (EvCall n) (s\<lparr>counter := c, guards := sz # guards s\<rparr>)"
| drop: "i < length (guards s) \<Longrightarrow> counter_dec (guards s ! i) (counter s) = Ok (c, woken) \<Longrightarrow>
     inflight_step s (EvDrop i woken) (s\<lparr>counter := c, guards := take i (guards s) @ drop (Suc i) (guards s)\<rparr>)"

inductive_cases inflight_stepE: "inflight_step s e s'"

definition inflight_init :: "u16 \<Rightarrow> nat \<Rightarrow> 'w inflight" where
  "inflight_init cap sz = \<lparr>counter = Counter_new cap sz, guards = []\<rparr>"

inductive inflight_reach :: "u16 \<Rightarrow> nat \<Rightarrow> 'w inflight \<Rightarrow> bool" for cap sz where
  init: "inflight_reach cap sz (inflight_init cap sz)"
| step: "inflight_reach cap sz s \<Longrightarrow> inflight_step s e s' \<Longrightarrow> inflight_reach cap sz s'"

text \<open>The events from one state to another, in their order.\<close>

inductive inflight_trace :: "'w inflight \<Rightarrow> 'w inflight_event list \<Rightarrow> 'w inflight \<Rightarrow> bool" where
  nil: "inflight_trace s [] s"
| snoc: "inflight_trace s es s' \<Longrightarrow> inflight_step s' e s'' \<Longrightarrow> inflight_trace s (es @ [e]) s''"

text \<open>The counters are the number and the total size of the guards alive, and a waker is registered
  only while a limit is reached.\<close>

definition inflight_inv :: "u16 \<Rightarrow> nat \<Rightarrow> 'w inflight \<Rightarrow> bool" where
  "inflight_inv cap sz s \<longleftrightarrow>
     max_cap (counter s) = cap \<and> max_size (counter s) = sz \<and>
     unat (cur_cap (counter s)) = length (guards s) \<and>
     cur_size (counter s) = sum_list (map unat (guards s)) \<and>
     (sz = 0 \<longrightarrow> (\<forall>g \<in> set (guards s). g = 0)) \<and>
     (task (counter s) \<noteq> None \<longrightarrow> \<not> counter_free (counter s))"

lemma inflight_inv_init: "inflight_inv cap sz (inflight_init cap sz)"
  by (simp add: inflight_inv_def inflight_init_def Counter_new_def)

lemma counter_available_inv:
  "inflight_inv cap sz s \<Longrightarrow> inflight_inv cap sz (s\<lparr>counter := snd (counter_available w (counter s))\<rparr>)"
  by (auto simp: inflight_inv_def counter_available_def counter_free_def)

lemma inflight_ready_state:
  "snd (inflight_ready inner w c) \<in> {c, snd (counter_available w c)}"
  by (auto simp: inflight_ready_def split: poll.splits res.splits prod.splits)

lemma unat_succ: "(x :: u16) \<noteq> 0xFFFF \<Longrightarrow> unat (x + 1) = Suc (unat x)"
proof -
  assume "x \<noteq> 0xFFFF"
  moreover have "(-1 :: u16) = 0xFFFF" by simp
  ultimately have "1 + x \<noteq> 0" by (metis add.commute eq_neg_iff_add_eq_0)
  then show ?thesis using unatSuc [of x] by (simp add: add.commute)
qed

lemma unat_pred: "(x :: u16) \<noteq> 0 \<Longrightarrow> unat (x - 1) = unat x - 1"
  by (rule unat_minus_one)

lemma counter_free_mono:
  assumes "unat (cur_cap c) \<le> unat (cur_cap d)" "cur_size c \<le> cur_size d" "max_cap c = max_cap d" "max_size c = max_size d"
    "counter_free d"
  shows "counter_free c"
  using assms by (auto simp: counter_free_def word_less_nat_alt)

lemma inflight_call_inv:
  assumes "inflight_inv cap sz s" "inflight_call n (counter s) = Ok (g, c)"
  shows "inflight_inv cap sz (s\<lparr>counter := c, guards := g # guards s\<rparr>)"
proof -
  have c: "cur_cap (counter s) \<noteq> 0xFFFF" "g = (if 0 < max_size (counter s) then n else 0)"
    "c = counter s\<lparr>cur_cap := cur_cap (counter s) + 1, cur_size := cur_size (counter s) + unat g\<rparr>"
    using assms(2) by (auto simp: inflight_call_def counter_inc_def Let_def bindR_eq_Ok split: if_splits)
  have "counter_free c \<Longrightarrow> counter_free (counter s)"
    by (erule counter_free_mono [rotated 4]) (simp_all add: c(3) unat_succ [OF c(1)])
  then show ?thesis using assms(1) c by (auto simp: inflight_inv_def unat_succ)
qed

lemma sum_list_remove:
  "i < length xs \<Longrightarrow> sum_list (map unat (take i xs @ drop (Suc i) xs)) + unat (xs ! i) = sum_list (map unat xs)"
  by (subst (4) id_take_nth_drop [of i]) simp_all

lemma counter_dec_ok:
  assumes "inflight_inv cap sz s" "i < length (guards s)"
  shows "\<exists>c woken. counter_dec (guards s ! i) (counter s) = Ok (c, woken)"
proof -
  have "cur_cap (counter s) \<noteq> 0" "unat (guards s ! i) \<le> cur_size (counter s)"
    using assms sum_list_remove [OF assms(2)] by (auto simp: inflight_inv_def)
  then show ?thesis by (auto simp: counter_dec_def Let_def)
qed

text \<open>A guard that is dropped frees the counter only together with a wake-up.\<close>

lemma counter_dec_wakes:
  assumes "counter_dec g c = Ok (c', woken)" and "max_size c = 0 \<longrightarrow> g = 0"
  shows "cur_cap c \<noteq> 0" "cur_cap c' = cur_cap c - 1" "unat g \<le> cur_size c" "cur_size c' = cur_size c - unat g"
    "max_cap c' = max_cap c" "max_size c' = max_size c"
    "task c' = None \<and> woken = task c \<or> task c' = task c \<and> woken = None \<and> (counter_free c' \<longrightarrow> counter_free c)"
proof -
  have nz: "cur_cap c \<noteq> 0" using assms(1) by (auto simp: counter_dec_def split: if_splits)
  have cap: "cur_cap c - 1 < m \<Longrightarrow> cur_cap c \<noteq> m \<Longrightarrow> cur_cap c < m" for m
    using nz unat_pred [OF nz] by (auto simp: word_less_nat_alt word_unat_eq_iff)
  show "task c' = None \<and> woken = task c \<or> task c' = task c \<and> woken = None \<and> (counter_free c' \<longrightarrow> counter_free c)"
    using assms cap by (auto simp: counter_dec_def Let_def counter_free_def split: if_splits)
qed (use assms in \<open>auto simp: counter_dec_def Let_def split: if_splits\<close>)

lemma inflight_drop_inv:
  assumes "inflight_inv cap sz s" "i < length (guards s)"
    "counter_dec (guards s ! i) (counter s) = Ok (c, woken)"
  shows "inflight_inv cap sz (s\<lparr>counter := c, guards := take i (guards s) @ drop (Suc i) (guards s)\<rparr>)"
proof -
  have "max_size (counter s) = 0 \<longrightarrow> guards s ! i = 0" using assms by (auto simp: inflight_inv_def)
  note d = counter_dec_wakes [OF assms(3) this]
  show ?thesis
    using assms(1,2) d sum_list_remove [OF assms(2)] set_take_subset [of i "guards s"] set_drop_subset [of "Suc i" "guards s"]
    by (auto simp: inflight_inv_def unat_pred [OF d(1)])
qed

lemma inflight_step_inv: "inflight_step s e s' \<Longrightarrow> inflight_inv cap sz s \<Longrightarrow> inflight_inv cap sz s'"
proof (induction rule: inflight_step.induct)
  case (ready inner w s p c)
  then show ?case using inflight_ready_state [of inner w "counter s"] counter_available_inv [of cap sz s w]
    by auto
qed (auto intro: inflight_call_inv inflight_drop_inv)

lemma inflight_reach_inv: "inflight_reach cap sz s \<Longrightarrow> inflight_inv cap sz s"
  by (induction rule: inflight_reach.induct) (auto intro: inflight_inv_init inflight_step_inv)

lemma inflight_trace_reach: "inflight_trace s es s' \<Longrightarrow> inflight_reach cap sz s \<Longrightarrow> inflight_reach cap sz s'"
  by (induction rule: inflight_trace.induct) (auto intro: inflight_reach.step)

text \<open>A task that waits, while no other task is told to wait by the counter, stays registered until it is woken.\<close>

definition polls_of :: "'w \<Rightarrow> 'w inflight_event \<Rightarrow> bool" where
  "polls_of w e = (case e of EvReady (Ready (Ok _)) w' \<Rightarrow> w' = w | _ \<Rightarrow> True)"

lemma inflight_step_waiting:
  assumes "inflight_step s e s'" and "inflight_inv cap sz s" and "polls_of w e" and "task (counter s) = Some w"
  shows "task (counter s') = Some w \<or> (\<exists>i. e = EvDrop i (Some w))"
  using assms(1)
proof (cases rule: inflight_step.cases)
  case (ready inner v p c)
  moreover have "\<not> counter_free (counter s)" using assms(2,4) by (simp add: inflight_inv_def)
  ultimately show ?thesis using assms(3,4)
    by (auto simp: polls_of_def inflight_ready_def counter_available_def split: poll.splits res.splits prod.splits if_splits)
next
  case (call n g c)
  then show ?thesis using assms(4) by (auto simp: inflight_call_def counter_inc_def Let_def bindR_eq_Ok split: if_splits)
next
  case (drop i c woken)
  have "max_size (counter s) = 0 \<longrightarrow> guards s ! i = 0" using assms(2) drop(3) by (auto simp: inflight_inv_def)
  from counter_dec_wakes(7) [OF drop(4) this] show ?thesis using assms(4) drop by auto
qed

lemma inflight_trace_waiting:
  assumes "inflight_trace s es s'" and "inflight_reach cap sz s" and "\<forall>e \<in> set es. polls_of w e" and "task (counter s) = Some w"
  shows "task (counter s') = Some w \<or> (\<exists>i. EvDrop i (Some w) \<in> set es)"
  using assms
proof (induction rule: inflight_trace.induct)
  case (snoc s es s' e s'')
  then show ?case
    using inflight_step_waiting [OF snoc(2) inflight_reach_inv [OF inflight_trace_reach [OF snoc(1)]]] by fastforce
qed simp

section \<open>A caller that waits for readiness\<close>

text \<open>Runs in which every call starts in a state where \<open>ready\<close> would return at once, as the
  dispatcher makes them.\<close>

inductive inflight_run :: "u16 \<Rightarrow> nat \<Rightarrow> 'w inflight \<Rightarrow> bool" for cap sz where
  init: "inflight_run cap sz (inflight_init cap sz)"
| step: "inflight_run cap sz s \<Longrightarrow> (\<forall>n. e = EvCall n \<longrightarrow> counter_free (counter s)) \<Longrightarrow>
     inflight_step s e s' \<Longrightarrow> inflight_run cap sz s'"

lemma inflight_run_reach: "inflight_run cap sz s \<Longrightarrow> inflight_reach cap sz s"
  by (induction rule: inflight_run.induct) (auto intro: inflight_reach.intros)

definition inflight_bounded :: "'w CounterInner \<Rightarrow> bool" where
  "inflight_bounded c \<longleftrightarrow> (max_cap c \<noteq> 0 \<longrightarrow> cur_cap c \<le> max_cap c) \<and>
     (max_size c \<noteq> 0 \<longrightarrow> cur_size c \<le> max_size c + 0xFFFFFFFF)"

lemma unat_u32_le: "unat (x :: u32) \<le> 0xFFFFFFFF"
  using unsigned_less [where w = x and ?'a = nat] by simp

lemma inflight_call_bounded:
  assumes "counter_free c" "inflight_call n c = Ok (g, c')"
  shows "inflight_bounded c'"
proof -
  have c: "cur_cap c \<noteq> 0xFFFF" "c' = c\<lparr>cur_cap := cur_cap c + 1, cur_size := cur_size c + unat g\<rparr>"
    using assms(2) by (auto simp: inflight_call_def counter_inc_def Let_def bindR_eq_Ok split: if_splits)
  then show ?thesis using assms(1) unat_u32_le [of g]
    by (auto simp: inflight_bounded_def counter_free_def unat_succ word_le_nat_alt word_less_nat_alt)
qed

lemma inflight_drop_bounded:
  assumes "inflight_bounded c" "counter_dec g c = Ok (c', w)"
  shows "inflight_bounded c'"
proof -
  have nz: "cur_cap c \<noteq> 0" using assms(2) by (auto simp: counter_dec_def split: if_splits)
  show ?thesis using assms unat_pred [OF nz]
    by (auto simp: inflight_bounded_def counter_dec_def Let_def word_le_nat_alt split: if_splits)
qed

lemma counter_available_bounded:
  "inflight_bounded c \<Longrightarrow> inflight_bounded (snd (counter_available w c))"
  by (simp add: counter_available_def inflight_bounded_def)

lemma inflight_run_bounded: "inflight_run cap sz s \<Longrightarrow> inflight_bounded (counter s)"
proof (induction rule: inflight_run.induct)
  case init
  show ?case by (simp add: inflight_bounded_def inflight_init_def Counter_new_def)
next
  case (step s e s')
  from step(3,1,2,4) show ?case
  proof (induction rule: inflight_step.cases)
    case (ready inner w s p c)
    then show ?case using inflight_ready_state [of inner w "counter s"]
        counter_available_bounded [of "counter s" w] by auto
  qed (auto intro: inflight_call_bounded inflight_drop_bounded)
qed

text \<open>Only one request goes beyond the limit on the total size.\<close>

definition size_bounded :: "nat \<Rightarrow> u32 list \<Rightarrow> bool" where
  "size_bounded sz gs \<longleftrightarrow> sum_list (map unat gs) \<le> sz \<or> (\<exists>g \<in> set gs. sum_list (map unat gs) \<le> sz + unat g)"

lemma size_bounded_remove:
  assumes "size_bounded sz gs" and "i < length gs"
  shows "size_bounded sz (take i gs @ drop (Suc i) gs)"
proof -
  let ?rest = "take i gs @ drop (Suc i) gs"
  have sum: "sum_list (map unat ?rest) + unat (gs ! i) = sum_list (map unat gs)" by (rule sum_list_remove [OF assms(2)])
  have keep: "g \<in> set ?rest" if "g \<in> set gs" "g \<noteq> gs ! i" for g
    using that id_take_nth_drop [OF assms(2)] by (metis Un_iff set_ConsD set_append)
  show ?thesis
  proof (cases "sum_list (map unat gs) \<le> sz")
    case False
    then obtain g where g: "g \<in> set gs" "sum_list (map unat gs) \<le> sz + unat g" using assms(1) by (auto simp: size_bounded_def)
    show ?thesis
    proof (cases "g = gs ! i")
      case True
      then have "sum_list (map unat ?rest) \<le> sz" using sum g(2) by simp
      then show ?thesis by (simp add: size_bounded_def)
    next
      case False
      then have "g \<in> set ?rest" by (rule keep [OF g(1)])
      moreover have "sum_list (map unat ?rest) \<le> sz + unat g" using sum g(2) by linarith
      ultimately show ?thesis unfolding size_bounded_def by blast
    qed
  qed (use sum in \<open>auto simp: size_bounded_def\<close>)
qed

lemma inflight_run_size: "inflight_run cap sz s \<Longrightarrow> 0 < sz \<Longrightarrow> size_bounded sz (guards s)"
proof (induction rule: inflight_run.induct)
  case (step s e s')
  have inv: "inflight_inv cap sz s" using step(1) by (intro inflight_reach_inv inflight_run_reach)
  from step(3) show ?case
  proof (cases rule: inflight_step.cases)
    case (call n g c)
    then have "counter_free (counter s)" using step(2) by blast
    then have "sum_list (map unat (guards s)) \<le> sz" using inv step.prems by (simp add: inflight_inv_def counter_free_def)
    then show ?thesis using call by (auto simp: size_bounded_def)
  next
    case (drop i c woken)
    then show ?thesis using step.IH [OF step.prems] size_bounded_remove by simp
  qed (use step in simp)
qed (simp add: inflight_init_def size_bounded_def)

lemma inflight_call_no_overflow:
  assumes "inflight_run cap sz s" "counter_free (counter s)" "cap \<noteq> 0" "sz < 2 ^ 63"
  shows "inflight_call n (counter s) \<noteq> Panic"
proof -
  have i: "inflight_inv cap sz s" using assms(1) by (intro inflight_reach_inv inflight_run_reach)
  have "unat (cur_cap (counter s)) < 0xFFFF"
    using assms(2,3) i unsigned_less [where w = cap and ?'a = nat]
    by (auto simp: inflight_inv_def counter_free_def word_less_nat_alt)
  then have cap: "cur_cap (counter s) \<noteq> 0xFFFF" by auto
  have "sz = 0 \<Longrightarrow> cur_size (counter s) = 0"
    using i by (auto simp: inflight_inv_def intro!: sum_list_eq_0_iff [THEN iffD2])
  then have "cur_size (counter s) \<le> sz" using assms(2) i by (auto simp: inflight_inv_def counter_free_def)
  then have "\<not> 2 ^ 64 \<le> cur_size (counter s) + unat g" for g :: u32 using assms(4) unat_u32_le [of g] by simp
  with cap show ?thesis by (simp only: inflight_call_def counter_inc_def Let_def if_False bindR.simps res.distinct not_False_eq_True)
qed

section \<open>Properties\<close>

text \<open>C35: No wake-up is lost by the counter. Whatever polls, calls and completions follow, from any state of the service: a task
  that the counter told to wait is still registered and there is no room, or a completion has woken it, provided that no
  other task polls the counter after it (the counter keeps one waker, so that a second task replaces the first). The
  counters equal the number and the total size of the requests in flight, and no completion panics. A poll that the wrapped service
  leaves pending does not reach the counter, and its waker is the business of that service.\<close>

theorem inflight_no_lost_wakeup:
  assumes "inflight_reach cap sz s" and "inflight_ready (Ready (Ok ())) w (counter s) = (Pending :: 'e poll, c)"
    and "inflight_trace (s\<lparr>counter := c\<rparr>) es s'"
    and "\<forall>e \<in> set es. case e of EvReady (Ready (Ok _)) w' \<Rightarrow> w' = w | _ \<Rightarrow> True"
  shows "(task (counter s') = Some w \<and> \<not> counter_free (counter s') \<or> (\<exists>i. EvDrop i (Some w) \<in> set es)) \<and>
    unat (cur_cap (counter s')) = length (guards s') \<and> cur_size (counter s') = sum_list (map unat (guards s')) \<and>
    (\<forall>i < length (guards s'). counter_dec (guards s' ! i) (counter s') \<noteq> Panic)"
proof -
  have "inflight_ready (Ready (Ok ())) w (counter s) = (Pending :: unit poll, c)" and w: "task c = Some w"
    using assms(2) by (auto simp: inflight_ready_def counter_available_def split: if_splits)
  then have r: "inflight_reach cap sz (s\<lparr>counter := c\<rparr>)" using assms(1) by (blast intro: inflight_reach.step inflight_step.ready)
  have inv: "inflight_inv cap sz s'" by (rule inflight_reach_inv [OF inflight_trace_reach [OF assms(3) r]])
  have "task (counter s') = Some w \<or> (\<exists>i. EvDrop i (Some w) \<in> set es)"
    using inflight_trace_waiting [OF assms(3) r, of w] assms(4) w by (simp add: polls_of_def)
  moreover have "counter_dec (guards s' ! i) (counter s') \<noteq> Panic" if "i < length (guards s')" for i
    using counter_dec_ok [OF inv that] by auto
  ultimately show ?thesis using inv by (auto simp: inflight_inv_def)
qed

text \<open>A completing request never panics, and when it makes room while a task waits, exactly that
  task's waker is woken.\<close>

theorem inflight_drop_wakes:
  assumes "inflight_reach cap sz s" and "i < length (guards s)"
  shows "\<exists>c woken. counter_dec (guards s ! i) (counter s) = Ok (c, woken) \<and>
    (counter_free c \<and> task (counter s) \<noteq> None \<longrightarrow> woken = task (counter s) \<and> task c = None)"
proof -
  have i: "inflight_inv cap sz s" by (rule inflight_reach_inv [OF assms(1)])
  obtain c w where d: "counter_dec (guards s ! i) (counter s) = Ok (c, w)"
    using counter_dec_ok [OF i assms(2)] by blast
  have "max_size (counter s) = 0 \<longrightarrow> guards s ! i = 0" using i assms(2) by (auto simp: inflight_inv_def)
  from counter_dec_wakes(7) [OF d this] d i show ?thesis by (auto simp: inflight_inv_def)
qed

definition inflight_sample :: "nat inflight" where
  "inflight_sample = \<lparr>counter = \<lparr>max_cap = 1, cur_cap = 1, max_size = 10, cur_size = 12, task = Some 7\<rparr>,
     guards = [12]\<rparr>"

lemma inflight_sample_run:
  "inflight_run 1 10 inflight_sample"
proof -
  let ?s = "\<lparr>counter = \<lparr>max_cap = 1, cur_cap = 1, max_size = 10, cur_size = 12, task = None\<rparr>,
     guards = [12]\<rparr> :: nat inflight"
  have "inflight_call 12 (counter (inflight_init 1 10 :: nat inflight)) = Ok (12, counter ?s)"
    by (simp add: inflight_init_def Counter_new_def inflight_call_def counter_inc_def)
  from inflight_step.call [OF this] have a: "inflight_step (inflight_init 1 10) (EvCall 12) ?s"
    by (simp add: inflight_init_def)
  have f: "counter_free (counter (inflight_init 1 10 :: nat inflight))" by code_simp
  have "inflight_ready (Ready (Ok ())) 7 (counter ?s) = (Pending :: unit poll, counter inflight_sample)"
    by code_simp
  from inflight_step.ready [OF this] have b: "inflight_step ?s (EvReady (Ready (Ok ())) 7) inflight_sample"
    by (simp add: inflight_sample_def)
  have "inflight_run 1 10 ?s" by (rule inflight_run.step [OF inflight_run.init _ a]) (simp add: f)
  then show ?thesis by (rule inflight_run.step [OF _ _ b]) simp
qed

theorem inflight_no_lost_wakeup_witness:
  "\<exists>woken s'. inflight_trace inflight_sample [EvReady Pending 3, EvDrop 0 woken] s' \<and> counter_free (counter s') \<and> woken = Some 7"
proof -
  let ?c = "\<lparr>max_cap = 1, cur_cap = 0, max_size = 10, cur_size = 0, task = None\<rparr> :: nat CounterInner"
  obtain woken where "counter_dec (guards inflight_sample ! 0) (counter inflight_sample) = Ok (?c, woken)"
    by (simp add: counter_dec_def inflight_sample_def)
  from inflight_step.drop [OF _ this] have d: "inflight_step inflight_sample (EvDrop 0 woken) \<lparr>counter = ?c, guards = []\<rparr>"
    by (simp add: inflight_sample_def)
  have "inflight_ready Pending 3 (counter inflight_sample) = (Pending :: unit poll, counter inflight_sample)"
    by (simp add: inflight_ready_def)
  from inflight_step.ready [OF this] have "inflight_step inflight_sample (EvReady Pending 3) inflight_sample" by simp
  from inflight_trace.snoc [OF inflight_trace.snoc [OF inflight_trace.nil this] d]
  have t: "inflight_trace inflight_sample [EvReady Pending 3, EvDrop 0 woken] \<lparr>counter = ?c, guards = []\<rparr>" by simp
  have w: "inflight_ready (Ready (Ok ())) 7 (counter inflight_sample) = (Pending :: unit poll, counter inflight_sample)"
    by (simp add: inflight_ready_def counter_available_def counter_free_def inflight_sample_def)
  have free: "counter_free (counter \<lparr>counter = ?c, guards = []\<rparr>)" by (simp add: counter_free_def)
  have "inflight_trace (inflight_sample\<lparr>counter := counter inflight_sample\<rparr>) [EvReady Pending 3, EvDrop 0 woken] \<lparr>counter = ?c, guards = []\<rparr>"
    using t by simp
  from inflight_no_lost_wakeup [OF inflight_run_reach [OF inflight_sample_run] w this] free have "woken = Some 7" by auto
  with t free show ?thesis by blast
qed

theorem inflight_drop_wakes_witness:
  "\<exists>c. counter_dec 12 (counter inflight_sample) = Ok (c, Some 7) \<and> task c = None"
proof -
  have g: "0 < length (guards inflight_sample)" "guards inflight_sample ! 0 = 12"
    "task (counter inflight_sample) = Some 7" by (simp_all add: inflight_sample_def)
  obtain c w where d: "counter_dec 12 (counter inflight_sample) = Ok (c, w)"
    "counter_free c \<longrightarrow> w = Some 7 \<and> task c = None"
    using inflight_drop_wakes [OF inflight_run_reach [OF inflight_sample_run] g(1)] g by auto
  have "counter_free c" using d(1)
    by (simp add: counter_dec_def inflight_sample_def counter_free_def) auto
  with d show ?thesis by auto
qed

text \<open>C40: A caller that starts a request only when the service is ready stays within each limit that is set, also when the
  other one is not (MQTT 5 sets no limit on the number here): with \<open>max_cap\<close> there are at most \<open>max_cap\<close> requests, and with \<open>max_size\<close>
  the total size is within the limit once one of the requests is left out, so that at most one request goes beyond it. With a
  limit on the number, and a limit on the size below \<open>2 ^ 63\<close>, the counters of a service that is ready do not overflow.\<close>

theorem inflight_run_limits:
  assumes "inflight_run cap sz s"
  shows "(cap \<noteq> 0 \<longrightarrow> length (guards s) \<le> unat cap) \<and>
    (0 < sz \<longrightarrow> sum_list (map unat (guards s)) \<le> sz \<or> (\<exists>g \<in> set (guards s). sum_list (map unat (guards s)) \<le> sz + unat g)) \<and>
    (cap \<noteq> 0 \<and> sz < 2 ^ 63 \<and> counter_free (counter s) \<longrightarrow> inflight_call n (counter s) \<noteq> Panic)"
proof -
  have "inflight_inv cap sz s" using assms by (intro inflight_reach_inv inflight_run_reach)
  then show ?thesis using inflight_run_bounded [OF assms] inflight_run_size [OF assms] inflight_call_no_overflow [OF assms]
    by (auto simp: inflight_inv_def inflight_bounded_def size_bounded_def word_le_nat_alt)
qed

definition inflight_by_size :: "nat inflight" where
  "inflight_by_size = \<lparr>counter = \<lparr>max_cap = 0, cur_cap = 2, max_size = 10, cur_size = 19, task = None\<rparr>, guards = [12, 7]\<rparr>"

lemma inflight_by_size_run: "inflight_run 0 10 inflight_by_size"
proof -
  let ?s = "\<lparr>counter = \<lparr>max_cap = 0, cur_cap = 1, max_size = 10, cur_size = 7, task = None\<rparr>, guards = [7]\<rparr> :: nat inflight"
  have "inflight_call 7 (counter (inflight_init 0 10 :: nat inflight)) = Ok (7, counter ?s)"
    by (simp add: inflight_init_def Counter_new_def inflight_call_def counter_inc_def)
  from inflight_step.call [OF this] have a: "inflight_step (inflight_init 0 10) (EvCall 7) ?s" by (simp add: inflight_init_def)
  have "inflight_call 12 (counter ?s) = Ok (12, counter inflight_by_size)"
    by (simp add: inflight_by_size_def inflight_call_def counter_inc_def)
  from inflight_step.call [OF this] have b: "inflight_step ?s (EvCall 12) inflight_by_size" by (simp add: inflight_by_size_def)
  have "inflight_run 0 10 ?s"
    by (rule inflight_run.step [OF inflight_run.init _ a]) (simp add: counter_free_def inflight_init_def Counter_new_def)
  then show ?thesis by (rule inflight_run.step [OF _ _ b]) (simp add: counter_free_def)
qed

theorem inflight_run_limits_witness:
  "sum_list (map unat (guards inflight_by_size)) = 19 \<and> (\<exists>g. g \<in> set (guards inflight_by_size) \<and> 19 \<le> 10 + unat g)"
proof -
  have "sum_list (map unat (guards inflight_by_size)) = 19" by (simp add: inflight_by_size_def)
  with inflight_run_limits [OF inflight_by_size_run] show ?thesis by auto
qed

end
