(* ===== verification/Version.thy ===== *)
theory Version
  imports V3_Codec
begin

text \<open>
  \<open>src/version.rs\<close>: the codec that looks at the first packet of a connection and tells the protocol
  version, without consuming input. Indexing and slicing panic out of range.
\<close>

datatype ProtocolVersion = MQTT3 | MQTT5

definition index :: "bytes \<Rightarrow> nat \<Rightarrow> ('e, u8) res" where
  "index s i = (if i < length s then Ok (s ! i) else Panic)"

definition slice_range :: "bytes \<Rightarrow> nat \<Rightarrow> nat \<Rightarrow> ('e, bytes) res" where
  "slice_range s i j = (if i \<le> j \<and> j \<le> length s then Ok (take (j - i) (drop i s)) else Panic)"

definition version_decode :: "bytes \<Rightarrow> (DecodeError, ProtocolVersion option) res" where
  "version_decode src =
     (let len = length src in
      if len < 2 then Ok None
      else
        bindR (index src 0) (\<lambda>first_byte.
        bindR (slice_range src 1 len) (\<lambda>s1.
        bindR (decode_variable_length s1) (\<lambda>v.
        case v of
          None \<Rightarrow> Ok None
        | Some (_, consumed0) \<Rightarrow>
            (let consumed = consumed0 + 1 in
             if first_byte = CONNECT then
               if len \<le> consumed + 6 then Ok None
               else
                 bindR (slice_range src consumed (consumed + 2)) (\<lambda>l2.
                 bindR (slice_range src (consumed + 2) (consumed + 6)) (\<lambda>name.
                 if \<not> (l2 = [0, 4] \<and> name = MQTT) then Err InvalidProtocol
                 else
                   bindR (index src (consumed + 6)) (\<lambda>level.
                   if level = MQTT_LEVEL_3 then Ok (Some MQTT3)
                   else if level = MQTT_LEVEL_5 then Ok (Some MQTT5)
                   else Err InvalidProtocol)))
             else Err UnsupportedPacketType)))))"

definition version_encode :: "ProtocolVersion \<Rightarrow> encoder" where
  "version_encode _ = eerr UnsupportedVersion"

lemma index_ok [simp]: "i < length s \<Longrightarrow> index s i = Ok (s ! i)"
  by (simp add: index_def)

lemma slice_range_ok [simp]: "i \<le> j \<Longrightarrow> j \<le> length s \<Longrightarrow> slice_range s i j = Ok (take (j - i) (drop i s))"
  by (simp add: slice_range_def)

lemma version_decode_Cons:
  "version_decode (b # x # s) =
     bindR (decode_variable_length (x # s)) (\<lambda>v. case v of None \<Rightarrow> Ok None | Some (_, c) \<Rightarrow>
       if b \<noteq> CONNECT then Err UnsupportedPacketType
       else if length (x # s) \<le> c + 6 then Ok None
       else if take 6 (drop c (x # s)) \<noteq> [0, 4] @ MQTT then Err InvalidProtocol
       else if (x # s) ! (c + 6) = MQTT_LEVEL_3 then Ok (Some MQTT3)
       else if (x # s) ! (c + 6) = MQTT_LEVEL_5 then Ok (Some MQTT5)
       else Err InvalidProtocol)"
proof (cases "decode_variable_length (x # s)")
  case (Ok v)
  show ?thesis
  proof (cases v)
    case (Some p)
    obtain n c where p: "p = (n, c)" by (cases p)
    have six: "take 6 (drop c xs) = take 2 (drop c xs) @ take 4 (drop (c + 2) xs)" for xs :: bytes
      using take_add [of 2 4 "drop c xs"] by (simp add: add.commute)
    have split: "take 6 (drop c (x # s)) = [0, 4] @ MQTT \<longleftrightarrow>
       take 2 (drop c (x # s)) = [0, 4] \<and> take 4 (drop (c + 2) (x # s)) = MQTT"
      if "\<not> length (x # s) \<le> c + 6"
      using that unfolding six by (subst append_eq_append_conv) auto
    show ?thesis using split
      by (simp add: version_decode_def Let_def Ok Some p)
  qed (simp add: version_decode_def Let_def Ok)
qed (simp_all add: version_decode_def Let_def)

lemma version_decode_short: "length s < 2 \<Longrightarrow> version_decode s = Ok None"
  by (simp add: version_decode_def)

lemma decision_cases:
  obtains (short) "length s < 2" | (long) b x r where "s = b # x # (r :: bytes)"
  by (cases s rule: list.exhaust; cases "tl s") auto

lemma version_decode_not_Panic [simp]: "version_decode s \<noteq> Panic"
  by (cases s rule: decision_cases)
    (auto simp: version_decode_short version_decode_Cons bindR_eq_Panic split: option.splits)

lemma version_decode_append:
  assumes "version_decode s \<noteq> Ok None"
  shows "version_decode (s @ t) = version_decode s"
proof (cases s rule: decision_cases)
  case short
  then show ?thesis using assms by (simp add: version_decode_short)
next
  case (long b x r)
  show ?thesis
  proof (cases "decode_variable_length (x # r)")
    case (Ok v)
    then obtain n c where v: "decode_variable_length (x # r) = Ok (Some (n, c))"
      using assms long by (cases v) (auto simp: version_decode_Cons)
    note d = decode_variable_length_Some(5) [OF v, of t]
    have "take 6 (drop c ((x # r) @ t)) = take 6 (drop c (x # r))" "((x # r) @ t) ! (c + 6) = (x # r) ! (c + 6)"
      if "\<not> length (x # r) \<le> c + 6"
      using that by (subst drop_append, subst take_append, simp, simp only: nth_append not_le if_True)
    then show ?thesis using assms d v
      by (auto simp: long version_decode_Cons split: if_splits)
  next
    case (Err e)
    then show ?thesis using decode_variable_length_Err(2) [OF Err, of t] by (simp add: long version_decode_Cons)
  qed simp
qed

lemma version_decode_level:
  assumes "n \<le> 268435455"
  shows "version_decode (CONNECT # fst (write_variable_length n) @ [0, 4] @ MQTT @ level # r) =
    (if level = MQTT_LEVEL_3 then Ok (Some MQTT3) else if level = MQTT_LEVEL_5 then Ok (Some MQTT5)
     else Err InvalidProtocol)"
proof -
  let ?w = "fst (write_variable_length n)" and ?t = "[0, 4] @ MQTT @ level # r"
  have l: "length ?w = varint_len n" "length MQTT = 4" "0 < varint_len n"
    using length_write_variable_length [OF assms] by (auto simp: MQTT_def varint_len_def)
  obtain x s where w: "?w @ ?t = x # s" using l by (cases ?w) auto
  have "drop (varint_len n) (?w @ ?t) = ?t" "(?w @ ?t) ! (varint_len n + 6) = level" "\<not> length (?w @ ?t) \<le> varint_len n + 6"
    using l by (auto simp: nth_append MQTT_def)
  then show ?thesis using decode_variable_length_write [OF assms, of ?t]
    unfolding w by (simp add: version_decode_Cons l)
qed

text \<open>A CONNECT packet written by the 3.1.1 codec is recognised as version 3.1.1, whatever
  follows it.\<close>

lemma version_decode_v3_connect:
  assumes "v3_wf u (V3_Connect c)" and "v3_get_encoded_size (V3_Connect c) \<le> 268435455"
  shows "version_decode (fst (v3_codec_encode (V3_Connect c)) @ r) = Ok (Some MQTT3)"
proof -
  let ?n = "v3_get_encoded_size (V3_Connect c)"
  obtain s where "fst (v3_encode_connect c) = [0, 4] @ MQTT @ MQTT_LEVEL_3 # s"
    using MQTT_header by (simp add: v3_encode_connect_def) (simp add: MQTT_def)
  moreover have "fst (v3_codec_encode (V3_Connect c)) = CONNECT # fst (write_variable_length ?n) @ fst (v3_encode_connect c)"
    using assms(2) v3_encode_connect_ok [OF assms(1)] by (simp add: v3_codec_encode_def)
  ultimately show ?thesis using version_decode_level [OF assms(2), of MQTT_LEVEL_3 "s @ r"] by simp
qed

definition v3_connect_sample :: v3_Connect where
  "v3_connect_sample = \<lparr>con3_clean_session = True, con3_keep_alive = 30, con3_last_will = None,
     con3_client_id = [97, 98], con3_username = Some [117], con3_password = None\<rparr>"

end
