(* ===== verification/Shared.thy ===== *)
theory Shared
  imports Types
begin

text \<open>
  The state a connection shares between its sink and its dispatcher: \<open>MqttShared\<close> of
  \<open>src/v3/shared.rs\<close> and \<open>src/v5/shared.rs\<close>. The two files have the same queues and the same
  operations on them and differ in the acknowledgement packets, the callback argument and in
  \<open>close\<close>, so the common operations are defined once over the packet types; V3_Sink and V5_Sink
  instantiate them and add what differs.

  Outside the model are the byte stream (\<open>ntex_io::IoRef\<close>) and the one-shot channels
  (\<open>ntex_util::channel::pool\<close>). What they answer is the argument \<open>Env\<close> of an operation: whether the
  stream is closed, whether a channel still has its receiver (then \<open>send\<close> succeeds), and what
  \<open>io.encode\<close> returns for a packet (\<open>None\<close> is \<open>Ok(())\<close>). What is asked of them is logged in
  \<open>sh_events\<close>, oldest first. A sender half that leaves the queues without an event is dropped: its
  receiver is cancelled.
\<close>

section \<open>Data\<close>

type_synonym chan = nat

datatype AckType = AckType_Publish | AckType_Subscribe | AckType_Unsubscribe

datatype ('p, 's, 'u) Ack = Ack_Publish 'p | Ack_Subscribe 's | Ack_Unsubscribe 'u

fun ack_packet_type :: "('p, 's, 'u) Ack \<Rightarrow> u8" where
  "ack_packet_type (Ack_Publish _) = PUBACK"
| "ack_packet_type (Ack_Subscribe _) = SUBACK"
| "ack_packet_type (Ack_Unsubscribe _) = UNSUBACK"

fun ack_is_match :: "('p, 's, 'u) Ack \<Rightarrow> AckType \<Rightarrow> bool" where
  "ack_is_match (Ack_Publish _) AckType_Publish = True"
| "ack_is_match (Ack_Subscribe _) AckType_Subscribe = True"
| "ack_is_match (Ack_Unsubscribe _) AckType_Unsubscribe = True"
| "ack_is_match _ _ = False"

fun expected_str :: "AckType \<Rightarrow> string" where
  "expected_str AckType_Publish = ''Expected PUBACK packet''"
| "expected_str AckType_Subscribe = ''Expected SUBACK packet''"
| "expected_str AckType_Unsubscribe = ''Expected UNSUBACK packet''"

text \<open>Calls out of the component.\<close>

datatype ('pkt, 'ack, 'c) event =
    Ev_encode 'pkt
  | Ev_close
  | Ev_force_close
  | Ev_wake chan
  | Ev_ack chan 'ack
  | Ev_callback 'c bool

record 'pkt Env =
  env_closed :: bool
  env_alive :: "chan \<Rightarrow> bool"
  env_encode :: "'pkt \<Rightarrow> EncodeError option"

text \<open>\<open>MqttShared\<close> with its \<open>MqttSharedQueues\<close>; \<open>sh_channels\<close> counts the channels the pools made.\<close>

record ('pkt, 'ack, 'c) MqttShared =
  sh_cap :: nat
  sh_inflight :: "(u16 \<times> chan option \<times> AckType) list"
  sh_inflight_ids :: "u16 set"
  sh_waiters :: "chan list"
  sh_inflight_idx :: u16
  sh_flags :: u8
  sh_on_publish_ack :: bool
  sh_channels :: nat
  sh_events :: "('pkt, 'ack, 'c) event list"

definition SF_CLIENT :: u8 where "SF_CLIENT = 0b10000000"
definition SF_WRB_ENABLED :: u8 where "SF_WRB_ENABLED = 0b01000000"
definition SF_ON_PUBLISH_ACK :: u8 where "SF_ON_PUBLISH_ACK = 0b00100000"

lemmas sf_defs = SF_CLIENT_def SF_WRB_ENABLED_def SF_ON_PUBLISH_ACK_def

definition log_event :: "('pkt, 'ack, 'c) event \<Rightarrow> ('pkt, 'ack, 'c, 'z) MqttShared_scheme
    \<Rightarrow> ('pkt, 'ack, 'c, 'z) MqttShared_scheme" where
  "log_event e s = s\<lparr>sh_events := sh_events s @ [e]\<rparr>"

section \<open>Operations\<close>

definition sh_credit :: "('pkt, 'ack, 'c, 'z) MqttShared_scheme \<Rightarrow> nat" where
  "sh_credit s = sh_cap s - length (sh_inflight s)"

definition sh_wrb :: "('pkt, 'ack, 'c, 'z) MqttShared_scheme \<Rightarrow> bool" where
  "sh_wrb s \<longleftrightarrow> flags_contains (sh_flags s) SF_WRB_ENABLED"

definition sh_is_ready :: "('pkt, 'ack, 'c, 'z) MqttShared_scheme \<Rightarrow> bool" where
  "sh_is_ready s \<longleftrightarrow> 0 < sh_credit s \<and> \<not> sh_wrb s"

text \<open>\<open>next_id\<close>: the addition overflows at \<open>u16::MAX\<close>, where a wrapped 0 is refused by \<open>NonZeroU16::new\<close>.\<close>

definition sh_next_id :: "('pkt, 'ack, 'c, 'z) MqttShared_scheme
    \<Rightarrow> (SendPacketError, u16) res \<times> ('pkt, 'ack, 'c, 'z) MqttShared_scheme" where
  "sh_next_id s =
     (if sh_inflight_idx s = 0xFFFF then (Panic, s)
      else
        let idx = sh_inflight_idx s + 1 in
        if idx = 0xFFFF then (Ok 0xFFFF, s\<lparr>sh_inflight_idx := 0\<rparr>)
        else (Ok idx, s\<lparr>sh_inflight_idx := idx\<rparr>))"

text \<open>\<open>while let Some(tx) = waiters.pop_front() { if tx.send(()).is_ok() { break } }\<close>: the channel that
  took the message and the queue that is left.\<close>

fun wake_first :: "(chan \<Rightarrow> bool) \<Rightarrow> chan list \<Rightarrow> chan option \<times> chan list" where
  "wake_first alive [] = (None, [])"
| "wake_first alive (tx # ws) = (if alive tx then (Some tx, ws) else wake_first alive ws)"

text \<open>The loop of \<open>set_cap\<close>: \<open>cap\<close> times the loop above.\<close>

fun set_cap_loop :: "(chan \<Rightarrow> bool) \<Rightarrow> nat \<Rightarrow> chan list \<Rightarrow> chan list \<times> chan list" where
  "set_cap_loop alive 0 ws = ([], ws)"
| "set_cap_loop alive (Suc n) ws =
     (case wake_first alive ws of
        (None, ws') \<Rightarrow> ([], ws')
      | (Some tx, ws') \<Rightarrow> (let (txs, ws'') = set_cap_loop alive n ws' in (tx # txs, ws'')))"

text \<open>The loop of \<open>disable_wr_backpressure\<close>.\<close>

fun wake_loop :: "(chan \<Rightarrow> bool) \<Rightarrow> nat \<Rightarrow> chan list \<Rightarrow> chan list \<times> chan list" where
  "wake_loop alive num [] = ([], [])"
| "wake_loop alive num (tx # ws) =
     (if num = 0 then ([], tx # ws)
      else if alive tx then (let (txs, ws') = wake_loop alive (num - 1) ws in (tx # txs, ws'))
      else wake_loop alive num ws)"

definition sh_woken :: "chan list \<times> chan list \<Rightarrow> ('pkt, 'ack, 'c, 'z) MqttShared_scheme
    \<Rightarrow> ('pkt, 'ack, 'c, 'z) MqttShared_scheme" where
  "sh_woken w s = s\<lparr>sh_waiters := snd w, sh_events := sh_events s @ map Ev_wake (fst w)\<rparr>"

definition sh_wake_next :: "'pkt Env \<Rightarrow> ('pkt, 'ack, 'c, 'z) MqttShared_scheme
    \<Rightarrow> ('pkt, 'ack, 'c, 'z) MqttShared_scheme" where
  "sh_wake_next env s =
     (case wake_first (env_alive env) (sh_waiters s) of
        (None, ws) \<Rightarrow> sh_woken ([], ws) s | (Some tx, ws) \<Rightarrow> sh_woken ([tx], ws) s)"

definition sh_set_cap :: "'pkt Env \<Rightarrow> nat \<Rightarrow> ('pkt, 'ack, 'c, 'z) MqttShared_scheme
    \<Rightarrow> ('pkt, 'ack, 'c, 'z) MqttShared_scheme" where
  "sh_set_cap env cap s = (sh_woken (set_cap_loop (env_alive env) cap (sh_waiters s)) s)\<lparr>sh_cap := cap\<rparr>"

definition sh_set_publish_ack :: "('pkt, 'ack, 'c, 'z) MqttShared_scheme \<Rightarrow> ('pkt, 'ack, 'c, 'z) MqttShared_scheme" where
  "sh_set_publish_ack s = s\<lparr>sh_flags := sh_flags s OR SF_ON_PUBLISH_ACK, sh_on_publish_ack := True\<rparr>"

definition sh_encode_packet :: "'pkt Env \<Rightarrow> 'pkt \<Rightarrow> ('pkt, 'ack, 'c, 'z) MqttShared_scheme
    \<Rightarrow> EncodeError option \<times> ('pkt, 'ack, 'c, 'z) MqttShared_scheme" where
  "sh_encode_packet env pkt s = (env_encode env pkt, log_event (Ev_encode pkt) s)"

text \<open>\<open>clear_queues\<close>; \<open>lost\<close> is the callback's argument for an identifier that was never acknowledged.\<close>

definition sh_clear_queues :: "(u16 \<Rightarrow> 'c) \<Rightarrow> ('pkt, 'ack, 'c, 'z) MqttShared_scheme
    \<Rightarrow> ('pkt, 'ack, 'c, 'z) MqttShared_scheme" where
  "sh_clear_queues lost s =
     (let s1 = s\<lparr>sh_waiters := []\<rparr> in
      if sh_on_publish_ack s1 then
        s1\<lparr>sh_on_publish_ack := False, sh_inflight := [],
           sh_events := sh_events s1 @
             map (\<lambda>(idx, _, _). Ev_callback (lost idx) True) (filter (\<lambda>(_, tx, _). tx = None) (sh_inflight s1))\<rparr>
      else s1\<lparr>sh_inflight := []\<rparr>)"

definition sh_force_close :: "(u16 \<Rightarrow> 'c) \<Rightarrow> ('pkt, 'ack, 'c, 'z) MqttShared_scheme
    \<Rightarrow> ('pkt, 'ack, 'c, 'z) MqttShared_scheme" where
  "sh_force_close lost s = sh_clear_queues lost (log_event Ev_force_close s)"

definition sh_enable_wr_backpressure :: "('pkt, 'ack, 'c, 'z) MqttShared_scheme \<Rightarrow> ('pkt, 'ack, 'c, 'z) MqttShared_scheme" where
  "sh_enable_wr_backpressure s = s\<lparr>sh_flags := sh_flags s OR SF_WRB_ENABLED\<rparr>"

definition sh_disable_wr_backpressure :: "'pkt Env \<Rightarrow> ('pkt, 'ack, 'c, 'z) MqttShared_scheme
    \<Rightarrow> ('pkt, 'ack, 'c, 'z) MqttShared_scheme" where
  "sh_disable_wr_backpressure env s =
     (let s1 = s\<lparr>sh_flags := sh_flags s AND NOT SF_WRB_ENABLED\<rparr> in
      if length (sh_inflight s1) < sh_cap s1
      then sh_woken (wake_loop (env_alive env) (sh_cap s1 - length (sh_inflight s1)) (sh_waiters s1)) s1
      else s1)"

text \<open>\<open>pkt_ack_inner\<close>; \<open>cb\<close> makes the callback's argument, \<open>None\<close> when that panics.\<close>

definition pkt_ack_inner :: "(('p, 's, 'u) Ack \<Rightarrow> u16) \<Rightarrow> (('p, 's, 'u) Ack \<Rightarrow> 'c option) \<Rightarrow> 'pkt Env
    \<Rightarrow> ('p, 's, 'u) Ack \<Rightarrow> ('pkt, ('p, 's, 'u) Ack, 'c, 'z) MqttShared_scheme
    \<Rightarrow> (ProtocolError, unit) res \<times> ('pkt, ('p, 's, 'u) Ack, 'c, 'z) MqttShared_scheme" where
  "pkt_ack_inner pid cb env pkt s =
     (case sh_inflight s of
        (idx, tx, tp) # rest \<Rightarrow>
          let s1 = s\<lparr>sh_inflight := rest\<rparr> in
          if idx \<noteq> pid pkt then (Err packet_id_mismatch, s1)
          else
            let s2 = s1\<lparr>sh_inflight_ids := sh_inflight_ids s1 - {pid pkt}\<rparr> in
            if ack_is_match pkt tp then
              (case tx of
                 Some tx \<Rightarrow> (Ok (), sh_wake_next env (log_event (Ev_ack tx pkt) s2))
               | None \<Rightarrow>
                   if sh_on_publish_ack s2 then
                     (case cb pkt of
                        Some arg \<Rightarrow> (Ok (), sh_wake_next env (log_event (Ev_callback arg False) s2))
                      | None \<Rightarrow> (Panic, s2))
                   else (Panic, s2))
            else (Err (unexpected_packet (ack_packet_type pkt) (expected_str tp)), s2)
      | [] \<Rightarrow> (Err (generic_violation
          ''Received PUBACK packet while there are no unacknowledged PUBLISH packets''), s))"

text \<open>\<open>pkt_ack\<close>: an error closes the connection.\<close>

definition pkt_ack :: "(('p, 's, 'u) Ack \<Rightarrow> u16) \<Rightarrow> (('p, 's, 'u) Ack \<Rightarrow> 'c option)
    \<Rightarrow> ('pkt Env \<Rightarrow> ('pkt, ('p, 's, 'u) Ack, 'c, 'z) MqttShared_scheme \<Rightarrow> ('pkt, ('p, 's, 'u) Ack, 'c, 'z) MqttShared_scheme)
    \<Rightarrow> 'pkt Env \<Rightarrow> ('p, 's, 'u) Ack \<Rightarrow> ('pkt, ('p, 's, 'u) Ack, 'c, 'z) MqttShared_scheme
    \<Rightarrow> (ProtocolError, unit) res \<times> ('pkt, ('p, 's, 'u) Ack, 'c, 'z) MqttShared_scheme" where
  "pkt_ack pid cb close env ack s =
     (case pkt_ack_inner pid cb env ack s of
        (Err e, s') \<Rightarrow> (Err e, close env s')
      | (r, s') \<Rightarrow> (r, s'))"

definition new_channel :: "('pkt, 'ack, 'c, 'z) MqttShared_scheme \<Rightarrow> chan \<times> ('pkt, 'ack, 'c, 'z) MqttShared_scheme" where
  "new_channel s = (sh_channels s, s\<lparr>sh_channels := Suc (sh_channels s)\<rparr>)"

text \<open>\<open>inflight.push_back((id, tx, ack)); inflight_ids.insert(id)\<close>.\<close>

definition sh_register :: "u16 \<Rightarrow> chan option \<Rightarrow> AckType \<Rightarrow> ('pkt, 'ack, 'c, 'z) MqttShared_scheme
    \<Rightarrow> ('pkt, 'ack, 'c, 'z) MqttShared_scheme" where
  "sh_register pkt_id tx ack s =
     s\<lparr>sh_inflight := sh_inflight s @ [(pkt_id, tx, ack)], sh_inflight_ids := insert pkt_id (sh_inflight_ids s)\<rparr>"

definition sh_wait_response :: "u16 \<Rightarrow> AckType \<Rightarrow> ('pkt, 'ack, 'c, 'z) MqttShared_scheme
    \<Rightarrow> (SendPacketError, chan) res \<times> ('pkt, 'ack, 'c, 'z) MqttShared_scheme" where
  "sh_wait_response pkt_id ack s =
     (if pkt_id \<in> sh_inflight_ids s then (Err (PacketIdInUse pkt_id), s)
      else let (ch, s1) = new_channel s in (Ok ch, sh_register pkt_id (Some ch) ack s1))"

definition sh_wait_packet_response :: "'pkt Env \<Rightarrow> u16 \<Rightarrow> AckType \<Rightarrow> 'pkt \<Rightarrow> ('pkt, 'ack, 'c, 'z) MqttShared_scheme
    \<Rightarrow> (SendPacketError, chan) res \<times> ('pkt, 'ack, 'c, 'z) MqttShared_scheme" where
  "sh_wait_packet_response env pkt_id ack pkt s =
     (if pkt_id \<in> sh_inflight_ids s then (Err (PacketIdInUse pkt_id), s)
      else
        case sh_encode_packet env pkt s of
          (None, s1) \<Rightarrow> (let (ch, s2) = new_channel s1 in (Ok ch, sh_register pkt_id (Some ch) ack s2))
        | (Some e, s1) \<Rightarrow> (Err (SPE_Encode e), s1))"

text \<open>\<open>wait_packet_response_no_block\<close>; only the 3.1.1 code checks for the callback (\<open>check\<close>).\<close>

definition sh_wait_packet_response_no_block :: "bool \<Rightarrow> 'pkt Env \<Rightarrow> u16 \<Rightarrow> AckType \<Rightarrow> 'pkt
    \<Rightarrow> ('pkt, 'ack, 'c, 'z) MqttShared_scheme \<Rightarrow> (SendPacketError, unit) res \<times> ('pkt, 'ack, 'c, 'z) MqttShared_scheme" where
  "sh_wait_packet_response_no_block check env pkt_id ack pkt s =
     (if pkt_id \<in> sh_inflight_ids s then (Err (PacketIdInUse pkt_id), s)
      else
        case sh_encode_packet env pkt s of
          (None, s1) \<Rightarrow>
            let s2 = sh_register pkt_id None ack s1 in
            if check \<and> \<not> flags_contains (sh_flags s2) SF_ON_PUBLISH_ACK then (Panic, s2) else (Ok (), s2)
        | (Some e, s1) \<Rightarrow> (Err (SPE_Encode e), s1))"

definition sh_wait_readiness :: "('pkt, 'ack, 'c, 'z) MqttShared_scheme \<Rightarrow> chan option \<times> ('pkt, 'ack, 'c, 'z) MqttShared_scheme" where
  "sh_wait_readiness s =
     (if sh_cap s \<le> length (sh_inflight s) \<or> sh_wrb s
      then let (ch, s1) = new_channel s in (Some ch, s1\<lparr>sh_waiters := sh_waiters s1 @ [ch]\<rparr>)
      else (None, s))"

text \<open>The identifier of a packet that is sent: the one the caller set or the next one.\<close>

definition sh_packet_id :: "u16 option \<Rightarrow> ('pkt, 'ack, 'c, 'z) MqttShared_scheme
    \<Rightarrow> (SendPacketError, u16) res \<times> ('pkt, 'ack, 'c, 'z) MqttShared_scheme" where
  "sh_packet_id given s = (case given of Some idx \<Rightarrow> (Ok idx, s) | None \<Rightarrow> sh_next_id s)"

section \<open>Sending\<close>

text \<open>
  A send operation is a future that may be suspended twice: until the connection is ready for
  another packet in flight (\<open>Fut_ready\<close>), and until the acknowledgement arrives (\<open>Fut_ack\<close>). The
  functions below are its synchronous parts: the call, and the continuation after each suspension.
\<close>

datatype 'r send_fut = Fut_done "(SendPacketError, 'r) res" | Fut_ready chan | Fut_ack chan

definition fut_of :: "(SendPacketError, chan) res \<times> 's \<Rightarrow> 'r send_fut \<times> 's" where
  "fut_of r = (case r of (Ok rx, s) \<Rightarrow> (Fut_ack rx, s) | (Err e, s) \<Rightarrow> (Fut_done (Err e), s) | (Panic, s) \<Rightarrow> (Fut_done Panic, s))"

text \<open>\<open>send_at_least_once_inner\<close>: \<open>mk\<close> is the packet with its identifier.\<close>

definition sh_publish_inner :: "'pkt Env \<Rightarrow> (u16 \<Rightarrow> 'pkt) \<Rightarrow> u16 option \<Rightarrow> ('pkt, 'ack, 'c, 'z) MqttShared_scheme
    \<Rightarrow> 'r send_fut \<times> ('pkt, 'ack, 'c, 'z) MqttShared_scheme" where
  "sh_publish_inner env mk given s =
     (case sh_packet_id given s of
        (Ok idx, s1) \<Rightarrow> fut_of (sh_wait_packet_response env idx AckType_Publish (mk idx) s1)
      | (Err e, s1) \<Rightarrow> (Fut_done (Err e), s1)
      | (Panic, s1) \<Rightarrow> (Fut_done Panic, s1))"

text \<open>The part of \<open>SubscribeBuilder::send\<close> and \<open>UnsubscribeBuilder::send\<close> after the readiness check: the
  response is registered first, then the packet is encoded.\<close>

definition sh_request_inner :: "'pkt Env \<Rightarrow> AckType \<Rightarrow> (u16 \<Rightarrow> 'pkt) \<Rightarrow> u16 option
    \<Rightarrow> ('pkt, 'ack, 'c, 'z) MqttShared_scheme \<Rightarrow> 'r send_fut \<times> ('pkt, 'ack, 'c, 'z) MqttShared_scheme" where
  "sh_request_inner env tp mk given s =
     (case sh_packet_id given s of
        (Ok idx, s1) \<Rightarrow>
          (case sh_wait_response idx tp s1 of
             (Ok rx, s2) \<Rightarrow>
               (case sh_encode_packet env (mk idx) s2 of
                  (None, s3) \<Rightarrow> (Fut_ack rx, s3)
                | (Some e, s3) \<Rightarrow> (Fut_done (Err (SPE_Encode e)), s3))
           | (Err e, s2) \<Rightarrow> (Fut_done (Err e), s2)
           | (Panic, s2) \<Rightarrow> (Fut_done Panic, s2))
      | (Err e, s1) \<Rightarrow> (Fut_done (Err e), s1)
      | (Panic, s1) \<Rightarrow> (Fut_done Panic, s1))"

text \<open>The start of every send operation, and its continuation after the readiness channel answered.\<close>

definition sh_start :: "'pkt Env \<Rightarrow> (('pkt, 'ack, 'c, 'z) MqttShared_scheme \<Rightarrow> 'r send_fut \<times> ('pkt, 'ack, 'c, 'z) MqttShared_scheme)
    \<Rightarrow> ('pkt, 'ack, 'c, 'z) MqttShared_scheme \<Rightarrow> 'r send_fut \<times> ('pkt, 'ack, 'c, 'z) MqttShared_scheme" where
  "sh_start env inner s =
     (if \<not> env_closed env then
        (case sh_wait_readiness s of
           (Some rx, s') \<Rightarrow> (Fut_ready rx, s')
         | (None, s') \<Rightarrow> inner s')
      else (Fut_done (Err Disconnected), s))"

definition sh_resume :: "(('pkt, 'ack, 'c, 'z) MqttShared_scheme \<Rightarrow> 'r send_fut \<times> ('pkt, 'ack, 'c, 'z) MqttShared_scheme)
    \<Rightarrow> bool \<Rightarrow> ('pkt, 'ack, 'c, 'z) MqttShared_scheme \<Rightarrow> 'r send_fut \<times> ('pkt, 'ack, 'c, 'z) MqttShared_scheme" where
  "sh_resume inner received s = (if received then inner s else (Fut_done (Err Disconnected), s))"

text \<open>\<open>packet_id\<close> of the packet builders: \<open>NonZeroU16::new\<close> refuses 0.\<close>

definition builder_id :: "u16 \<Rightarrow> (SendPacketError, u16) res" where
  "builder_id pkt_id = (if pkt_id = 0 then Panic else Ok pkt_id)"

section \<open>The waking loops\<close>

lemma wake_first_None: "wake_first alive ws = (None, ws') \<Longrightarrow> ws' = [] \<and> (\<forall>c \<in> set ws. \<not> alive c)"
  by (induction ws) (auto split: if_splits)

lemma wake_first_Some:
  "wake_first alive ws = (Some tx, ws') \<Longrightarrow> \<exists>dead. ws = dead @ tx # ws' \<and> (\<forall>c \<in> set dead. \<not> alive c) \<and> alive tx"
proof (induction ws)
  case (Cons w ws)
  show ?case
  proof (cases "alive w")
    case True
    then show ?thesis using Cons.prems by (intro exI [of _ "[]"]) simp
  next
    case False
    then obtain dead where "ws = dead @ tx # ws'" "\<forall>c \<in> set dead. \<not> alive c" "alive tx" using Cons by auto
    then show ?thesis using False by (intro exI [of _ "w # dead"]) simp
  qed
qed simp

text \<open>Both loops wake the first live waiters, at most so many, and stop early only when none is left.\<close>

lemma set_cap_loop_eq: "set_cap_loop alive n ws = wake_loop alive n ws"
proof (induction n arbitrary: ws)
  case 0
  show ?case by (cases ws) simp_all
next
  case (Suc n)
  show ?case
  proof (induction ws)
    case (Cons w ws)
    then show ?case using Suc.IH by (auto split: prod.splits option.splits)
  qed simp
qed

lemma wake_loop_spec:
  assumes "wake_loop alive n ws = (txs, ws')"
  shows "\<exists>pre. ws = pre @ ws' \<and> txs = filter alive pre" and "length txs \<le> n" and "ws' \<noteq> [] \<Longrightarrow> length txs = n"
proof -
  have "(\<exists>pre. ws = pre @ ws' \<and> txs = filter alive pre) \<and> length txs \<le> n \<and> (ws' \<noteq> [] \<longrightarrow> length txs = n)"
    using assms
  proof (induction ws arbitrary: n txs)
    case (Cons w ws)
    show ?case
    proof (cases "n = 0")
      case True
      then show ?thesis using Cons.prems by simp
    next
      case n: False
      show ?thesis
      proof (cases "alive w")
        case True
        then obtain ys where ys: "wake_loop alive (n - 1) ws = (ys, ws')" "txs = w # ys"
          using Cons.prems n by (auto split: prod.splits)
        from Cons.IH [OF ys(1)] obtain pre where "ws = pre @ ws'" "ys = filter alive pre" "length ys \<le> n - 1"
          "ws' \<noteq> [] \<longrightarrow> length ys = n - 1" by blast
        then show ?thesis using ys(2) n True by (intro conjI exI [of _ "w # pre"]) auto
      next
        case False
        then have "wake_loop alive n ws = (txs, ws')" using Cons.prems n by simp
        from Cons.IH [OF this] obtain pre where "ws = pre @ ws'" "txs = filter alive pre" "length txs \<le> n"
          "ws' \<noteq> [] \<longrightarrow> length txs = n" by blast
        then show ?thesis using False by (intro conjI exI [of _ "w # pre"]) auto
      qed
    qed
  qed simp
  then show "\<exists>pre. ws = pre @ ws' \<and> txs = filter alive pre" "length txs \<le> n" "ws' \<noteq> [] \<Longrightarrow> length txs = n" by blast+
qed

lemma wake_loop_0 [simp]: "wake_loop alive 0 ws = ([], ws)"
  by (cases ws) simp_all

lemma wake_loop_one:
  "wake_first alive ws = (case wake_loop alive 1 ws of ([], ws') \<Rightarrow> (None, ws') | (tx # _, ws') \<Rightarrow> (Some tx, ws'))"
  by (induction ws) (auto split: list.splits prod.splits)

lemma sh_wake_next_eq: "sh_wake_next env s = sh_woken (wake_loop (env_alive env) 1 (sh_waiters s)) s"
proof -
  obtain txs ws' where w: "wake_loop (env_alive env) 1 (sh_waiters s) = (txs, ws')" by fastforce
  then show ?thesis using wake_loop_spec(2) [OF w]
    by (cases txs) (auto simp: sh_wake_next_def wake_loop_one)
qed

section \<open>Invariants of the queues\<close>

text \<open>
  A connection in use: the shared state, the senders suspended on a readiness channel (\<open>ready\<close>), those
  suspended on a response with the kind of response they wait for (\<open>acks\<close>), and the number of senders
  that were woken and then gave up (\<open>lost\<close>).
\<close>

abbreviation woken_set :: "('pkt, 'ack, 'c, 'z) MqttShared_scheme \<Rightarrow> chan set" where
  "woken_set s \<equiv> {c. Ev_wake c \<in> set (sh_events s)}"

text \<open>Identifiers in flight are distinct and all in the set; the counter can be incremented.\<close>

definition ids_ok :: "('pkt, 'ack, 'c, 'z) MqttShared_scheme \<Rightarrow> bool" where
  "ids_ok s \<longleftrightarrow> distinct (map fst (sh_inflight s)) \<and> fst ` set (sh_inflight s) \<subseteq> sh_inflight_ids s \<and>
     sh_inflight_idx s \<noteq> 0xFFFF"

text \<open>Channels are used once: all that occur anywhere were made before, and no waiter was woken yet.\<close>

definition chans_ok :: "('pkt, 'ack, 'c, 'z) MqttShared_scheme \<Rightarrow> chan list \<Rightarrow> (chan \<times> AckType) list \<Rightarrow> bool" where
  "chans_ok s ready acks \<longleftrightarrow>
     (\<forall>c. c \<in> set (sh_waiters s) \<union> set ready \<union> fst ` set acks \<union> woken_set s \<longrightarrow> c < sh_channels s) \<and>
     (\<forall>i c tp. (i, Some c, tp) \<in> set (sh_inflight s) \<longrightarrow> c < sh_channels s) \<and>
     (\<forall>c a. Ev_ack c a \<in> set (sh_events s) \<longrightarrow> c < sh_channels s) \<and>
     distinct (sh_waiters s) \<and> distinct ready \<and> set (sh_waiters s) \<inter> woken_set s = {}"

text \<open>While a waiter is queued, every unit of the capacity is in flight, on its way to a sender that
  was woken, or was lost by one that gave up.\<close>

definition permits_ok :: "('pkt, 'ack, 'c, 'z) MqttShared_scheme \<Rightarrow> chan list \<Rightarrow> nat \<Rightarrow> bool" where
  "permits_ok s ready lost \<longleftrightarrow>
     (sh_waiters s \<noteq> [] \<and> \<not> sh_wrb s \<longrightarrow>
        sh_cap s \<le> length (sh_inflight s) + length (filter (\<lambda>c. c \<in> woken_set s) ready) + lost)"

text \<open>A response channel gets a response of the kind its sender waits for.\<close>

definition acks_ok :: "('pkt, ('p, 's, 'u) Ack, 'c, 'z) MqttShared_scheme \<Rightarrow> (chan \<times> AckType) list \<Rightarrow> bool" where
  "acks_ok s acks \<longleftrightarrow>
     (\<forall>c tp. (c, tp) \<in> set acks \<longrightarrow>
        (\<forall>i tp'. (i, Some c, tp') \<in> set (sh_inflight s) \<longrightarrow> tp' = tp) \<and>
        (\<forall>a. Ev_ack c a \<in> set (sh_events s) \<longrightarrow> ack_is_match a tp))"

definition sink_inv :: "('pkt, ('p, 's, 'u) Ack, 'c, 'z) MqttShared_scheme \<Rightarrow> chan list \<Rightarrow> (chan \<times> AckType) list \<Rightarrow> nat \<Rightarrow> bool" where
  "sink_inv s ready acks lost \<longleftrightarrow> ids_ok s \<and> chans_ok s ready acks \<and> permits_ok s ready lost \<and> acks_ok s acks"

lemmas sink_inv_defs = sink_inv_def ids_ok_def chans_ok_def permits_ok_def acks_ok_def

lemma log_event_simps [simp]:
  "sh_cap (log_event e s) = sh_cap s" "sh_inflight (log_event e s) = sh_inflight s"
  "sh_inflight_ids (log_event e s) = sh_inflight_ids s" "sh_waiters (log_event e s) = sh_waiters s"
  "sh_inflight_idx (log_event e s) = sh_inflight_idx s" "sh_flags (log_event e s) = sh_flags s"
  "sh_on_publish_ack (log_event e s) = sh_on_publish_ack s" "sh_channels (log_event e s) = sh_channels s"
  "sh_events (log_event e s) = sh_events s @ [e]"
  by (simp_all add: log_event_def)

lemma sh_woken_simps [simp]:
  "sh_cap (sh_woken w s) = sh_cap s" "sh_inflight (sh_woken w s) = sh_inflight s"
  "sh_inflight_ids (sh_woken w s) = sh_inflight_ids s" "sh_waiters (sh_woken w s) = snd w"
  "sh_inflight_idx (sh_woken w s) = sh_inflight_idx s" "sh_flags (sh_woken w s) = sh_flags s"
  "sh_on_publish_ack (sh_woken w s) = sh_on_publish_ack s" "sh_channels (sh_woken w s) = sh_channels s"
  "sh_events (sh_woken w s) = sh_events s @ map Ev_wake (fst w)"
  by (simp_all add: sh_woken_def)

text \<open>Events that are neither a wake-up nor a response change nothing the invariant speaks of.\<close>

definition quiet :: "('pkt, 'ack, 'c) event \<Rightarrow> bool" where
  "quiet e \<longleftrightarrow> (\<forall>c. Ev_wake c \<noteq> e) \<and> (\<forall>c a. Ev_ack c a \<noteq> e)"

lemma quiet_simps [simp]:
  "quiet (Ev_encode p)" "quiet Ev_close" "quiet Ev_force_close" "quiet (Ev_callback x b)"
  by (simp_all add: quiet_def)

lemma sink_inv_log: "sink_inv s R A L \<Longrightarrow> quiet e \<Longrightarrow> sink_inv (log_event e s) R A L"
  unfolding sink_inv_defs sh_wrb_def quiet_def by auto

text \<open>Waking: the first live waiters get their message.\<close>

lemma length_filter_woken:
  assumes "distinct txs" "distinct R" "set txs \<subseteq> set R" "set txs \<inter> W = {}"
  shows "length (filter (\<lambda>c. c \<in> W \<union> set txs) R) = length (filter (\<lambda>c. c \<in> W) R) + length txs"
proof -
  have "length (filter (\<lambda>c. c \<in> W \<union> set txs) R) = card (set R \<inter> W \<union> set txs)"
    using assms(2,3) by (subst distinct_card [symmetric]) (auto intro: arg_cong [where f = card])
  also have "\<dots> = card (set R \<inter> W) + card (set txs)"
    using assms(4) by (intro card_Un_disjoint) auto
  also have "card (set R \<inter> W) = length (filter (\<lambda>c. c \<in> W) R)"
    using assms(2) by (subst distinct_card [symmetric]) (auto intro: arg_cong [where f = card])
  finally show ?thesis using assms(1) by (simp add: distinct_card)
qed

lemma sink_inv_woken:
  assumes inv: "ids_ok s" "chans_ok s R A" "acks_ok s A" and w: "wake_loop (\<lambda>c. c \<in> set R) n (sh_waiters s) = (txs, ws')"
    and room: "ws' \<noteq> [] \<Longrightarrow> \<not> sh_wrb s \<Longrightarrow> cap' \<le> length (sh_inflight s) + length (filter (\<lambda>c. c \<in> woken_set s) R) + n + L"
  shows "sink_inv ((sh_woken (txs, ws') s)\<lparr>sh_cap := cap'\<rparr>) R A L"
proof -
  from wake_loop_spec(1) [OF w] obtain pre where pre: "sh_waiters s = pre @ ws'" "txs = filter (\<lambda>c. c \<in> set R) pre" by blast
  have d: "distinct (sh_waiters s)" "distinct R" "set (sh_waiters s) \<inter> woken_set s = {}"
    using inv(2) by (auto simp: chans_ok_def)
  have ws: "{c. c \<in> woken_set s \<or> c \<in> set txs} = woken_set (sh_woken (txs, ws') s)" by auto
  have len: "length (filter (\<lambda>c. c \<in> woken_set s \<union> set txs) R) = length (filter (\<lambda>c. c \<in> woken_set s) R) + length txs"
    using d pre by (intro length_filter_woken) auto
  have p: "permits_ok ((sh_woken (txs, ws') s)\<lparr>sh_cap := cap'\<rparr>) R L"
    using room wake_loop_spec(3) [OF w] len by (auto simp: permits_ok_def sh_wrb_def image_iff conj_disj_distribR)
  have c: "chans_ok ((sh_woken (txs, ws') s)\<lparr>sh_cap := cap'\<rparr>) R A"
    using inv(2) d pre by (auto simp: chans_ok_def)
  show ?thesis using inv p c by (auto simp: sink_inv_def ids_ok_def acks_ok_def)
qed

lemma sh_woken_cap [simp]: "(sh_woken w s)\<lparr>sh_cap := sh_cap s\<rparr> = sh_woken w s"
  by (simp add: sh_woken_def)

lemma sink_inv_set_cap:
  assumes "sink_inv s R A L" and "env_alive env = (\<lambda>c. c \<in> set R)"
  shows "sink_inv (sh_set_cap env cap s) R A L"
proof -
  obtain txs ws' where w: "wake_loop (\<lambda>c. c \<in> set R) cap (sh_waiters s) = (txs, ws')" by fastforce
  show ?thesis using assms sink_inv_woken [OF _ _ _ w, of A cap L]
    by (simp add: sink_inv_def sh_set_cap_def set_cap_loop_eq w)
qed

lemma sh_wrb_enable [simp]: "sh_wrb (sh_enable_wr_backpressure s)"
  by (simp add: sh_wrb_def sh_enable_wr_backpressure_def flags_contains_def bit_eq_iff bit_simps)

lemma sink_inv_enable: "sink_inv s R A L \<Longrightarrow> sink_inv (sh_enable_wr_backpressure s) R A L"
  using sh_wrb_enable [of s] unfolding sink_inv_defs by (auto simp: sh_enable_wr_backpressure_def)

lemma sink_inv_disable:
  assumes "sink_inv s R A L" and "env_alive env = (\<lambda>c. c \<in> set R)"
  shows "sink_inv (sh_disable_wr_backpressure env s) R A L"
proof -
  let ?s = "s\<lparr>sh_flags := sh_flags s AND NOT SF_WRB_ENABLED\<rparr>"
  have i: "ids_ok ?s" "chans_ok ?s R A" "acks_ok ?s A"
    using assms(1) by (auto simp: sink_inv_defs)
  show ?thesis
  proof (cases "length (sh_inflight s) < sh_cap s")
    case True
    obtain txs ws' where w: "wake_loop (\<lambda>c. c \<in> set R) (sh_cap s - length (sh_inflight s)) (sh_waiters s) = (txs, ws')"
      by fastforce
    have "sink_inv ((sh_woken (txs, ws') ?s)\<lparr>sh_cap := sh_cap s\<rparr>) R A L"
      using w True by (intro sink_inv_woken [OF i, where n = "sh_cap s - length (sh_inflight s)"]) auto
    then show ?thesis using True assms(2) w by (simp add: sh_disable_wr_backpressure_def sh_woken_def)
  next
    case False
    then show ?thesis using i by (auto simp: sh_disable_wr_backpressure_def sink_inv_def permits_ok_def)
  qed
qed

text \<open>A response: the head of the queue leaves it, and one waiter is woken.\<close>

lemma sink_inv_wake_next:
  assumes i: "ids_ok s" "chans_ok s R A" "acks_ok s A" and "env_alive env = (\<lambda>c. c \<in> set R)"
    and "sh_waiters s \<noteq> [] \<Longrightarrow> \<not> sh_wrb s \<Longrightarrow>
      sh_cap s \<le> Suc (length (sh_inflight s)) + length (filter (\<lambda>c. c \<in> woken_set s) R) + L"
  shows "sink_inv (sh_wake_next env s) R A L"
proof -
  obtain txs ws' where w: "wake_loop (\<lambda>c. c \<in> set R) 1 (sh_waiters s) = (txs, ws')" by fastforce
  have "sh_waiters s \<noteq> []" if "ws' \<noteq> []" using that wake_loop_spec(1) [OF w] by auto
  then have "sink_inv ((sh_woken (txs, ws') s)\<lparr>sh_cap := sh_cap s\<rparr>) R A L"
    using assms(5) by (intro sink_inv_woken [OF i w]) auto
  then show ?thesis using assms(4) w by (simp add: sh_wake_next_eq)
qed

text \<open>What an operation that empties the queues needs of the invariant.\<close>

definition core_inv :: "('pkt, ('p, 's, 'u) Ack, 'c, 'z) MqttShared_scheme \<Rightarrow> chan list \<Rightarrow> (chan \<times> AckType) list \<Rightarrow> bool" where
  "core_inv s R A \<longleftrightarrow> ids_ok s \<and> chans_ok s R A \<and> acks_ok s A"

lemma core_inv_log: "core_inv s R A \<Longrightarrow> quiet e \<Longrightarrow> core_inv (log_event e s) R A"
  unfolding core_inv_def ids_ok_def chans_ok_def acks_ok_def quiet_def by auto

lemma sink_inv_core: "sink_inv s R A L \<Longrightarrow> core_inv s R A"
  by (simp add: sink_inv_def core_inv_def)

lemma sink_inv_cleared:
  assumes "core_inv s R A"
  shows "sink_inv (sh_clear_queues lost_arg s) R A L"
proof -
  have "c \<in> woken_set (sh_clear_queues lost_arg s) \<longleftrightarrow> c \<in> woken_set s"
    "Ev_ack c a \<in> set (sh_events (sh_clear_queues lost_arg s)) \<longleftrightarrow> Ev_ack c a \<in> set (sh_events s)" for c a
    by (auto simp: sh_clear_queues_def Let_def)
  moreover have "sh_inflight (sh_clear_queues lost_arg s) = []" "sh_waiters (sh_clear_queues lost_arg s) = []"
    "sh_channels (sh_clear_queues lost_arg s) = sh_channels s" "sh_inflight_idx (sh_clear_queues lost_arg s) = sh_inflight_idx s"
    by (simp_all add: sh_clear_queues_def Let_def)
  ultimately show ?thesis using assms unfolding sink_inv_defs core_inv_def by auto
qed

lemma sink_inv_force_close: "core_inv s R A \<Longrightarrow> sink_inv (sh_force_close lost_arg s) R A L"
  by (simp add: sh_force_close_def sink_inv_cleared core_inv_log)

lemma sink_inv_pkt_ack:
  fixes s :: "('pkt, ('p, 's, 'u) Ack, 'c, 'z) MqttShared_scheme"
  assumes inv: "sink_inv s R A L" and alive: "env_alive env = (\<lambda>c. c \<in> set R)"
    and close: "\<And>s. core_inv s R A \<Longrightarrow> sink_inv (close env s) R A L"
    and no_panic: "fst (pkt_ack pid cb close env ack s) \<noteq> Panic"
  shows "sink_inv (snd (pkt_ack pid cb close env ack s)) R A L"
proof (cases "sh_inflight s")
  case Nil
  then show ?thesis using inv close [of s] by (simp add: pkt_ack_def pkt_ack_inner_def sink_inv_core)
next
  case (Cons e rest)
  obtain idx tx tp where e: "e = (idx, tx, tp)" by (cases e)
  let ?s1 = "s\<lparr>sh_inflight := rest\<rparr>"
  let ?s2 = "?s1\<lparr>sh_inflight_ids := sh_inflight_ids s - {idx}\<rparr>"
  have s1: "ids_ok ?s1" "chans_ok ?s1 R A" "acks_ok ?s1 A"
    using inv Cons by (auto simp: sink_inv_defs)
  have s2: "ids_ok ?s2" "chans_ok ?s2 R A" "acks_ok ?s2 A"
    using inv Cons e by (auto simp: sink_inv_defs)
  have room: "sh_waiters s \<noteq> [] \<Longrightarrow> \<not> sh_wrb s \<Longrightarrow>
      sh_cap s \<le> Suc (length rest) + length (filter (\<lambda>c. c \<in> woken_set s) R) + L"
    using inv Cons by (auto simp: sink_inv_def permits_ok_def)
  have ev: "sink_inv (sh_wake_next env (log_event ev ?s2)) R A L"
    if "quiet ev \<or> (\<exists>ch a. ev = Ev_ack ch a \<and> tx = Some ch \<and> ack_is_match a tp)" for ev
  proof (rule sink_inv_wake_next [OF _ _ _ alive])
    show "ids_ok (log_event ev ?s2)" using s2 by (simp add: ids_ok_def)
    show "chans_ok (log_event ev ?s2) R A"
      using s2 that inv Cons e by (auto simp: chans_ok_def quiet_def sink_inv_def)
    show "acks_ok (log_event ev ?s2) A"
      using s2 that inv Cons e by (auto simp: acks_ok_def quiet_def sink_inv_def)
    have "c \<in> woken_set (log_event ev ?s2) \<longleftrightarrow> c \<in> woken_set s" for c using that by (auto simp: quiet_def)
    then show "sh_cap (log_event ev ?s2) \<le> Suc (length (sh_inflight (log_event ev ?s2)))
        + length (filter (\<lambda>c. c \<in> woken_set (log_event ev ?s2)) R) + L"
      if "sh_waiters (log_event ev ?s2) \<noteq> []" "\<not> sh_wrb (log_event ev ?s2)"
      using room that by (simp add: sh_wrb_def)
  qed
  show ?thesis
    using no_panic Cons e ev close [of ?s1] close [of ?s2] s1 s2
    by (auto simp: pkt_ack_def pkt_ack_inner_def core_inv_def Let_def split: option.splits if_splits)
qed

text \<open>Sending: a new channel is registered, and a sender moves from one list to another.\<close>

lemma sink_inv_mono: "sink_inv s R (x # A) L \<Longrightarrow> sink_inv s R A L" "sink_inv s R A L \<Longrightarrow> sink_inv s R A (Suc L)"
  unfolding sink_inv_defs by auto

lemma sink_inv_drop_ack: "sink_inv s R A L \<Longrightarrow> set A' \<subseteq> set A \<Longrightarrow> sink_inv s R A' L"
  unfolding sink_inv_defs by blast

lemma sink_inv_drop_ready:
  assumes "sink_inv s R A L"
  shows "sink_inv s (remove1 c R) A (if c \<in> woken_set s then Suc L else L)"
proof -
  have "length (filter P R) \<le> length (filter P (remove1 c R)) + (if P c then 1 else 0)" for P
    by (induction R) auto
  note this [of "\<lambda>c. c \<in> woken_set s"]
  then show ?thesis using assms unfolding sink_inv_defs by (auto dest: notin_set_remove1 in_set_remove1 [THEN iffD1, rotated] set_remove1_subset [THEN subsetD])
qed

lemma sink_inv_next_id:
  assumes "sink_inv s R A L"
  obtains idx s' where "sh_next_id s = (Ok idx, s')" and "idx \<noteq> 0" and "sink_inv s' R A L"
proof -
  let ?i = "sh_inflight_idx s"
  have i: "?i \<noteq> 0xFFFF" using assms by (simp add: sink_inv_def ids_ok_def)
  have nz: "?i + 1 \<noteq> 0"
  proof
    assume "?i + 1 = 0"
    then have "?i = - 1" by (simp add: eq_neg_iff_add_eq_0)
    with i show False by simp
  qed
  have keep: "sink_inv (s\<lparr>sh_inflight_idx := j\<rparr>) R A L" if "j \<noteq> 0xFFFF" for j
    using assms that unfolding sink_inv_defs by (simp add: sh_wrb_def)
  show thesis
  proof (cases "?i + 1 = 0xFFFF")
    case True
    then show thesis using that [of "0xFFFF" "s\<lparr>sh_inflight_idx := 0\<rparr>"] keep [of 0] i by (simp add: sh_next_id_def)
  next
    case False
    then show thesis using that [of "?i + 1" "s\<lparr>sh_inflight_idx := ?i + 1\<rparr>"] keep [of "?i + 1"] i nz by (simp add: sh_next_id_def Let_def)
  qed
qed

lemma sink_inv_packet_id:
  assumes "sink_inv s R A L"
  obtains idx s' where "sh_packet_id given s = (Ok idx, s')" and "sink_inv s' R A L"
  using assms by (cases given) (auto simp: sh_packet_id_def elim: sink_inv_next_id)

text \<open>Channels made later are new, and making one keeps the bounds.\<close>

lemma chans_fresh:
  assumes "chans_ok s R A"
  shows "sh_channels s \<notin> set (sh_waiters s)" "sh_channels s \<notin> set R" "sh_channels s \<notin> fst ` set A"
    "Ev_wake (sh_channels s) \<notin> set (sh_events s)" "(i, Some (sh_channels s), tp) \<notin> set (sh_inflight s)"
    "Ev_ack (sh_channels s) a \<notin> set (sh_events s)"
  using assms unfolding chans_ok_def by blast+

lemma chans_ok_new: "chans_ok s R A \<Longrightarrow> chans_ok (s\<lparr>sh_channels := Suc (sh_channels s)\<rparr>) R A"
  unfolding chans_ok_def by (simp add: less_Suc_eq)

lemma sink_inv_register:
  assumes "sink_inv s R A (Suc L)" and "pkt_id \<notin> sh_inflight_ids s" and "new_channel s = (ch, s1)"
  shows "sink_inv (sh_register pkt_id (Some ch) tp s1) R ((ch, tp) # A) L"
proof -
  let ?s = "s\<lparr>sh_channels := Suc (sh_channels s)\<rparr>"
  have s1: "ch = sh_channels s" "s1 = ?s" using assms(3) by (auto simp: new_channel_def)
  have i: "ids_ok s" "chans_ok s R A" "acks_ok s A" "permits_ok s R (Suc L)" using assms(1) by (simp_all add: sink_inv_def)
  have "ids_ok (sh_register pkt_id (Some ch) tp s1)"
    using i(1) assms(2) s1 by (auto simp: ids_ok_def sh_register_def)
  moreover have "permits_ok (sh_register pkt_id (Some ch) tp s1) R L"
    using i(4) s1 by (simp add: permits_ok_def sh_register_def sh_wrb_def)
  moreover have "chans_ok (sh_register pkt_id (Some ch) tp s1) R ((ch, tp) # A)"
    using chans_ok_new [OF i(2)] s1 by (auto simp: chans_ok_def sh_register_def)
  moreover have "acks_ok (sh_register pkt_id (Some ch) tp s1) ((ch, tp) # A)"
    using i(3) chans_fresh [OF i(2)] s1 by (auto simp: acks_ok_def sh_register_def image_iff)
  ultimately show ?thesis by (simp add: sink_inv_def)
qed

lemma sink_inv_register_no_block:
  "sink_inv s R A L \<Longrightarrow> pkt_id \<notin> sh_inflight_ids s \<Longrightarrow> sink_inv (sh_register pkt_id None tp s) R A L"
  unfolding sink_inv_defs by (auto simp: sh_register_def sh_wrb_def)

lemma sink_inv_readiness:
  assumes "sink_inv s R A L" and "sh_wait_readiness s = (r, s')"
  shows "case r of Some ch \<Rightarrow> sink_inv s' (ch # R) A L | None \<Rightarrow> s' = s \<and> sh_is_ready s"
proof (cases "sh_cap s \<le> length (sh_inflight s) \<or> sh_wrb s")
  case False
  then show ?thesis using assms(2) by (auto simp: sh_wait_readiness_def sh_is_ready_def sh_credit_def)
next
  case True
  let ?ch = "sh_channels s"
  let ?s = "s\<lparr>sh_channels := Suc ?ch, sh_waiters := sh_waiters s @ [?ch]\<rparr>"
  have r: "r = Some ?ch" "s' = ?s" using assms(2) True by (simp_all add: sh_wait_readiness_def new_channel_def)
  have i: "ids_ok s" "chans_ok s R A" "acks_ok s A" using assms(1) by (simp_all add: sink_inv_def)
  have "ids_ok ?s" using i(1) by (simp add: ids_ok_def)
  moreover have "acks_ok ?s A" using i(3) by (simp add: acks_ok_def)
  moreover have "permits_ok ?s (?ch # R) L" using True by (auto simp: permits_ok_def sh_wrb_def)
  moreover have "chans_ok ?s (?ch # R) A"
    using chans_ok_new [OF i(2)] chans_fresh [OF i(2)] by (auto simp: chans_ok_def)
  ultimately show ?thesis using r by (simp add: sink_inv_def)
qed

text \<open>What a send operation leaves behind: it is finished, suspended on a readiness channel or waits
  for a response.\<close>

fun sent_inv :: "AckType \<Rightarrow> 'r send_fut \<times> ('pkt, ('p, 's, 'u) Ack, 'c, 'z) MqttShared_scheme
    \<Rightarrow> chan list \<Rightarrow> (chan \<times> AckType) list \<Rightarrow> nat \<Rightarrow> nat \<Rightarrow> bool" where
  "sent_inv tp (Fut_done r, s) R A L L' \<longleftrightarrow> sink_inv s R A L'"
| "sent_inv tp (Fut_ready rx, s) R A L L' \<longleftrightarrow> sink_inv s (rx # R) A L"
| "sent_inv tp (Fut_ack rx, s) R A L L' \<longleftrightarrow> sink_inv s R ((rx, tp) # A) L"

lemma sink_inv_one_more: "sink_inv s R A L \<Longrightarrow> sink_inv s R A (Suc (L - 1))"
  by (cases L) (auto intro: sink_inv_mono(2))

lemma sink_inv_wait_packet_response:
  assumes "sink_inv s R A L"
  shows "case sh_wait_packet_response env pkt_id tp pkt s of
      (Ok rx, s') \<Rightarrow> sink_inv s' R ((rx, tp) # A) (L - 1)
    | (Err e, s') \<Rightarrow> sink_inv s' R A L
    | (Panic, _) \<Rightarrow> False"
proof (cases "pkt_id \<in> sh_inflight_ids s")
  case False
  let ?s = "log_event (Ev_encode pkt) s"
  have i: "sink_inv ?s R A L" using assms by (intro sink_inv_log) simp_all
  obtain ch s2 where n: "new_channel ?s = (ch, s2)" by fastforce
  from sink_inv_register [OF sink_inv_one_more [OF i] _ n] False i n show ?thesis
    by (simp add: sh_wait_packet_response_def sh_encode_packet_def split: option.splits)
qed (use assms in \<open>simp add: sh_wait_packet_response_def\<close>)

lemma sink_inv_publish_inner:
  assumes "sink_inv s R A L"
  shows "sent_inv AckType_Publish (sh_publish_inner env mk given s) R A (L - 1) L"
proof -
  obtain idx s1 where p: "sh_packet_id given s = (Ok idx, s1)" "sink_inv s1 R A L"
    using assms by (rule sink_inv_packet_id)
  from sink_inv_wait_packet_response [OF p(2), where env = env and pkt_id = idx and tp = AckType_Publish and pkt = "mk idx"]
  show ?thesis by (auto simp: sh_publish_inner_def p(1) fut_of_def split: res.splits prod.splits)
qed

lemma sink_inv_request_inner:
  assumes "sink_inv s R A L"
  shows "sent_inv tp (sh_request_inner env tp mk given s) R A (L - 1) L"
proof -
  obtain idx s1 where p: "sh_packet_id given s = (Ok idx, s1)" "sink_inv s1 R A L"
    using assms by (rule sink_inv_packet_id)
  obtain ch s2 where n: "new_channel s1 = (ch, s2)" by fastforce
  have r: "sink_inv (log_event (Ev_encode (mk idx)) (sh_register idx (Some ch) tp s2)) R ((ch, tp) # A) (L - 1)"
    if "idx \<notin> sh_inflight_ids s1"
    using sink_inv_register [OF sink_inv_one_more [OF p(2)] that n] by (intro sink_inv_log) simp_all
  have "sink_inv s' R A L" if "sink_inv s' R ((ch, tp) # A) (L - 1)" for s'
    using sink_inv_mono(2) [OF sink_inv_mono(1) [OF that]] sink_inv_mono(1) [OF that] by (cases L) simp_all
  with r show ?thesis using p(2) n
    by (auto simp: sh_request_inner_def p(1) sh_wait_response_def sh_encode_packet_def split: option.splits)
qed

lemma sink_inv_no_block:
  assumes "sink_inv s R A L" and "fst (sh_wait_packet_response_no_block check env pkt_id tp pkt s) \<noteq> Panic"
  shows "sink_inv (snd (sh_wait_packet_response_no_block check env pkt_id tp pkt s)) R A L"
proof -
  have "sink_inv (log_event (Ev_encode pkt) s) R A L" using assms(1) by (intro sink_inv_log) simp_all
  then show ?thesis using assms sink_inv_register_no_block [of "log_event (Ev_encode pkt) s" R A L pkt_id tp]
    by (auto simp: sh_wait_packet_response_no_block_def sh_encode_packet_def Let_def split: option.splits if_splits)
qed

text \<open>Starting a send operation, and resuming one that was woken. A sender that was woken and does not
  send gives its unit of capacity up.\<close>

locale sender =
  fixes inner :: "('pkt, ('p, 's, 'u) Ack, 'c, 'z) MqttShared_scheme \<Rightarrow> 'r send_fut \<times> ('pkt, ('p, 's, 'u) Ack, 'c, 'z) MqttShared_scheme"
    and tp :: AckType
  assumes inner_inv: "sink_inv s R A L \<Longrightarrow> sent_inv tp (inner s) R A (L - 1) L"
    and inner_not_ready: "fst (inner s) \<noteq> Fut_ready rx"
begin

lemma inner_same:
  assumes "sink_inv s R A L"
  shows "sent_inv tp (inner s) R A L L"
proof -
  have "sink_inv s' R B L" if "sink_inv s' R B (L - 1)" for s' B
    using that sink_inv_mono(2) [OF that] by (cases L) simp_all
  then show ?thesis using inner_inv [OF assms] inner_not_ready [of s]
    by (cases "inner s"; cases "fst (inner s)") auto
qed

lemma start_inv:
  assumes "sink_inv s R A L"
  shows "sent_inv tp (sh_start env inner s) R A L L"
  using assms inner_same [OF assms] sink_inv_readiness [OF assms]
  by (auto simp: sh_start_def split: option.splits prod.splits)

lemma resume_woken_inv:
  assumes "sink_inv s R A L" and "c \<in> woken_set s"
  shows "sent_inv tp (sh_resume inner True s) (remove1 c R) A L (Suc L)"
  using inner_inv [OF sink_inv_drop_ready [OF assms(1), of c]] assms(2) by (simp add: sh_resume_def)

lemma resume_cancelled_inv:
  assumes "sink_inv s R A L" and "c \<notin> woken_set s"
  shows "sink_inv (snd (sh_resume inner False s)) (remove1 c R) A L"
  using sink_inv_drop_ready [OF assms(1), of c] assms(2) by (simp add: sh_resume_def)

end

lemma sh_publish_inner_not_ready: "fst (sh_publish_inner env mk given s) \<noteq> Fut_ready rx"
  by (auto simp: sh_publish_inner_def fut_of_def split: prod.splits res.splits)

lemma sh_request_inner_not_ready: "fst (sh_request_inner env tp mk given s) \<noteq> Fut_ready rx"
  by (auto simp: sh_request_inner_def split: prod.splits res.splits option.splits)

interpretation publish_sender: sender "sh_publish_inner env mk given" AckType_Publish for env mk given
  by unfold_locales (rule sink_inv_publish_inner, assumption, rule sh_publish_inner_not_ready)

interpretation request_sender: sender "sh_request_inner env tp mk given" tp for env tp mk given
  by unfold_locales (rule sink_inv_request_inner, assumption, rule sh_request_inner_not_ready)

section \<open>Runs of a connection\<close>

record 's sink_run =
  rn_shared :: 's
  rn_ready :: "chan list"
  rn_acks :: "(chan \<times> AckType) list"
  rn_lost :: nat

type_synonym ('pkt, 'p, 's, 'u, 'c, 'z) shared_run = "('pkt, ('p, 's, 'u) Ack, 'c, 'z) MqttShared_scheme sink_run"

definition run_inv :: "('pkt, 'p, 's, 'u, 'c, 'z) shared_run \<Rightarrow> bool" where
  "run_inv r \<longleftrightarrow> sink_inv (rn_shared r) (rn_ready r) (rn_acks r) (rn_lost r)"

text \<open>The receivers that exist are those of the suspended senders.\<close>

definition run_env :: "'pkt Env \<Rightarrow> ('pkt, 'p, 's, 'u, 'c, 'z) shared_run \<Rightarrow> bool" where
  "run_env env r \<longleftrightarrow> env_alive env = (\<lambda>c. c \<in> set (rn_ready r))"

text \<open>What becomes of a sender after it was started, and after it was resumed on channel \<open>c\<close>.\<close>

fun run_sent :: "AckType \<Rightarrow> 'r send_fut \<times> 's \<Rightarrow> 's sink_run \<Rightarrow> 's sink_run" where
  "run_sent tp (Fut_done _, s) r = r\<lparr>rn_shared := s\<rparr>"
| "run_sent tp (Fut_ready rx, s) r = r\<lparr>rn_shared := s, rn_ready := rx # rn_ready r\<rparr>"
| "run_sent tp (Fut_ack rx, s) r = r\<lparr>rn_shared := s, rn_acks := (rx, tp) # rn_acks r\<rparr>"

fun run_resumed :: "chan \<Rightarrow> AckType \<Rightarrow> 'r send_fut \<times> 's \<Rightarrow> 's sink_run \<Rightarrow> 's sink_run" where
  "run_resumed c tp (Fut_ack rx, s) r =
     r\<lparr>rn_shared := s, rn_ready := remove1 c (rn_ready r), rn_acks := (rx, tp) # rn_acks r\<rparr>"
| "run_resumed c tp (_, s) r = r\<lparr>rn_shared := s, rn_ready := remove1 c (rn_ready r), rn_lost := Suc (rn_lost r)\<rparr>"

text \<open>A suspended sender is dropped, or its channel was dropped and it ends with \<open>Disconnected\<close>.\<close>

definition run_drop :: "chan \<Rightarrow> ('pkt, 'p, 's, 'u, 'c, 'z) shared_run \<Rightarrow> ('pkt, 'p, 's, 'u, 'c, 'z) shared_run" where
  "run_drop c r = r\<lparr>rn_ready := remove1 c (rn_ready r),
     rn_lost := (if c \<in> woken_set (rn_shared r) then Suc (rn_lost r) else rn_lost r)\<rparr>"

definition run_drop_ack :: "chan \<times> AckType \<Rightarrow> ('pkt, 'p, 's, 'u, 'c, 'z) shared_run \<Rightarrow> ('pkt, 'p, 's, 'u, 'c, 'z) shared_run" where
  "run_drop_ack x r = r\<lparr>rn_acks := remove1 x (rn_acks r)\<rparr>"

lemma run_inv_drop: "run_inv r \<Longrightarrow> run_inv (run_drop c r)"
  using sink_inv_drop_ready [of "rn_shared r" "rn_ready r" "rn_acks r" "rn_lost r" c] by (simp add: run_inv_def run_drop_def)

lemma run_inv_drop_ack: "run_inv r \<Longrightarrow> run_inv (run_drop_ack x r)"
  unfolding run_inv_def run_drop_ack_def by (auto intro: sink_inv_drop_ack [OF _ set_remove1_subset])

context sender begin

lemma run_inv_start: "run_inv r \<Longrightarrow> run_inv (run_sent tp (sh_start env inner (rn_shared r)) r)"
  using start_inv [of "rn_shared r" "rn_ready r" "rn_acks r" "rn_lost r" env]
  by (cases "sh_start env inner (rn_shared r)"; cases "fst (sh_start env inner (rn_shared r))") (auto simp: run_inv_def)

lemma run_inv_resume:
  "run_inv r \<Longrightarrow> c \<in> woken_set (rn_shared r) \<Longrightarrow> run_inv (run_resumed c tp (sh_resume inner True (rn_shared r)) r)"
  using resume_woken_inv [of "rn_shared r" "rn_ready r" "rn_acks r" "rn_lost r" c] inner_not_ready [of "rn_shared r"]
  by (cases "inner (rn_shared r)"; cases "fst (inner (rn_shared r))") (auto simp: run_inv_def sh_resume_def)

end

text \<open>The operations that do not send.\<close>

lemma run_inv_shared:
  assumes "run_inv r" and "\<And>R A L. sink_inv (rn_shared r) R A L \<Longrightarrow> sink_inv s R A L"
  shows "run_inv (r\<lparr>rn_shared := s\<rparr>)"
  using assms by (simp add: run_inv_def)

lemma run_inv_ready:
  assumes "run_inv r" and "sh_wait_readiness (rn_shared r) = (Some rx, s)"
  shows "run_inv (r\<lparr>rn_shared := s, rn_ready := rx # rn_ready r\<rparr>)"
  using sink_inv_readiness [OF assms(1) [unfolded run_inv_def] assms(2)] by (simp add: run_inv_def)

lemma run_inv_set_cap: "run_inv r \<Longrightarrow> run_env env r \<Longrightarrow> run_inv (r\<lparr>rn_shared := sh_set_cap env cap (rn_shared r)\<rparr>)"
  by (simp add: run_inv_def run_env_def sink_inv_set_cap)

lemma run_inv_disable:
  "run_inv r \<Longrightarrow> run_env env r \<Longrightarrow> run_inv (r\<lparr>rn_shared := sh_disable_wr_backpressure env (rn_shared r)\<rparr>)"
  by (simp add: run_inv_def run_env_def sink_inv_disable)

lemma sink_inv_set_publish_ack: "sink_inv s R A L \<Longrightarrow> sink_inv (sh_set_publish_ack s) R A L"
proof -
  have "sh_wrb (sh_set_publish_ack s) = sh_wrb s"
    by (simp add: sh_wrb_def sh_set_publish_ack_def flags_contains_def sf_defs bit.conj_disj_distrib2)
  then show "sink_inv s R A L \<Longrightarrow> sink_inv (sh_set_publish_ack s) R A L"
    unfolding sink_inv_defs by (simp add: sh_set_publish_ack_def)
qed

section \<open>The contract of the acknowledgement queue\<close>

text \<open>Specification: a queue of the packets that wait for an acknowledgement. The next acknowledgement
  must name the oldest of them and be of its kind.\<close>

definition pending :: "('pkt, 'ack, 'c, 'z) MqttShared_scheme \<Rightarrow> (u16 \<times> AckType) list" where
  "pending s = map (\<lambda>(i, _, tp). (i, tp)) (sh_inflight s)"

fun ack_spec :: "u16 \<Rightarrow> ('p, 's, 'u) Ack \<Rightarrow> (u16 \<times> AckType) list \<Rightarrow> (u16 \<times> AckType) list option" where
  "ack_spec i ack ((j, tp) # q) = (if i = j \<and> ack_is_match ack tp then Some q else None)"
| "ack_spec i ack [] = None"

text \<open>What both versions of \<open>close\<close> do, and what \<open>pkt_ack\<close> then guarantees.\<close>

locale ack_queue =
  fixes pid :: "('p, 's, 'u) Ack \<Rightarrow> u16" and cb :: "('p, 's, 'u) Ack \<Rightarrow> 'c option"
    and close :: "'pkt Env \<Rightarrow> ('pkt, ('p, 's, 'u) Ack, 'c, 'z) MqttShared_scheme \<Rightarrow> ('pkt, ('p, 's, 'u) Ack, 'c, 'z) MqttShared_scheme"
  assumes close_empty: "sh_inflight (close env s) = []" "sh_waiters (close env s) = []"
    and close_inv: "core_inv s R A \<Longrightarrow> sink_inv (close env s) R A L"
    and cb_publish: "ack_is_match ack AckType_Publish \<Longrightarrow> cb ack \<noteq> None"
begin

lemma pkt_ack_refines:
  "case pkt_ack pid cb close env ack s of
     (Ok _, s') \<Rightarrow> ack_spec (pid ack) ack (pending s) = Some (pending s')
   | (Err _, s') \<Rightarrow> ack_spec (pid ack) ack (pending s) = None \<and> pending s' = [] \<and> sh_waiters s' = []
   | (Panic, _) \<Rightarrow> \<exists>tp rest. sh_inflight s = (pid ack, None, tp) # rest \<and> ack_is_match ack tp \<and>
       (sh_on_publish_ack s \<longrightarrow> tp \<noteq> AckType_Publish)"
proof (cases "sh_inflight s")
  case Nil
  then show ?thesis by (simp add: pkt_ack_def pkt_ack_inner_def pending_def close_empty)
next
  case (Cons e rest)
  obtain idx tx tp where e: "e = (idx, tx, tp)" by (cases e)
  show ?thesis
    using Cons e cb_publish [of ack]
    by (auto simp: pkt_ack_def pkt_ack_inner_def pending_def close_empty Let_def sh_wake_next_eq split: option.splits)
qed

lemma pkt_ack_delivers:
  assumes "pkt_ack pid cb close env ack s = (Ok (), s')" and "sh_inflight s = (i, Some rx, tp) # rest"
  shows "Ev_ack rx ack \<in> set (sh_events s') \<and> i = pid ack \<and> ack_is_match ack tp"
  using assms by (auto simp: pkt_ack_def pkt_ack_inner_def Let_def sh_wake_next_eq split: if_splits)

lemma pkt_ack_error:
  assumes "pkt_ack pid cb close env ack s = (Err e, s')"
  shows "s' = close env (snd (pkt_ack_inner pid cb env ack s)) \<and> sh_events (snd (pkt_ack_inner pid cb env ack s)) = sh_events s"
  using assms by (auto simp: pkt_ack_def pkt_ack_inner_def Let_def split: if_splits list.splits option.splits)

lemma run_inv_pkt_ack:
  assumes "run_inv r" and "run_env env r" and "pkt_ack pid cb close env ack (rn_shared r) = (res, s')" and "res \<noteq> Panic"
  shows "run_inv (r\<lparr>rn_shared := s'\<rparr>)"
proof -
  have "sink_inv (snd (pkt_ack pid cb close env ack (rn_shared r))) (rn_ready r) (rn_acks r) (rn_lost r)"
    using assms by (intro sink_inv_pkt_ack close_inv) (simp_all add: run_inv_def run_env_def)
  then show ?thesis using assms(3) by (simp add: run_inv_def)
qed

end

section \<open>Packet identifiers\<close>

fun ids_from :: "nat \<Rightarrow> ('pkt, 'ack, 'c, 'z) MqttShared_scheme \<Rightarrow> (SendPacketError, u16) res list" where
  "ids_from 0 s = []"
| "ids_from (Suc n) s = (let (r, s') = sh_next_id s in r # ids_from n s')"

lemma sh_next_id_of_nat:
  assumes "sh_inflight_idx s = of_nat k" and "k < 65535"
  shows "sh_next_id s = (Ok (of_nat (Suc k)), s\<lparr>sh_inflight_idx := of_nat (Suc k mod 65535)\<rparr>)"
proof -
  have k: "(of_nat k :: u16) = 0xFFFF \<longleftrightarrow> k = 65535" "(of_nat (Suc k) :: u16) = 0xFFFF \<longleftrightarrow> Suc k = 65535"
    using assms(2) of_nat_inverse [of k "of_nat k :: u16"] of_nat_inverse [of "Suc k" "of_nat (Suc k) :: u16"]
    by (auto dest: arg_cong [where f = unat])
  show ?thesis
  proof (cases "Suc k = 65535")
    case True
    then have "k = 65534" by simp
    then show ?thesis using assms(1) by (simp add: sh_next_id_def Let_def)
  next
    case False
    then show ?thesis using assms k by (simp add: sh_next_id_def Let_def add.commute)
  qed
qed

lemma ids_from_eq:
  "sh_inflight_idx s = of_nat k \<Longrightarrow> k < 65535 \<Longrightarrow>
   ids_from n s = map (\<lambda>i. Ok (of_nat (Suc ((k + i) mod 65535)))) [0..<n]"
proof (induction n arbitrary: s k)
  case (Suc n)
  let ?s = "s\<lparr>sh_inflight_idx := of_nat (Suc k mod 65535)\<rparr>"
  have k': "Suc k mod 65535 < 65535" by simp
  have "ids_from n ?s = map (\<lambda>i. Ok (of_nat (Suc ((Suc k mod 65535 + i) mod 65535)))) [0..<n]"
    using Suc.IH [of ?s "Suc k mod 65535"] k' by simp
  also have "\<dots> = map (\<lambda>i. Ok (of_nat (Suc ((k + i) mod 65535)))) [Suc 0..<Suc n]"
    by (simp only: map_Suc_upt [symmetric] map_map) (simp add: mod_simps)
  finally show ?case using sh_next_id_of_nat [OF Suc.prems] Suc.prems(2) by (simp add: upt_conv_Cons del: upt_Suc)
qed simp

end
