(* ===== verification/V3_Sink.thy ===== *)
theory V3_Sink
  imports V3_Codec Shared
begin

text \<open>
  \<open>src/v3/shared.rs\<close> and \<open>src/v3/sink.rs\<close>: the acknowledgements of MQTT 3.1.1, closing, the sink with
  its packet builders, and the runs of a connection whose senders are suspended and resumed.
\<close>

section \<open>Shared state\<close>

type_synonym v3_Ack = "(u16, u16 \<times> SubscribeReturnCode list, u16) Ack"
type_synonym v3_Shared = "(v3_Packet, v3_Ack, u16) MqttShared"
type_synonym v3_Env = "v3_Packet Env"

definition v3_Shared_new :: "bool \<Rightarrow> v3_Shared" where
  "v3_Shared_new client =
     \<lparr>sh_cap = 0, sh_inflight = [], sh_inflight_ids = {}, sh_waiters = [], sh_inflight_idx = 0,
      sh_flags = (if client then SF_CLIENT else 0), sh_on_publish_ack = False, sh_channels = 0, sh_events = []\<rparr>"

fun v3_ack_packet_id :: "v3_Ack \<Rightarrow> u16" where
  "v3_ack_packet_id (Ack_Publish pkt_id) = pkt_id"
| "v3_ack_packet_id (Ack_Subscribe (pkt_id, _)) = pkt_id"
| "v3_ack_packet_id (Ack_Unsubscribe pkt_id) = pkt_id"

fun v3_ack_subscribe :: "v3_Ack \<Rightarrow> (SendPacketError, SubscribeReturnCode list) res" where
  "v3_ack_subscribe (Ack_Subscribe (_, status)) = Ok status"
| "v3_ack_subscribe _ = Panic"

text \<open>The callback gets the identifier, on an acknowledgement as on a lost connection.\<close>

definition v3_clear_queues :: "v3_Shared \<Rightarrow> v3_Shared" where
  "v3_clear_queues = sh_clear_queues (\<lambda>idx. idx)"

definition v3_close :: "v3_Env \<Rightarrow> v3_Shared \<Rightarrow> v3_Shared" where
  "v3_close env s =
     (let s1 = (if flags_contains (sh_flags s) SF_CLIENT then snd (sh_encode_packet env V3_Disconnect s) else s) in
      v3_clear_queues (log_event Ev_close s1))"

definition v3_force_close :: "v3_Shared \<Rightarrow> v3_Shared" where
  "v3_force_close = sh_force_close (\<lambda>idx. idx)"

definition v3_pkt_ack :: "v3_Env \<Rightarrow> v3_Ack \<Rightarrow> v3_Shared \<Rightarrow> (ProtocolError, unit) res \<times> v3_Shared" where
  "v3_pkt_ack = pkt_ack v3_ack_packet_id (\<lambda>ack. Some (v3_ack_packet_id ack)) v3_close"

section \<open>The sink\<close>

definition v3_is_open :: "v3_Env \<Rightarrow> bool" where
  "v3_is_open env \<longleftrightarrow> \<not> env_closed env"

definition v3_is_ready :: "v3_Env \<Rightarrow> v3_Shared \<Rightarrow> bool" where
  "v3_is_ready env s = (if env_closed env then False else sh_is_ready s)"

text \<open>\<open>ready\<close>: the answer, or the channel the future waits on.\<close>

definition v3_ready :: "v3_Env \<Rightarrow> v3_Shared \<Rightarrow> (bool + chan) \<times> v3_Shared" where
  "v3_ready env s =
     (if \<not> env_closed env then
        (case sh_wait_readiness s of (Some rx, s') \<Rightarrow> (Inr rx, s') | (None, s') \<Rightarrow> (Inl True, s'))
      else (Inl False, s))"

definition v3_ping :: "v3_Env \<Rightarrow> v3_Shared \<Rightarrow> bool \<times> v3_Shared" where
  "v3_ping env s = (let (r, s') = sh_encode_packet env V3_PingRequest s in (r = None, s'))"

definition v3_publish :: "bytes \<Rightarrow> bytes \<Rightarrow> v3_Publish" where
  "v3_publish topic payload =
     \<lparr>pub3_dup = False, pub3_retain = False, pub3_qos = AtMostOnce, pub3_topic = topic, pub3_packet_id = None,
      pub3_payload = payload\<rparr>"

definition v3_PublishBuilder_packet_id :: "u16 \<Rightarrow> v3_Publish \<Rightarrow> (SendPacketError, v3_Publish) res" where
  "v3_PublishBuilder_packet_id pkt_id packet =
     bindR (builder_id pkt_id) (\<lambda>pkt_id. Ok (packet\<lparr>pub3_packet_id := Some pkt_id\<rparr>))"

definition v3_PublishBuilder_dup :: "bool \<Rightarrow> v3_Publish \<Rightarrow> v3_Publish" where
  "v3_PublishBuilder_dup val packet = packet\<lparr>pub3_dup := val\<rparr>"

definition v3_PublishBuilder_retain :: "v3_Publish \<Rightarrow> v3_Publish" where
  "v3_PublishBuilder_retain packet = packet\<lparr>pub3_retain := True\<rparr>"

definition v3_PublishBuilder_size :: "v3_Publish \<Rightarrow> nat" where
  "v3_PublishBuilder_size packet = v3_get_encoded_publish_size packet mod 2 ^ 32"

definition v3_send_at_most_once :: "v3_Env \<Rightarrow> v3_Publish \<Rightarrow> v3_Shared \<Rightarrow> (SendPacketError, unit) res \<times> v3_Shared" where
  "v3_send_at_most_once env packet s =
     (if \<not> env_closed env then
        (case sh_encode_packet env (V3_Publish (packet\<lparr>pub3_qos := AtMostOnce\<rparr>)) s of
           (None, s') \<Rightarrow> (Ok (), s')
         | (Some e, s') \<Rightarrow> (Err (SPE_Encode e), s'))
      else (Err Disconnected, s))"

definition v3_send_at_least_once_inner :: "v3_Env \<Rightarrow> v3_Publish \<Rightarrow> v3_Shared \<Rightarrow> unit send_fut \<times> v3_Shared" where
  "v3_send_at_least_once_inner env packet =
     sh_publish_inner env (\<lambda>idx. V3_Publish (packet\<lparr>pub3_packet_id := Some idx\<rparr>)) (pub3_packet_id packet)"

definition v3_send_at_least_once :: "v3_Env \<Rightarrow> v3_Publish \<Rightarrow> v3_Shared \<Rightarrow> unit send_fut \<times> v3_Shared" where
  "v3_send_at_least_once env packet =
     sh_start env (v3_send_at_least_once_inner env (packet\<lparr>pub3_qos := AtLeastOnce\<rparr>))"

text \<open>After \<open>rx.await\<close>: the packet has its quality of service already.\<close>

definition v3_send_at_least_once_resume :: "v3_Env \<Rightarrow> v3_Publish \<Rightarrow> bool \<Rightarrow> v3_Shared \<Rightarrow> unit send_fut \<times> v3_Shared" where
  "v3_send_at_least_once_resume env packet =
     sh_resume (v3_send_at_least_once_inner env (packet\<lparr>pub3_qos := AtLeastOnce\<rparr>))"

text \<open>After the response: \<open>None\<close> when the channel was dropped.\<close>

fun v3_publish_response :: "v3_Ack option \<Rightarrow> (SendPacketError, unit) res" where
  "v3_publish_response (Some _) = Ok ()"
| "v3_publish_response None = Err Disconnected"

definition v3_send_at_least_once_no_block :: "v3_Env \<Rightarrow> v3_Publish \<Rightarrow> v3_Shared \<Rightarrow> (SendPacketError, unit) res \<times> v3_Shared" where
  "v3_send_at_least_once_no_block env packet s =
     (if \<not> env_closed env then
        if \<not> sh_is_ready s then (Panic, s)
        else
          (case sh_packet_id (pub3_packet_id packet) s of
             (Ok idx, s1) \<Rightarrow> sh_wait_packet_response_no_block True env idx AckType_Publish
               (V3_Publish (packet\<lparr>pub3_qos := AtLeastOnce, pub3_packet_id := Some idx\<rparr>)) s1
           | (Err e, s1) \<Rightarrow> (Err e, s1)
           | (Panic, s1) \<Rightarrow> (Panic, s1))
      else (Err Disconnected, s))"

text \<open>\<open>SubscribeBuilder\<close> and \<open>UnsubscribeBuilder\<close>.\<close>

record v3_SubscribeBuilder =
  sb3_id :: "u16 option"
  sb3_topic_filters :: "(bytes \<times> QoS) list"

record v3_UnsubscribeBuilder =
  ub3_id :: "u16 option"
  ub3_topic_filters :: "bytes list"

definition v3_subscribe :: v3_SubscribeBuilder where
  "v3_subscribe = \<lparr>sb3_id = None, sb3_topic_filters = []\<rparr>"

definition v3_unsubscribe :: v3_UnsubscribeBuilder where
  "v3_unsubscribe = \<lparr>ub3_id = None, ub3_topic_filters = []\<rparr>"

definition v3_SubscribeBuilder_packet_id :: "u16 \<Rightarrow> v3_SubscribeBuilder \<Rightarrow> (SendPacketError, v3_SubscribeBuilder) res" where
  "v3_SubscribeBuilder_packet_id pkt_id b = bindR (builder_id pkt_id) (\<lambda>pkt_id. Ok (b\<lparr>sb3_id := Some pkt_id\<rparr>))"

definition v3_SubscribeBuilder_topic_filter :: "bytes \<Rightarrow> QoS \<Rightarrow> v3_SubscribeBuilder \<Rightarrow> v3_SubscribeBuilder" where
  "v3_SubscribeBuilder_topic_filter tf qos b = b\<lparr>sb3_topic_filters := sb3_topic_filters b @ [(tf, qos)]\<rparr>"

definition v3_SubscribeBuilder_size :: "v3_SubscribeBuilder \<Rightarrow> nat" where
  "v3_SubscribeBuilder_size b = v3_get_encoded_subscribe_size (sb3_topic_filters b) mod 2 ^ 32"

definition v3_subscribe_inner :: "v3_Env \<Rightarrow> v3_SubscribeBuilder \<Rightarrow> v3_Shared
    \<Rightarrow> SubscribeReturnCode list send_fut \<times> v3_Shared" where
  "v3_subscribe_inner env b =
     sh_request_inner env AckType_Subscribe (\<lambda>idx. V3_Subscribe idx (sb3_topic_filters b)) (sb3_id b)"

definition v3_subscribe_send :: "v3_Env \<Rightarrow> v3_SubscribeBuilder \<Rightarrow> v3_Shared
    \<Rightarrow> SubscribeReturnCode list send_fut \<times> v3_Shared" where
  "v3_subscribe_send env b = sh_start env (v3_subscribe_inner env b)"

definition v3_subscribe_resume :: "v3_Env \<Rightarrow> v3_SubscribeBuilder \<Rightarrow> bool \<Rightarrow> v3_Shared
    \<Rightarrow> SubscribeReturnCode list send_fut \<times> v3_Shared" where
  "v3_subscribe_resume env b = sh_resume (v3_subscribe_inner env b)"

fun v3_subscribe_response :: "v3_Ack option \<Rightarrow> (SendPacketError, SubscribeReturnCode list) res" where
  "v3_subscribe_response (Some pkt) = v3_ack_subscribe pkt"
| "v3_subscribe_response None = Err Disconnected"

definition v3_UnsubscribeBuilder_packet_id :: "u16 \<Rightarrow> v3_UnsubscribeBuilder \<Rightarrow> (SendPacketError, v3_UnsubscribeBuilder) res" where
  "v3_UnsubscribeBuilder_packet_id pkt_id b = bindR (builder_id pkt_id) (\<lambda>pkt_id. Ok (b\<lparr>ub3_id := Some pkt_id\<rparr>))"

definition v3_UnsubscribeBuilder_topic_filter :: "bytes \<Rightarrow> v3_UnsubscribeBuilder \<Rightarrow> v3_UnsubscribeBuilder" where
  "v3_UnsubscribeBuilder_topic_filter tf b = b\<lparr>ub3_topic_filters := ub3_topic_filters b @ [tf]\<rparr>"

definition v3_UnsubscribeBuilder_size :: "v3_UnsubscribeBuilder \<Rightarrow> nat" where
  "v3_UnsubscribeBuilder_size b = v3_get_encoded_unsubscribe_size (ub3_topic_filters b) mod 2 ^ 32"

definition v3_unsubscribe_inner :: "v3_Env \<Rightarrow> v3_UnsubscribeBuilder \<Rightarrow> v3_Shared \<Rightarrow> unit send_fut \<times> v3_Shared" where
  "v3_unsubscribe_inner env b =
     sh_request_inner env AckType_Unsubscribe (\<lambda>idx. V3_Unsubscribe idx (ub3_topic_filters b)) (ub3_id b)"

definition v3_unsubscribe_send :: "v3_Env \<Rightarrow> v3_UnsubscribeBuilder \<Rightarrow> v3_Shared \<Rightarrow> unit send_fut \<times> v3_Shared" where
  "v3_unsubscribe_send env b = sh_start env (v3_unsubscribe_inner env b)"

definition v3_unsubscribe_resume :: "v3_Env \<Rightarrow> v3_UnsubscribeBuilder \<Rightarrow> bool \<Rightarrow> v3_Shared \<Rightarrow> unit send_fut \<times> v3_Shared" where
  "v3_unsubscribe_resume env b = sh_resume (v3_unsubscribe_inner env b)"

fun v3_unsubscribe_response :: "v3_Ack option \<Rightarrow> (SendPacketError, unit) res" where
  "v3_unsubscribe_response (Some _) = Ok ()"
| "v3_unsubscribe_response None = Err Disconnected"

section \<open>Contracts\<close>

lemma v3_close_eq:
  "v3_close env s = v3_clear_queues (log_event Ev_close
     (if flags_contains (sh_flags s) SF_CLIENT then log_event (Ev_encode V3_Disconnect) s else s))"
  by (simp add: v3_close_def sh_encode_packet_def)

interpretation ack3: ack_queue v3_ack_packet_id "\<lambda>ack. Some (v3_ack_packet_id ack)" v3_close
proof
  show "sh_inflight (v3_close env s) = []" "sh_waiters (v3_close env s) = []" for env s
    by (simp_all add: v3_close_eq v3_clear_queues_def sh_clear_queues_def Let_def)
  show "core_inv s R A \<Longrightarrow> sink_inv (v3_close env s) R A L" for s R A env L
    unfolding v3_close_eq v3_clear_queues_def by (rule sink_inv_cleared) (simp add: core_inv_log)
qed simp

interpretation publish3: sender "v3_send_at_least_once_inner env packet" AckType_Publish for env packet
  unfolding v3_send_at_least_once_inner_def by (rule publish_sender.sender_axioms)

interpretation subscribe3: sender "v3_subscribe_inner env b" AckType_Subscribe for env b
  unfolding v3_subscribe_inner_def by (rule request_sender.sender_axioms)

interpretation unsubscribe3: sender "v3_unsubscribe_inner env b" AckType_Unsubscribe for env b
  unfolding v3_unsubscribe_inner_def by (rule request_sender.sender_axioms)

section \<open>Runs of a connection\<close>

text \<open>
  One step is one call into the sink or the shared state, or the continuation of a suspended sender.
  The answers of the stream and the encoder are arbitrary in every step; the receivers alive are
  those of the suspended senders. After a panic there is no next step.
\<close>

type_synonym v3_run = "v3_Shared sink_run"

inductive v3_step :: "v3_run \<Rightarrow> v3_run \<Rightarrow> bool" where
  publish: "v3_step r (run_sent AckType_Publish (v3_send_at_least_once env pkt (rn_shared r)) r)"
| subscribe: "v3_step r (run_sent AckType_Subscribe (v3_subscribe_send env sb (rn_shared r)) r)"
| unsubscribe: "v3_step r (run_sent AckType_Unsubscribe (v3_unsubscribe_send env ub (rn_shared r)) r)"
| resume_publish: "c \<in> set (rn_ready r) \<Longrightarrow> c \<in> woken_set (rn_shared r) \<Longrightarrow>
    v3_step r (run_resumed c AckType_Publish (v3_send_at_least_once_resume env pkt True (rn_shared r)) r)"
| resume_subscribe: "c \<in> set (rn_ready r) \<Longrightarrow> c \<in> woken_set (rn_shared r) \<Longrightarrow>
    v3_step r (run_resumed c AckType_Subscribe (v3_subscribe_resume env sb True (rn_shared r)) r)"
| resume_unsubscribe: "c \<in> set (rn_ready r) \<Longrightarrow> c \<in> woken_set (rn_shared r) \<Longrightarrow>
    v3_step r (run_resumed c AckType_Unsubscribe (v3_unsubscribe_resume env ub True (rn_shared r)) r)"
| ready: "v3_ready env (rn_shared r) = (Inr rx, s) \<Longrightarrow> v3_step r (r\<lparr>rn_shared := s, rn_ready := rx # rn_ready r\<rparr>)"
| drop: "c \<in> set (rn_ready r) \<Longrightarrow> v3_step r (run_drop c r)"
| drop_ack: "v3_step r (run_drop_ack x r)"
| no_block: "v3_send_at_least_once_no_block env pkt (rn_shared r) = (res, s) \<Longrightarrow> res \<noteq> Panic \<Longrightarrow> v3_step r (r\<lparr>rn_shared := s\<rparr>)"
| at_most_once: "v3_send_at_most_once env pkt (rn_shared r) = (res, s) \<Longrightarrow> v3_step r (r\<lparr>rn_shared := s\<rparr>)"
| ping: "v3_ping env (rn_shared r) = (res, s) \<Longrightarrow> v3_step r (r\<lparr>rn_shared := s\<rparr>)"
| ack: "run_env env r \<Longrightarrow> v3_pkt_ack env a (rn_shared r) = (res, s) \<Longrightarrow> res \<noteq> Panic \<Longrightarrow> v3_step r (r\<lparr>rn_shared := s\<rparr>)"
| set_cap: "run_env env r \<Longrightarrow> v3_step r (r\<lparr>rn_shared := sh_set_cap env cap (rn_shared r)\<rparr>)"
| enable: "v3_step r (r\<lparr>rn_shared := sh_enable_wr_backpressure (rn_shared r)\<rparr>)"
| disable: "run_env env r \<Longrightarrow> v3_step r (r\<lparr>rn_shared := sh_disable_wr_backpressure env (rn_shared r)\<rparr>)"
| set_publish_ack: "v3_step r (r\<lparr>rn_shared := sh_set_publish_ack (rn_shared r)\<rparr>)"
| close: "v3_step r (r\<lparr>rn_shared := v3_close env (rn_shared r)\<rparr>)"
| force_close: "v3_step r (r\<lparr>rn_shared := v3_force_close (rn_shared r)\<rparr>)"

definition v3_run_init :: "bool \<Rightarrow> v3_run" where
  "v3_run_init client = \<lparr>rn_shared = v3_Shared_new client, rn_ready = [], rn_acks = [], rn_lost = 0\<rparr>"

inductive v3_reach :: "bool \<Rightarrow> v3_run \<Rightarrow> bool" for client where
  init: "v3_reach client (v3_run_init client)"
| step: "v3_reach client r \<Longrightarrow> v3_step r r' \<Longrightarrow> v3_reach client r'"

lemma sink_inv_at_most_once: "sink_inv s R A L \<Longrightarrow> sink_inv (snd (v3_send_at_most_once env pkt s)) R A L"
  by (auto simp: v3_send_at_most_once_def sh_encode_packet_def intro: sink_inv_log split: option.splits)

lemma sink_inv_no_block3:
  assumes "sink_inv s R A L" and "fst (v3_send_at_least_once_no_block env pkt s) \<noteq> Panic"
  shows "sink_inv (snd (v3_send_at_least_once_no_block env pkt s)) R A L"
proof -
  obtain idx s1 where p: "sh_packet_id (pub3_packet_id pkt) s = (Ok idx, s1)" "sink_inv s1 R A L"
    using assms(1) by (rule sink_inv_packet_id)
  then show ?thesis using assms sink_inv_no_block [OF p(2)] by (auto simp: v3_send_at_least_once_no_block_def split: if_splits)
qed

lemma v3_step_inv: "v3_step r r' \<Longrightarrow> run_inv r \<Longrightarrow> run_inv r'"
proof (induction rule: v3_step.induct)
  case (ready env r rx s)
  then show ?case by (intro run_inv_ready) (auto simp: v3_ready_def split: if_splits option.splits prod.splits)
next
  case (no_block env pkt r res s)
  then show ?case using sink_inv_no_block3 [of "rn_shared r" _ _ _ env pkt] by (intro run_inv_shared) auto
next
  case (at_most_once env pkt r res s)
  then show ?case using sink_inv_at_most_once [of "rn_shared r" _ _ _ env pkt] by (intro run_inv_shared) auto
next
  case (ping env r res s)
  then show ?case by (intro run_inv_shared) (auto simp: v3_ping_def sh_encode_packet_def Let_def intro: sink_inv_log)
next
  case (close r env)
  then show ?case by (intro run_inv_shared) (auto intro: ack3.close_inv sink_inv_core)
next
  case (force_close r)
  then show ?case by (intro run_inv_shared) (auto simp: v3_force_close_def intro: sink_inv_force_close sink_inv_core)
qed (auto simp: v3_send_at_least_once_def v3_subscribe_send_def v3_unsubscribe_send_def v3_send_at_least_once_resume_def
      v3_subscribe_resume_def v3_unsubscribe_resume_def v3_pkt_ack_def
    intro: publish3.run_inv_start subscribe3.run_inv_start unsubscribe3.run_inv_start publish3.run_inv_resume
      subscribe3.run_inv_resume unsubscribe3.run_inv_resume run_inv_drop run_inv_drop_ack ack3.run_inv_pkt_ack run_inv_set_cap
      run_inv_disable run_inv_shared sink_inv_enable sink_inv_set_publish_ack)

lemma v3_reach_inv: "v3_reach client r \<Longrightarrow> run_inv r"
proof (induction rule: v3_reach.induct)
  case init
  show ?case by (simp add: run_inv_def sink_inv_defs v3_run_init_def v3_Shared_new_def)
qed (rule v3_step_inv)

section \<open>Properties\<close>

text \<open>C11: In every run of a 3.1.1 connection, whatever the callers, the peer and the encoder do, the
  identifiers in flight are pairwise different and all recorded as in use, and the next identifier
  can be allocated without a panic and is not zero.\<close>

theorem v3_sink_ids:
  assumes "v3_reach client r"
  shows "distinct (map fst (sh_inflight (rn_shared r))) \<and>
    fst ` set (sh_inflight (rn_shared r)) \<subseteq> sh_inflight_ids (rn_shared r) \<and>
    (\<exists>pkt_id s. sh_next_id (rn_shared r) = (Ok pkt_id, s) \<and> pkt_id \<noteq> 0)"
proof -
  have i: "sink_inv (rn_shared r) (rn_ready r) (rn_acks r) (rn_lost r)"
    using v3_reach_inv [OF assms] by (simp add: run_inv_def)
  obtain pkt_id s where "sh_next_id (rn_shared r) = (Ok pkt_id, s)" "pkt_id \<noteq> 0" using i by (rule sink_inv_next_id)
  then show ?thesis using i by (auto simp: sink_inv_def ids_ok_def)
qed

text \<open>C12: No 3.1.1 sender waits for nothing: while a sender is queued for readiness and the stream takes
  writes, every unit of the capacity is in flight, is on its way to a sender that was woken, or was
  given up by one that was woken and did not send. In particular, when the capacity is not zero and no woken
  sender gave up, a queued sender has a packet in flight or a woken sender before it. With capacity zero, which
  \<open>max_send(0)\<close> sets, nothing is promised: every sender is queued.\<close>

theorem v3_sink_no_stranded_sender:
  assumes "v3_reach client r" and "sh_waiters (rn_shared r) \<noteq> []" and "\<not> sh_wrb (rn_shared r)"
  shows "sh_cap (rn_shared r) \<le> length (sh_inflight (rn_shared r))
    + length (filter (\<lambda>c. Ev_wake c \<in> set (sh_events (rn_shared r))) (rn_ready r)) + rn_lost r \<and>
    (sh_cap (rn_shared r) \<noteq> 0 \<and> rn_lost r = 0 \<longrightarrow>
      sh_inflight (rn_shared r) \<noteq> [] \<or> (\<exists>c \<in> set (rn_ready r). Ev_wake c \<in> set (sh_events (rn_shared r))))"
proof -
  have cap: "sh_cap (rn_shared r) \<le> length (sh_inflight (rn_shared r))
    + length (filter (\<lambda>c. Ev_wake c \<in> set (sh_events (rn_shared r))) (rn_ready r)) + rn_lost r"
    using v3_reach_inv [OF assms(1)] assms(2,3) by (simp add: run_inv_def sink_inv_def permits_ok_def)
  have "\<exists>c \<in> set (rn_ready r). Ev_wake c \<in> set (sh_events (rn_shared r))"
    if "sh_cap (rn_shared r) \<noteq> 0" "rn_lost r = 0" "sh_inflight (rn_shared r) = []"
    using cap that by (metis (no_types, lifting) add.right_neutral filter_False le_zero_eq list.size(3))
  with cap show ?thesis by blast
qed

text \<open>A stream that encodes everything.\<close>

definition v3_env :: "v3_run \<Rightarrow> v3_Env" where
  "v3_env r = \<lparr>env_closed = False, env_alive = (\<lambda>c. c \<in> set (rn_ready r)), env_encode = (\<lambda>_. None)\<rparr>"

definition v3_call_publish :: "v3_run \<Rightarrow> v3_run" where
  "v3_call_publish r = run_sent AckType_Publish (v3_send_at_least_once (v3_env r) (v3_publish [0x61] []) (rn_shared r)) r"

definition v3_call_subscribe :: "v3_run \<Rightarrow> v3_run" where
  "v3_call_subscribe r = run_sent AckType_Subscribe (v3_subscribe_send (v3_env r) v3_subscribe (rn_shared r)) r"

definition v3_call_ack :: "v3_Ack \<Rightarrow> v3_run \<Rightarrow> v3_run" where
  "v3_call_ack a r = r\<lparr>rn_shared := snd (v3_pkt_ack (v3_env r) a (rn_shared r))\<rparr>"

definition v3_call_resume :: "v3_Env \<Rightarrow> chan \<Rightarrow> v3_run \<Rightarrow> v3_run" where
  "v3_call_resume env c r =
     run_resumed c AckType_Publish (v3_send_at_least_once_resume env (v3_publish [0x61] []) True (rn_shared r)) r"

text \<open>Capacity one: the first packet is in flight, the second sender is queued.\<close>

definition v3_start_run :: "nat \<Rightarrow> v3_run" where
  "v3_start_run cap = (let r = v3_run_init False in r\<lparr>rn_shared := sh_set_cap (v3_env r) cap (rn_shared r)\<rparr>)"

definition v3_queued_run :: v3_run where
  "v3_queued_run = v3_call_publish (v3_call_publish (v3_start_run 1))"

lemmas v3_run_eval = v3_queued_run_def v3_start_run_def v3_call_publish_def v3_call_ack_def v3_call_resume_def v3_run_init_def v3_Shared_new_def
  v3_env_def v3_publish_def v3_send_at_least_once_def v3_send_at_least_once_inner_def v3_send_at_least_once_resume_def
  sh_start_def sh_resume_def sh_wait_readiness_def sh_publish_inner_def sh_packet_id_def sh_next_id_def fut_of_def
  sh_wait_packet_response_def sh_encode_packet_def new_channel_def sh_register_def log_event_def sh_wrb_def
  flags_contains_def sf_defs sh_set_cap_def sh_woken_def v3_pkt_ack_def pkt_ack_def pkt_ack_inner_def sh_wake_next_def

lemma v3_reach_publish: "v3_reach client r \<Longrightarrow> v3_reach client (v3_call_publish r)"
  unfolding v3_call_publish_def by (rule v3_reach.step [OF _ v3_step.publish])

lemma v3_reach_ack:
  "v3_reach client r \<Longrightarrow> fst (v3_pkt_ack (v3_env r) a (rn_shared r)) \<noteq> Panic \<Longrightarrow> v3_reach client (v3_call_ack a r)"
  unfolding v3_call_ack_def
  by (erule v3_reach.step, rule v3_step.ack [where env = "v3_env r"]) (auto simp: run_env_def v3_env_def intro: prod_eqI)

lemma v3_reach_resume:
  "v3_reach client r \<Longrightarrow> c \<in> set (rn_ready r) \<Longrightarrow> c \<in> woken_set (rn_shared r) \<Longrightarrow> v3_reach client (v3_call_resume env c r)"
  unfolding v3_call_resume_def by (erule v3_reach.step) (rule v3_step.resume_publish)

lemma v3_start_run_reach: "v3_reach False (v3_start_run cap)"
  unfolding v3_start_run_def Let_def
  by (rule v3_reach.step [OF v3_reach.init v3_step.set_cap]) (simp add: run_env_def v3_env_def v3_run_init_def)

lemma v3_queued_run_reach: "v3_reach False v3_queued_run"
  unfolding v3_queued_run_def by (intro v3_reach_publish v3_start_run_reach)

lemma v3_queued_run_eq:
  "v3_queued_run = \<lparr>rn_shared = \<lparr>sh_cap = 1, sh_inflight = [(1, Some 0, AckType_Publish)], sh_inflight_ids = {1},
      sh_waiters = [1], sh_inflight_idx = 1, sh_flags = 0, sh_on_publish_ack = False, sh_channels = 2,
      sh_events = sh_events (rn_shared v3_queued_run)\<rparr>, rn_ready = [1], rn_acks = [(0, AckType_Publish)], rn_lost = 0\<rparr>"
  by (simp add: v3_run_eval Let_def)

theorem v3_sink_ids_witness:
  "map fst (sh_inflight (rn_shared v3_queued_run)) = [1] \<and> sh_inflight_ids (rn_shared v3_queued_run) = {1} \<and>
   (\<exists>pkt_id s. sh_next_id (rn_shared v3_queued_run) = (Ok pkt_id, s) \<and> pkt_id \<noteq> 0)"
proof -
  have "map fst (sh_inflight (rn_shared v3_queued_run)) = [1]" "sh_inflight_ids (rn_shared v3_queued_run) = {1}"
    by (subst v3_queued_run_eq; simp)+
  with v3_sink_ids [OF v3_queued_run_reach] show ?thesis by simp
qed

theorem v3_sink_no_stranded_sender_witness:
  "sh_waiters (rn_shared v3_queued_run) = [1] \<and> sh_cap (rn_shared v3_queued_run) = 1 \<and> sh_inflight (rn_shared v3_queued_run) \<noteq> []"
proof -
  have w: "sh_waiters (rn_shared v3_queued_run) = [1]" "\<not> sh_wrb (rn_shared v3_queued_run)"
      "sh_cap (rn_shared v3_queued_run) = 1" "rn_lost v3_queued_run = 0"
    by (subst v3_queued_run_eq; simp add: sh_wrb_def flags_contains_def sf_defs)+
  then have "sh_waiters (rn_shared v3_queued_run) \<noteq> []" by simp
  moreover have "\<not> (\<exists>c \<in> set (rn_ready v3_queued_run). Ev_wake c \<in> set (sh_events (rn_shared v3_queued_run)))"
    by (simp add: v3_run_eval Let_def)
  ultimately show ?thesis using w v3_sink_no_stranded_sender [OF v3_queued_run_reach _ w(2)] by simp
qed

text \<open>C36: A response channel delivers a response of the kind its sender waits for, in every run of a
  3.1.1 connection: a subscriber that receives an acknowledgement gets its return codes and never
  runs into the panic of \<open>Ack::subscribe\<close>.\<close>

theorem v3_sink_response_kind:
  assumes "v3_reach client r" and "(rx, AckType_Subscribe) \<in> set (rn_acks r)"
    and "Ev_ack rx ack \<in> set (sh_events (rn_shared r))"
  shows "\<exists>pkt_id status. ack = Ack_Subscribe (pkt_id, status) \<and> v3_subscribe_response (Some ack) = Ok status"
proof -
  have "ack_is_match ack AckType_Subscribe"
    using v3_reach_inv [OF assms(1)] assms(2,3) by (auto simp: run_inv_def sink_inv_def acks_ok_def)
  then show ?thesis by (cases ack) auto
qed

definition v3_subscribed_run :: v3_run where
  "v3_subscribed_run = v3_call_ack (Ack_Subscribe (1, [SRC_Failure])) (v3_call_subscribe (v3_start_run 1))"

lemmas v3_subscribe_eval = v3_run_eval v3_subscribed_run_def v3_call_subscribe_def v3_subscribe_send_def v3_subscribe_inner_def
  v3_subscribe_def sh_request_inner_def sh_wait_response_def

lemma v3_subscribed_run_reach: "v3_reach False v3_subscribed_run"
proof -
  have "v3_reach False (v3_call_subscribe (v3_start_run 1))"
    unfolding v3_call_subscribe_def by (rule v3_reach.step [OF v3_start_run_reach v3_step.subscribe])
  then show ?thesis unfolding v3_subscribed_run_def by (rule v3_reach_ack) (simp add: v3_subscribe_eval Let_def)
qed

theorem v3_sink_response_kind_witness:
  "v3_subscribe_response (Some (Ack_Subscribe (1, [SRC_Failure]))) = Ok [SRC_Failure]"
proof -
  have "(0, AckType_Subscribe) \<in> set (rn_acks v3_subscribed_run)"
    "Ev_ack 0 (Ack_Subscribe (1, [SRC_Failure])) \<in> set (sh_events (rn_shared v3_subscribed_run))"
    by (simp_all add: v3_subscribe_eval Let_def)
  from v3_sink_response_kind [OF v3_subscribed_run_reach this] show ?thesis by auto
qed

text \<open>\<open>MqttShared::pkt_ack\<close> of 3.1.1 implements the queue of unacknowledged packets: an
  acknowledgement that names the oldest packet in flight and has its kind removes it; every other acknowledgement fails and
  empties the queues. A matching one panics only for a non-blocking packet without a callback.\<close>

theorem v3_pkt_ack_refines:
  "case v3_pkt_ack env ack s of
     (Ok _, s') \<Rightarrow> ack_spec (v3_ack_packet_id ack) ack (pending s) = Some (pending s')
   | (Err _, s') \<Rightarrow> ack_spec (v3_ack_packet_id ack) ack (pending s) = None \<and> pending s' = [] \<and> sh_waiters s' = []
   | (Panic, _) \<Rightarrow> \<exists>tp rest. sh_inflight s = (v3_ack_packet_id ack, None, tp) # rest \<and> ack_is_match ack tp \<and>
       (sh_on_publish_ack s \<longrightarrow> tp \<noteq> AckType_Publish)"
  unfolding v3_pkt_ack_def by (rule ack3.pkt_ack_refines)

theorem v3_pkt_ack_refines_witness:
  "\<exists>s'. v3_pkt_ack (v3_env v3_queued_run) (Ack_Publish 1) (rn_shared v3_queued_run) = (Ok (), s') \<and> pending s' = []"
proof -
  have ok: "fst (v3_pkt_ack (v3_env v3_queued_run) (Ack_Publish 1) (rn_shared v3_queued_run)) = Ok ()"
    by (simp add: v3_run_eval Let_def)
  have p: "pending (rn_shared v3_queued_run) = [(1, AckType_Publish)]" by (subst v3_queued_run_eq) (simp add: pending_def)
  show ?thesis
    using v3_pkt_ack_refines [where env = "v3_env v3_queued_run" and ack = "Ack_Publish 1" and s = "rn_shared v3_queued_run"] ok p
    by (cases "v3_pkt_ack (v3_env v3_queued_run) (Ack_Publish 1) (rn_shared v3_queued_run)") simp
qed

text \<open>The identifiers that a fresh connection allocates run from 1 to 65535 and start again: any
  65535 consecutive ones are pairwise different, and none is zero.\<close>

theorem next_id_cycle:
  "ids_from n (v3_Shared_new client) = map (\<lambda>i. Ok (of_nat (Suc (i mod 65535)))) [0..<n]"
  using ids_from_eq [of "v3_Shared_new client" 0 n] by (simp add: v3_Shared_new_def)

text \<open>The capacity is not a bound on the packets in flight: a woken sender does not check the
  capacity again, and a sender that comes in between takes the unit it was woken for. A run with
  capacity one reaches a state with two packets in flight.\<close>

theorem v3_capacity_exceeded:
  "\<exists>r. v3_reach False r \<and> sh_cap (rn_shared r) = 1 \<and> length (sh_inflight (rn_shared r)) = 2"
proof -
  let ?r = "v3_call_publish (v3_call_ack (Ack_Publish 1) v3_queued_run)"
  have "v3_reach False ?r" by (intro v3_reach_publish v3_reach_ack v3_queued_run_reach) (simp add: v3_run_eval Let_def)
  then have "v3_reach False (v3_call_resume (v3_env ?r) 1 ?r)" by (rule v3_reach_resume) (simp_all add: v3_run_eval Let_def)
  moreover have "sh_cap (rn_shared (v3_call_resume (v3_env ?r) 1 ?r)) = 1"
    "length (sh_inflight (rn_shared (v3_call_resume (v3_env ?r) 1 ?r))) = 2" by (simp_all add: v3_run_eval Let_def)
  ultimately show ?thesis by blast
qed

text \<open>A woken sender whose packet cannot be encoded strands the next one: a run with capacity one
  reaches a state with a queued sender, nothing in flight, nobody woken and the full credit, in
  which no acknowledgement will come to wake the queued sender.\<close>

theorem v3_failed_send_strands_sender:
  "\<exists>r. v3_reach False r \<and> sh_waiters (rn_shared r) = [2] \<and> rn_ready r = [2] \<and> sh_inflight (rn_shared r) = [] \<and>
     Ev_wake 2 \<notin> set (sh_events (rn_shared r)) \<and> sh_is_ready (rn_shared r)"
proof -
  let ?r = "v3_call_ack (Ack_Publish 1) (v3_call_publish v3_queued_run)"
  let ?env = "(v3_env ?r)\<lparr>env_encode := (\<lambda>_. Some OverMaxPacketSize)\<rparr>"
  have "v3_reach False ?r" by (intro v3_reach_publish v3_reach_ack v3_queued_run_reach) (simp add: v3_run_eval Let_def)
  then have "v3_reach False (v3_call_resume ?env 1 ?r)" by (rule v3_reach_resume) (simp_all add: v3_run_eval Let_def)
  moreover have "sh_waiters (rn_shared (v3_call_resume ?env 1 ?r)) = [2]" "rn_ready (v3_call_resume ?env 1 ?r) = [2]"
    "sh_inflight (rn_shared (v3_call_resume ?env 1 ?r)) = []"
    "Ev_wake 2 \<notin> set (sh_events (rn_shared (v3_call_resume ?env 1 ?r)))" "sh_is_ready (rn_shared (v3_call_resume ?env 1 ?r))"
    by (simp_all add: v3_run_eval Let_def sh_is_ready_def sh_credit_def)
  ultimately show ?thesis by blast
qed

text \<open>A SUBSCRIBE that cannot be encoded stays in the queue of unacknowledged packets: the caller
  gets the encoding error, but the next acknowledgement of any other packet is refused as out of
  order.\<close>

theorem v3_subscribe_error_blocks_queue:
  assumes "\<not> env_closed env" and "sh_is_ready s" and "sh_inflight s = []" and "sb3_id b = Some i" and "i \<notin> sh_inflight_ids s"
    and "env_encode env (V3_Subscribe i (sb3_topic_filters b)) = Some e"
  shows "fst (v3_subscribe_send env b s) = Fut_done (Err (SPE_Encode e)) \<and>
    pending (snd (v3_subscribe_send env b s)) = [(i, AckType_Subscribe)] \<and>
    (\<forall>ack. v3_ack_packet_id ack \<noteq> i \<longrightarrow>
       fst (v3_pkt_ack env ack (snd (v3_subscribe_send env b s))) = Err packet_id_mismatch)"
  using assms
  by (auto simp: v3_subscribe_send_def v3_subscribe_inner_def sh_start_def sh_wait_readiness_def sh_is_ready_def sh_credit_def
      sh_request_inner_def sh_packet_id_def sh_wait_response_def sh_encode_packet_def new_channel_def sh_register_def
      pending_def v3_pkt_ack_def pkt_ack_def pkt_ack_inner_def)

theorem v3_subscribe_error_blocks_queue_witness:
  "fst (v3_subscribe_send \<lparr>env_closed = False, env_alive = (\<lambda>_. True), env_encode = (\<lambda>_. Some EE_InvalidLength)\<rparr>
     \<lparr>sb3_id = Some 7, sb3_topic_filters = []\<rparr> ((v3_Shared_new False)\<lparr>sh_cap := 4\<rparr>)) = Fut_done (Err (SPE_Encode EE_InvalidLength))"
  by (rule v3_subscribe_error_blocks_queue [THEN conjunct1])
    (simp_all add: v3_Shared_new_def sh_is_ready_def sh_credit_def sh_wrb_def flags_contains_def sf_defs)

end
