(* ===== verification/V5_Sink.thy ===== *)
theory V5_Sink
  imports V5_Codec Shared
begin

text \<open>
  \<open>src/v5/shared.rs\<close> and \<open>src/v5/sink.rs\<close>: the shared state of MQTT 5 with the limits negotiated in
  CONNECT and CONNACK, closing with a DISCONNECT packet, the sink with its packet builders, and the
  runs of a connection.
\<close>

section \<open>Shared state\<close>

type_synonym v5_Ack = "(v5_PublishAck, v5_SubscribeAck, v5_UnsubscribeAck) Ack"
type_synonym v5_Env = "v5_Packet Env"

record v5_Shared = "(v5_Packet, v5_Ack, v5_PublishAck) MqttShared" +
  sh_max_qos :: QoS
  sh_receive_max :: u16
  sh_topic_alias_max :: u16
  sh_codec :: v5_Codec

definition v5_Shared_new :: "v5_Codec \<Rightarrow> v5_Shared" where
  "v5_Shared_new c =
     \<lparr>sh_cap = 0, sh_inflight = [], sh_inflight_ids = {}, sh_waiters = [], sh_inflight_idx = 0, sh_flags = 0,
      sh_on_publish_ack = False, sh_channels = 0, sh_events = [], sh_max_qos = AtLeastOnce, sh_receive_max = 0,
      sh_topic_alias_max = 0, sh_codec = c\<rparr>"

definition v5_set_receive_max :: "u16 \<Rightarrow> v5_Shared \<Rightarrow> v5_Shared" where
  "v5_set_receive_max val s = s\<lparr>sh_receive_max := val\<rparr>"

definition v5_set_topic_alias_max :: "u16 \<Rightarrow> v5_Shared \<Rightarrow> v5_Shared" where
  "v5_set_topic_alias_max val s = s\<lparr>sh_topic_alias_max := val\<rparr>"

definition v5_set_max_qos :: "QoS \<Rightarrow> v5_Shared \<Rightarrow> v5_Shared" where
  "v5_set_max_qos val s = s\<lparr>sh_max_qos := val\<rparr>"

fun v5_ack_packet_id :: "v5_Ack \<Rightarrow> u16" where
  "v5_ack_packet_id (Ack_Publish pkt) = ack5_packet_id pkt"
| "v5_ack_packet_id (Ack_Subscribe pkt) = sack5_packet_id pkt"
| "v5_ack_packet_id (Ack_Unsubscribe pkt) = sack5_packet_id pkt"

fun v5_ack_publish :: "v5_Ack \<Rightarrow> (SendPacketError, v5_PublishAck) res" where
  "v5_ack_publish (Ack_Publish pkt) = Ok pkt"
| "v5_ack_publish _ = Panic"

fun v5_ack_subscribe :: "v5_Ack \<Rightarrow> (SendPacketError, v5_SubscribeAck) res" where
  "v5_ack_subscribe (Ack_Subscribe pkt) = Ok pkt"
| "v5_ack_subscribe _ = Panic"

fun v5_ack_unsubscribe :: "v5_Ack \<Rightarrow> (SendPacketError, v5_UnsubscribeAck) res" where
  "v5_ack_unsubscribe (Ack_Unsubscribe pkt) = Ok pkt"
| "v5_ack_unsubscribe _ = Panic"

definition v5_PublishAck_default :: v5_PublishAck where
  "v5_PublishAck_default = \<lparr>ack5_packet_id = 1, ack5_reason_code = PA_Success, ack5_properties = [], ack5_reason_string = None\<rparr>"

text \<open>The callback's argument: the packet, or a default one with the identifier that was lost.\<close>

definition v5_callback_arg :: "v5_Ack \<Rightarrow> v5_PublishAck option" where
  "v5_callback_arg ack = (case v5_ack_publish ack of Ok pkt \<Rightarrow> Some pkt | _ \<Rightarrow> None)"

definition v5_clear_queues :: "v5_Shared \<Rightarrow> v5_Shared" where
  "v5_clear_queues = sh_clear_queues (\<lambda>idx. v5_PublishAck_default\<lparr>ack5_packet_id := idx\<rparr>)"

definition v5_close :: "v5_Disconnect \<Rightarrow> v5_Env \<Rightarrow> v5_Shared \<Rightarrow> v5_Shared" where
  "v5_close pkt env s =
     (let s1 = (if \<not> env_closed env then log_event Ev_close (snd (sh_encode_packet env (V5_Disconnect pkt) s)) else s) in
      v5_clear_queues s1)"

definition v5_force_close :: "v5_Shared \<Rightarrow> v5_Shared" where
  "v5_force_close s = v5_clear_queues (log_event Ev_force_close s)"

definition v5_drop_sink :: "v5_Shared \<Rightarrow> v5_Shared" where
  "v5_drop_sink s = log_event Ev_close (v5_clear_queues s)"

definition v5_pkt_ack :: "v5_Env \<Rightarrow> v5_Ack \<Rightarrow> v5_Shared \<Rightarrow> (ProtocolError, unit) res \<times> v5_Shared" where
  "v5_pkt_ack = pkt_ack v5_ack_packet_id v5_callback_arg
     (v5_close (v5_Disconnect_default\<lparr>dis5_reason_code := DR_ImplementationSpecificError\<rparr>))"

section \<open>The sink\<close>

definition v5_is_open :: "v5_Env \<Rightarrow> bool" where
  "v5_is_open env \<longleftrightarrow> \<not> env_closed env"

definition v5_is_ready :: "v5_Env \<Rightarrow> v5_Shared \<Rightarrow> bool" where
  "v5_is_ready env s = (if env_closed env then False else sh_is_ready s)"

definition v5_ready :: "v5_Env \<Rightarrow> v5_Shared \<Rightarrow> (bool + chan) \<times> v5_Shared" where
  "v5_ready env s =
     (if \<not> env_closed env then
        (case sh_wait_readiness s of (Some rx, s') \<Rightarrow> (Inr rx, s') | (None, s') \<Rightarrow> (Inl True, s'))
      else (Inl False, s))"

definition v5_sink_close :: "v5_Env \<Rightarrow> v5_Shared \<Rightarrow> v5_Shared" where
  "v5_sink_close = v5_close v5_Disconnect_default"

definition v5_ping :: "v5_Env \<Rightarrow> v5_Shared \<Rightarrow> bool \<times> v5_Shared" where
  "v5_ping env s = (let (r, s') = sh_encode_packet env V5_PingRequest s in (r = None, s'))"

definition v5_PublishProperties_default :: v5_PublishProperties where
  "v5_PublishProperties_default =
     \<lparr>pp5_topic_alias = None, pp5_correlation_data = None, pp5_message_expiry_interval = None, pp5_content_type = None,
      pp5_user_properties = [], pp5_is_utf8_payload = False, pp5_response_topic = None, pp5_subscription_ids = []\<rparr>"

definition v5_publish :: "bytes \<Rightarrow> bytes \<Rightarrow> v5_Publish" where
  "v5_publish topic payload =
     \<lparr>pub5_dup = False, pub5_retain = False, pub5_qos = AtMostOnce, pub5_packet_id = None, pub5_topic = topic,
      pub5_payload = payload, pub5_properties = v5_PublishProperties_default\<rparr>"

definition v5_PublishBuilder_packet_id :: "u16 \<Rightarrow> v5_Publish \<Rightarrow> (SendPacketError, v5_Publish) res" where
  "v5_PublishBuilder_packet_id pkt_id packet =
     bindR (builder_id pkt_id) (\<lambda>pkt_id. Ok (packet\<lparr>pub5_packet_id := Some pkt_id\<rparr>))"

definition v5_PublishBuilder_dup :: "bool \<Rightarrow> v5_Publish \<Rightarrow> v5_Publish" where
  "v5_PublishBuilder_dup val packet = packet\<lparr>pub5_dup := val\<rparr>"

definition v5_PublishBuilder_retain :: "bool \<Rightarrow> v5_Publish \<Rightarrow> v5_Publish" where
  "v5_PublishBuilder_retain val packet = packet\<lparr>pub5_retain := val\<rparr>"

definition v5_PublishBuilder_properties :: "(v5_PublishProperties \<Rightarrow> v5_PublishProperties) \<Rightarrow> v5_Publish \<Rightarrow> v5_Publish" where
  "v5_PublishBuilder_properties f packet = packet\<lparr>pub5_properties := f (pub5_properties packet)\<rparr>"

definition v5_PublishBuilder_size :: "v5_Publish \<Rightarrow> (EncodeError, nat) res" where
  "v5_PublishBuilder_size packet = bindR (v5_Publish_encoded_size packet (2 ^ 32 - 1)) (\<lambda>n. Ok (as_u32 n))"

definition v5_send_at_most_once :: "v5_Env \<Rightarrow> v5_Publish \<Rightarrow> v5_Shared \<Rightarrow> (SendPacketError, unit) res \<times> v5_Shared" where
  "v5_send_at_most_once env packet s =
     (if \<not> env_closed env then
        (case sh_encode_packet env (V5_Publish (packet\<lparr>pub5_qos := AtMostOnce\<rparr>)) s of
           (None, s') \<Rightarrow> (Ok (), s')
         | (Some e, s') \<Rightarrow> (Err (SPE_Encode e), s'))
      else (Err Disconnected, s))"

definition v5_send_at_least_once_inner :: "v5_Env \<Rightarrow> v5_Publish \<Rightarrow> v5_Shared \<Rightarrow> v5_PublishAck send_fut \<times> v5_Shared" where
  "v5_send_at_least_once_inner env packet =
     sh_publish_inner env (\<lambda>idx. V5_Publish (packet\<lparr>pub5_packet_id := Some idx\<rparr>)) (pub5_packet_id packet)"

definition v5_send_at_least_once :: "v5_Env \<Rightarrow> v5_Publish \<Rightarrow> v5_Shared \<Rightarrow> v5_PublishAck send_fut \<times> v5_Shared" where
  "v5_send_at_least_once env packet =
     sh_start env (v5_send_at_least_once_inner env (packet\<lparr>pub5_qos := AtLeastOnce\<rparr>))"

definition v5_send_at_least_once_resume :: "v5_Env \<Rightarrow> v5_Publish \<Rightarrow> bool \<Rightarrow> v5_Shared \<Rightarrow> v5_PublishAck send_fut \<times> v5_Shared" where
  "v5_send_at_least_once_resume env packet =
     sh_resume (v5_send_at_least_once_inner env (packet\<lparr>pub5_qos := AtLeastOnce\<rparr>))"

fun v5_publish_response :: "v5_Ack option \<Rightarrow> (SendPacketError, v5_PublishAck) res" where
  "v5_publish_response (Some pkt) = v5_ack_publish pkt"
| "v5_publish_response None = Err Disconnected"

definition v5_send_at_least_once_no_block :: "v5_Env \<Rightarrow> v5_Publish \<Rightarrow> v5_Shared \<Rightarrow> (SendPacketError, unit) res \<times> v5_Shared" where
  "v5_send_at_least_once_no_block env packet s =
     (if \<not> env_closed env then
        if \<not> sh_is_ready s then (Panic, s)
        else
          (case sh_packet_id (pub5_packet_id packet) s of
             (Ok idx, s1) \<Rightarrow> sh_wait_packet_response_no_block False env idx AckType_Publish
               (V5_Publish (packet\<lparr>pub5_qos := AtLeastOnce, pub5_packet_id := Some idx\<rparr>)) s1
           | (Err e, s1) \<Rightarrow> (Err e, s1)
           | (Panic, s1) \<Rightarrow> (Panic, s1))
      else (Err Disconnected, s))"

text \<open>\<open>SubscribeBuilder\<close> and \<open>UnsubscribeBuilder\<close>.\<close>

record v5_SubscribeBuilder =
  sb5_id :: "u16 option"
  sb5_packet :: v5_Subscribe

record v5_UnsubscribeBuilder =
  ub5_id :: "u16 option"
  ub5_packet :: v5_Unsubscribe

definition v5_subscribe :: "u32 option \<Rightarrow> v5_SubscribeBuilder" where
  "v5_subscribe sub_id = \<lparr>sb5_id = None, sb5_packet =
     \<lparr>sub5_packet_id = 1, sub5_id = sub_id, sub5_user_properties = [], sub5_topic_filters = []\<rparr>\<rparr>"

definition v5_unsubscribe :: v5_UnsubscribeBuilder where
  "v5_unsubscribe = \<lparr>ub5_id = None, ub5_packet =
     \<lparr>unsub5_packet_id = 1, unsub5_user_properties = [], unsub5_topic_filters = []\<rparr>\<rparr>"

definition v5_SubscribeBuilder_packet_id :: "u16 \<Rightarrow> v5_SubscribeBuilder \<Rightarrow> (SendPacketError, v5_SubscribeBuilder) res" where
  "v5_SubscribeBuilder_packet_id pkt_id b = bindR (builder_id pkt_id) (\<lambda>pkt_id. Ok (b\<lparr>sb5_id := Some pkt_id\<rparr>))"

definition v5_SubscribeBuilder_topic_filter :: "bytes \<Rightarrow> SubscriptionOptions \<Rightarrow> v5_SubscribeBuilder \<Rightarrow> v5_SubscribeBuilder" where
  "v5_SubscribeBuilder_topic_filter tf opts b =
     b\<lparr>sb5_packet := (sb5_packet b)\<lparr>sub5_topic_filters := sub5_topic_filters (sb5_packet b) @ [(tf, opts)]\<rparr>\<rparr>"

definition v5_SubscribeBuilder_property :: "bytes \<Rightarrow> bytes \<Rightarrow> v5_SubscribeBuilder \<Rightarrow> v5_SubscribeBuilder" where
  "v5_SubscribeBuilder_property key val b =
     b\<lparr>sb5_packet := (sb5_packet b)\<lparr>sub5_user_properties := sub5_user_properties (sb5_packet b) @ [(key, val)]\<rparr>\<rparr>"

definition v5_SubscribeBuilder_size :: "v5_SubscribeBuilder \<Rightarrow> (EncodeError, nat) res" where
  "v5_SubscribeBuilder_size b = bindR (v5_Subscribe_encoded_size (sb5_packet b) (2 ^ 32 - 1)) (\<lambda>n. Ok (as_u32 n))"

definition v5_subscribe_inner :: "v5_Env \<Rightarrow> v5_SubscribeBuilder \<Rightarrow> v5_Shared \<Rightarrow> v5_SubscribeAck send_fut \<times> v5_Shared" where
  "v5_subscribe_inner env b =
     sh_request_inner env AckType_Subscribe (\<lambda>idx. V5_Subscribe ((sb5_packet b)\<lparr>sub5_packet_id := idx\<rparr>)) (sb5_id b)"

definition v5_subscribe_send :: "v5_Env \<Rightarrow> v5_SubscribeBuilder \<Rightarrow> v5_Shared \<Rightarrow> v5_SubscribeAck send_fut \<times> v5_Shared" where
  "v5_subscribe_send env b = sh_start env (v5_subscribe_inner env b)"

definition v5_subscribe_resume :: "v5_Env \<Rightarrow> v5_SubscribeBuilder \<Rightarrow> bool \<Rightarrow> v5_Shared \<Rightarrow> v5_SubscribeAck send_fut \<times> v5_Shared" where
  "v5_subscribe_resume env b = sh_resume (v5_subscribe_inner env b)"

fun v5_subscribe_response :: "v5_Ack option \<Rightarrow> (SendPacketError, v5_SubscribeAck) res" where
  "v5_subscribe_response (Some pkt) = v5_ack_subscribe pkt"
| "v5_subscribe_response None = Err Disconnected"

definition v5_UnsubscribeBuilder_packet_id :: "u16 \<Rightarrow> v5_UnsubscribeBuilder \<Rightarrow> (SendPacketError, v5_UnsubscribeBuilder) res" where
  "v5_UnsubscribeBuilder_packet_id pkt_id b = bindR (builder_id pkt_id) (\<lambda>pkt_id. Ok (b\<lparr>ub5_id := Some pkt_id\<rparr>))"

definition v5_UnsubscribeBuilder_topic_filter :: "bytes \<Rightarrow> v5_UnsubscribeBuilder \<Rightarrow> v5_UnsubscribeBuilder" where
  "v5_UnsubscribeBuilder_topic_filter tf b =
     b\<lparr>ub5_packet := (ub5_packet b)\<lparr>unsub5_topic_filters := unsub5_topic_filters (ub5_packet b) @ [tf]\<rparr>\<rparr>"

definition v5_UnsubscribeBuilder_property :: "bytes \<Rightarrow> bytes \<Rightarrow> v5_UnsubscribeBuilder \<Rightarrow> v5_UnsubscribeBuilder" where
  "v5_UnsubscribeBuilder_property key val b =
     b\<lparr>ub5_packet := (ub5_packet b)\<lparr>unsub5_user_properties := unsub5_user_properties (ub5_packet b) @ [(key, val)]\<rparr>\<rparr>"

definition v5_UnsubscribeBuilder_size :: "v5_UnsubscribeBuilder \<Rightarrow> (EncodeError, nat) res" where
  "v5_UnsubscribeBuilder_size b = bindR (v5_Unsubscribe_encoded_size (ub5_packet b) (2 ^ 32 - 1)) (\<lambda>n. Ok (as_u32 n))"

definition v5_unsubscribe_inner :: "v5_Env \<Rightarrow> v5_UnsubscribeBuilder \<Rightarrow> v5_Shared \<Rightarrow> v5_UnsubscribeAck send_fut \<times> v5_Shared" where
  "v5_unsubscribe_inner env b =
     sh_request_inner env AckType_Unsubscribe (\<lambda>idx. V5_Unsubscribe ((ub5_packet b)\<lparr>unsub5_packet_id := idx\<rparr>)) (ub5_id b)"

definition v5_unsubscribe_send :: "v5_Env \<Rightarrow> v5_UnsubscribeBuilder \<Rightarrow> v5_Shared \<Rightarrow> v5_UnsubscribeAck send_fut \<times> v5_Shared" where
  "v5_unsubscribe_send env b = sh_start env (v5_unsubscribe_inner env b)"

definition v5_unsubscribe_resume :: "v5_Env \<Rightarrow> v5_UnsubscribeBuilder \<Rightarrow> bool \<Rightarrow> v5_Shared \<Rightarrow> v5_UnsubscribeAck send_fut \<times> v5_Shared" where
  "v5_unsubscribe_resume env b = sh_resume (v5_unsubscribe_inner env b)"

fun v5_unsubscribe_response :: "v5_Ack option \<Rightarrow> (SendPacketError, v5_UnsubscribeAck) res" where
  "v5_unsubscribe_response (Some pkt) = v5_ack_unsubscribe pkt"
| "v5_unsubscribe_response None = Err Disconnected"

section \<open>Contracts\<close>

lemma v5_close_eq:
  "v5_close pkt env s = v5_clear_queues (if env_closed env then s else log_event Ev_close (log_event (Ev_encode (V5_Disconnect pkt)) s))"
  by (simp add: v5_close_def sh_encode_packet_def)

lemma v5_clear_queues_inv: "core_inv s R A \<Longrightarrow> sink_inv (v5_clear_queues s) R A L"
  unfolding v5_clear_queues_def by (rule sink_inv_cleared)

interpretation ack5: ack_queue v5_ack_packet_id v5_callback_arg "v5_close pkt" for pkt
proof
  show "sh_inflight (v5_close pkt env s) = []" "sh_waiters (v5_close pkt env s) = []" for env s
    by (simp_all add: v5_close_eq v5_clear_queues_def sh_clear_queues_def Let_def)
  show "core_inv s R A \<Longrightarrow> sink_inv (v5_close pkt env s) R A L" for s R A env L
    unfolding v5_close_eq by (rule v5_clear_queues_inv) (simp add: core_inv_log)
  show "ack_is_match ack AckType_Publish \<Longrightarrow> v5_callback_arg ack \<noteq> None" for ack
    by (cases ack) (simp_all add: v5_callback_arg_def)
qed

interpretation publish_send5: sender "v5_send_at_least_once_inner env packet" AckType_Publish for env packet
  unfolding v5_send_at_least_once_inner_def by (rule publish_sender.sender_axioms)

interpretation subscribe_send5: sender "v5_subscribe_inner env b" AckType_Subscribe for env b
  unfolding v5_subscribe_inner_def by (rule request_sender.sender_axioms)

interpretation unsubscribe_send5: sender "v5_unsubscribe_inner env b" AckType_Unsubscribe for env b
  unfolding v5_unsubscribe_inner_def by (rule request_sender.sender_axioms)

section \<open>Runs of a connection\<close>

type_synonym v5_run = "v5_Shared sink_run"

inductive v5_step :: "v5_run \<Rightarrow> v5_run \<Rightarrow> bool" where
  publish: "v5_step r (run_sent AckType_Publish (v5_send_at_least_once env pkt (rn_shared r)) r)"
| subscribe: "v5_step r (run_sent AckType_Subscribe (v5_subscribe_send env sb (rn_shared r)) r)"
| unsubscribe: "v5_step r (run_sent AckType_Unsubscribe (v5_unsubscribe_send env ub (rn_shared r)) r)"
| resume_publish: "c \<in> set (rn_ready r) \<Longrightarrow> c \<in> woken_set (rn_shared r) \<Longrightarrow>
    v5_step r (run_resumed c AckType_Publish (v5_send_at_least_once_resume env pkt True (rn_shared r)) r)"
| resume_subscribe: "c \<in> set (rn_ready r) \<Longrightarrow> c \<in> woken_set (rn_shared r) \<Longrightarrow>
    v5_step r (run_resumed c AckType_Subscribe (v5_subscribe_resume env sb True (rn_shared r)) r)"
| resume_unsubscribe: "c \<in> set (rn_ready r) \<Longrightarrow> c \<in> woken_set (rn_shared r) \<Longrightarrow>
    v5_step r (run_resumed c AckType_Unsubscribe (v5_unsubscribe_resume env ub True (rn_shared r)) r)"
| ready: "v5_ready env (rn_shared r) = (Inr rx, s) \<Longrightarrow> v5_step r (r\<lparr>rn_shared := s, rn_ready := rx # rn_ready r\<rparr>)"
| drop: "c \<in> set (rn_ready r) \<Longrightarrow> v5_step r (run_drop c r)"
| drop_ack: "v5_step r (run_drop_ack x r)"
| no_block: "v5_send_at_least_once_no_block env pkt (rn_shared r) = (res, s) \<Longrightarrow> res \<noteq> Panic \<Longrightarrow> v5_step r (r\<lparr>rn_shared := s\<rparr>)"
| at_most_once: "v5_send_at_most_once env pkt (rn_shared r) = (res, s) \<Longrightarrow> v5_step r (r\<lparr>rn_shared := s\<rparr>)"
| ping: "v5_ping env (rn_shared r) = (res, s) \<Longrightarrow> v5_step r (r\<lparr>rn_shared := s\<rparr>)"
| ack: "run_env env r \<Longrightarrow> v5_pkt_ack env a (rn_shared r) = (res, s) \<Longrightarrow> res \<noteq> Panic \<Longrightarrow> v5_step r (r\<lparr>rn_shared := s\<rparr>)"
| set_cap: "run_env env r \<Longrightarrow> v5_step r (r\<lparr>rn_shared := sh_set_cap env cap (rn_shared r)\<rparr>)"
| enable: "v5_step r (r\<lparr>rn_shared := sh_enable_wr_backpressure (rn_shared r)\<rparr>)"
| disable: "run_env env r \<Longrightarrow> v5_step r (r\<lparr>rn_shared := sh_disable_wr_backpressure env (rn_shared r)\<rparr>)"
| set_publish_ack: "v5_step r (r\<lparr>rn_shared := sh_set_publish_ack (rn_shared r)\<rparr>)"
| close: "v5_step r (r\<lparr>rn_shared := v5_close pkt env (rn_shared r)\<rparr>)"
| force_close: "v5_step r (r\<lparr>rn_shared := v5_force_close (rn_shared r)\<rparr>)"
| drop_sink: "v5_step r (r\<lparr>rn_shared := v5_drop_sink (rn_shared r)\<rparr>)"

definition v5_run_init :: "v5_Codec \<Rightarrow> v5_run" where
  "v5_run_init c = \<lparr>rn_shared = v5_Shared_new c, rn_ready = [], rn_acks = [], rn_lost = 0\<rparr>"

inductive v5_reach :: "v5_Codec \<Rightarrow> v5_run \<Rightarrow> bool" for c where
  init: "v5_reach c (v5_run_init c)"
| step: "v5_reach c r \<Longrightarrow> v5_step r r' \<Longrightarrow> v5_reach c r'"

lemma sink_inv_at_most_once5: "sink_inv s R A L \<Longrightarrow> sink_inv (snd (v5_send_at_most_once env pkt s)) R A L"
  by (auto simp: v5_send_at_most_once_def sh_encode_packet_def intro: sink_inv_log split: option.splits)

lemma sink_inv_no_block5:
  assumes "sink_inv s R A L" and "fst (v5_send_at_least_once_no_block env pkt s) \<noteq> Panic"
  shows "sink_inv (snd (v5_send_at_least_once_no_block env pkt s)) R A L"
proof -
  obtain idx s1 where p: "sh_packet_id (pub5_packet_id pkt) s = (Ok idx, s1)" "sink_inv s1 R A L"
    using assms(1) by (rule sink_inv_packet_id)
  then show ?thesis using assms sink_inv_no_block [OF p(2)] by (auto simp: v5_send_at_least_once_no_block_def split: if_splits)
qed

lemma v5_step_inv: "v5_step r r' \<Longrightarrow> run_inv r \<Longrightarrow> run_inv r'"
proof (induction rule: v5_step.induct)
  case (ready env r rx s)
  then show ?case by (intro run_inv_ready) (auto simp: v5_ready_def split: if_splits option.splits prod.splits)
next
  case (no_block env pkt r res s)
  then show ?case using sink_inv_no_block5 [of "rn_shared r" _ _ _ env pkt] by (intro run_inv_shared) auto
next
  case (at_most_once env pkt r res s)
  then show ?case using sink_inv_at_most_once5 [of "rn_shared r" _ _ _ env pkt] by (intro run_inv_shared) auto
next
  case (ping env r res s)
  then show ?case by (intro run_inv_shared) (auto simp: v5_ping_def sh_encode_packet_def Let_def intro: sink_inv_log)
next
  case (close r pkt env)
  then show ?case by (intro run_inv_shared) (auto intro: ack5.close_inv sink_inv_core)
next
  case (force_close r)
  then show ?case by (intro run_inv_shared) (simp_all add: v5_force_close_def v5_clear_queues_inv core_inv_log sink_inv_core)
next
  case (drop_sink r)
  then show ?case by (intro run_inv_shared) (simp_all add: v5_drop_sink_def v5_clear_queues_inv sink_inv_core sink_inv_log)
qed (auto simp: v5_send_at_least_once_def v5_subscribe_send_def v5_unsubscribe_send_def v5_send_at_least_once_resume_def
      v5_subscribe_resume_def v5_unsubscribe_resume_def v5_pkt_ack_def
    intro: publish_send5.run_inv_start subscribe_send5.run_inv_start unsubscribe_send5.run_inv_start publish_send5.run_inv_resume
      subscribe_send5.run_inv_resume unsubscribe_send5.run_inv_resume run_inv_drop run_inv_drop_ack ack5.run_inv_pkt_ack run_inv_set_cap
      run_inv_disable run_inv_shared sink_inv_enable sink_inv_set_publish_ack)

lemma v5_reach_inv: "v5_reach c r \<Longrightarrow> run_inv r"
proof (induction rule: v5_reach.induct)
  case init
  show ?case by (simp add: run_inv_def sink_inv_defs v5_run_init_def v5_Shared_new_def)
qed (rule v5_step_inv)

section \<open>Properties\<close>

text \<open>C14: In every run of an MQTT 5 connection the identifiers in flight are pairwise different and
  recorded as in use, the next identifier can be allocated, and every response channel delivers a
  response of the kind its sender waits for (so that no continuation panics). While the stream takes writes, that is
  while write back-pressure is off, and a sender is queued, every unit of the capacity is in flight, is on its way to a
  sender that was woken, or was given up by one that was woken and did not send.\<close>

theorem v5_sink_run:
  assumes "v5_reach c r"
  shows "distinct (map fst (sh_inflight (rn_shared r))) \<and>
    fst ` set (sh_inflight (rn_shared r)) \<subseteq> sh_inflight_ids (rn_shared r) \<and>
    fst (sh_next_id (rn_shared r)) \<noteq> Panic \<and>
    (\<forall>rx ack. Ev_ack rx ack \<in> set (sh_events (rn_shared r)) \<longrightarrow>
       ((rx, AckType_Publish) \<in> set (rn_acks r) \<longrightarrow> v5_publish_response (Some ack) \<noteq> Panic) \<and>
       ((rx, AckType_Subscribe) \<in> set (rn_acks r) \<longrightarrow> v5_subscribe_response (Some ack) \<noteq> Panic) \<and>
       ((rx, AckType_Unsubscribe) \<in> set (rn_acks r) \<longrightarrow> v5_unsubscribe_response (Some ack) \<noteq> Panic)) \<and>
    (sh_waiters (rn_shared r) \<noteq> [] \<and> \<not> sh_wrb (rn_shared r) \<longrightarrow>
       sh_cap (rn_shared r) \<le> length (sh_inflight (rn_shared r))
         + length (filter (\<lambda>c. Ev_wake c \<in> set (sh_events (rn_shared r))) (rn_ready r)) + rn_lost r)"
proof -
  have i: "sink_inv (rn_shared r) (rn_ready r) (rn_acks r) (rn_lost r)"
    using v5_reach_inv [OF assms] by (simp add: run_inv_def)
  have n: "fst (sh_next_id (rn_shared r)) \<noteq> Panic" using i by (rule sink_inv_next_id) simp
  have m: "ack_is_match ack tp" if "(rx, tp) \<in> set (rn_acks r)" "Ev_ack rx ack \<in> set (sh_events (rn_shared r))" for rx tp ack
    using i that unfolding sink_inv_def acks_ok_def by blast
  have "v5_publish_response (Some ack) \<noteq> Panic" if "ack_is_match ack AckType_Publish" for ack using that by (cases ack) simp_all
  moreover have "v5_subscribe_response (Some ack) \<noteq> Panic" if "ack_is_match ack AckType_Subscribe" for ack
    using that by (cases ack) simp_all
  moreover have "v5_unsubscribe_response (Some ack) \<noteq> Panic" if "ack_is_match ack AckType_Unsubscribe" for ack
    using that by (cases ack) simp_all
  ultimately show ?thesis using i n m by (simp add: sink_inv_def ids_ok_def permits_ok_def)
qed

text \<open>A stream that encodes everything, and a run with capacity one: the first packet is in flight, the second sender is queued.\<close>

definition v5_env :: v5_Env where
  "v5_env = \<lparr>env_closed = False, env_alive = (\<lambda>_. True), env_encode = (\<lambda>_. None)\<rparr>"

definition v5_call_publish :: "v5_run \<Rightarrow> v5_run" where
  "v5_call_publish r = run_sent AckType_Publish (v5_send_at_least_once v5_env (v5_publish [0x61] []) (rn_shared r)) r"

definition v5_queued_run :: v5_run where
  "v5_queued_run = v5_call_publish (v5_call_publish (let r = v5_run_init v5_Codec_new in r\<lparr>rn_shared := sh_set_cap (v5_env\<lparr>env_alive := (\<lambda>_. False)\<rparr>) 1 (rn_shared r)\<rparr>))"

lemmas v5_run_eval = v5_queued_run_def v5_call_publish_def v5_run_init_def v5_Shared_new_def
  v5_env_def v5_publish_def v5_send_at_least_once_def v5_send_at_least_once_inner_def
  sh_start_def sh_wait_readiness_def sh_publish_inner_def sh_packet_id_def sh_next_id_def fut_of_def
  sh_wait_packet_response_def sh_encode_packet_def new_channel_def sh_register_def log_event_def sh_wrb_def
  flags_contains_def sf_defs sh_set_cap_def sh_woken_def

lemma v5_queued_run_reach: "v5_reach v5_Codec_new v5_queued_run"
proof -
  have "v5_reach v5_Codec_new (v5_call_publish r)" if "v5_reach v5_Codec_new r" for r
    using that unfolding v5_call_publish_def by (rule v5_reach.step [OF _ v5_step.publish])
  moreover have "v5_step (v5_run_init v5_Codec_new) (let r = v5_run_init v5_Codec_new in r\<lparr>rn_shared := sh_set_cap (v5_env\<lparr>env_alive := (\<lambda>_. False)\<rparr>) 1 (rn_shared r)\<rparr>)"
    unfolding Let_def by (rule v5_step.set_cap) (simp add: run_env_def v5_env_def v5_run_init_def)
  ultimately show ?thesis unfolding v5_queued_run_def by (blast intro: v5_reach.init v5_reach.step)
qed

lemma v5_queued_run_simps:
  "sh_inflight (rn_shared v5_queued_run) = [(1, Some 0, AckType_Publish)]" "sh_waiters (rn_shared v5_queued_run) = [1]"
  "sh_cap (rn_shared v5_queued_run) = 1" "\<not> sh_wrb (rn_shared v5_queued_run)" "rn_lost v5_queued_run = 0"
  by (simp_all add: v5_run_eval Let_def)

theorem v5_sink_run_witness:
  "sh_waiters (rn_shared v5_queued_run) = [1] \<and> fst (sh_next_id (rn_shared v5_queued_run)) \<noteq> Panic \<and>
   1 \<le> 1 + length (filter (\<lambda>c. Ev_wake c \<in> set (sh_events (rn_shared v5_queued_run))) (rn_ready v5_queued_run)) + 0"
  using v5_sink_run [OF v5_queued_run_reach] by (simp add: v5_queued_run_simps)

lemma v5_close_events:
  "\<exists>cbs. sh_events (v5_close pkt env s) = sh_events s @ (if env_closed env then [] else [Ev_encode (V5_Disconnect pkt), Ev_close]) @ cbs \<and>
     (\<forall>e \<in> set cbs. \<exists>lost. e = Ev_callback lost True)"
  by (auto simp: v5_close_eq v5_clear_queues_def sh_clear_queues_def log_event_def Let_def)

text \<open>C15: \<open>MqttShared::pkt_ack\<close> of MQTT 5 implements the queue of unacknowledged packets. An acknowledgement that succeeds
  names the oldest packet in flight and has its kind; the packet is removed, and the acknowledgement is given to the sender that waits
  for it. One that fails does not match: all queues are emptied, and unless the stream is closed already a DISCONNECT with the reason
  ImplementationSpecificError is encoded and the connection is closed, followed by nothing but the callbacks for the lost packets. A
  matching acknowledgement does not succeed in one case: it panics for a packet that was sent without blocking when there is no callback.\<close>

theorem v5_pkt_ack_refines:
  "case v5_pkt_ack env ack s of
     (Ok _, s') \<Rightarrow> ack_spec (v5_ack_packet_id ack) ack (pending s) = Some (pending s') \<and>
       (\<forall>i rx tp rest. sh_inflight s = (i, Some rx, tp) # rest \<longrightarrow> Ev_ack rx ack \<in> set (sh_events s'))
   | (Err _, s') \<Rightarrow> ack_spec (v5_ack_packet_id ack) ack (pending s) = None \<and> pending s' = [] \<and> sh_waiters s' = [] \<and>
       (\<exists>cbs. sh_events s' = sh_events s @ (if env_closed env then []
            else [Ev_encode (V5_Disconnect (v5_Disconnect_default\<lparr>dis5_reason_code := DR_ImplementationSpecificError\<rparr>)), Ev_close]) @ cbs \<and>
          (\<forall>e \<in> set cbs. \<exists>lost. e = Ev_callback lost True))
   | (Panic, _) \<Rightarrow> \<exists>tp rest. sh_inflight s = (v5_ack_packet_id ack, None, tp) # rest \<and> ack_is_match ack tp \<and>
       (sh_on_publish_ack s \<longrightarrow> tp \<noteq> AckType_Publish)"
proof -
  let ?d = "v5_Disconnect_default\<lparr>dis5_reason_code := DR_ImplementationSpecificError\<rparr>"
  note refines = ack5.pkt_ack_refines [where pkt = ?d and env = env and ack = ack and s = s, folded v5_pkt_ack_def]
  obtain r s' where rs: "v5_pkt_ack env ack s = (r, s')" by (cases "v5_pkt_ack env ack s")
  show ?thesis
  proof (cases r)
    case (Ok x)
    then show ?thesis using refines rs ack5.pkt_ack_delivers [where pkt = ?d and env = env and ack = ack and s = s, folded v5_pkt_ack_def] by auto
  next
    case (Err e)
    then obtain s1 where "s' = v5_close ?d env s1" "sh_events s1 = sh_events s"
      using ack5.pkt_ack_error [where pkt = ?d and env = env and ack = ack and s = s, folded v5_pkt_ack_def] rs by blast
    then show ?thesis using refines rs Err v5_close_events [of ?d env s1] by simp
  qed (use refines rs in simp)
qed

theorem v5_pkt_ack_refines_witness:
  "\<exists>s'. v5_pkt_ack v5_env (Ack_Publish (v5_PublishAck_default\<lparr>ack5_packet_id := 3\<rparr>)) (rn_shared v5_queued_run) =
       (Err packet_id_mismatch, s') \<and> pending s' = [] \<and> sh_waiters s' = [] \<and>
     Ev_encode (V5_Disconnect (v5_Disconnect_default\<lparr>dis5_reason_code := DR_ImplementationSpecificError\<rparr>)) \<in> set (sh_events s') \<and>
     Ev_close \<in> set (sh_events s')"
proof -
  let ?a = "Ack_Publish (v5_PublishAck_default\<lparr>ack5_packet_id := 3\<rparr>) :: v5_Ack" and ?s = "rn_shared v5_queued_run"
  obtain s' where "v5_pkt_ack v5_env ?a ?s = (Err packet_id_mismatch, s')"
    by (simp add: v5_pkt_ack_def pkt_ack_def pkt_ack_inner_def v5_queued_run_simps Let_def)
  with v5_pkt_ack_refines [where env = v5_env and ack = ?a and s = ?s] show ?thesis by (auto simp: v5_env_def)
qed

text \<open>\<open>send_at_least_once_no_block\<close> of MQTT 5 does not check for a callback: without one it sends and
  reports success, and the peer's PUBACK for that packet panics the dispatcher.\<close>

theorem v5_no_block_without_callback_panics:
  assumes "\<not> env_closed env" and "sh_is_ready s" and "sh_inflight s = []" and "\<not> sh_on_publish_ack s"
    and "pub5_packet_id packet = Some i" and "i \<notin> sh_inflight_ids s"
    and "env_encode env (V5_Publish (packet\<lparr>pub5_qos := AtLeastOnce\<rparr>)) = None"
  shows "fst (v5_send_at_least_once_no_block env packet s) = Ok () \<and>
    (\<forall>env' ack. ack5_packet_id ack = i \<longrightarrow>
       fst (v5_pkt_ack env' (Ack_Publish ack) (snd (v5_send_at_least_once_no_block env packet s))) = Panic)"
proof -
  have "env_encode env (V5_Publish (packet\<lparr>pub5_qos := AtLeastOnce, pub5_packet_id := Some i\<rparr>)) = None"
    using assms(5,7) by (cases packet) simp
  then show ?thesis using assms(1-6)
    by (simp add: v5_send_at_least_once_no_block_def sh_packet_id_def sh_wait_packet_response_no_block_def sh_encode_packet_def
        sh_register_def v5_pkt_ack_def pkt_ack_def pkt_ack_inner_def Let_def)
qed

theorem v5_no_block_without_callback_panics_witness:
  "fst (v5_send_at_least_once_no_block v5_env ((v5_publish [0x61] [])\<lparr>pub5_packet_id := Some 9\<rparr>)
     ((v5_Shared_new v5_Codec_new)\<lparr>sh_cap := 8\<rparr>)) = Ok ()"
  by (rule v5_no_block_without_callback_panics [where i = 9, THEN conjunct1])
    (simp_all add: v5_env_def v5_Shared_new_def v5_publish_def sh_is_ready_def sh_credit_def sh_wrb_def flags_contains_def sf_defs)

end
