(* ===== verification/Dispatch.thy ===== *)
theory Dispatch
  imports Types
begin

text \<open>
  What the four dispatchers share: the error types of \<open>src/error.rs\<close> that wrap the errors of user
  services, the items the stream hands to a dispatcher (\<open>ntex_io::DispatchItem\<close>), and the states of a
  call. Type \<open>'e\<close> is the error of the user's services and \<open>'io\<close> stands for \<open>std::io::Error\<close>.

  \<open>Dispatcher::call\<close> is an async function. It runs until it awaits the user's publish or control service; the
  value it then waits with is a \<open>call\<close>, and the code after the await is a function of the answer.
\<close>

datatype ('e, 'io) HandshakeError =
    HE_Service 'e | HE_Protocol ProtocolError | HE_Timeout | HE_Disconnected "'io option"

datatype ('e, 'io) MqttError = ME_Service 'e | ME_Handshake "('e, 'io) HandshakeError"

datatype ('pkt, 'io) DispatchItem =
    DI_Item 'pkt u32
  | DI_EncoderError EncodeError
  | DI_DecoderError DecodeError
  | DI_KeepAliveTimeout
  | DI_ReadTimeout
  | DI_Disconnect "'io option"
  | DI_WBackPressureEnabled
  | DI_WBackPressureDisabled

text \<open>\<open>SizedRequest\<close>: what a request counts in the in-flight limit.\<close>

fun item_size :: "('pkt, 'io) DispatchItem \<Rightarrow> u32" where
  "item_size (DI_Item _ n) = n"
| "item_size _ = 0"

text \<open>
  \<open>Call_publish p i\<close> awaits the publish service for the message \<open>p\<close> with identifier \<open>i\<close>. \<open>Call_control m error i\<close>
  awaits the control service for the message \<open>m\<close>; \<open>error\<close> is the flag of the function \<open>control\<close>, \<open>i\<close> the
  identifier it releases.
\<close>

datatype ('pub, 'ctl, 'pkt, 'e, 'io) call =
    Call_done "(('e, 'io) MqttError, 'pkt option) res"
  | Call_publish 'pub "u16 option"
  | Call_control 'ctl bool "u16 option"

text \<open>Every answer of a service moves a call to a smaller rank: an error is reported to the control
  service once, and an error of that report is final.\<close>

fun call_rank :: "('pub, 'ctl, 'pkt, 'e, 'io) call \<Rightarrow> nat" where
  "call_rank (Call_done _) = 0"
| "call_rank (Call_control _ error _) = (if error then 1 else 2)"
| "call_rank (Call_publish _ _) = 3"

text \<open>\<open>topic.contains(['#', '+'])\<close>.\<close>

definition has_wildcard :: "bytes \<Rightarrow> bool" where
  "has_wildcard topic \<longleftrightarrow> (\<exists>b \<in> set topic. b = 0x23 \<or> b = 0x2B)"

text \<open>\<open>state.is_closed() && !handle_qos_after_disconnect.map(|max| qos <= max).unwrap_or_default()\<close>.\<close>

definition skip_after_disconnect :: "bool \<Rightarrow> QoS option \<Rightarrow> QoS \<Rightarrow> bool" where
  "skip_after_disconnect closed handle qos \<longleftrightarrow>
     closed \<and> \<not> (case handle of Some max_qos \<Rightarrow> qos \<le> max_qos | None \<Rightarrow> False)"

section \<open>Calls in progress\<close>

text \<open>
  The identifiers a dispatcher has accepted (\<open>inflight\<close>) against the calls in progress: every identifier
  of a call is accepted, and no two calls have the same one.
\<close>

definition calls_ok :: "('call \<Rightarrow> u16 list) \<Rightarrow> u16 set \<Rightarrow> 'call list \<Rightarrow> bool" where
  "calls_ok ids inflight calls \<longleftrightarrow>
     distinct (concat (map ids calls)) \<and> set (concat (map ids calls)) \<subseteq> inflight"

lemma calls_ok_Nil [simp]: "calls_ok ids inflight []"
  by (simp add: calls_ok_def)

lemma calls_ok_Cons:
  "calls_ok ids inflight (c # cs) \<longleftrightarrow>
   calls_ok ids inflight cs \<and> distinct (ids c) \<and> set (ids c) \<subseteq> inflight \<and>
   set (ids c) \<inter> set (concat (map ids cs)) = {}"
  by (auto simp: calls_ok_def)

text \<open>A new call: it has no identifier, or one that was not accepted before.\<close>

lemma calls_ok_accept:
  assumes "calls_ok ids inflight cs" and "inflight \<subseteq> inflight'"
    and "ids c = [] \<or> (\<exists>i. ids c = [i] \<and> i \<notin> inflight \<and> i \<in> inflight')"
  shows "calls_ok ids inflight' (c # cs)"
  using assms by (auto simp: calls_ok_def)

text \<open>Any call in progress may be the next to continue.\<close>

lemma calls_ok_middle: "calls_ok ids inflight (pre @ c # post) \<longleftrightarrow> calls_ok ids inflight (c # pre @ post)"
  by (auto simp: calls_ok_def)

text \<open>A call that continues keeps its identifier or drops it; it may release only its own.\<close>

lemma calls_ok_continue:
  assumes "calls_ok ids inflight (c # cs)" and "ids c' = [] \<or> ids c' = ids c \<and> released = {}"
    and "released \<subseteq> set (ids c)"
  shows "calls_ok ids (inflight - released) (c' # cs)"
  using assms unfolding calls_ok_Cons by (auto simp: calls_ok_def)

text \<open>
  What the dispatchers promise of their identifiers. \<open>starts s c s'\<close> is a request that becomes the call \<open>c\<close>,
  \<open>answers c s c' s'\<close> an answer of a service that moves the call \<open>c\<close> on to \<open>c'\<close>.
\<close>

locale dispatcher =
  fixes inflight :: "'s \<Rightarrow> u16 set"
    and ids :: "'call \<Rightarrow> u16 list"
    and starts :: "'s \<Rightarrow> 'call \<Rightarrow> 's \<Rightarrow> bool"
    and answers :: "'call \<Rightarrow> 's \<Rightarrow> 'call \<Rightarrow> 's \<Rightarrow> bool"
  assumes starts_ids: "starts s c s' \<Longrightarrow> inflight s \<subseteq> inflight s' \<and>
      (ids c = [] \<or> (\<exists>i. ids c = [i] \<and> i \<notin> inflight s \<and> i \<in> inflight s'))"
    and answers_ids: "answers c s c' s' \<Longrightarrow> (\<exists>rel. rel \<subseteq> set (ids c) \<and> inflight s' = inflight s - rel \<and>
      (ids c' = [] \<or> ids c' = ids c \<and> rel = {}))"
begin

lemma start_ok: "starts s c s' \<Longrightarrow> calls_ok ids (inflight s) cs \<Longrightarrow> calls_ok ids (inflight s') (c # cs)"
  using starts_ids [of s c s'] calls_ok_accept [of ids "inflight s" cs "inflight s'" c] by simp

lemma answer_ok:
  assumes "answers c s c' s'" and "calls_ok ids (inflight s) (pre @ c # post)"
  shows "calls_ok ids (inflight s') (pre @ c' # post)"
proof -
  from answers_ids [OF assms(1)] obtain rel where rel: "rel \<subseteq> set (ids c)" "inflight s' = inflight s - rel"
      "ids c' = [] \<or> ids c' = ids c \<and> rel = {}" by blast
  then show ?thesis using calls_ok_continue [of ids "inflight s" c "pre @ post" c' rel] assms(2)
    unfolding calls_ok_middle by simp
qed

end

text \<open>A dispatcher at work: requests arrive, the services answer the calls in progress in any order, and the
  rest of the program changes what the dispatcher does not own (\<open>others\<close>).\<close>

inductive calls_reach :: "('s \<Rightarrow> 'call \<Rightarrow> 's \<Rightarrow> bool) \<Rightarrow> ('call \<Rightarrow> 's \<Rightarrow> 'call \<Rightarrow> 's \<Rightarrow> bool) \<Rightarrow> ('s \<Rightarrow> 's \<Rightarrow> bool) \<Rightarrow> 's
    \<Rightarrow> 's \<times> 'call list \<Rightarrow> bool" for starts answers others init_state where
  calls_init: "calls_reach starts answers others init_state (init_state, [])"
| calls_start: "calls_reach starts answers others init_state (s, calls) \<Longrightarrow> starts s c s' \<Longrightarrow>
    calls_reach starts answers others init_state (s', c # calls)"
| calls_answer: "calls_reach starts answers others init_state (s, pre @ c # post) \<Longrightarrow> answers c s c' s' \<Longrightarrow>
    calls_reach starts answers others init_state (s', pre @ c' # post)"
| calls_other: "calls_reach starts answers others init_state (s, calls) \<Longrightarrow> others s s' \<Longrightarrow>
    calls_reach starts answers others init_state (s', calls)"

context dispatcher
begin

lemma reach_ok:
  assumes "calls_reach starts answers others init_state sc" and "\<And>s s'. others s s' \<Longrightarrow> inflight s' = inflight s"
  shows "calls_ok ids (inflight (fst sc)) (snd sc)"
  using assms by (induction rule: calls_reach.induct) (auto intro: start_ok answer_ok)

end

end
