(* ===== verification/V3_Dispatcher.thy ===== *)
theory V3_Dispatcher
  imports V3_Sink Topic Dispatch
begin

text \<open>
  The server dispatcher of MQTT 3.1.1 (\<open>src/v3/dispatcher.rs\<close>) and the messages and answers of its control
  service (\<open>src/v3/control.rs\<close>). The user's services are parameters: their answers are arguments of
  \<open>v3_publish_done\<close> and \<open>v3_control_done\<close>, the code after the two awaits.
\<close>

section \<open>Control messages\<close>

record v3_SubscribeMsg =
  sm3_packet_id :: u16
  sm3_packet_size :: u32
  sm3_topics :: "(bytes \<times> QoS) list"
  sm3_codes :: "SubscribeReturnCode list"

record v3_UnsubscribeMsg =
  um3_packet_id :: u16
  um3_packet_size :: u32
  um3_topics :: "bytes list"

datatype ('e, 'io) v3_Control =
    C3_Ping
  | C3_Disconnect
  | C3_Subscribe v3_SubscribeMsg
  | C3_Unsubscribe v3_UnsubscribeMsg
  | C3_WrBackpressure bool
  | C3_Closed
  | C3_Error 'e
  | C3_ProtocolError ProtocolError
  | C3_PeerGone "'io option"

datatype v3_ControlAckKind =
    CAK3_Nothing
  | CAK3_PublishAck u16
  | CAK3_Ping
  | CAK3_Disconnect
  | CAK3_Subscribe "SubscribeReturnCode list" u16
  | CAK3_Unsubscribe u16
  | CAK3_Closed

definition v3_SubscribeMsg_new :: "u16 \<Rightarrow> u32 \<Rightarrow> (bytes \<times> QoS) list \<Rightarrow> v3_SubscribeMsg" where
  "v3_SubscribeMsg_new packet_id packet_size topics =
     \<lparr>sm3_packet_id = packet_id, sm3_packet_size = packet_size, sm3_topics = topics,
      sm3_codes = map (\<lambda>_. SRC_Failure) [0..<length topics]\<rparr>"

definition v3_SubscribeMsg_ack :: "v3_SubscribeMsg \<Rightarrow> v3_ControlAckKind" where
  "v3_SubscribeMsg_ack m = CAK3_Subscribe (sm3_codes m) (sm3_packet_id m)"

text \<open>\<open>SubscribeIter::next_unsafe\<close>: the entry it points to (topic and requested quality of service) and the
  position whose code the item can set.\<close>

definition v3_SubscribeIter_next :: "v3_SubscribeMsg \<Rightarrow> nat \<Rightarrow> (DecodeError, ((bytes \<times> QoS) \<times> nat) option) res" where
  "v3_SubscribeIter_next m entry =
     (if entry < length (sm3_topics m) then
        if entry < length (sm3_codes m) then Ok (Some (sm3_topics m ! entry, entry)) else Panic
      else Ok None)"

definition v3_Subscription_fail :: "nat \<Rightarrow> v3_SubscribeMsg \<Rightarrow> v3_SubscribeMsg" where
  "v3_Subscription_fail entry m = m\<lparr>sm3_codes := (sm3_codes m)[entry := SRC_Failure]\<rparr>"

definition v3_Subscription_confirm :: "nat \<Rightarrow> QoS \<Rightarrow> v3_SubscribeMsg \<Rightarrow> v3_SubscribeMsg" where
  "v3_Subscription_confirm entry qos m = m\<lparr>sm3_codes := (sm3_codes m)[entry := SRC_Success qos]\<rparr>"

definition v3_UnsubscribeMsg_new :: "u16 \<Rightarrow> u32 \<Rightarrow> bytes list \<Rightarrow> v3_UnsubscribeMsg" where
  "v3_UnsubscribeMsg_new packet_id packet_size topics =
     \<lparr>um3_packet_id = packet_id, um3_packet_size = packet_size, um3_topics = topics\<rparr>"

definition v3_UnsubscribeMsg_ack :: "v3_UnsubscribeMsg \<Rightarrow> v3_ControlAckKind" where
  "v3_UnsubscribeMsg_ack m = CAK3_Unsubscribe (um3_packet_id m)"

text \<open>\<open>Control::ack\<close>, the answer a service gives that does not handle the message.\<close>

fun v3_Control_ack :: "('e, 'io) v3_Control \<Rightarrow> v3_ControlAckKind" where
  "v3_Control_ack C3_Ping = CAK3_Ping"
| "v3_Control_ack C3_Disconnect = CAK3_Disconnect"
| "v3_Control_ack (C3_Subscribe _) = CAK3_Disconnect"
| "v3_Control_ack (C3_Unsubscribe _) = CAK3_Disconnect"
| "v3_Control_ack (C3_WrBackpressure _) = CAK3_Nothing"
| "v3_Control_ack C3_Closed = CAK3_Closed"
| "v3_Control_ack (C3_Error _) = CAK3_Disconnect"
| "v3_Control_ack (C3_ProtocolError _) = CAK3_Disconnect"
| "v3_Control_ack (C3_PeerGone _) = CAK3_Nothing"

text \<open>The answers the public constructors of \<open>control.rs\<close> can make from a message: \<open>Control::disconnect\<close>,
  \<open>Control::ack\<close>, and the acknowledgement of a subscription with codes set through the iterator.\<close>

fun v3_answer_of :: "('e, 'io) v3_Control \<Rightarrow> v3_ControlAckKind \<Rightarrow> bool" where
  "v3_answer_of (C3_Subscribe m) a \<longleftrightarrow>
     a = CAK3_Disconnect \<or> (\<exists>codes. a = CAK3_Subscribe codes (sm3_packet_id m) \<and> length codes = length (sm3_codes m))"
| "v3_answer_of (C3_Unsubscribe m) a \<longleftrightarrow> a = CAK3_Disconnect \<or> a = v3_UnsubscribeMsg_ack m"
| "v3_answer_of c a \<longleftrightarrow> a = CAK3_Disconnect \<or> a = v3_Control_ack c"

section \<open>The dispatcher\<close>

record v3_DispatcherCfg =
  dc3_max_qos :: QoS
  dc3_handle_qos_after_disconnect :: "QoS option"

record v3_Inner =
  in3_sink :: v3_Shared
  in3_inflight :: "u16 set"

type_synonym ('e, 'io) v3_call = "(v3_Publish \<times> u32, ('e, 'io) v3_Control, v3_Packet, 'e, 'io) call"

definition v3_is_error :: "('e, 'io) v3_Control \<Rightarrow> bool" where
  "v3_is_error c = (case c of C3_Error _ \<Rightarrow> True | C3_ProtocolError _ \<Rightarrow> True | _ \<Rightarrow> False)"

definition v3_control :: "('e, 'io) v3_Control \<Rightarrow> v3_Inner \<Rightarrow> ('e, 'io) v3_call \<times> v3_Inner" where
  "v3_control pkt s = (Call_control pkt (v3_is_error pkt) None, s)"

definition v3_proto_error :: "ProtocolError \<Rightarrow> v3_Inner \<Rightarrow> ('e, 'io) v3_call \<times> v3_Inner" where
  "v3_proto_error e = v3_control (C3_ProtocolError e)"

text \<open>The PUBLISH branch of \<open>call\<close>.\<close>

definition v3_dispatch_publish :: "v3_DispatcherCfg \<Rightarrow> v3_Env \<Rightarrow> v3_Publish \<Rightarrow> u32 \<Rightarrow> v3_Inner \<Rightarrow> ('e, 'io) v3_call \<times> v3_Inner" where
  "v3_dispatch_publish cfg env publish sz s =
     (if has_wildcard (pub3_topic publish) then
        v3_proto_error (generic_violation ''PUBLISH packet's topic name contains wildcard character [MQTT-3.3.2-2]'') s
      else
        let packet_id = pub3_packet_id publish;
            dup = (case packet_id of Some pid \<Rightarrow> pid \<in> in3_inflight s | None \<Rightarrow> False);
            s1 = (case packet_id of Some pid \<Rightarrow> s\<lparr>in3_inflight := insert pid (in3_inflight s)\<rparr> | None \<Rightarrow> s) in
        if dup then
          v3_proto_error (generic_violation ''PUBLISH received with packet id that is already in use [MQTT-2.2.1-3]'') s1
        else if dc3_max_qos cfg < pub3_qos publish then
          (case pub3_qos publish of
             AtLeastOnce \<Rightarrow> v3_proto_error (generic_violation ''PUBLISH with QoS 1 is not supported'') s1
           | ExactlyOnce \<Rightarrow> v3_proto_error (generic_violation ''PUBLISH with QoS 2 is not supported'') s1
           | AtMostOnce \<Rightarrow> (Call_done Panic, s1))
        else if skip_after_disconnect (env_closed env) (dc3_handle_qos_after_disconnect cfg) (pub3_qos publish) then
          (Call_done (Ok None), s1)
        else (Call_publish (publish, sz) packet_id, s1))"

text \<open>The SUBSCRIBE and UNSUBSCRIBE branches: the check of the filters, then of the identifier.\<close>

definition v3_dispatch_filters :: "v3_Env \<Rightarrow> bytes list \<Rightarrow> u16 \<Rightarrow> string \<Rightarrow> ('e, 'io) v3_Control \<Rightarrow> v3_Inner
    \<Rightarrow> ('e, 'io) v3_call \<times> v3_Inner" where
  "v3_dispatch_filters env filters packet_id in_use msg s =
     (if env_closed env then (Call_done (Ok None), s)
      else if \<exists>tf \<in> set filters. \<not> topic_is_valid tf then
        v3_proto_error (generic_violation ''Topic filter is malformed [MQTT-4.7.1-*]'') s
      else if packet_id \<in> in3_inflight s then v3_proto_error (generic_violation in_use) s
      else v3_control msg (s\<lparr>in3_inflight := insert packet_id (in3_inflight s)\<rparr>))"

fun v3_dispatch :: "v3_DispatcherCfg \<Rightarrow> v3_Env \<Rightarrow> (v3_Packet, 'io) DispatchItem \<Rightarrow> v3_Inner \<Rightarrow> ('e, 'io) v3_call \<times> v3_Inner" where
  "v3_dispatch cfg env (DI_Item (V3_Publish publish) sz) s = v3_dispatch_publish cfg env publish sz s"
| "v3_dispatch cfg env (DI_Item (V3_PublishAck packet_id) sz) s =
     (case v3_pkt_ack env (Ack_Publish packet_id) (in3_sink s) of
        (Ok _, sink) \<Rightarrow> (Call_done (Ok None), s\<lparr>in3_sink := sink\<rparr>)
      | (Err e, sink) \<Rightarrow> v3_proto_error e (s\<lparr>in3_sink := sink\<rparr>)
      | (Panic, sink) \<Rightarrow> (Call_done Panic, s\<lparr>in3_sink := sink\<rparr>))"
| "v3_dispatch cfg env (DI_Item V3_PingRequest sz) s = v3_control C3_Ping s"
| "v3_dispatch cfg env (DI_Item (V3_Subscribe packet_id topic_filters) sz) s =
     v3_dispatch_filters env (map fst topic_filters) packet_id
       ''SUBSCRIBE received with packet id that is already in use [MQTT-2.2.1-3]''
       (C3_Subscribe (v3_SubscribeMsg_new packet_id sz topic_filters)) s"
| "v3_dispatch cfg env (DI_Item (V3_Unsubscribe packet_id topic_filters) sz) s =
     v3_dispatch_filters env topic_filters packet_id
       ''UNSUBSCRIBE received with packet id that is already in use [MQTT-2.2.1-3]''
       (C3_Unsubscribe (v3_UnsubscribeMsg_new packet_id sz topic_filters)) s"
| "v3_dispatch cfg env (DI_Item V3_Disconnect sz) s = v3_control C3_Disconnect s"
| "v3_dispatch cfg env (DI_Item _ sz) s = (Call_done (Ok None), s)"
| "v3_dispatch cfg env (DI_EncoderError err) s = v3_proto_error (PE_Encode err) s"
| "v3_dispatch cfg env DI_KeepAliveTimeout s = v3_proto_error PE_KeepAliveTimeout s"
| "v3_dispatch cfg env DI_ReadTimeout s = v3_proto_error PE_ReadTimeout s"
| "v3_dispatch cfg env (DI_DecoderError err) s = v3_proto_error (PE_Decode err) s"
| "v3_dispatch cfg env (DI_Disconnect err) s = v3_control (C3_PeerGone err) s"
| "v3_dispatch cfg env DI_WBackPressureEnabled s =
     v3_control (C3_WrBackpressure True) (s\<lparr>in3_sink := sh_enable_wr_backpressure (in3_sink s)\<rparr>)"
| "v3_dispatch cfg env DI_WBackPressureDisabled s =
     v3_control (C3_WrBackpressure False) (s\<lparr>in3_sink := sh_disable_wr_backpressure env (in3_sink s)\<rparr>)"

text \<open>\<open>publish_fn\<close> after the publish service answered.\<close>

definition v3_publish_done :: "'e + unit \<Rightarrow> u16 option \<Rightarrow> v3_Inner \<Rightarrow> ('e, 'io) v3_call \<times> v3_Inner" where
  "v3_publish_done res packet_id s =
     (case res of
        Inr _ \<Rightarrow>
          (case packet_id of
             Some packet_id \<Rightarrow>
               (Call_done (Ok (Some (V3_PublishAck packet_id))), s\<lparr>in3_inflight := in3_inflight s - {packet_id}\<rparr>)
           | None \<Rightarrow> (Call_done (Ok None), s))
      | Inl e \<Rightarrow> v3_control (C3_Error e) s)"

text \<open>One iteration of the loop of \<open>control\<close> after the control service answered.\<close>

definition v3_control_done :: "v3_Env \<Rightarrow> bool \<Rightarrow> ('e, 'io) MqttError + v3_ControlAckKind \<Rightarrow> v3_Inner
    \<Rightarrow> ('e, 'io) v3_call \<times> v3_Inner" where
  "v3_control_done env error res s =
     (case res of
        Inr kind \<Rightarrow>
          (case kind of
             CAK3_Ping \<Rightarrow> (Call_done (Ok (Some V3_PingResponse)), s)
           | CAK3_Subscribe codes packet_id \<Rightarrow>
               (Call_done (Ok (Some (V3_SubscribeAck packet_id codes))), s\<lparr>in3_inflight := in3_inflight s - {packet_id}\<rparr>)
           | CAK3_Unsubscribe packet_id \<Rightarrow>
               (Call_done (Ok (Some (V3_UnsubscribeAck packet_id))), s\<lparr>in3_inflight := in3_inflight s - {packet_id}\<rparr>)
           | CAK3_Disconnect \<Rightarrow> (Call_done (Ok None), s\<lparr>in3_sink := v3_close env (in3_sink s)\<rparr>)
           | CAK3_Closed \<Rightarrow> (Call_done (Ok None), s)
           | CAK3_Nothing \<Rightarrow> (Call_done (Ok None), s)
           | CAK3_PublishAck _ \<Rightarrow> (Call_done Panic, s))
      | Inl err \<Rightarrow>
          if error then (Call_done (Err err), s)
          else (case err of
                  ME_Service e \<Rightarrow> (Call_control (C3_Error e) True None, s)
                | _ \<Rightarrow> (Call_done (Err err), s)))"

text \<open>\<open>shutdown\<close> before it awaits: the sink is closed and the control service is told.\<close>

definition v3_shutdown :: "v3_Env \<Rightarrow> v3_Inner \<Rightarrow> ('e, 'io) v3_Control \<times> v3_Inner" where
  "v3_shutdown env s = (C3_Closed, s\<lparr>in3_sink := v3_close env (in3_sink s)\<rparr>)"

text \<open>The whole call, for services that answer by functions.\<close>

function v3_complete :: "v3_Env \<Rightarrow> (v3_Publish \<times> u32 \<Rightarrow> 'e + unit) \<Rightarrow> (('e, 'io) v3_Control \<Rightarrow> ('e, 'io) MqttError + v3_ControlAckKind)
    \<Rightarrow> ('e, 'io) v3_call \<Rightarrow> v3_Inner \<Rightarrow> (('e, 'io) MqttError, v3_Packet option) res \<times> v3_Inner" where
  "v3_complete env pub ctl (Call_done r) s = (r, s)"
| "v3_complete env pub ctl (Call_publish p packet_id) s =
     (let cs = v3_publish_done (pub p) packet_id s in v3_complete env pub ctl (fst cs) (snd cs))"
| "v3_complete env pub ctl (Call_control m error packet_id) s =
     (let cs = v3_control_done env error (ctl m) s in v3_complete env pub ctl (fst cs) (snd cs))"
  by pat_completeness auto

lemma v3_publish_done_rank: "call_rank (fst (v3_publish_done res packet_id s)) < 3"
  by (auto simp: v3_publish_done_def v3_control_def v3_is_error_def split: sum.splits option.splits)

lemma v3_control_done_rank: "call_rank (fst (v3_control_done env error res s)) < call_rank (Call_control m error packet_id)"
  by (auto simp: v3_control_done_def split: sum.splits v3_ControlAckKind.splits MqttError.splits)

termination v3_complete
  apply (relation "measure (\<lambda>(env, pub, ctl, c, s). call_rank c)")
    apply simp
  subgoal for env pub ctl p packet_id s cs
    using v3_publish_done_rank [of "pub p" packet_id s] by (simp add: case_prod_unfold)
  subgoal for env pub ctl m error packet_id s cs
    using v3_control_done_rank [of env error "ctl m" s m packet_id] by (simp add: case_prod_unfold del: call_rank.simps)
  done

definition v3_call :: "v3_DispatcherCfg \<Rightarrow> v3_Env \<Rightarrow> (v3_Publish \<times> u32 \<Rightarrow> 'e + unit)
    \<Rightarrow> (('e, 'io) v3_Control \<Rightarrow> ('e, 'io) MqttError + v3_ControlAckKind) \<Rightarrow> (v3_Packet, 'io) DispatchItem \<Rightarrow> v3_Inner
    \<Rightarrow> (('e, 'io) MqttError, v3_Packet option) res \<times> v3_Inner" where
  "v3_call cfg env pub ctl req s = (let (c, s') = v3_dispatch cfg env req s in v3_complete env pub ctl c s')"

section \<open>Calls in progress\<close>

text \<open>The identifier a call will acknowledge.\<close>

fun v3_call_ids :: "('e, 'io) v3_call \<Rightarrow> u16 list" where
  "v3_call_ids (Call_publish _ (Some i)) = [i]"
| "v3_call_ids (Call_control (C3_Subscribe m) _ _) = [sm3_packet_id m]"
| "v3_call_ids (Call_control (C3_Unsubscribe m) _ _) = [um3_packet_id m]"
| "v3_call_ids _ = []"

text \<open>A connection with its dispatcher: calls start, and continue in any order as the services answer.\<close>

record ('e, 'io) v3_server =
  sv3_inner :: v3_Inner
  sv3_calls :: "('e, 'io) v3_call list"

inductive v3_server_step :: "v3_DispatcherCfg \<Rightarrow> ('e, 'io) v3_server \<Rightarrow> ('e, 'io) v3_server \<Rightarrow> bool" for cfg where
  receive: "v3_dispatch cfg env req (sv3_inner r) = (c, s) \<Longrightarrow>
    v3_server_step cfg r (r\<lparr>sv3_inner := s, sv3_calls := c # sv3_calls r\<rparr>)"
| publish_answer: "sv3_calls r = pre @ Call_publish p i # post \<Longrightarrow> v3_publish_done res i (sv3_inner r) = (c, s) \<Longrightarrow>
    v3_server_step cfg r (r\<lparr>sv3_inner := s, sv3_calls := pre @ c # post\<rparr>)"
| control_answer: "sv3_calls r = pre @ Call_control m e i # post \<Longrightarrow> (\<And>a. res = Inr a \<Longrightarrow> v3_answer_of m a) \<Longrightarrow>
    v3_control_done env e res (sv3_inner r) = (c, s) \<Longrightarrow>
    v3_server_step cfg r (r\<lparr>sv3_inner := s, sv3_calls := pre @ c # post\<rparr>)"
| other: "v3_server_step cfg r (r\<lparr>sv3_inner := (sv3_inner r)\<lparr>in3_sink := sink\<rparr>\<rparr>)"

inductive v3_server_reach :: "v3_DispatcherCfg \<Rightarrow> ('e, 'io) v3_server \<Rightarrow> bool" for cfg where
  init: "v3_server_reach cfg \<lparr>sv3_inner = \<lparr>in3_sink = sink, in3_inflight = {}\<rparr>, sv3_calls = []\<rparr>"
| step: "v3_server_reach cfg r \<Longrightarrow> v3_server_step cfg r r' \<Longrightarrow> v3_server_reach cfg r'"

lemma v3_dispatch_ids:
  assumes "v3_dispatch cfg env req s = (c, s')"
  shows "in3_inflight s \<subseteq> in3_inflight s' \<and>
    (v3_call_ids c = [] \<or> (\<exists>i. v3_call_ids c = [i] \<and> i \<notin> in3_inflight s \<and> i \<in> in3_inflight s'))"
  using assms
proof (induction cfg env req s arbitrary: c s' rule: v3_dispatch.induct)
  case (1 cfg env publish sz s)
  then show ?case
    by (auto simp: v3_dispatch_publish_def v3_proto_error_def v3_control_def Let_def split: if_splits option.splits QoS.splits)
next
  case (2 cfg env packet_id sz s)
  then show ?case by (auto simp: v3_proto_error_def v3_control_def split: prod.splits res.splits)
next
  case (4 cfg env packet_id topic_filters sz s)
  then show ?case by (auto simp: v3_dispatch_filters_def v3_proto_error_def v3_control_def v3_SubscribeMsg_new_def split: if_splits)
next
  case (5 cfg env packet_id topic_filters sz s)
  then show ?case by (auto simp: v3_dispatch_filters_def v3_proto_error_def v3_control_def v3_UnsubscribeMsg_new_def split: if_splits)
qed (auto simp: v3_proto_error_def v3_control_def)

lemma v3_publish_done_ids:
  assumes "v3_publish_done res i s = (c, s')"
  shows "v3_call_ids c = [] \<and> in3_inflight s' = in3_inflight s - (if \<exists>u. res = Inr u then set_option i else {})"
  using assms by (auto simp: v3_publish_done_def v3_control_def split: sum.splits option.splits)

lemma v3_control_done_ids:
  assumes "v3_control_done env e res s = (c, s')" and "\<And>a. res = Inr a \<Longrightarrow> v3_answer_of m a"
  shows "\<exists>rel. in3_inflight s' = in3_inflight s - rel \<and> rel \<subseteq> set (v3_call_ids (Call_control m e i)) \<and> v3_call_ids c = []"
proof (cases res)
  case (Inl err)
  then show ?thesis using assms(1) by (intro exI [of _ "{}"]) (auto simp: v3_control_done_def split: if_splits MqttError.splits)
next
  case (Inr a)
  note ans = assms(2) [OF Inr]
  show ?thesis
  proof (cases "\<exists>codes p. a = CAK3_Subscribe codes p \<or> a = CAK3_Unsubscribe p")
    case True
    then obtain p where "in3_inflight s' = in3_inflight s - {p}" "v3_call_ids c = []" "p \<in> set (v3_call_ids (Call_control m e i))"
      using assms(1) Inr ans by (cases m) (auto simp: v3_control_done_def v3_UnsubscribeMsg_ack_def)
    then show ?thesis by (intro exI [of _ "{p}"]) simp
  next
    case False
    then show ?thesis using assms(1) Inr
      by (intro exI [of _ "{}"]) (auto simp: v3_control_done_def split: v3_ControlAckKind.splits)
  qed
qed

text \<open>The answers the services may give to a call.\<close>

inductive v3_answers :: "('e, 'io) v3_call \<Rightarrow> v3_Inner \<Rightarrow> ('e, 'io) v3_call \<Rightarrow> v3_Inner \<Rightarrow> bool" where
  publish: "v3_publish_done res i s = (c', s') \<Longrightarrow> v3_answers (Call_publish p i) s c' s'"
| control: "v3_control_done env e res s = (c', s') \<Longrightarrow> (\<And>a. res = Inr a \<Longrightarrow> v3_answer_of m a) \<Longrightarrow>
    v3_answers (Call_control m e i) s c' s'"

lemma v3_answers_ids:
  assumes "v3_answers c s c' s'"
  shows "\<exists>rel. rel \<subseteq> set (v3_call_ids c) \<and> in3_inflight s' = in3_inflight s - rel \<and>
    (v3_call_ids c' = [] \<or> v3_call_ids c' = v3_call_ids c \<and> rel = {})"
  using assms
proof cases
  case (publish res i p)
  show ?thesis using v3_publish_done_ids [OF publish(2)]
    by (intro exI [of _ "if \<exists>u. res = Inr u then set_option i else {}"]) (cases i; simp add: publish(1))
next
  case (control env e res m i)
  then show ?thesis using v3_control_done_ids [OF control(2), of m i] by blast
qed

interpretation server3: dispatcher in3_inflight v3_call_ids "\<lambda>s c s'. \<exists>env req. v3_dispatch cfg env req s = (c, s')" v3_answers for cfg
  by (unfold_locales, elim exE, erule v3_dispatch_ids, erule v3_answers_ids)

lemma v3_server_step_ok:
  "v3_server_step cfg r r' \<Longrightarrow> calls_ok v3_call_ids (in3_inflight (sv3_inner r)) (sv3_calls r) \<Longrightarrow>
   calls_ok v3_call_ids (in3_inflight (sv3_inner r')) (sv3_calls r')"
proof (induction rule: v3_server_step.induct)
  case (receive env req r c s)
  then show ?case using server3.start_ok [of cfg "sv3_inner r" c s] by auto
next
  case (publish_answer r pre p i post res c s)
  then show ?case using server3.answer_ok [OF v3_answers.publish [OF publish_answer(2)]] by simp
next
  case (control_answer r pre m e i post res env c s)
  then show ?case using server3.answer_ok [OF v3_answers.control [OF control_answer(3,2)], where pre = pre and post = post] by simp
qed simp

lemma v3_server_reach_ok:
  "v3_server_reach cfg r \<Longrightarrow> calls_ok v3_call_ids (in3_inflight (sv3_inner r)) (sv3_calls r)"
proof (induction rule: v3_server_reach.induct)
  case (init sink)
  show ?case by simp
qed (rule v3_server_step_ok)

section \<open>Properties\<close>

text \<open>The identifiers a response carries, and what a call that is given to the publish service will acknowledge.\<close>

fun v3_response_ids :: "v3_Packet \<Rightarrow> u16 list" where
  "v3_response_ids (V3_PublishAck i) = [i]"
| "v3_response_ids (V3_SubscribeAck i _) = [i]"
| "v3_response_ids (V3_UnsubscribeAck i) = [i]"
| "v3_response_ids _ = []"

lemma v3_answers_response:
  assumes "v3_answers c s (Call_done (Ok (Some pkt))) s'"
  shows "v3_response_ids pkt = v3_call_ids c"
  using assms
proof cases
  case (publish res i p)
  then show ?thesis by (cases i) (auto simp: v3_publish_done_def v3_control_def split: sum.splits)
next
  case (control env e res m i)
  then show ?thesis
    by (cases res; cases m) (auto simp: v3_control_done_def v3_UnsubscribeMsg_ack_def split: if_splits MqttError.splits v3_ControlAckKind.splits)
qed

lemma v3_dispatch_own_id:
  assumes "v3_dispatch cfg env req s = (Call_publish p i, s')"
  shows "i = pub3_packet_id (fst p)"
  using assms
proof (cases "(cfg, env, req, s)" rule: v3_dispatch.cases)
  case (1 cfg' env' publish sz s'')
  then show ?thesis using assms
    by (auto simp: v3_dispatch_publish_def v3_proto_error_def v3_control_def Let_def split: if_splits option.splits QoS.splits)
qed (auto simp: v3_proto_error_def v3_control_def v3_dispatch_filters_def split: prod.splits res.splits if_splits)

lemma v3_server_own_ids:
  "v3_server_reach cfg r \<Longrightarrow> Call_publish p i \<in> set (sv3_calls r) \<Longrightarrow> i = pub3_packet_id (fst p)"
proof (induction rule: v3_server_reach.induct)
  case (step r r')
  from step(2,3,4) show ?case
    by (induction rule: v3_server_step.induct)
      (auto dest!: v3_dispatch_own_id simp: v3_publish_done_def v3_control_def v3_control_done_def
        split: sum.splits option.splits if_splits MqttError.splits v3_ControlAckKind.splits)
qed simp

text \<open>C18: However the calls of a 3.1.1 server interleave and in whatever order its services answer, no two
  calls in progress have the same packet identifier, and every identifier of a call is recorded as
  in flight: a message is never given to the services twice at a time. A call of the publish service holds the identifier of its own
  message, and when a call ends with a response, the response carries exactly the identifier the call holds, which no other call
  in progress has. The publish service may answer anything; the control service answers with an error or with what the methods of the
  message can make (a subscription is acknowledged under its own identifier).\<close>

theorem v3_server_distinct_calls:
  assumes "v3_server_reach cfg r"
  shows "distinct (concat (map v3_call_ids (sv3_calls r))) \<and>
    set (concat (map v3_call_ids (sv3_calls r))) \<subseteq> in3_inflight (sv3_inner r) \<and>
    (\<forall>p i. Call_publish p i \<in> set (sv3_calls r) \<longrightarrow> i = pub3_packet_id (fst p)) \<and>
    (\<forall>pre c post pkt s'. sv3_calls r = pre @ c # post \<and> v3_answers c (sv3_inner r) (Call_done (Ok (Some pkt))) s' \<longrightarrow>
       v3_response_ids pkt = v3_call_ids c \<and>
       set (v3_response_ids pkt) \<inter> set (concat (map v3_call_ids (pre @ post))) = {})"
proof -
  have ok: "distinct (concat (map v3_call_ids (sv3_calls r)))" "set (concat (map v3_call_ids (sv3_calls r))) \<subseteq> in3_inflight (sv3_inner r)"
    using v3_server_reach_ok [OF assms] by (auto simp: calls_ok_def)
  have "v3_response_ids pkt = v3_call_ids c \<and> set (v3_response_ids pkt) \<inter> set (concat (map v3_call_ids (pre @ post))) = {}"
    if "sv3_calls r = pre @ c # post" "v3_answers c (sv3_inner r) (Call_done (Ok (Some pkt))) s'" for pre c post pkt s'
    using ok(1) v3_answers_response [OF that(2)] unfolding that(1) by auto
  with ok v3_server_own_ids [OF assms] show ?thesis by blast
qed

definition v3_server_sample :: "(unit, unit) v3_server" where
  "v3_server_sample =
     \<lparr>sv3_inner = \<lparr>in3_sink = v3_Shared_new False, in3_inflight = {5}\<rparr>,
      sv3_calls = [Call_publish ((v3_publish [0x61] [])\<lparr>pub3_packet_id := Some 5, pub3_qos := AtLeastOnce\<rparr>, 9) (Some 5)]\<rparr>"

theorem v3_server_distinct_calls_witness:
  "distinct (concat (map v3_call_ids (sv3_calls v3_server_sample))) \<and>
   (\<exists>pkt s'. v3_answers (hd (sv3_calls v3_server_sample)) (sv3_inner v3_server_sample) (Call_done (Ok (Some pkt))) s' \<and>
     v3_response_ids pkt = [5])"
proof -
  let ?cfg = "\<lparr>dc3_max_qos = ExactlyOnce, dc3_handle_qos_after_disconnect = None\<rparr>"
  let ?r = "\<lparr>sv3_inner = \<lparr>in3_sink = v3_Shared_new False, in3_inflight = {}\<rparr>, sv3_calls = []\<rparr> :: (unit, unit) v3_server"
  let ?req = "DI_Item (V3_Publish ((v3_publish [0x61] [])\<lparr>pub3_packet_id := Some 5, pub3_qos := AtLeastOnce\<rparr>)) 9"
  have "v3_server_step ?cfg ?r (?r\<lparr>sv3_inner := sv3_inner v3_server_sample, sv3_calls := hd (sv3_calls v3_server_sample) # sv3_calls ?r\<rparr>)"
    by (rule v3_server_step.receive [where env = "v3_env (v3_run_init False)" and req = ?req])
      (simp add: v3_dispatch_publish_def has_wildcard_def v3_publish_def v3_server_sample_def skip_after_disconnect_def v3_env_def Let_def)
  then have "v3_server_reach ?cfg v3_server_sample"
    by (intro v3_server_reach.step [OF v3_server_reach.init [of _ "v3_Shared_new False"]]) (simp add: v3_server_sample_def)
  note * = v3_server_distinct_calls [OF this]
  have calls: "sv3_calls v3_server_sample = [] @ hd (sv3_calls v3_server_sample) # []" "v3_call_ids (hd (sv3_calls v3_server_sample)) = [5]"
    by (simp_all add: v3_server_sample_def)
  obtain pkt s' where "v3_publish_done (Inr ()) (Some 5) (sv3_inner v3_server_sample) = (Call_done (Ok (Some pkt)) :: (unit, unit) v3_call, s')"
    by (simp add: v3_publish_done_def)
  then have ans: "v3_answers (hd (sv3_calls v3_server_sample)) (sv3_inner v3_server_sample) (Call_done (Ok (Some pkt))) s'"
    using v3_answers.publish [of "Inr ()" "Some 5"] by (simp add: v3_server_sample_def)
  moreover from * ans calls have "v3_response_ids pkt = [5]" by metis
  ultimately show ?thesis using * by blast
qed

lemma v3_dispatch_accepted:
  assumes "\<not> has_wildcard (pub3_topic publish)" and "pub3_packet_id publish = Some i" and "i \<notin> in3_inflight s"
    and "pub3_qos publish \<le> dc3_max_qos cfg" and "\<not> env_closed env"
  shows "v3_dispatch cfg env (DI_Item (V3_Publish publish) sz :: (v3_Packet, 'io) DispatchItem) s =
    (Call_publish (publish, sz) (Some i) :: ('e, 'io) v3_call, s\<lparr>in3_inflight := insert i (in3_inflight s)\<rparr>)"
  using assms by (auto simp: v3_dispatch_publish_def skip_after_disconnect_def Let_def)

text \<open>A QoS 1 or 2 PUBLISH that the 3.1.1 server accepts and whose handler succeeds is answered by one
  PUBACK with its identifier, and leaves the dispatcher as it was, so that the identifier can be
  used again.\<close>

theorem v3_call_publish_acked:
  fixes pub :: "v3_Publish \<times> u32 \<Rightarrow> 'e + unit" and ctl :: "('e, 'io) v3_Control \<Rightarrow> ('e, 'io) MqttError + v3_ControlAckKind"
  assumes "\<not> has_wildcard (pub3_topic publish)" and "pub3_packet_id publish = Some i" and "i \<notin> in3_inflight s"
    and "pub3_qos publish \<le> dc3_max_qos cfg" and "\<not> env_closed env" and "pub (publish, sz) = Inr ()"
  shows "v3_call cfg env pub ctl (DI_Item (V3_Publish publish) sz) s = (Ok (Some (V3_PublishAck i)), s)"
  using v3_dispatch_accepted [OF assms(1-5), where 'io = 'io and 'e = 'e] assms(3,6) by (simp add: v3_call_def v3_publish_done_def)

text \<open>The violations the dispatcher looks for in requests.\<close>

fun v3_violates :: "v3_DispatcherCfg \<Rightarrow> v3_Env \<Rightarrow> v3_Packet \<Rightarrow> v3_Inner \<Rightarrow> bool" where
  "v3_violates cfg env (V3_Publish p) s \<longleftrightarrow>
     has_wildcard (pub3_topic p) \<or> dc3_max_qos cfg < pub3_qos p \<or> (\<exists>i. pub3_packet_id p = Some i \<and> i \<in> in3_inflight s)"
| "v3_violates cfg env (V3_Subscribe i tfs) s \<longleftrightarrow>
     \<not> env_closed env \<and> ((\<exists>tf \<in> set tfs. \<not> topic_is_valid (fst tf)) \<or> i \<in> in3_inflight s)"
| "v3_violates cfg env (V3_Unsubscribe i tfs) s \<longleftrightarrow>
     \<not> env_closed env \<and> ((\<exists>tf \<in> set tfs. \<not> topic_is_valid tf) \<or> i \<in> in3_inflight s)"
| "v3_violates cfg env (V3_PublishAck i) s \<longleftrightarrow> ack_spec i (Ack_Publish i :: v3_Ack) (pending (in3_sink s)) = None"
| "v3_violates cfg env _ s \<longleftrightarrow> False"

lemma v3_dispatch_violation:
  assumes "v3_violates cfg env pkt s" and "v3_dispatch cfg env (DI_Item pkt sz) s = (c, s')"
    and "\<forall>p. pkt \<noteq> V3_PublishAck p"
  shows "(\<exists>e. c = Call_control (C3_ProtocolError (PE_ProtocolViolation e)) True None) \<and> in3_sink s' = in3_sink s"
  using assms
  by (cases "(cfg, env, pkt, s)" rule: v3_violates.cases)
    (auto simp: v3_dispatch_publish_def v3_dispatch_filters_def v3_proto_error_def v3_control_def v3_is_error_def
      generic_violation_def violation_def Let_def split: if_splits option.splits QoS.splits)

text \<open>C25: A request that violates the protocol (a wildcard in a topic name, an identifier in use, a quality
  of service that is not supported, a malformed topic filter) never reaches the publish handler: a
  control service that acknowledges every message ends the call without an answer to the peer and
  closes the connection.\<close>

theorem v3_call_violation_closes:
  fixes pub :: "v3_Publish \<times> u32 \<Rightarrow> 'e + unit"
  assumes "v3_violates cfg env pkt s" and "\<forall>p. pkt \<noteq> V3_PublishAck p"
  shows "\<exists>ids. v3_call cfg env pub (\<lambda>m. Inr (v3_Control_ack m)) (DI_Item pkt sz :: (v3_Packet, 'io) DispatchItem) s =
    (Ok None, \<lparr>in3_sink = v3_close env (in3_sink s), in3_inflight = ids\<rparr>)"
proof -
  obtain c :: "('e, 'io) v3_call" and s' where d: "v3_dispatch cfg env (DI_Item pkt sz) s = (c, s')" by fastforce
  from v3_dispatch_violation [OF assms(1) d assms(2)] obtain e
    where "c = Call_control (C3_ProtocolError (PE_ProtocolViolation e)) True None" "in3_sink s' = in3_sink s" by blast
  then show ?thesis using d by (cases s') (simp add: v3_call_def v3_control_done_def)
qed

theorem v3_call_violation_closes_witness:
  "\<exists>ids. v3_call \<lparr>dc3_max_qos = AtMostOnce, dc3_handle_qos_after_disconnect = None\<rparr> (v3_env (v3_run_init False))
     (\<lambda>_. Inr () :: unit + unit) (\<lambda>m :: (unit, unit) v3_Control. Inr (v3_Control_ack m))
     (DI_Item (V3_Publish ((v3_publish [0x61] [])\<lparr>pub3_packet_id := Some 5, pub3_qos := AtLeastOnce\<rparr>)) 9)
     \<lparr>in3_sink = v3_Shared_new False, in3_inflight = {}\<rparr> =
   (Ok None, \<lparr>in3_sink = v3_close (v3_env (v3_run_init False)) (v3_Shared_new False), in3_inflight = ids\<rparr>)"
  using v3_call_violation_closes
    [where cfg = "\<lparr>dc3_max_qos = AtMostOnce, dc3_handle_qos_after_disconnect = None\<rparr>" and env = "v3_env (v3_run_init False)"
      and pkt = "V3_Publish ((v3_publish [0x61] [])\<lparr>pub3_packet_id := Some 5, pub3_qos := AtLeastOnce\<rparr>)"
      and s = "\<lparr>in3_sink = v3_Shared_new False, in3_inflight = {}\<rparr>"] by simp

text \<open>A call of the 3.1.1 server always ends after at most three answers of the user's services: every
  answer lowers its rank, which starts at three at most; an error of the control service is
  reported to it once and never again.\<close>

theorem v3_call_terminates:
  "call_rank (fst (v3_dispatch cfg env req s) :: ('e, 'io) v3_call) \<le> 3 \<and>
   call_rank (fst (v3_publish_done res i s) :: ('e, 'io) v3_call) < call_rank (Call_publish p i :: ('e, 'io) v3_call) \<and>
   call_rank (fst (v3_control_done env error answer s) :: ('e, 'io) v3_call) < call_rank (Call_control m error j :: ('e, 'io) v3_call)"
proof -
  have "call_rank c \<le> 3" for c :: "('e, 'io) v3_call" by (cases c) auto
  then show ?thesis using v3_publish_done_rank v3_control_done_rank by (metis call_rank.simps(3))
qed

lemma v3_answer_not_publish: "\<not> v3_answer_of m (CAK3_PublishAck i)"
  by (cases m) (simp_all add: v3_UnsubscribeMsg_ack_def)

lemma v3_complete_no_panic:
  assumes "\<forall>m a. ctl m = Inr a \<longrightarrow> v3_answer_of m a" and "c \<noteq> Call_done Panic"
  shows "fst (v3_complete env pub ctl c s) \<noteq> Panic"
  using assms
proof (induction env pub ctl c s rule: v3_complete.induct)
  case (2 env pub ctl p packet_id s)
  then show ?case by (auto simp: v3_publish_done_def v3_control_def Let_def split: sum.splits option.splits)
next
  case (3 env pub ctl m error packet_id s)
  have "ctl m \<noteq> Inr (CAK3_PublishAck i)" for i using 3(2) v3_answer_not_publish by blast
  then have "fst (v3_control_done env error (ctl m) s) \<noteq> Call_done Panic"
    by (auto simp: v3_control_done_def split: sum.splits v3_ControlAckKind.splits MqttError.splits)
  then show ?case using 3 by (simp add: Let_def)
qed simp

lemma v3_dispatch_no_panic:
  assumes "\<forall>(i, tx, tp) \<in> set (sh_inflight (in3_sink s)). tx \<noteq> None \<or> sh_on_publish_ack (in3_sink s) \<and> tp = AckType_Publish"
  shows "fst (v3_dispatch cfg env req s) \<noteq> Call_done Panic"
proof -
  have ack: "fst (v3_pkt_ack env a (in3_sink s)) \<noteq> Panic" for a
    using ack3.pkt_ack_refines [where env = env and ack = a and s = "in3_sink s"] assms
    by (auto simp: v3_pkt_ack_def split: prod.splits res.splits)
  then have "v3_pkt_ack env a (in3_sink s) \<noteq> (Panic, x)" for a x by (metis fst_conv)
  then show ?thesis
    by (cases "(cfg, env, req, s)" rule: v3_dispatch.cases)
      (auto simp: v3_dispatch_publish_def v3_dispatch_filters_def v3_proto_error_def v3_control_def Let_def
        split: option.splits QoS.splits prod.splits res.splits)
qed

lemma v3_call_answers_no_panic:
  assumes "\<forall>m a. ctl m = Inr a \<longrightarrow> v3_answer_of m a"
    and "\<forall>(i, tx, tp) \<in> set (sh_inflight (in3_sink s)). tx \<noteq> None \<or> sh_on_publish_ack (in3_sink s) \<and> tp = AckType_Publish"
  shows "fst (v3_call cfg env pub ctl req s) \<noteq> Panic"
  unfolding v3_call_def case_prod_unfold Let_def
  by (intro v3_complete_no_panic assms(1) v3_dispatch_no_panic assms(2))

lemma v3_Control_ack_answer: "v3_answer_of m (v3_Control_ack m)"
  by (cases m) simp_all

end
