(* ===== verification/V3_Client.thy ===== *)
theory V3_Client
  imports V3_Dispatcher
begin

text \<open>
  The client dispatcher of MQTT 3.1.1 (\<open>src/v3/client/dispatcher.rs\<close>) and the messages of its control service
  (\<open>src/v3/client/control.rs\<close>).
\<close>

section \<open>Control messages\<close>

datatype ('e, 'io) v3c_Control =
    CC3_Publish v3_Publish
  | CC3_Closed
  | CC3_Error 'e
  | CC3_ProtocolError ProtocolError
  | CC3_PeerGone "'io option"

definition v3c_Publish_ack :: "v3_Publish \<Rightarrow> v3_ControlAckKind" where
  "v3c_Publish_ack p = (case pub3_packet_id p of Some packet_id \<Rightarrow> CAK3_PublishAck packet_id | None \<Rightarrow> CAK3_Nothing)"

fun v3c_Control_ack :: "('e, 'io) v3c_Control \<Rightarrow> v3_ControlAckKind" where
  "v3c_Control_ack (CC3_Publish p) = v3c_Publish_ack p"
| "v3c_Control_ack CC3_Closed = CAK3_Closed"
| "v3c_Control_ack (CC3_Error _) = CAK3_Disconnect"
| "v3c_Control_ack (CC3_ProtocolError _) = CAK3_Disconnect"
| "v3c_Control_ack (CC3_PeerGone _) = CAK3_Nothing"

text \<open>The answers that can be made from a message as it was given to the control service: \<open>Control::disconnect\<close> and the acknowledgements. (A
  service may also change the packet of a PUBLISH first, through \<open>packet_mut\<close>, and then acknowledge another identifier: \<open>v3c_makes\<close> in
  \<open>V3_Api\<close>.)\<close>

definition v3c_answer_of :: "('e, 'io) v3c_Control \<Rightarrow> v3_ControlAckKind \<Rightarrow> bool" where
  "v3c_answer_of m a \<longleftrightarrow> a = CAK3_Disconnect \<or> a = v3c_Control_ack m"

section \<open>The dispatcher\<close>

type_synonym ('e, 'io) v3c_call = "(v3_Publish \<times> u32, ('e, 'io) v3c_Control, v3_Packet, 'e, 'io) call"

text \<open>\<open>control\<close> makes one call only, so that the error flag of a call is not used.\<close>

definition v3c_control :: "('e, 'io) v3c_Control \<Rightarrow> v3_Inner \<Rightarrow> ('e, 'io) v3c_call \<times> v3_Inner" where
  "v3c_control msg s = (Call_control msg True None, s)"

definition v3c_protocol :: "ProtocolError \<Rightarrow> ('e, 'io) v3c_call" where
  "v3c_protocol e = Call_done (Err (ME_Handshake (HE_Protocol e)))"

definition v3c_dispatch_publish :: "v3_Publish \<Rightarrow> u32 \<Rightarrow> v3_Inner \<Rightarrow> ('e, 'io) v3c_call \<times> v3_Inner" where
  "v3c_dispatch_publish publish sz s =
     (case pub3_packet_id publish of
        Some pid \<Rightarrow>
          if pid \<in> in3_inflight s then
            (v3c_protocol (generic_violation ''PUBLISH received with packet id that is already in use [MQTT-2.2.1-3]''), s)
          else (Call_publish (publish, sz) (Some pid), s\<lparr>in3_inflight := insert pid (in3_inflight s)\<rparr>)
      | None \<Rightarrow> (Call_publish (publish, sz) None, s))"

definition v3c_ack :: "v3_Env \<Rightarrow> v3_Ack \<Rightarrow> v3_Inner \<Rightarrow> ('e, 'io) v3c_call \<times> v3_Inner" where
  "v3c_ack env ack s =
     (case v3_pkt_ack env ack (in3_sink s) of
        (Ok _, sink) \<Rightarrow> (Call_done (Ok None), s\<lparr>in3_sink := sink\<rparr>)
      | (Err e, sink) \<Rightarrow> (v3c_protocol e, s\<lparr>in3_sink := sink\<rparr>)
      | (Panic, sink) \<Rightarrow> (Call_done Panic, s\<lparr>in3_sink := sink\<rparr>))"

definition v3c_unexpected :: "v3_Packet \<Rightarrow> ('e, 'io) v3c_call" where
  "v3c_unexpected pkt = v3c_protocol (unexpected_packet (v3_packet_type pkt) ''Packet of the type is not expected from server'')"

fun v3c_dispatch :: "v3_Env \<Rightarrow> (v3_Packet, 'io) DispatchItem \<Rightarrow> v3_Inner \<Rightarrow> ('e, 'io) v3c_call \<times> v3_Inner" where
  "v3c_dispatch env (DI_Item (V3_Publish publish) sz) s = v3c_dispatch_publish publish sz s"
| "v3c_dispatch env (DI_Item (V3_PublishAck packet_id) sz) s = v3c_ack env (Ack_Publish packet_id) s"
| "v3c_dispatch env (DI_Item (V3_SubscribeAck packet_id status) sz) s = v3c_ack env (Ack_Subscribe (packet_id, status)) s"
| "v3c_dispatch env (DI_Item (V3_UnsubscribeAck packet_id) sz) s = v3c_ack env (Ack_Unsubscribe packet_id) s"
| "v3c_dispatch env (DI_Item V3_PingRequest sz) s = (v3c_unexpected V3_PingRequest, s)"
| "v3c_dispatch env (DI_Item V3_Disconnect sz) s = (v3c_unexpected V3_Disconnect, s)"
| "v3c_dispatch env (DI_Item (V3_Subscribe i tfs) sz) s = (v3c_unexpected (V3_Subscribe i tfs), s)"
| "v3c_dispatch env (DI_Item (V3_Unsubscribe i tfs) sz) s = (v3c_unexpected (V3_Unsubscribe i tfs), s)"
| "v3c_dispatch env (DI_Item _ sz) s = (Call_done (Ok None), s)"
| "v3c_dispatch env (DI_EncoderError err) s = v3c_control (CC3_ProtocolError (PE_Encode err)) s"
| "v3c_dispatch env (DI_DecoderError err) s = v3c_control (CC3_ProtocolError (PE_Decode err)) s"
| "v3c_dispatch env (DI_Disconnect err) s = v3c_control (CC3_PeerGone err) s"
| "v3c_dispatch env DI_KeepAliveTimeout s = v3c_control (CC3_ProtocolError PE_KeepAliveTimeout) s"
| "v3c_dispatch env DI_ReadTimeout s = v3c_control (CC3_ProtocolError PE_ReadTimeout) s"
| "v3c_dispatch env DI_WBackPressureEnabled s =
     (Call_done (Ok None), s\<lparr>in3_sink := sh_enable_wr_backpressure (in3_sink s)\<rparr>)"
| "v3c_dispatch env DI_WBackPressureDisabled s =
     (Call_done (Ok None), s\<lparr>in3_sink := sh_disable_wr_backpressure env (in3_sink s)\<rparr>)"

text \<open>\<open>publish_fn\<close> after the service answered: an error, the message was handled (\<open>Left\<close>), or it is handed back.\<close>

definition v3c_publish_done :: "'e + (unit + v3_Publish) \<Rightarrow> u16 option \<Rightarrow> v3_Inner \<Rightarrow> ('e, 'io) v3c_call \<times> v3_Inner" where
  "v3c_publish_done res packet_id s =
     (case res of
        Inl e \<Rightarrow> v3c_control (CC3_Error e) s
      | Inr (Inl _) \<Rightarrow>
          (case packet_id of
             Some packet_id \<Rightarrow>
               (Call_done (Ok (Some (V3_PublishAck packet_id))), s\<lparr>in3_inflight := in3_inflight s - {packet_id}\<rparr>)
           | None \<Rightarrow> (Call_done (Ok None), s))
      | Inr (Inr pkt) \<Rightarrow> v3c_control (CC3_Publish pkt) s)"

definition v3c_control_done :: "v3_Env \<Rightarrow> ('e, 'io) MqttError + v3_ControlAckKind \<Rightarrow> v3_Inner \<Rightarrow> ('e, 'io) v3c_call \<times> v3_Inner" where
  "v3c_control_done env res s =
     (case res of
        Inl err \<Rightarrow> (Call_done (Err err), s)
      | Inr kind \<Rightarrow>
          (case kind of
             CAK3_Ping \<Rightarrow> (Call_done (Ok (Some V3_PingResponse)), s)
           | CAK3_PublishAck packet_id \<Rightarrow>
               (Call_done (Ok (Some (V3_PublishAck packet_id))), s\<lparr>in3_inflight := in3_inflight s - {packet_id}\<rparr>)
           | CAK3_Subscribe _ _ \<Rightarrow> (Call_done Panic, s)
           | CAK3_Unsubscribe _ \<Rightarrow> (Call_done Panic, s)
           | CAK3_Disconnect \<Rightarrow> (Call_done (Ok None), s\<lparr>in3_sink := v3_close env (in3_sink s)\<rparr>)
           | CAK3_Closed \<Rightarrow> (Call_done (Ok None), s)
           | CAK3_Nothing \<Rightarrow> (Call_done (Ok None), s)))"

definition v3c_shutdown :: "v3_Env \<Rightarrow> v3_Inner \<Rightarrow> ('e, 'io) v3c_Control \<times> v3_Inner" where
  "v3c_shutdown env s = (CC3_Closed, s\<lparr>in3_sink := v3_close env (in3_sink s)\<rparr>)"

text \<open>The whole call: at most one answer of each service.\<close>

definition v3c_finish :: "v3_Env \<Rightarrow> (('e, 'io) v3c_Control \<Rightarrow> ('e, 'io) MqttError + v3_ControlAckKind)
    \<Rightarrow> ('e, 'io) v3c_call \<times> v3_Inner \<Rightarrow> (('e, 'io) MqttError, v3_Packet option) res \<times> v3_Inner" where
  "v3c_finish env ctl cs =
     (case cs of
        (Call_control m _ _, s) \<Rightarrow>
          (case v3c_control_done env (ctl m) s of (Call_done r, s') \<Rightarrow> (r, s') | (_, s') \<Rightarrow> (Panic, s'))
      | (Call_done r, s) \<Rightarrow> (r, s)
      | (Call_publish _ _, s) \<Rightarrow> (Panic, s))"

definition v3c_call :: "v3_Env \<Rightarrow> (v3_Publish \<times> u32 \<Rightarrow> 'e + (unit + v3_Publish))
    \<Rightarrow> (('e, 'io) v3c_Control \<Rightarrow> ('e, 'io) MqttError + v3_ControlAckKind) \<Rightarrow> (v3_Packet, 'io) DispatchItem \<Rightarrow> v3_Inner
    \<Rightarrow> (('e, 'io) MqttError, v3_Packet option) res \<times> v3_Inner" where
  "v3c_call env pub ctl req s =
     (case v3c_dispatch env req s of
        (Call_publish p i, s1) \<Rightarrow> v3c_finish env ctl (v3c_publish_done (pub p) i s1)
      | cs \<Rightarrow> v3c_finish env ctl cs)"

section \<open>Calls in progress\<close>

fun v3c_call_ids :: "('e, 'io) v3c_call \<Rightarrow> u16 list" where
  "v3c_call_ids (Call_publish _ (Some i)) = [i]"
| "v3c_call_ids (Call_control (CC3_Publish p) _ _) = (case pub3_packet_id p of Some i \<Rightarrow> [i] | None \<Rightarrow> [])"
| "v3c_call_ids _ = []"

text \<open>A request becomes a call.\<close>

definition v3c_starts :: "v3_Inner \<Rightarrow> ('e, 'io) v3c_call \<Rightarrow> v3_Inner \<Rightarrow> bool" where
  "v3c_starts s c s' \<longleftrightarrow> (\<exists>env req. v3c_dispatch env req s = (c, s'))"

text \<open>The services answer: a publish handler that does not take a message hands back the same one, and the control service
  does not change its identifier.\<close>

inductive v3c_answers :: "('e, 'io) v3c_call \<Rightarrow> v3_Inner \<Rightarrow> ('e, 'io) v3c_call \<Rightarrow> v3_Inner \<Rightarrow> bool" where
  publish: "v3c_publish_done res i s = (c', s') \<Longrightarrow> (\<And>p'. res = Inr (Inr p') \<Longrightarrow> pub3_packet_id p' = i) \<Longrightarrow>
    v3c_answers (Call_publish p i) s c' s'"
| control: "v3c_control_done env res s = (c', s') \<Longrightarrow> (\<And>a. res = Inr a \<Longrightarrow> v3c_answer_of m a) \<Longrightarrow>
    v3c_answers (Call_control m e i) s c' s'"

lemma v3c_dispatch_ids:
  assumes "v3c_dispatch env req s = (c, s')"
  shows "in3_inflight s \<subseteq> in3_inflight s' \<and>
    (v3c_call_ids c = [] \<or> (\<exists>i. v3c_call_ids c = [i] \<and> i \<notin> in3_inflight s \<and> i \<in> in3_inflight s'))"
  using assms
  by (cases "(env, req, s)" rule: v3c_dispatch.cases)
    (auto simp: v3c_dispatch_publish_def v3c_ack_def v3c_protocol_def v3c_unexpected_def v3c_control_def
      split: option.splits if_splits prod.splits res.splits)

lemma v3c_answers_ids:
  assumes "v3c_answers c s c' s'"
  shows "\<exists>rel. rel \<subseteq> set (v3c_call_ids c) \<and> in3_inflight s' = in3_inflight s - rel \<and>
    (v3c_call_ids c' = [] \<or> v3c_call_ids c' = v3c_call_ids c \<and> rel = {})"
  using assms
proof cases
  case (publish res i p)
  then show ?thesis
    by (intro exI [of _ "if res = Inr (Inl ()) then set_option i else {}"])
      (cases i; auto simp: v3c_publish_done_def v3c_control_def split: sum.splits)
next
  case (control env res m e i)
  then show ?thesis
    by (intro exI [of _ "if \<exists>a. res = Inr a \<and> a \<noteq> CAK3_Disconnect then set (v3c_call_ids c) else {}"])
      (cases m; auto simp: v3c_control_done_def v3c_answer_of_def v3c_Publish_ack_def split: sum.splits option.splits)
qed

interpretation client3: dispatcher in3_inflight v3c_call_ids v3c_starts v3c_answers
proof unfold_locales
  show "in3_inflight s \<subseteq> in3_inflight s' \<and>
      (v3c_call_ids c = [] \<or> (\<exists>i. v3c_call_ids c = [i] \<and> i \<notin> in3_inflight s \<and> i \<in> in3_inflight s'))"
    if "v3c_starts s c s'" for s s' and c :: "('e, 'io) v3c_call"
    using that v3c_dispatch_ids unfolding v3c_starts_def by blast
qed (rule v3c_answers_ids)

section \<open>Properties\<close>

text \<open>However the calls of a 3.1.1 client interleave and in whatever order its services answer, as long as they keep the identifier of a
  message, no two calls
  in progress have the same packet identifier, and every identifier of a call is recorded as in
  flight, so that a second PUBLISH with it is refused.\<close>

theorem v3c_calls_distinct:
  fixes calls :: "('e, 'io) v3c_call list"
  assumes "calls_reach v3c_starts v3c_answers (\<lambda>s s'. \<exists>sink. s' = s\<lparr>in3_sink := sink\<rparr>) \<lparr>in3_sink = sink, in3_inflight = {}\<rparr> (s, calls)"
  shows "distinct (concat (map v3c_call_ids calls)) \<and> set (concat (map v3c_call_ids calls)) \<subseteq> in3_inflight s"
proof -
  have "calls_ok v3c_call_ids (in3_inflight (fst (s, calls))) (snd (s, calls))"
    by (rule client3.reach_ok [OF assms]) auto
  then show ?thesis by (simp add: calls_ok_def)
qed

lemma v3c_sample_starts:
  fixes c :: "(unit, unit) v3c_call"
  assumes "i \<notin> in3_inflight s"
    and "c = Call_publish ((v3_publish [0x61] [])\<lparr>pub3_packet_id := Some i, pub3_qos := AtLeastOnce\<rparr>, 9) (Some i)"
  shows "v3c_starts s c (s\<lparr>in3_inflight := insert i (in3_inflight s)\<rparr>)"
  unfolding v3c_starts_def
  by (intro exI [of _ "v3_env (v3_run_init True)"]
      exI [of _ "DI_Item (V3_Publish ((v3_publish [0x61] [])\<lparr>pub3_packet_id := Some i, pub3_qos := AtLeastOnce\<rparr>)) 9"])
    (simp add: v3c_dispatch_publish_def assms)

text \<open>A QoS 1 or 2 PUBLISH that reaches a 3.1.1 client is acknowledged with its identifier, whether a
  handler took it or it was handed back and the control service acknowledged it, and the identifier
  is free again afterwards.\<close>

theorem v3c_call_publish_acked:
  fixes pub :: "v3_Publish \<times> u32 \<Rightarrow> 'e + (unit + v3_Publish)"
    and ctl :: "('e, 'io) v3c_Control \<Rightarrow> ('e, 'io) MqttError + v3_ControlAckKind"
  assumes "pub3_packet_id publish = Some i" and "i \<notin> in3_inflight s"
    and "pub (publish, sz) = Inr (Inl ()) \<or>
      (\<exists>p. pub (publish, sz) = Inr (Inr p) \<and> pub3_packet_id p = Some i \<and> ctl (CC3_Publish p) = Inr (v3c_Publish_ack p))"
  shows "v3c_call env pub ctl (DI_Item (V3_Publish publish) sz) s = (Ok (Some (V3_PublishAck i)), s)"
  using assms
  by (auto simp: v3c_call_def v3c_dispatch_publish_def v3c_publish_done_def v3c_control_def v3c_finish_def v3c_control_done_def
      v3c_Publish_ack_def)

theorem v3c_call_publish_acked_witness:
  "v3c_call (v3_env (v3_run_init True)) (\<lambda>(p, _). Inr (Inr p) :: unit + (unit + v3_Publish))
     (\<lambda>m :: (unit, unit) v3c_Control. Inr (v3c_Control_ack m))
     (DI_Item (V3_Publish ((v3_publish [0x61] [])\<lparr>pub3_packet_id := Some 5, pub3_qos := AtLeastOnce\<rparr>)) 9)
     \<lparr>in3_sink = v3_Shared_new True, in3_inflight = {}\<rparr> =
   (Ok (Some (V3_PublishAck 5)), \<lparr>in3_sink = v3_Shared_new True, in3_inflight = {}\<rparr>)"
  by (rule v3c_call_publish_acked) simp_all

end
