(* ===== verification/V5_Control.thy ===== *)
theory V5_Control
  imports V5_Codec Dispatch
begin

text \<open>
  The messages and answers of the MQTT 5 services: \<open>src/v5/control.rs\<close> (server), \<open>src/v5/client/control.rs\<close>
  (client) and \<open>src/v5/publish.rs\<close>. Closures that update user properties are functions on property lists.
\<close>

section \<open>Answers\<close>

record v5_ControlAck =
  ca5_packet :: "v5_Packet option"
  ca5_disconnect :: bool

text \<open>\<open>PublishAck\<close> of \<open>publish.rs\<close>, the answer of a publish service (no packet identifier).\<close>

record v5_PubAck =
  pa5_reason_code :: PublishAckReason
  pa5_properties :: "UserProperty list"
  pa5_reason_string :: "bytes option"

definition v5_PubAck_new :: "PublishAckReason \<Rightarrow> v5_PubAck" where
  "v5_PubAck_new code = \<lparr>pa5_reason_code = code, pa5_properties = [], pa5_reason_string = None\<rparr>"

definition v5_PubAck_reason_code :: "PublishAckReason \<Rightarrow> v5_PubAck \<Rightarrow> v5_PubAck" where
  "v5_PubAck_reason_code reason_code a = a\<lparr>pa5_reason_code := reason_code\<rparr>"

definition v5_PubAck_properties :: "(UserProperty list \<Rightarrow> UserProperty list) \<Rightarrow> v5_PubAck \<Rightarrow> v5_PubAck" where
  "v5_PubAck_properties f a = a\<lparr>pa5_properties := f (pa5_properties a)\<rparr>"

definition v5_PubAck_reason :: "bytes \<Rightarrow> v5_PubAck \<Rightarrow> v5_PubAck" where
  "v5_PubAck_reason reason a = a\<lparr>pa5_reason_string := Some reason\<rparr>"

definition v5_Publish_ack :: "v5_Publish \<times> u32 \<Rightarrow> v5_PubAck" where
  "v5_Publish_ack _ = \<lparr>pa5_reason_code = PA_Success, pa5_properties = [], pa5_reason_string = None\<rparr>"

definition v5_Publish_take_payload :: "v5_Publish \<times> u32 \<Rightarrow> bytes \<times> v5_Publish \<times> u32" where
  "v5_Publish_take_payload p = (pub5_payload (fst p), (fst p)\<lparr>pub5_payload := []\<rparr>, snd p)"

text \<open>The PUBACK both dispatchers make from it.\<close>

definition v5_puback :: "u16 \<Rightarrow> v5_PubAck \<Rightarrow> v5_PublishAck" where
  "v5_puback i ack = \<lparr>ack5_packet_id = i, ack5_reason_code = pa5_reason_code ack, ack5_properties = pa5_properties ack,
     ack5_reason_string = pa5_reason_string ack\<rparr>"

definition v5_disconnect_ack :: "v5_Disconnect \<Rightarrow> v5_ControlAck" where
  "v5_disconnect_ack pkt = \<lparr>ca5_packet = Some (V5_Disconnect pkt), ca5_disconnect = True\<rparr>"

text \<open>\<open>v5::disconnect\<close>.\<close>

definition v5_disconnect_unsupported :: v5_ControlAck where
  "v5_disconnect_unsupported = v5_disconnect_ack (v5_Disconnect_new DR_ImplementationSpecificError)"

section \<open>Subscribe and unsubscribe messages\<close>

record v5_SubscribeMsg =
  sm5_packet :: v5_Subscribe
  sm5_result :: v5_SubscribeAck
  sm5_size :: u32

definition v5_SubscribeMsg_new :: "v5_Subscribe \<Rightarrow> u32 \<Rightarrow> v5_SubscribeMsg" where
  "v5_SubscribeMsg_new packet sz =
     \<lparr>sm5_packet = packet,
      sm5_result = \<lparr>sack5_packet_id = sub5_packet_id packet, sack5_properties = [], sack5_reason_string = None,
        sack5_status = map (\<lambda>_. SA_UnspecifiedError) [0..<length (sub5_topic_filters packet)]\<rparr>,
      sm5_size = sz\<rparr>"

definition v5_SubscribeMsg_ack_reason :: "bytes \<Rightarrow> v5_SubscribeMsg \<Rightarrow> v5_SubscribeMsg" where
  "v5_SubscribeMsg_ack_reason reason m = m\<lparr>sm5_result := (sm5_result m)\<lparr>sack5_reason_string := Some reason\<rparr>\<rparr>"

definition v5_SubscribeMsg_ack_properties :: "(UserProperty list \<Rightarrow> UserProperty list) \<Rightarrow> v5_SubscribeMsg \<Rightarrow> v5_SubscribeMsg" where
  "v5_SubscribeMsg_ack_properties f m =
     m\<lparr>sm5_result := (sm5_result m)\<lparr>sack5_properties := f (sack5_properties (sm5_result m))\<rparr>\<rparr>"

definition v5_SubscribeMsg_ack :: "v5_SubscribeMsg \<Rightarrow> v5_ControlAck" where
  "v5_SubscribeMsg_ack m = \<lparr>ca5_packet = Some (V5_SubscribeAck (sm5_result m)), ca5_disconnect = False\<rparr>"

text \<open>\<open>SubscribeIter::next_unsafe\<close>: the filter with its options and the position of the status the item can set.\<close>

definition v5_SubscribeIter_next :: "v5_SubscribeMsg \<Rightarrow> nat
    \<Rightarrow> (DecodeError, (((bytes \<times> SubscriptionOptions) \<times> nat) \<times> nat) option) res" where
  "v5_SubscribeIter_next m entry =
     (if entry < length (sub5_topic_filters (sm5_packet m)) then
        if entry < length (sack5_status (sm5_result m)) then
          Ok (Some ((sub5_topic_filters (sm5_packet m) ! entry, entry), entry + 1))
        else Panic
      else Ok None)"

definition v5_SubscribeMsg_set :: "nat \<Rightarrow> SubscribeAckReason \<Rightarrow> v5_SubscribeMsg \<Rightarrow> v5_SubscribeMsg" where
  "v5_SubscribeMsg_set entry status m =
     m\<lparr>sm5_result := (sm5_result m)\<lparr>sack5_status := (sack5_status (sm5_result m))[entry := status]\<rparr>\<rparr>"

definition v5_Subscription_fail :: "nat \<Rightarrow> SubscribeAckReason \<Rightarrow> v5_SubscribeMsg \<Rightarrow> v5_SubscribeMsg" where
  "v5_Subscription_fail entry status = v5_SubscribeMsg_set entry status"

definition v5_Subscription_confirm :: "nat \<Rightarrow> QoS \<Rightarrow> v5_SubscribeMsg \<Rightarrow> v5_SubscribeMsg" where
  "v5_Subscription_confirm entry qos =
     v5_SubscribeMsg_set entry
       (case qos of AtMostOnce \<Rightarrow> SA_GrantedQos0 | AtLeastOnce \<Rightarrow> SA_GrantedQos1 | ExactlyOnce \<Rightarrow> SA_GrantedQos2)"

record v5_UnsubscribeMsg =
  um5_packet :: v5_Unsubscribe
  um5_result :: v5_UnsubscribeAck
  um5_size :: u32

definition v5_UnsubscribeMsg_new :: "v5_Unsubscribe \<Rightarrow> u32 \<Rightarrow> v5_UnsubscribeMsg" where
  "v5_UnsubscribeMsg_new packet sz =
     \<lparr>um5_packet = packet,
      um5_result = \<lparr>sack5_packet_id = unsub5_packet_id packet, sack5_properties = [], sack5_reason_string = None,
        sack5_status = map (\<lambda>_. UA_Success) [0..<length (unsub5_topic_filters packet)]\<rparr>,
      um5_size = sz\<rparr>"

definition v5_UnsubscribeMsg_ack_reason :: "bytes \<Rightarrow> v5_UnsubscribeMsg \<Rightarrow> v5_UnsubscribeMsg" where
  "v5_UnsubscribeMsg_ack_reason reason m = m\<lparr>um5_result := (um5_result m)\<lparr>sack5_reason_string := Some reason\<rparr>\<rparr>"

definition v5_UnsubscribeMsg_ack_properties :: "(UserProperty list \<Rightarrow> UserProperty list) \<Rightarrow> v5_UnsubscribeMsg \<Rightarrow> v5_UnsubscribeMsg" where
  "v5_UnsubscribeMsg_ack_properties f m =
     m\<lparr>um5_result := (um5_result m)\<lparr>sack5_properties := f (sack5_properties (um5_result m))\<rparr>\<rparr>"

definition v5_UnsubscribeMsg_ack :: "v5_UnsubscribeMsg \<Rightarrow> v5_ControlAck" where
  "v5_UnsubscribeMsg_ack m = \<lparr>ca5_packet = Some (V5_UnsubscribeAck (um5_result m)), ca5_disconnect = False\<rparr>"

definition v5_UnsubscribeIter_next :: "v5_UnsubscribeMsg \<Rightarrow> nat \<Rightarrow> (DecodeError, ((bytes \<times> nat) \<times> nat) option) res" where
  "v5_UnsubscribeIter_next m entry =
     (if entry < length (unsub5_topic_filters (um5_packet m)) then
        if entry < length (sack5_status (um5_result m)) then
          Ok (Some ((unsub5_topic_filters (um5_packet m) ! entry, entry), entry + 1))
        else Panic
      else Ok None)"

definition v5_UnsubscribeItem_fail :: "nat \<Rightarrow> UnsubscribeAckReason \<Rightarrow> v5_UnsubscribeMsg \<Rightarrow> v5_UnsubscribeMsg" where
  "v5_UnsubscribeItem_fail entry status m =
     m\<lparr>um5_result := (um5_result m)\<lparr>sack5_status := (sack5_status (um5_result m))[entry := status]\<rparr>\<rparr>"

definition v5_UnsubscribeItem_success :: "nat \<Rightarrow> v5_UnsubscribeMsg \<Rightarrow> v5_UnsubscribeMsg" where
  "v5_UnsubscribeItem_success entry = v5_UnsubscribeItem_fail entry UA_Success"

section \<open>Errors\<close>

text \<open>\<open>Error<E>\<close> and \<open>ProtocolError\<close>: an error with the DISCONNECT packet that will report it.\<close>

record 'err v5_ErrorMsg =
  em5_err :: 'err
  em5_pkt :: v5_Disconnect

definition v5_Error_new :: "'e \<Rightarrow> 'e v5_ErrorMsg" where
  "v5_Error_new err = \<lparr>em5_err = err, em5_pkt = v5_Disconnect_new DR_ImplementationSpecificError\<rparr>"

definition v5_ErrorMsg_reason_string :: "bytes \<Rightarrow> 'err v5_ErrorMsg \<Rightarrow> 'err v5_ErrorMsg" where
  "v5_ErrorMsg_reason_string reason m = m\<lparr>em5_pkt := (em5_pkt m)\<lparr>dis5_reason_string := Some reason\<rparr>\<rparr>"

definition v5_ErrorMsg_server_reference :: "bytes \<Rightarrow> 'err v5_ErrorMsg \<Rightarrow> 'err v5_ErrorMsg" where
  "v5_ErrorMsg_server_reference reference m = m\<lparr>em5_pkt := (em5_pkt m)\<lparr>dis5_server_reference := Some reference\<rparr>\<rparr>"

definition v5_ErrorMsg_properties :: "(UserProperty list \<Rightarrow> UserProperty list) \<Rightarrow> 'err v5_ErrorMsg \<Rightarrow> 'err v5_ErrorMsg" where
  "v5_ErrorMsg_properties f m =
     m\<lparr>em5_pkt := (em5_pkt m)\<lparr>dis5_user_properties := f (dis5_user_properties (em5_pkt m))\<rparr>\<rparr>"

definition v5_Error_ack :: "DisconnectReasonCode \<Rightarrow> 'e v5_ErrorMsg \<Rightarrow> v5_ControlAck" where
  "v5_Error_ack reason m = v5_disconnect_ack ((em5_pkt m)\<lparr>dis5_reason_code := reason\<rparr>)"

definition v5_Error_ack_with :: "('e \<Rightarrow> v5_Disconnect \<Rightarrow> v5_Disconnect) \<Rightarrow> 'e v5_ErrorMsg \<Rightarrow> v5_ControlAck" where
  "v5_Error_ack_with f m = v5_disconnect_ack (f (em5_err m) (em5_pkt m))"

definition v5_protocol_reason :: "ProtocolError \<Rightarrow> DisconnectReasonCode" where
  "v5_protocol_reason err =
     (case err of
        PE_Decode DE_InvalidLength \<Rightarrow> DR_MalformedPacket
      | PE_Decode MaxSizeExceeded \<Rightarrow> DR_PacketTooLarge
      | PE_KeepAliveTimeout \<Rightarrow> DR_KeepAliveTimeout
      | PE_ProtocolViolation e \<Rightarrow> violation_reason e
      | PE_Encode _ \<Rightarrow> DR_ImplementationSpecificError
      | _ \<Rightarrow> DR_ImplementationSpecificError)"

lemma v5_protocol_reason_simps [simp]:
  "v5_protocol_reason (PE_Decode e) =
     (if e = DE_InvalidLength then DR_MalformedPacket
      else if e = MaxSizeExceeded then DR_PacketTooLarge else DR_ImplementationSpecificError)"
  "v5_protocol_reason PE_KeepAliveTimeout = DR_KeepAliveTimeout"
  "v5_protocol_reason PE_ReadTimeout = DR_ImplementationSpecificError"
  "v5_protocol_reason (PE_Encode ee) = DR_ImplementationSpecificError"
  "v5_protocol_reason (violation reason msg) = reason"
  "v5_protocol_reason (generic_violation msg) = DR_ProtocolError"
  "v5_protocol_reason (unexpected_packet tp msg) = DR_ProtocolError"
  by (cases e; simp add: v5_protocol_reason_def violation_def generic_violation_def unexpected_packet_def)+

definition v5_ProtocolError_new :: "ProtocolError \<Rightarrow> ProtocolError v5_ErrorMsg" where
  "v5_ProtocolError_new err = \<lparr>em5_err = err, em5_pkt = v5_Disconnect_new (v5_protocol_reason err)\<rparr>"

definition v5_ProtocolError_reason_code :: "DisconnectReasonCode \<Rightarrow> ProtocolError v5_ErrorMsg \<Rightarrow> ProtocolError v5_ErrorMsg" where
  "v5_ProtocolError_reason_code reason m = m\<lparr>em5_pkt := (em5_pkt m)\<lparr>dis5_reason_code := reason\<rparr>\<rparr>"

definition v5_ProtocolError_ack :: "ProtocolError v5_ErrorMsg \<Rightarrow> v5_ControlAck" where
  "v5_ProtocolError_ack m = v5_disconnect_ack (em5_pkt m)"

definition v5_ProtocolError_ack_and_error :: "ProtocolError v5_ErrorMsg \<Rightarrow> v5_ControlAck \<times> ProtocolError" where
  "v5_ProtocolError_ack_and_error m = (v5_disconnect_ack (em5_pkt m), em5_err m)"

section \<open>Server control messages\<close>

datatype ('e, 'io) v5_Control =
    C5_Auth v5_Auth u32
  | C5_Ping
  | C5_Disconnect v5_Disconnect u32
  | C5_Subscribe v5_SubscribeMsg
  | C5_Unsubscribe v5_UnsubscribeMsg
  | C5_WrBackpressure bool
  | C5_Closed
  | C5_Error "'e v5_ErrorMsg"
  | C5_ProtocolError "ProtocolError v5_ErrorMsg"
  | C5_PeerGone "'io option"

definition v5_Control_disconnect :: v5_ControlAck where
  "v5_Control_disconnect = v5_disconnect_ack
     \<lparr>dis5_reason_code = DR_NormalDisconnection, dis5_session_expiry_interval_secs = None, dis5_server_reference = None,
      dis5_reason_string = None, dis5_user_properties = []\<rparr>"

definition v5_Control_disconnect_with :: "v5_Disconnect \<Rightarrow> v5_ControlAck" where
  "v5_Control_disconnect_with pkt = v5_disconnect_ack pkt"

definition v5_Auth_ack :: "v5_Auth \<Rightarrow> v5_ControlAck" where
  "v5_Auth_ack response = \<lparr>ca5_packet = Some (V5_Auth response), ca5_disconnect = False\<rparr>"

definition v5_Ping_ack :: v5_ControlAck where
  "v5_Ping_ack = \<lparr>ca5_packet = Some V5_PingResponse, ca5_disconnect = False\<rparr>"

definition v5_Disconnect_ack :: v5_ControlAck where
  "v5_Disconnect_ack = \<lparr>ca5_packet = None, ca5_disconnect = True\<rparr>"

definition v5_WrBackpressure_ack :: v5_ControlAck where
  "v5_WrBackpressure_ack = \<lparr>ca5_packet = None, ca5_disconnect = False\<rparr>"

definition v5_Closed_ack :: v5_ControlAck where
  "v5_Closed_ack = \<lparr>ca5_packet = None, ca5_disconnect = False\<rparr>"

definition v5_PeerGone_ack :: v5_ControlAck where
  "v5_PeerGone_ack = \<lparr>ca5_packet = None, ca5_disconnect = True\<rparr>"

text \<open>\<open>PeerGone::take\<close>.\<close>

definition v5_PeerGone_take :: "'io option \<Rightarrow> 'io option \<times> 'io option" where
  "v5_PeerGone_take err = (err, None)"

fun v5_Control_ack :: "('e, 'io) v5_Control \<Rightarrow> v5_ControlAck" where
  "v5_Control_ack (C5_Auth _ _) = v5_disconnect_unsupported"
| "v5_Control_ack C5_Ping = v5_Ping_ack"
| "v5_Control_ack (C5_Disconnect _ _) = v5_Disconnect_ack"
| "v5_Control_ack (C5_Subscribe msg) = v5_SubscribeMsg_ack msg"
| "v5_Control_ack (C5_Unsubscribe msg) = v5_UnsubscribeMsg_ack msg"
| "v5_Control_ack (C5_WrBackpressure _) = v5_WrBackpressure_ack"
| "v5_Control_ack C5_Closed = v5_Closed_ack"
| "v5_Control_ack (C5_Error _) = v5_disconnect_unsupported"
| "v5_Control_ack (C5_ProtocolError msg) = v5_ProtocolError_ack msg"
| "v5_Control_ack (C5_PeerGone _) = v5_PeerGone_ack"

section \<open>Client control messages\<close>

datatype ('e, 'io) v5c_Control =
    CC5_Publish v5_Publish u32
  | CC5_Disconnect v5_Disconnect u32
  | CC5_Error "'e v5_ErrorMsg"
  | CC5_ProtocolError "ProtocolError v5_ErrorMsg"
  | CC5_Closed
  | CC5_PeerGone "'io option"

definition v5c_Control_disconnect :: "v5_Disconnect \<Rightarrow> v5_ControlAck" where
  "v5c_Control_disconnect pkt = v5_disconnect_ack pkt"

definition v5c_Publish_ack_qos0 :: v5_ControlAck where
  "v5c_Publish_ack_qos0 = \<lparr>ca5_packet = None, ca5_disconnect = False\<rparr>"

definition v5c_Publish_ack_with :: "PublishAckReason \<Rightarrow> UserProperty list \<Rightarrow> bytes option \<Rightarrow> v5_Publish \<Rightarrow> v5_ControlAck" where
  "v5c_Publish_ack_with reason_code properties reason_string p =
     \<lparr>ca5_packet = map_option (\<lambda>packet_id. V5_PublishAck
         \<lparr>ack5_packet_id = packet_id, ack5_reason_code = reason_code, ack5_properties = properties,
          ack5_reason_string = reason_string\<rparr>) (pub5_packet_id p),
      ca5_disconnect = False\<rparr>"

definition v5c_Publish_ack :: "PublishAckReason \<Rightarrow> v5_Publish \<Rightarrow> v5_ControlAck" where
  "v5c_Publish_ack reason_code p = v5c_Publish_ack_with reason_code [] None p"

definition v5c_Publish_into_inner :: "PublishAckReason \<Rightarrow> v5_Publish \<Rightarrow> v5_ControlAck \<times> v5_Publish" where
  "v5c_Publish_into_inner reason_code p = (v5c_Publish_ack reason_code p, p)"

fun v5c_Control_ack :: "('e, 'io) v5c_Control \<Rightarrow> v5_ControlAck" where
  "v5c_Control_ack (CC5_Publish _ _) = v5_disconnect_unsupported"
| "v5c_Control_ack (CC5_Disconnect _ _) = v5_Disconnect_ack"
| "v5c_Control_ack CC5_Closed = v5_Closed_ack"
| "v5c_Control_ack (CC5_Error _) = v5_disconnect_unsupported"
| "v5c_Control_ack (CC5_ProtocolError msg) = v5_ProtocolError_ack msg"
| "v5c_Control_ack (CC5_PeerGone _) = v5_PeerGone_ack"

section \<open>Subscriptions a service builds\<close>

text \<open>The messages a control service can make from a SUBSCRIBE packet through the public interface.\<close>

inductive v5_sub_msg :: "v5_Subscribe \<Rightarrow> u32 \<Rightarrow> v5_SubscribeMsg \<Rightarrow> bool" for packet sz where
  new: "v5_sub_msg packet sz (v5_SubscribeMsg_new packet sz)"
| fail: "v5_sub_msg packet sz m \<Longrightarrow> v5_SubscribeIter_next m entry = Ok (Some ((tf, i), n)) \<Longrightarrow>
    v5_sub_msg packet sz (v5_Subscription_fail i status m)"
| confirm: "v5_sub_msg packet sz m \<Longrightarrow> v5_SubscribeIter_next m entry = Ok (Some ((tf, i), n)) \<Longrightarrow>
    v5_sub_msg packet sz (v5_Subscription_confirm i qos m)"
| ack_reason: "v5_sub_msg packet sz m \<Longrightarrow> v5_sub_msg packet sz (v5_SubscribeMsg_ack_reason reason m)"
| ack_properties: "v5_sub_msg packet sz m \<Longrightarrow> v5_sub_msg packet sz (v5_SubscribeMsg_ack_properties f m)"

inductive v5_unsub_msg :: "v5_Unsubscribe \<Rightarrow> u32 \<Rightarrow> v5_UnsubscribeMsg \<Rightarrow> bool" for packet sz where
  new: "v5_unsub_msg packet sz (v5_UnsubscribeMsg_new packet sz)"
| fail: "v5_unsub_msg packet sz m \<Longrightarrow> v5_UnsubscribeIter_next m entry = Ok (Some ((tf, i), n)) \<Longrightarrow>
    v5_unsub_msg packet sz (v5_UnsubscribeItem_fail i status m)"
| success: "v5_unsub_msg packet sz m \<Longrightarrow> v5_UnsubscribeIter_next m entry = Ok (Some ((tf, i), n)) \<Longrightarrow>
    v5_unsub_msg packet sz (v5_UnsubscribeItem_success i m)"
| ack_reason: "v5_unsub_msg packet sz m \<Longrightarrow> v5_unsub_msg packet sz (v5_UnsubscribeMsg_ack_reason reason m)"
| ack_properties: "v5_unsub_msg packet sz m \<Longrightarrow> v5_unsub_msg packet sz (v5_UnsubscribeMsg_ack_properties f m)"

lemma v5_sub_msg_shape:
  "v5_sub_msg packet sz m \<Longrightarrow> sm5_packet m = packet \<and> sack5_packet_id (sm5_result m) = sub5_packet_id packet \<and>
   length (sack5_status (sm5_result m)) = length (sub5_topic_filters packet)"
  by (induction rule: v5_sub_msg.induct)
    (simp_all add: v5_SubscribeMsg_new_def v5_Subscription_fail_def v5_Subscription_confirm_def v5_SubscribeMsg_set_def
      v5_SubscribeMsg_ack_reason_def v5_SubscribeMsg_ack_properties_def)

lemma v5_unsub_msg_shape:
  "v5_unsub_msg packet sz m \<Longrightarrow> um5_packet m = packet \<and> sack5_packet_id (um5_result m) = unsub5_packet_id packet \<and>
   length (sack5_status (um5_result m)) = length (unsub5_topic_filters packet)"
  by (induction rule: v5_unsub_msg.induct)
    (simp_all add: v5_UnsubscribeMsg_new_def v5_UnsubscribeItem_fail_def v5_UnsubscribeItem_success_def
      v5_UnsubscribeMsg_ack_reason_def v5_UnsubscribeMsg_ack_properties_def)

text \<open>Whatever a control service does with a SUBSCRIBE or UNSUBSCRIBE message through the public
  interface, the acknowledgement it makes carries the identifier of the request and exactly one
  reason code for each topic filter, and iterating over the message never goes out of range: the
  iterator gives every filter once, in order, with the position of its own reason code.\<close>

theorem v5_sub_ack_shape:
  "(v5_sub_msg sub sz m \<longrightarrow>
      (\<exists>a. ca5_packet (v5_SubscribeMsg_ack m) = Some (V5_SubscribeAck a) \<and> sack5_packet_id a = sub5_packet_id sub \<and>
         length (sack5_status a) = length (sub5_topic_filters sub)) \<and>
      (\<forall>n. v5_SubscribeIter_next m n =
         Ok (if n < length (sub5_topic_filters sub) then Some ((sub5_topic_filters sub ! n, n), n + 1) else None))) \<and>
   (v5_unsub_msg unsub sz m' \<longrightarrow>
      (\<exists>a. ca5_packet (v5_UnsubscribeMsg_ack m') = Some (V5_UnsubscribeAck a) \<and> sack5_packet_id a = unsub5_packet_id unsub \<and>
         length (sack5_status a) = length (unsub5_topic_filters unsub)) \<and>
      (\<forall>n. v5_UnsubscribeIter_next m' n =
         Ok (if n < length (unsub5_topic_filters unsub) then Some ((unsub5_topic_filters unsub ! n, n), n + 1) else None)))"
  using v5_sub_msg_shape [of sub sz m] v5_unsub_msg_shape [of unsub sz m']
  by (simp add: v5_SubscribeMsg_ack_def v5_UnsubscribeMsg_ack_def v5_SubscribeIter_next_def v5_UnsubscribeIter_next_def)

definition v5_sub_sample :: v5_Subscribe where
  "v5_sub_sample = \<lparr>sub5_packet_id = 7, sub5_id = None, sub5_user_properties = [],
     sub5_topic_filters = [([0x61], SubscriptionOptions_default)]\<rparr>"

end
