(* ===== verification/V5_Dispatcher.thy ===== *)
theory V5_Dispatcher
  imports V5_Sink Topic V5_Control
begin

text \<open>
  The server dispatcher of MQTT 5 (\<open>src/v5/dispatcher.rs\<close>). The user's services are parameters: their
  answers are arguments of \<open>v5_publish_done\<close> and \<open>v5_control_done\<close>, the code after the awaits. Type \<open>'t\<close> is the
  error of the publish service; its two conversions are fields of the configuration. Packet
  identifiers are \<open>NonZeroU16\<close> in the source, which passes 0 for \<open>None\<close>.
\<close>

section \<open>State\<close>

record ('t, 'e) v5_DispatcherCfg =
  dc5_handle_qos_after_disconnect :: "QoS option"
  dc5_try_from :: "'t \<Rightarrow> 'e + v5_PubAck"
  dc5_from :: "'t \<Rightarrow> 'e"

record v5_Inner =
  in5_sink :: v5_Shared
  in5_inflight :: "u16 set"
  in5_aliases :: "u16 \<rightharpoonup> bytes"

definition v5_Inner_new :: "v5_Shared \<Rightarrow> v5_Inner" where
  "v5_Inner_new sink = \<lparr>in5_sink = sink, in5_inflight = {}, in5_aliases = Map.empty\<rparr>"

text \<open>The control message of a call comes with a flag: \<open>True\<close> for the report of a control service's own
  error, which \<open>control\<close> makes inside the handling of that error.\<close>

type_synonym ('e, 'io) v5_call = "(v5_Publish \<times> u32, ('e, 'io) v5_Control \<times> bool, v5_Packet, 'e, 'io) call"

definition v5_is_error :: "('e, 'io) v5_Control \<Rightarrow> bool" where
  "v5_is_error c = (case c of C5_Error _ \<Rightarrow> True | C5_ProtocolError _ \<Rightarrow> True | _ \<Rightarrow> False)"

definition v5_control :: "('e, 'io) v5_Control \<Rightarrow> u16 option \<Rightarrow> v5_Inner \<Rightarrow> ('e, 'io) v5_call \<times> v5_Inner" where
  "v5_control pkt packet_id s = (Call_control (pkt, False) (v5_is_error pkt) packet_id, s)"

definition v5_proto_error :: "ProtocolError \<Rightarrow> v5_Inner \<Rightarrow> ('e, 'io) v5_call \<times> v5_Inner" where
  "v5_proto_error e = v5_control (C5_ProtocolError (v5_ProtocolError_new e)) None"

definition v5_encode_packet :: "v5_Env \<Rightarrow> v5_Packet \<Rightarrow> v5_Inner \<Rightarrow> v5_Inner" where
  "v5_encode_packet env pkt s = s\<lparr>in5_sink := snd (sh_encode_packet env pkt (in5_sink s))\<rparr>"

section \<open>Topic aliases\<close>

text \<open>The block both dispatchers have under \<open>handle topic aliases\<close>: an alias without a topic is looked up, an
  alias with a topic is recorded. \<open>alias_max\<close> is the largest alias the peer may use.\<close>

definition v5_topic_alias :: "u16 \<Rightarrow> string \<Rightarrow> v5_Publish \<Rightarrow> (u16 \<rightharpoonup> bytes) \<Rightarrow> ProtocolError + v5_Publish \<times> (u16 \<rightharpoonup> bytes)" where
  "v5_topic_alias alias_max msg publish aliases =
     (case pp5_topic_alias (pub5_properties publish) of
        None \<Rightarrow> Inr (publish, aliases)
      | Some alias \<Rightarrow>
          if pub5_topic publish = [] then
            (case aliases alias of
               Some aliased_topic \<Rightarrow> Inr (publish\<lparr>pub5_topic := aliased_topic\<rparr>, aliases)
             | None \<Rightarrow> Inl (violation DR_TopicAliasInvalid ''Unknown topic alias''))
          else
            (case aliases alias of
               Some topic \<Rightarrow>
                 Inr (publish, if topic \<noteq> pub5_topic publish then aliases(alias \<mapsto> pub5_topic publish) else aliases)
             | None \<Rightarrow>
                 if alias_max < alias then Inl (generic_violation msg)
                 else Inr (publish, aliases(alias \<mapsto> pub5_topic publish))))"

section \<open>The dispatcher\<close>

text \<open>The checks on a PUBLISH with an identifier: \<open>Inl (Some e)\<close> reports an error, \<open>Inl None\<close> is a duplicate
  identifier.\<close>

definition v5_publish_checks :: "v5_Publish \<Rightarrow> v5_Inner \<Rightarrow> ProtocolError option + v5_Inner" where
  "v5_publish_checks publish s =
     (case pub5_packet_id publish of
        None \<Rightarrow> Inr s
      | Some pid \<Rightarrow>
          if sh_receive_max (in5_sink s) \<noteq> 0 \<and> unat (sh_receive_max (in5_sink s)) \<le> card (in5_inflight s) then
            Inl (Some (violation DR_ReceiveMaximumExceeded ''Number of in-flight messages exceeds set maximum [MQTT-3.3.4-7]''))
          else if sh_max_qos (in5_sink s) < pub5_qos publish then
            Inl (Some (violation DR_QosNotSupported ''PUBLISH QoS is higher than supported [MQTT-3.2.2-11]''))
          else if pub5_retain publish \<and> \<not> v5_retain_available (sh_codec (in5_sink s)) then
            Inl (Some (violation DR_RetainNotSupported ''RETAIN is not supported [MQTT-3.2.2-14]''))
          else if pid \<in> in5_inflight s then Inl None
          else Inr (s\<lparr>in5_inflight := insert pid (in5_inflight s)\<rparr>))"

definition v5_id_in_use :: "u16 option \<Rightarrow> v5_Env \<Rightarrow> v5_Inner \<Rightarrow> v5_Inner" where
  "v5_id_in_use packet_id env s =
     (case packet_id of
        Some pid \<Rightarrow> v5_encode_packet env
          (V5_PublishAck (v5_PublishAck_default\<lparr>ack5_packet_id := pid, ack5_reason_code := PA_PacketIdentifierInUse\<rparr>)) s
      | None \<Rightarrow> s)"

definition v5_dispatch_publish :: "('t, 'e) v5_DispatcherCfg \<Rightarrow> v5_Env \<Rightarrow> v5_Publish \<Rightarrow> u32 \<Rightarrow> v5_Inner
    \<Rightarrow> ('e, 'io) v5_call \<times> v5_Inner" where
  "v5_dispatch_publish cfg env publish sz s =
     (if has_wildcard (pub5_topic publish) then
        v5_proto_error (generic_violation ''PUBLISH packet's topic name contains wildcard character [MQTT-3.3.2-2]'') s
      else
        (case v5_publish_checks publish s of
           Inl (Some e) \<Rightarrow> v5_proto_error e s
         | Inl None \<Rightarrow> (Call_done (Ok None), v5_id_in_use (pub5_packet_id publish) env s)
         | Inr s1 \<Rightarrow>
             (case v5_topic_alias (sh_topic_alias_max (in5_sink s1))
                 ''Topic alias is greater than max allowed [MQTT-3.2.2-17]'' publish (in5_aliases s1) of
                Inl e \<Rightarrow> v5_proto_error e s1
              | Inr (publish', aliases) \<Rightarrow>
                  let s2 = s1\<lparr>in5_aliases := aliases\<rparr> in
                  if skip_after_disconnect (env_closed env) (dc5_handle_qos_after_disconnect cfg) (pub5_qos publish') then
                    (Call_done (Ok None), s2)
                  else (Call_publish (publish', sz) (pub5_packet_id publish), s2))))"

text \<open>The SUBSCRIBE and UNSUBSCRIBE branches from the check of the filters on.\<close>

definition v5_dispatch_filters :: "v5_Env \<Rightarrow> bytes list \<Rightarrow> ProtocolError option \<Rightarrow> u16 \<Rightarrow> v5_Packet \<Rightarrow> ('e, 'io) v5_Control
    \<Rightarrow> v5_Inner \<Rightarrow> ('e, 'io) v5_call \<times> v5_Inner" where
  "v5_dispatch_filters env filters refusal packet_id in_use msg s =
     (if env_closed env then (Call_done (Ok None), s)
      else if \<exists>tf \<in> set filters. \<not> topic_is_valid tf then
        v5_proto_error (generic_violation ''Topic filter is malformed [MQTT-4.7.1-*]'') s
      else
        (case refusal of
           Some e \<Rightarrow> v5_proto_error e s
         | None \<Rightarrow>
             if packet_id \<in> in5_inflight s then (Call_done (Ok None), v5_encode_packet env in_use s)
             else v5_control msg (Some packet_id) (s\<lparr>in5_inflight := insert packet_id (in5_inflight s)\<rparr>)))"

definition v5_sub_id_refused :: "v5_Subscribe \<Rightarrow> v5_Inner \<Rightarrow> ProtocolError option" where
  "v5_sub_id_refused pkt s =
     (if sub5_id pkt \<noteq> None \<and> \<not> v5_sub_ids_available (sh_codec (in5_sink s)) then
        Some (violation DR_SubscriptionIdentifiersNotSupported ''Subscription Identifiers are not supported'')
      else None)"

definition v5_suback_in_use :: "v5_Subscribe \<Rightarrow> v5_SubscribeAck" where
  "v5_suback_in_use pkt = \<lparr>sack5_packet_id = sub5_packet_id pkt, sack5_properties = [], sack5_reason_string = None,
     sack5_status = map (\<lambda>_. SA_PacketIdentifierInUse) (sub5_topic_filters pkt)\<rparr>"

definition v5_unsuback_in_use :: "v5_Unsubscribe \<Rightarrow> v5_UnsubscribeAck" where
  "v5_unsuback_in_use pkt = \<lparr>sack5_packet_id = unsub5_packet_id pkt, sack5_properties = [], sack5_reason_string = None,
     sack5_status = map (\<lambda>_. UA_PacketIdentifierInUse) (unsub5_topic_filters pkt)\<rparr>"

definition v5_dispatch_ack :: "v5_Env \<Rightarrow> v5_Ack \<Rightarrow> v5_Inner \<Rightarrow> ('e, 'io) v5_call \<times> v5_Inner" where
  "v5_dispatch_ack env ack s =
     (case v5_pkt_ack env ack (in5_sink s) of
        (Ok _, sink) \<Rightarrow> (Call_done (Ok None), s\<lparr>in5_sink := sink\<rparr>)
      | (Err e, sink) \<Rightarrow> v5_proto_error e (s\<lparr>in5_sink := sink\<rparr>)
      | (Panic, sink) \<Rightarrow> (Call_done Panic, s\<lparr>in5_sink := sink\<rparr>))"

fun v5_dispatch :: "('t, 'e) v5_DispatcherCfg \<Rightarrow> v5_Env \<Rightarrow> (v5_Packet, 'io) DispatchItem \<Rightarrow> v5_Inner
    \<Rightarrow> ('e, 'io) v5_call \<times> v5_Inner" where
  "v5_dispatch cfg env (DI_Item (V5_Publish publish) sz) s = v5_dispatch_publish cfg env publish sz s"
| "v5_dispatch cfg env (DI_Item (V5_PublishAck packet) sz) s = v5_dispatch_ack env (Ack_Publish packet) s"
| "v5_dispatch cfg env (DI_Item (V5_Auth pkt) sz) s =
     (if env_closed env then (Call_done (Ok None), s) else v5_control (C5_Auth pkt sz) None s)"
| "v5_dispatch cfg env (DI_Item V5_PingRequest sz) s = v5_control C5_Ping None s"
| "v5_dispatch cfg env (DI_Item (V5_Disconnect pkt) sz) s = v5_control (C5_Disconnect pkt sz) None s"
| "v5_dispatch cfg env (DI_Item (V5_Subscribe pkt) sz) s =
     v5_dispatch_filters env (map fst (sub5_topic_filters pkt)) (v5_sub_id_refused pkt s) (sub5_packet_id pkt)
       (V5_SubscribeAck (v5_suback_in_use pkt)) (C5_Subscribe (v5_SubscribeMsg_new pkt sz)) s"
| "v5_dispatch cfg env (DI_Item (V5_Unsubscribe pkt) sz) s =
     v5_dispatch_filters env (unsub5_topic_filters pkt) None (unsub5_packet_id pkt)
       (V5_UnsubscribeAck (v5_unsuback_in_use pkt)) (C5_Unsubscribe (v5_UnsubscribeMsg_new pkt sz)) s"
| "v5_dispatch cfg env (DI_Item _ sz) s = (Call_done (Ok None), s)"
| "v5_dispatch cfg env (DI_EncoderError err) s = v5_proto_error (PE_Encode err) s"
| "v5_dispatch cfg env DI_KeepAliveTimeout s = v5_proto_error PE_KeepAliveTimeout s"
| "v5_dispatch cfg env DI_ReadTimeout s = v5_proto_error PE_ReadTimeout s"
| "v5_dispatch cfg env (DI_DecoderError err) s = v5_proto_error (PE_Decode err) s"
| "v5_dispatch cfg env (DI_Disconnect err) s = v5_control (C5_PeerGone err) None s"
| "v5_dispatch cfg env DI_WBackPressureEnabled s =
     v5_control (C5_WrBackpressure True) None (s\<lparr>in5_sink := sh_enable_wr_backpressure (in5_sink s)\<rparr>)"
| "v5_dispatch cfg env DI_WBackPressureDisabled s =
     v5_control (C5_WrBackpressure False) None (s\<lparr>in5_sink := sh_disable_wr_backpressure env (in5_sink s)\<rparr>)"

definition v5_release :: "u16 option \<Rightarrow> v5_Inner \<Rightarrow> v5_Inner" where
  "v5_release packet_id s = s\<lparr>in5_inflight := in5_inflight s - set_option packet_id\<rparr>"

text \<open>The end of \<open>publish_fn\<close> (the same in both dispatchers): the identifier is free, the PUBACK is the answer.\<close>

definition v5_publish_acked :: "v5_PubAck \<Rightarrow> u16 option \<Rightarrow> v5_Inner \<Rightarrow> (('e, 'io) MqttError, v5_Packet option) res \<times> v5_Inner" where
  "v5_publish_acked ack packet_id s =
     (case packet_id of
        Some i \<Rightarrow> (Ok (Some (V5_PublishAck (v5_puback i ack))), v5_release (Some i) s)
      | None \<Rightarrow> (Ok None, s))"

definition v5_publish_done :: "('t, 'e) v5_DispatcherCfg \<Rightarrow> 't + v5_PubAck \<Rightarrow> u16 option \<Rightarrow> v5_Inner
    \<Rightarrow> ('e, 'io) v5_call \<times> v5_Inner" where
  "v5_publish_done cfg res packet_id s =
     (case (case res of
              Inr ack \<Rightarrow> Inr ack
            | Inl e \<Rightarrow> if packet_id \<noteq> None then dc5_try_from cfg e else Inl (dc5_from cfg e)) of
        Inr ack \<Rightarrow> map_prod Call_done (\<lambda>s. s) (v5_publish_acked ack packet_id s)
      | Inl e \<Rightarrow> v5_control (C5_Error (v5_Error_new e)) None s)"

definition v5_drop :: "v5_Inner \<Rightarrow> v5_Inner" where
  "v5_drop s = s\<lparr>in5_sink := v5_drop_sink (in5_sink s)\<rparr>"

text \<open>\<open>control\<close> once an answer of the control service is there: an answer to an error report is sent right
  away, every other answer is the response of the call.\<close>

definition v5_control_answered :: "v5_Env \<Rightarrow> bool \<Rightarrow> v5_ControlAck \<Rightarrow> v5_Inner \<Rightarrow> (('e, 'io) MqttError, v5_Packet option) res \<times> v5_Inner" where
  "v5_control_answered env error result s =
     (let s1 = (case ca5_packet result of Some pkt \<Rightarrow> if error then v5_encode_packet env pkt s else s | None \<Rightarrow> s);
          s2 = (if ca5_disconnect result then v5_drop s1 else s1) in
      (Ok (if error then None else ca5_packet result), s2))"

definition v5_control_done :: "v5_Env \<Rightarrow> bool \<Rightarrow> bool \<Rightarrow> u16 option \<Rightarrow> ('e, 'io) MqttError + v5_ControlAck \<Rightarrow> v5_Inner
    \<Rightarrow> ('e, 'io) v5_call \<times> v5_Inner" where
  "v5_control_done env nested error packet_id res s =
     (case res of
        Inr result \<Rightarrow> map_prod Call_done (\<lambda>s. s) (v5_control_answered env error result (v5_release packet_id s))
      | Inl err \<Rightarrow>
          if nested then (Call_done (Err err), s)
          else if error then (Call_done (Err err), v5_drop s)
          else (case err of
                  ME_Service e \<Rightarrow> (Call_control (C5_Error (v5_Error_new e), True) True None, s)
                | _ \<Rightarrow> (Call_done (Err err), s)))"

definition v5_shutdown :: "v5_Inner \<Rightarrow> ('e, 'io) v5_Control \<times> v5_Inner" where
  "v5_shutdown s = (C5_Closed, v5_drop s)"

text \<open>The whole call, for services that answer by functions.\<close>

function v5_complete :: "('t, 'e) v5_DispatcherCfg \<Rightarrow> v5_Env \<Rightarrow> (v5_Publish \<times> u32 \<Rightarrow> 't + v5_PubAck)
    \<Rightarrow> (('e, 'io) v5_Control \<Rightarrow> ('e, 'io) MqttError + v5_ControlAck) \<Rightarrow> ('e, 'io) v5_call \<Rightarrow> v5_Inner
    \<Rightarrow> (('e, 'io) MqttError, v5_Packet option) res \<times> v5_Inner" where
  "v5_complete cfg env pub ctl (Call_done r) s = (r, s)"
| "v5_complete cfg env pub ctl (Call_publish p packet_id) s =
     (let cs = v5_publish_done cfg (pub p) packet_id s in v5_complete cfg env pub ctl (fst cs) (snd cs))"
| "v5_complete cfg env pub ctl (Call_control m error packet_id) s =
     (let cs = v5_control_done env (snd m) error packet_id (ctl (fst m)) s in v5_complete cfg env pub ctl (fst cs) (snd cs))"
  by pat_completeness auto

lemma v5_publish_done_rank: "call_rank (fst (v5_publish_done cfg res packet_id s)) < 3"
  by (auto simp: v5_publish_done_def v5_control_def v5_is_error_def v5_publish_acked_def split: sum.splits option.splits)

lemma v5_control_done_rank:
  "call_rank (fst (v5_control_done env nested error packet_id res s)) < call_rank (Call_control m error i)"
  by (auto simp: v5_control_done_def v5_control_answered_def Let_def split: sum.splits MqttError.splits)

termination v5_complete
  apply (relation "measure (\<lambda>(cfg, env, pub, ctl, c, s). call_rank c)")
    apply simp
  subgoal for cfg env pub ctl p packet_id s cs
    using v5_publish_done_rank [of cfg "pub p" packet_id s] by (simp add: case_prod_unfold)
  subgoal for cfg env pub ctl m error packet_id s cs
    using v5_control_done_rank [of env "snd m" error packet_id "ctl (fst m)" s m packet_id]
    by (simp add: case_prod_unfold del: call_rank.simps)
  done

definition v5_call :: "('t, 'e) v5_DispatcherCfg \<Rightarrow> v5_Env \<Rightarrow> (v5_Publish \<times> u32 \<Rightarrow> 't + v5_PubAck)
    \<Rightarrow> (('e, 'io) v5_Control \<Rightarrow> ('e, 'io) MqttError + v5_ControlAck) \<Rightarrow> (v5_Packet, 'io) DispatchItem \<Rightarrow> v5_Inner
    \<Rightarrow> (('e, 'io) MqttError, v5_Packet option) res \<times> v5_Inner" where
  "v5_call cfg env pub ctl req s = (let cs = v5_dispatch cfg env req s in v5_complete cfg env pub ctl (fst cs) (snd cs))"

section \<open>Lemmas: topic aliases\<close>

text \<open>The table a peer can build: aliases up to the maximum, for topics that are names.\<close>

definition aliases_ok :: "u16 \<Rightarrow> (u16 \<rightharpoonup> bytes) \<Rightarrow> bool" where
  "aliases_ok alias_max aliases \<longleftrightarrow>
     (\<forall>a t. aliases a = Some t \<longrightarrow> a \<le> alias_max \<and> t \<noteq> [] \<and> \<not> has_wildcard t)"

text \<open>A message that is given to the publish service: with an alias, its topic is known.\<close>

definition publish_topic_ok :: "v5_Publish \<Rightarrow> bool" where
  "publish_topic_ok p \<longleftrightarrow>
     \<not> has_wildcard (pub5_topic p) \<and> (pp5_topic_alias (pub5_properties p) \<noteq> None \<longrightarrow> pub5_topic p \<noteq> [])"

lemma aliases_ok_upd:
  "aliases_ok alias_max aliases \<Longrightarrow> a \<le> alias_max \<Longrightarrow> t \<noteq> [] \<Longrightarrow> \<not> has_wildcard t \<Longrightarrow> aliases_ok alias_max (aliases(a \<mapsto> t))"
  by (simp add: aliases_ok_def)

lemma aliases_okD: "aliases_ok alias_max aliases \<Longrightarrow> aliases a = Some t \<Longrightarrow> a \<le> alias_max \<and> t \<noteq> [] \<and> \<not> has_wildcard t"
  by (simp add: aliases_ok_def)

lemma v5_topic_alias_ok:
  assumes "v5_topic_alias alias_max msg publish aliases = Inr (publish', aliases')" and "aliases_ok alias_max aliases"
    and "\<not> has_wildcard (pub5_topic publish)"
  shows "aliases_ok alias_max aliases' \<and> publish_topic_ok publish'"
  using assms
  by (auto simp: v5_topic_alias_def publish_topic_ok_def split: option.splits if_splits
      intro: aliases_ok_upd dest: aliases_okD)

lemma aliases_ok_finite: "aliases_ok alias_max aliases \<Longrightarrow> dom aliases \<subseteq> {..alias_max}"
  by (auto simp: aliases_ok_def)

text \<open>The topic an alias stands for after some messages: the last one that was sent with it.\<close>

definition last_topic :: "v5_Publish list \<Rightarrow> u16 \<Rightarrow> bytes option" where
  "last_topic ps a =
     map_option pub5_topic
       (find (\<lambda>p. pp5_topic_alias (pub5_properties p) = Some a \<and> pub5_topic p \<noteq> []) (rev ps))"

lemma find_append: "find P (xs @ ys) = (case find P xs of Some x \<Rightarrow> Some x | None \<Rightarrow> find P ys)"
  by (induction xs) auto

lemma last_topic_Nil [simp]: "last_topic [] a = None"
  by (simp add: last_topic_def)

lemma last_topic_append: "last_topic (ps @ qs) a = (case last_topic qs a of Some t \<Rightarrow> Some t | None \<Rightarrow> last_topic ps a)"
  by (auto simp: last_topic_def find_append split: option.splits)

lemma v5_topic_alias_table:
  assumes "v5_topic_alias alias_max msg p aliases = Inr (p', aliases')"
  shows "aliases' a = (case last_topic [p] a of Some t \<Rightarrow> Some t | None \<Rightarrow> aliases a)"
  using assms by (auto simp: v5_topic_alias_def last_topic_def split: option.splits if_splits)

definition v5_aliased :: "u16 \<Rightarrow> bytes \<Rightarrow> v5_Publish" where
  "v5_aliased a topic = (v5_publish topic [])\<lparr>pub5_properties := v5_PublishProperties_default\<lparr>pp5_topic_alias := Some a\<rparr>\<rparr>"

section \<open>Calls in progress\<close>

text \<open>The identifier a call holds.\<close>

fun v5_call_ids :: "('e, 'io) v5_call \<Rightarrow> u16 list" where
  "v5_call_ids (Call_publish _ (Some i)) = [i]"
| "v5_call_ids (Call_control _ _ (Some i)) = [i]"
| "v5_call_ids _ = []"

fun v5_publish_ids :: "('e, 'io) v5_call \<Rightarrow> u16 list" where
  "v5_publish_ids (Call_publish _ (Some i)) = [i]"
| "v5_publish_ids _ = []"

record ('e, 'io) v5_server =
  sv5_inner :: v5_Inner
  sv5_calls :: "('e, 'io) v5_call list"

text \<open>Calls start, and continue in any order as the services answer; between them the sink may do
  anything that keeps the limits of the connection.\<close>

inductive v5_server_step :: "('t, 'e) v5_DispatcherCfg \<Rightarrow> ('e, 'io) v5_server \<Rightarrow> ('e, 'io) v5_server \<Rightarrow> bool" for cfg where
  receive: "v5_dispatch cfg env req (sv5_inner r) = (c, s) \<Longrightarrow>
    v5_server_step cfg r (r\<lparr>sv5_inner := s, sv5_calls := c # sv5_calls r\<rparr>)"
| publish_answer: "sv5_calls r = pre @ Call_publish p i # post \<Longrightarrow> v5_publish_done cfg res i (sv5_inner r) = (c, s) \<Longrightarrow>
    v5_server_step cfg r (r\<lparr>sv5_inner := s, sv5_calls := pre @ c # post\<rparr>)"
| control_answer: "sv5_calls r = pre @ Call_control m e i # post \<Longrightarrow>
    v5_control_done env (snd m) e i res (sv5_inner r) = (c, s) \<Longrightarrow>
    v5_server_step cfg r (r\<lparr>sv5_inner := s, sv5_calls := pre @ c # post\<rparr>)"
| other: "MqttShared.more sink = MqttShared.more (in5_sink (sv5_inner r)) \<Longrightarrow>
    v5_server_step cfg r (r\<lparr>sv5_inner := (sv5_inner r)\<lparr>in5_sink := sink\<rparr>\<rparr>)"

inductive v5_server_reach :: "('t, 'e) v5_DispatcherCfg \<Rightarrow> v5_Shared \<Rightarrow> ('e, 'io) v5_server \<Rightarrow> bool" for cfg sink where
  init: "v5_server_reach cfg sink \<lparr>sv5_inner = v5_Inner_new sink, sv5_calls = []\<rparr>"
| step: "v5_server_reach cfg sink r \<Longrightarrow> v5_server_step cfg r r' \<Longrightarrow> v5_server_reach cfg sink r'"

text \<open>Nothing but the handshake changes the limits.\<close>

lemma more_simps [simp]:
  "MqttShared.more (log_event e s) = MqttShared.more s"
  "MqttShared.more (snd (sh_encode_packet env pkt s)) = MqttShared.more s"
  "MqttShared.more (sh_clear_queues lost s) = MqttShared.more s"
  "MqttShared.more (sh_woken w s) = MqttShared.more s"
  "MqttShared.more (sh_wake_next env s) = MqttShared.more s"
  "MqttShared.more (sh_enable_wr_backpressure s) = MqttShared.more s"
  "MqttShared.more (sh_disable_wr_backpressure env s) = MqttShared.more s"
  by (simp_all add: log_event_def sh_encode_packet_def sh_clear_queues_def sh_woken_def sh_wake_next_def
      sh_enable_wr_backpressure_def sh_disable_wr_backpressure_def Let_def split: prod.splits option.splits)

lemma more_v5_simps [simp]:
  "MqttShared.more (v5_close pkt env s) = MqttShared.more s"
  "MqttShared.more (v5_drop_sink s) = MqttShared.more s"
  by (simp_all add: v5_close_eq v5_clear_queues_def v5_drop_sink_def)

lemma more_pkt_ack: "MqttShared.more (snd (v5_pkt_ack env ack s)) = MqttShared.more s"
proof -
  have "MqttShared.more (snd (pkt_ack_inner v5_ack_packet_id v5_callback_arg env ack s)) = MqttShared.more s"
    by (simp add: pkt_ack_inner_def Let_def split: list.splits option.splits)
  then show ?thesis
    by (cases "pkt_ack_inner v5_ack_packet_id v5_callback_arg env ack s")
      (auto simp: v5_pkt_ack_def pkt_ack_def split: res.splits)
qed

lemma more_limits:
  assumes "MqttShared.more s = MqttShared.more s'"
  shows "sh_receive_max s = sh_receive_max s'" "sh_topic_alias_max s = sh_topic_alias_max s'"
    "sh_max_qos s = sh_max_qos s'" "sh_codec s = sh_codec s'"
  using assms by (cases s; cases s'; simp)+

lemmas v5_dispatch_defs = v5_dispatch_publish_def v5_dispatch_filters_def v5_dispatch_ack_def v5_proto_error_def v5_control_def
  v5_publish_checks_def v5_id_in_use_def v5_encode_packet_def v5_release_def v5_drop_def

text \<open>What a new call does to the state it shares with the others.\<close>

definition v5_accepts :: "v5_Inner \<Rightarrow> ('e, 'io) v5_call \<Rightarrow> v5_Inner \<Rightarrow> bool" where
  "v5_accepts s c s' \<longleftrightarrow>
     MqttShared.more (in5_sink s') = MqttShared.more (in5_sink s) \<and> in5_inflight s \<subseteq> in5_inflight s' \<and>
     (v5_call_ids c = [] \<or> (\<exists>i. v5_call_ids c = [i] \<and> i \<notin> in5_inflight s \<and> i \<in> in5_inflight s')) \<and>
     (aliases_ok (sh_topic_alias_max (in5_sink s)) (in5_aliases s) \<longrightarrow>
        aliases_ok (sh_topic_alias_max (in5_sink s)) (in5_aliases s') \<and>
        (\<forall>p sz i. c = Call_publish (p, sz) i \<longrightarrow> publish_topic_ok p)) \<and>
     (v5_publish_ids c \<noteq> [] \<and> sh_receive_max (in5_sink s) \<noteq> 0 \<longrightarrow>
        card (in5_inflight s') \<le> unat (sh_receive_max (in5_sink s)))"

lemma v5_accepts_control [simp]: "v5_accepts s (Call_control m e None) s" "v5_accepts s (Call_done r) s"
  by (simp_all add: v5_accepts_def)

lemma v5_accepts_sink:
  assumes "MqttShared.more sink = MqttShared.more (in5_sink s)" and "v5_call_ids c = []" and "\<forall>p i. c \<noteq> Call_publish p i"
  shows "v5_accepts s c (s\<lparr>in5_sink := sink\<rparr>)"
  using assms by (cases c) (auto simp: v5_accepts_def)

lemma v5_publish_checks_Inr:
  assumes "v5_publish_checks publish s = Inr s1"
  shows "in5_sink s1 = in5_sink s" "in5_aliases s1 = in5_aliases s"
    "in5_inflight s1 = in5_inflight s \<union> set_option (pub5_packet_id publish)"
    "set_option (pub5_packet_id publish) \<inter> in5_inflight s = {}"
    "pub5_packet_id publish \<noteq> None \<and> sh_receive_max (in5_sink s) \<noteq> 0 \<longrightarrow>
     card (in5_inflight s1) \<le> unat (sh_receive_max (in5_sink s))"
  using assms
  by (auto simp: v5_publish_checks_def card_insert_if split: option.splits if_splits)

lemma v5_accepts_publish:
  fixes c :: "('e, 'io) v5_call"
  assumes "v5_dispatch_publish cfg env publish sz s = (c, s')"
  shows "v5_accepts s c s'"
proof (cases "has_wildcard (pub5_topic publish)")
  case True
  then show ?thesis using assms by (auto simp: v5_dispatch_publish_def v5_proto_error_def v5_control_def)
next
  case wild: False
  show ?thesis
  proof (cases "v5_publish_checks publish s")
    case (Inl e)
    then show ?thesis using assms wild
      by (auto simp: v5_dispatch_publish_def v5_proto_error_def v5_control_def v5_id_in_use_def v5_encode_packet_def
          intro: v5_accepts_sink split: option.splits)
  next
    case (Inr s1)
    note s1 = v5_publish_checks_Inr [OF Inr]
    have acc: "v5_accepts s c' (s1\<lparr>in5_aliases := al\<rparr>)"
      if "v5_call_ids c' = [] \<and> v5_publish_ids c' = [] \<or> (\<exists>p. c' = Call_publish p (pub5_packet_id publish))"
        and "aliases_ok (sh_topic_alias_max (in5_sink s)) (in5_aliases s) \<longrightarrow> aliases_ok (sh_topic_alias_max (in5_sink s)) al \<and>
          (\<forall>p sz i. c' = Call_publish (p, sz) i \<longrightarrow> publish_topic_ok p)"
      for c' :: "('e, 'io) v5_call" and al
      using that s1 by (cases "pub5_packet_id publish") (auto simp: v5_accepts_def)
    show ?thesis
    proof (cases "v5_topic_alias (sh_topic_alias_max (in5_sink s1)) ''Topic alias is greater than max allowed [MQTT-3.2.2-17]'' publish
        (in5_aliases s1)")
      case al1: (Inl e)
      have "v5_accepts s c (s1\<lparr>in5_aliases := in5_aliases s1\<rparr>)"
        using assms wild Inr al1 s1(2)
        by (intro acc) (auto simp: v5_dispatch_publish_def v5_proto_error_def v5_control_def)
      then show ?thesis using assms wild Inr al1 by (simp add: v5_dispatch_publish_def v5_proto_error_def v5_control_def)
    next
      case al1: (Inr pa)
      obtain publish' al where pa: "pa = (publish', al)" by (cases pa)
      note ok = v5_topic_alias_ok [OF al1 [unfolded pa] _ wild]
      show ?thesis using assms wild Inr al1 pa ok s1
        by (auto simp: v5_dispatch_publish_def Let_def intro!: acc split: if_splits)
    qed
  qed
qed

lemma v5_accepts_ack:
  "v5_dispatch_ack env ack s = (c, s') \<Longrightarrow> v5_accepts s c s'"
  using more_pkt_ack [of env ack "in5_sink s"]
  by (auto simp: v5_dispatch_ack_def v5_proto_error_def v5_control_def intro!: v5_accepts_sink split: prod.splits res.splits)

lemma v5_accepts_filters:
  "v5_dispatch_filters env filters refusal i in_use msg s = (c, s') \<Longrightarrow> v5_accepts s c s'"
  by (auto simp: v5_dispatch_filters_def v5_proto_error_def v5_control_def v5_encode_packet_def
      intro!: v5_accepts_sink split: option.splits if_splits) (auto simp: v5_accepts_def)

lemma v5_dispatch_accepts:
  assumes "v5_dispatch cfg env req s = (c, s')"
  shows "v5_accepts s c s'"
  using assms
proof (induction cfg env req s arbitrary: c s' rule: v5_dispatch.induct)
  case (1 cfg env publish sz s)
  then show ?case by (simp add: v5_accepts_publish)
next
  case (2 cfg env packet sz s)
  then show ?case by (simp add: v5_accepts_ack)
next
  case (6 cfg env pkt sz s)
  then show ?case by (simp add: v5_accepts_filters)
next
  case (7 cfg env pkt sz s)
  then show ?case by (simp add: v5_accepts_filters)
qed (auto simp: v5_proto_error_def v5_control_def intro!: v5_accepts_sink split: if_splits)

text \<open>What an answer of a service does: the call keeps its identifier, or gives it back, or drops it.\<close>

definition v5_continues :: "v5_Inner \<Rightarrow> ('e, 'io) v5_call \<Rightarrow> ('e, 'io) v5_call \<Rightarrow> v5_Inner \<Rightarrow> bool" where
  "v5_continues s c c' s' \<longleftrightarrow>
     MqttShared.more (in5_sink s') = MqttShared.more (in5_sink s) \<and> in5_aliases s' = in5_aliases s \<and>
     v5_call_ids c' = [] \<and> v5_publish_ids c' = [] \<and> (\<forall>p i. c' \<noteq> Call_publish p i) \<and>
     (in5_inflight s' = in5_inflight s \<or> in5_inflight s' = in5_inflight s - set (v5_call_ids c))"

lemma v5_continues_aliases: "v5_continues s c c' s' \<Longrightarrow> in5_aliases s' = in5_aliases s"
  by (simp add: v5_continues_def)

lemma v5_publish_done_continues:
  "v5_publish_done cfg res i s = (c', s') \<Longrightarrow> v5_continues s (Call_publish p i) c' s'"
  by (cases i) (auto simp: v5_publish_done_def v5_control_def v5_publish_acked_def v5_release_def v5_continues_def
      split: sum.splits if_splits)

lemma v5_control_done_continues:
  "v5_control_done env nested e i res s = (c', s') \<Longrightarrow> v5_continues s (Call_control m e i) c' s'"
  by (cases i) (auto simp: v5_control_done_def v5_control_answered_def v5_release_def v5_continues_def v5_drop_def v5_encode_packet_def
      Let_def split: sum.splits if_splits MqttError.splits option.splits)

interpretation server5: dispatcher in5_inflight v5_call_ids v5_accepts "\<lambda>c s c' s'. v5_continues s c c' s'"
proof unfold_locales
  show "in5_inflight s \<subseteq> in5_inflight s' \<and>
      (v5_call_ids c = [] \<or> (\<exists>i. v5_call_ids c = [i] \<and> i \<notin> in5_inflight s \<and> i \<in> in5_inflight s'))"
    if "v5_accepts s c s'" for s s' and c :: "('e, 'io) v5_call"
    using that by (simp add: v5_accepts_def)
  show "\<exists>rel. rel \<subseteq> set (v5_call_ids c) \<and> in5_inflight s' = in5_inflight s - rel \<and>
      (v5_call_ids c' = [] \<or> v5_call_ids c' = v5_call_ids c \<and> rel = {})"
    if "v5_continues s c c' s'" for s s' and c c' :: "('e, 'io) v5_call"
    using that unfolding v5_continues_def by (metis Diff_empty empty_subsetI order_refl)
qed

section \<open>The invariant of a server\<close>

definition v5_server_inv :: "v5_Shared \<Rightarrow> ('e, 'io) v5_server \<Rightarrow> bool" where
  "v5_server_inv sink r \<longleftrightarrow>
     MqttShared.more (in5_sink (sv5_inner r)) = MqttShared.more sink \<and>
     calls_ok v5_call_ids (in5_inflight (sv5_inner r)) (sv5_calls r) \<and>
     (sh_receive_max sink \<noteq> 0 \<longrightarrow> length (concat (map v5_publish_ids (sv5_calls r))) \<le> unat (sh_receive_max sink)) \<and>
     aliases_ok (sh_topic_alias_max sink) (in5_aliases (sv5_inner r)) \<and>
     (\<forall>p sz i. Call_publish (p, sz) i \<in> set (sv5_calls r) \<longrightarrow> publish_topic_ok p)"

lemma v5_publish_ids_le: "length (v5_publish_ids c) \<le> length (v5_call_ids c)"
  by (cases c rule: v5_publish_ids.cases) auto

lemma v5_publish_ids_card:
  assumes "calls_ok v5_call_ids inflight calls"
  shows "length (concat (map v5_publish_ids calls)) \<le> card inflight"
proof -
  have "length (concat (map v5_publish_ids calls)) \<le> length (concat (map v5_call_ids calls))"
    using v5_publish_ids_le by (induction calls) (auto intro: add_mono)
  also have "\<dots> = card (set (concat (map v5_call_ids calls)))"
    using assms by (metis calls_ok_def distinct_card)
  also have "\<dots> \<le> card inflight"
    using assms by (intro card_mono) (auto simp: calls_ok_def)
  finally show ?thesis .
qed

lemma v5_server_inv_receive:
  assumes "v5_server_inv sink r" and acc: "v5_accepts (sv5_inner r) c s"
  shows "v5_server_inv sink (r\<lparr>sv5_inner := s, sv5_calls := c # sv5_calls r\<rparr>)"
proof -
  let ?s = "sv5_inner r"
  have lim: "sh_receive_max (in5_sink ?s) = sh_receive_max sink" "sh_topic_alias_max (in5_sink ?s) = sh_topic_alias_max sink"
    using assms(1) more_limits unfolding v5_server_inv_def by blast+
  have ok: "calls_ok v5_call_ids (in5_inflight s) (c # sv5_calls r)"
    using server5.start_ok [OF acc] assms(1) by (simp add: v5_server_inv_def)
  have "length (concat (map v5_publish_ids (c # sv5_calls r))) \<le> unat (sh_receive_max sink)" if "sh_receive_max sink \<noteq> 0"
  proof (cases "v5_publish_ids c = []")
    case True
    then show ?thesis using assms(1) that by (simp add: v5_server_inv_def)
  next
    case False
    then have "card (in5_inflight s) \<le> unat (sh_receive_max sink)" using acc that lim by (simp add: v5_accepts_def)
    then show ?thesis using v5_publish_ids_card [OF ok] by linarith
  qed
  then show ?thesis using assms ok lim by (auto simp: v5_server_inv_def v5_accepts_def)
qed

lemma v5_server_inv_continue:
  assumes "v5_server_inv sink r" and calls: "sv5_calls r = pre @ c # post" and "v5_continues (sv5_inner r) c c' s"
  shows "v5_server_inv sink (r\<lparr>sv5_inner := s, sv5_calls := pre @ c' # post\<rparr>)"
proof -
  have "calls_ok v5_call_ids (in5_inflight s) (pre @ c' # post)"
    using server5.answer_ok [OF assms(3)] assms(1) calls by (simp add: v5_server_inv_def)
  then show ?thesis using assms unfolding v5_server_inv_def v5_continues_def by (auto simp: calls)
qed

lemma v5_server_reach_inv: "v5_server_reach cfg sink r \<Longrightarrow> v5_server_inv sink r"
proof (induction rule: v5_server_reach.induct)
  case init
  show ?case by (simp add: v5_server_inv_def v5_Inner_new_def aliases_ok_def)
next
  case (step r r')
  show ?case using step(2,3)
  proof (induction rule: v5_server_step.induct)
    case (receive env req r c s)
    then show ?case by (simp add: v5_server_inv_receive v5_dispatch_accepts)
  next
    case (publish_answer r pre p i post res c s)
    then show ?case using v5_server_inv_continue v5_publish_done_continues by blast
  next
    case (control_answer r pre m e i post env res c s)
    then show ?case using v5_server_inv_continue v5_control_done_continues by blast
  qed (simp add: v5_server_inv_def)
qed

section \<open>Properties\<close>

text \<open>C17: However the calls of an MQTT 5 server interleave and in whatever order its services answer, no two
  calls in progress have the same packet identifier, every identifier of a call is recorded as in
  flight, and with a receive maximum there are never more PUBLISH messages with the services than
  it allows.\<close>

theorem v5_server_calls:
  assumes "v5_server_reach cfg sink r"
  shows "distinct (concat (map v5_call_ids (sv5_calls r))) \<and>
    set (concat (map v5_call_ids (sv5_calls r))) \<subseteq> in5_inflight (sv5_inner r) \<and>
    (sh_receive_max sink \<noteq> 0 \<longrightarrow> length (concat (map v5_publish_ids (sv5_calls r))) \<le> unat (sh_receive_max sink))"
  using v5_server_reach_inv [OF assms] by (simp add: v5_server_inv_def calls_ok_def)

text \<open>The alias table of an MQTT 5 server never holds an alias above the topic alias maximum it announced
  (so that it has at most that many entries), and every PUBLISH that is with the publish service has
  a topic without wildcards, and a topic at all when it came with an alias.\<close>

theorem v5_server_aliases:
  assumes "v5_server_reach cfg sink r"
  shows "dom (in5_aliases (sv5_inner r)) \<subseteq> {..sh_topic_alias_max sink} \<and>
    (\<forall>p sz i. Call_publish (p, sz) i \<in> set (sv5_calls r) \<longrightarrow>
       \<not> has_wildcard (pub5_topic p) \<and> (pp5_topic_alias (pub5_properties p) \<noteq> None \<longrightarrow> pub5_topic p \<noteq> []))"
  using v5_server_reach_inv [OF assms] aliases_ok_finite unfolding v5_server_inv_def publish_topic_ok_def by blast

definition v5_cfg :: "(unit, unit) v5_DispatcherCfg" where
  "v5_cfg = \<lparr>dc5_handle_qos_after_disconnect = None, dc5_try_from = (\<lambda>_. Inr (v5_PubAck_new PA_UnspecifiedError)), dc5_from = (\<lambda>_. ())\<rparr>"

definition v5_limited :: v5_Shared where
  "v5_limited = v5_set_topic_alias_max 4 (v5_set_receive_max 1 (v5_Shared_new v5_Codec_new))"

definition v5_qos1 :: "u16 \<Rightarrow> v5_Publish" where
  "v5_qos1 i = (v5_aliased 2 [0x61])\<lparr>pub5_qos := AtLeastOnce, pub5_packet_id := Some i\<rparr>"

lemmas v5_sample_defs = v5_cfg_def v5_limited_def v5_qos1_def v5_aliased_def v5_publish_def v5_env_def v5_Inner_new_def v5_Shared_new_def
  v5_set_topic_alias_max_def v5_set_receive_max_def

lemma v5_server_sample:
  "v5_server_reach v5_cfg v5_limited
     \<lparr>sv5_inner = \<lparr>in5_sink = v5_limited, in5_inflight = {5}, in5_aliases = [2 \<mapsto> [0x61]]\<rparr>,
      sv5_calls = [Call_publish (v5_qos1 5, 9) (Some 5) :: (unit, unit) v5_call]\<rparr>"
proof -
  let ?r = "\<lparr>sv5_inner = v5_Inner_new v5_limited, sv5_calls = []\<rparr> :: (unit, unit) v5_server"
  have "v5_dispatch v5_cfg v5_env (DI_Item (V5_Publish (v5_qos1 5)) 9 :: (v5_Packet, unit) DispatchItem) (sv5_inner ?r) =
    (Call_publish (v5_qos1 5, 9) (Some 5) :: (unit, unit) v5_call,
     \<lparr>in5_sink = v5_limited, in5_inflight = {5}, in5_aliases = [2 \<mapsto> [0x61]]\<rparr>)"
    by (simp add: v5_dispatch_publish_def v5_publish_checks_def v5_topic_alias_def has_wildcard_def skip_after_disconnect_def
        v5_sample_defs Let_def)
  from v5_server_step.receive [OF this] show ?thesis
    by (intro v5_server_reach.step [OF v5_server_reach.init]) simp
qed

theorem v5_server_calls_witness:
  "length (concat (map v5_publish_ids [Call_publish (v5_qos1 5, 9) (Some 5) :: (unit, unit) v5_call])) \<le> unat (sh_receive_max v5_limited)"
  using v5_server_calls [OF v5_server_sample] by (simp add: v5_sample_defs)

theorem v5_server_aliases_witness: "dom [2 \<mapsto> [0x61 :: u8]] \<subseteq> {..sh_topic_alias_max v5_limited}"
  using v5_server_aliases [OF v5_server_sample] by simp

lemma v5_call_accepted:
  assumes "\<not> has_wildcard (pub5_topic publish)" and "v5_publish_checks publish s = Inr s1"
    and "v5_topic_alias (sh_topic_alias_max (in5_sink s)) ''Topic alias is greater than max allowed [MQTT-3.2.2-17]''
      publish (in5_aliases s) = Inr (publish', aliases)"
    and "\<not> skip_after_disconnect (env_closed env) (dc5_handle_qos_after_disconnect cfg) (pub5_qos publish')"
  shows "v5_dispatch cfg env (DI_Item (V5_Publish publish) sz) s =
    (Call_publish (publish', sz) (pub5_packet_id publish), s1\<lparr>in5_aliases := aliases\<rparr>)"
  using assms v5_publish_checks_Inr [OF assms(2)] by (simp add: v5_dispatch_publish_def)

text \<open>A QoS 1 or 2 PUBLISH that an MQTT 5 server accepts is answered by exactly one PUBACK with its
  identifier and the reason the publish service gave, or the reason the service's error converts
  to; the identifier is free again and nothing but the alias table has changed.\<close>

lemma v5_call_publish_acked:
  fixes pub :: "v5_Publish \<times> u32 \<Rightarrow> 't + v5_PubAck"
    and ctl :: "('e, 'io) v5_Control \<Rightarrow> ('e, 'io) MqttError + v5_ControlAck"
  assumes "\<not> has_wildcard (pub5_topic publish)" and "v5_publish_checks publish s = Inr s1" and "pub5_packet_id publish = Some i"
    and "v5_topic_alias (sh_topic_alias_max (in5_sink s)) ''Topic alias is greater than max allowed [MQTT-3.2.2-17]''
      publish (in5_aliases s) = Inr (publish', aliases)"
    and "\<not> skip_after_disconnect (env_closed env) (dc5_handle_qos_after_disconnect cfg) (pub5_qos publish')"
    and "pub (publish', sz) = Inr ack \<or> (\<exists>e. pub (publish', sz) = Inl e \<and> dc5_try_from cfg e = Inr ack)"
  shows "v5_call cfg env pub ctl (DI_Item (V5_Publish publish) sz) s =
    (Ok (Some (V5_PublishAck (v5_puback i ack))), s\<lparr>in5_aliases := aliases\<rparr>)"
proof -
  note s1 = v5_publish_checks_Inr [OF assms(2)]
  have "s1\<lparr>in5_inflight := in5_inflight s1 - {i}\<rparr> = s"
    using s1 assms(3) by (cases s; cases s1) auto
  then have "v5_release (Some i) (s1\<lparr>in5_aliases := aliases\<rparr>) = s\<lparr>in5_aliases := aliases\<rparr>"
    by (cases s; cases s1) (simp add: v5_release_def)
  moreover have "v5_publish_done cfg (pub (publish', sz)) (Some i) s2 =
      (Call_done (Ok (Some (V5_PublishAck (v5_puback i ack)))) :: ('e, 'io) v5_call, v5_release (Some i) s2)" for s2
    using assms(6) by (auto simp: v5_publish_done_def v5_publish_acked_def)
  moreover have "v5_dispatch cfg env (DI_Item (V5_Publish publish) sz :: (v5_Packet, 'io) DispatchItem) s =
      (Call_publish (publish', sz) (Some i) :: ('e, 'io) v5_call, s1\<lparr>in5_aliases := aliases\<rparr>)"
    unfolding assms(3) [symmetric] by (rule v5_call_accepted [OF assms(1,2,4,5)])
  ultimately show ?thesis by (simp add: v5_call_def)
qed

text \<open>The reason a PUBLISH is refused for, when it is.\<close>

definition v5_refusal :: "v5_Publish \<Rightarrow> v5_Inner \<Rightarrow> DisconnectReasonCode option" where
  "v5_refusal p s =
     (let sink = in5_sink s; qos12 = pub5_packet_id p \<noteq> None; known = (\<lambda>a. in5_aliases s a \<noteq> None) in
      if has_wildcard (pub5_topic p) then Some DR_ProtocolError
      else if qos12 \<and> sh_receive_max sink \<noteq> 0 \<and> unat (sh_receive_max sink) \<le> card (in5_inflight s) then Some DR_ReceiveMaximumExceeded
      else if qos12 \<and> sh_max_qos sink < pub5_qos p then Some DR_QosNotSupported
      else if qos12 \<and> pub5_retain p \<and> \<not> v5_retain_available (sh_codec sink) then Some DR_RetainNotSupported
      else if set_option (pub5_packet_id p) \<inter> in5_inflight s \<noteq> {} then None
      else if pub5_topic p = [] \<and> (\<exists>a. pp5_topic_alias (pub5_properties p) = Some a \<and> \<not> known a) then Some DR_TopicAliasInvalid
      else if pub5_topic p \<noteq> [] \<and> (\<exists>a. pp5_topic_alias (pub5_properties p) = Some a \<and> sh_topic_alias_max sink < a \<and> \<not> known a)
      then Some DR_ProtocolError
      else None)"

lemma v5_dispatch_refused:
  assumes "v5_refusal publish s = Some reason"
  shows "\<exists>e s1. v5_dispatch_publish cfg env publish sz s = v5_proto_error e s1 \<and> v5_protocol_reason e = reason \<and>
    in5_sink s1 = in5_sink s \<and> in5_aliases s1 = in5_aliases s"
proof (cases "has_wildcard (pub5_topic publish)")
  case True
  then show ?thesis using assms
    by (intro exI) (auto simp: v5_dispatch_publish_def v5_refusal_def)
next
  case wild: False
  show ?thesis
  proof (cases "v5_publish_checks publish s")
    case (Inl e)
    then show ?thesis using assms wild
      by (intro exI [of _ "the e"] exI [of _ s])
        (auto simp: v5_dispatch_publish_def v5_refusal_def v5_publish_checks_def split: option.splits if_splits)
  next
    case (Inr s1)
    note s1 = v5_publish_checks_Inr [OF Inr]
    have ids: "set_option (pub5_packet_id publish) \<inter> in5_inflight s = {}" by (rule s1(4))
    have "\<exists>e. v5_topic_alias (sh_topic_alias_max (in5_sink s)) ''Topic alias is greater than max allowed [MQTT-3.2.2-17]''
        publish (in5_aliases s) = Inl e \<and> v5_protocol_reason e = reason"
      using assms wild Inr ids
      by (auto simp: v5_refusal_def v5_publish_checks_def v5_topic_alias_def Let_def split: option.splits if_splits)
    then show ?thesis using wild Inr s1 by (auto simp: v5_dispatch_publish_def)
  qed
qed

lemma v5_complete_no_publish:
  "\<forall>p i. c \<noteq> Call_publish p i \<Longrightarrow> v5_complete cfg env pub ctl c s = v5_complete cfg env pub' ctl c s"
proof (induction cfg env pub ctl c s rule: v5_complete.induct)
  case (3 cfg env pub ctl m error packet_id s)
  let ?cs = "v5_control_done env (snd m) error packet_id (ctl (fst m)) s"
  have "\<forall>p i. fst ?cs \<noteq> Call_publish p i"
    using v5_control_done_continues [of env "snd m" error packet_id "ctl (fst m)" s "fst ?cs" "snd ?cs"] by (simp add: v5_continues_def)
  from 3(1) [OF refl this] show ?case by (simp add: Let_def)
qed simp_all

text \<open>C16: A PUBLISH that breaks a rule of the connection never reaches the publish service, whatever the control service does: the
  outcome of the call does not depend on the publish service. The rules are: no wildcard in the topic; for a message with an identifier,
  that is QoS 1 or 2, the receive maximum, the maximum QoS and retain; an alias without topic is known, and a new alias is within the
  maximum (the last two unless the identifier is in use). When the control service acknowledges the error it is told of, the server
  sends a DISCONNECT with the reason of that rule and closes, without adding to the alias table.\<close>

theorem v5_call_refused_disconnects:
  fixes pub :: "v5_Publish \<times> u32 \<Rightarrow> 't + v5_PubAck" and ctl :: "('e, 'io) v5_Control \<Rightarrow> ('e, 'io) MqttError + v5_ControlAck"
    and req :: "(v5_Packet, 'io) DispatchItem"
  assumes "v5_refusal publish s = Some reason" and "req = DI_Item (V5_Publish publish) sz"
  shows "v5_call cfg env pub ctl req s = v5_call cfg env pub' ctl req s \<and>
    (\<exists>ids. v5_call cfg env pub (\<lambda>m :: ('e, 'io) v5_Control. Inr (v5_Control_ack m)) req s =
      (Ok None, v5_drop ((v5_encode_packet env (V5_Disconnect (v5_Disconnect_new reason)) s)\<lparr>in5_inflight := ids\<rparr>)))"
proof -
  obtain e s1 where d: "v5_dispatch cfg env req s = (v5_proto_error e s1 :: ('e, 'io) v5_call \<times> v5_Inner)"
    and e: "v5_protocol_reason e = reason" and s1: "in5_sink s1 = in5_sink s" "in5_aliases s1 = in5_aliases s"
    using v5_dispatch_refused [OF assms(1), of cfg env sz] assms(2) by auto
  have "v5_encode_packet env pkt s1 = (v5_encode_packet env pkt s)\<lparr>in5_inflight := in5_inflight s1\<rparr>" for pkt
    using s1 by (cases s; cases s1) (simp add: v5_encode_packet_def)
  then have "\<exists>ids. v5_call cfg env pub (\<lambda>m :: ('e, 'io) v5_Control. Inr (v5_Control_ack m)) req s =
      (Ok None, v5_drop ((v5_encode_packet env (V5_Disconnect (v5_Disconnect_new reason)) s)\<lparr>in5_inflight := ids\<rparr>))"
    using d e
    by (auto simp: v5_call_def v5_proto_error_def v5_control_def v5_is_error_def v5_control_done_def v5_control_answered_def
        v5_ProtocolError_ack_def v5_ProtocolError_new_def v5_disconnect_ack_def v5_release_def)
  moreover have "v5_call cfg env pub ctl req s = v5_call cfg env pub' ctl req s"
    using d v5_complete_no_publish [of "fst (v5_proto_error e s1)" cfg env pub ctl _ pub']
    by (simp add: v5_call_def v5_proto_error_def v5_control_def del: v5_complete.simps)
  ultimately show ?thesis by blast
qed

theorem v5_call_refused_disconnects_witness:
  "\<exists>ids. v5_call v5_cfg v5_env (\<lambda>_. Inl ()) (\<lambda>m :: (unit, unit) v5_Control. Inr (v5_Control_ack m))
     (DI_Item (V5_Publish (v5_qos1 5)) 9) \<lparr>in5_sink = v5_limited, in5_inflight = {4}, in5_aliases = Map.empty\<rparr> =
   (Ok None, v5_drop ((v5_encode_packet v5_env (V5_Disconnect (v5_Disconnect_new DR_ReceiveMaximumExceeded))
      \<lparr>in5_sink = v5_limited, in5_inflight = {4}, in5_aliases = Map.empty\<rparr>)\<lparr>in5_inflight := ids\<rparr>))"
  by (rule v5_call_refused_disconnects [where publish = "v5_qos1 5" and sz = 9 and ctl = "\<lambda>_. Inr (v5_Control_ack C5_Ping)" and pub' = "\<lambda>_. Inl ()",
        THEN conjunct2])
    (simp_all add: v5_refusal_def has_wildcard_def v5_sample_defs)

text \<open>A PUBLISH that the dispatcher takes: no rule refuses it and its identifier is not in use. \<open>v5_heard\<close> are the messages a connection
  has taken, in their order, while calls start and are answered; a step of the server without a new call is an answer or a step of the sink.\<close>

definition v5_taken :: "v5_Publish \<Rightarrow> v5_Inner \<Rightarrow> bool" where
  "v5_taken p s \<longleftrightarrow> v5_refusal p s = None \<and> set_option (pub5_packet_id p) \<inter> in5_inflight s = {}"

fun v5_takes :: "(v5_Packet, 'io) DispatchItem \<Rightarrow> v5_Inner \<Rightarrow> v5_Publish list" where
  "v5_takes (DI_Item (V5_Publish p) sz) s = (if v5_taken p s then [p] else [])"
| "v5_takes _ s = []"

inductive v5_heard :: "('t, 'e) v5_DispatcherCfg \<Rightarrow> v5_Shared \<Rightarrow> ('e, 'io) v5_server \<Rightarrow> v5_Publish list \<Rightarrow> bool" for cfg sink where
  init: "v5_heard cfg sink \<lparr>sv5_inner = v5_Inner_new sink, sv5_calls = []\<rparr> []"
| receive: "v5_heard cfg sink r ps \<Longrightarrow> v5_dispatch cfg env req (sv5_inner r) = (c, s) \<Longrightarrow>
    v5_heard cfg sink (r\<lparr>sv5_inner := s, sv5_calls := c # sv5_calls r\<rparr>) (ps @ v5_takes req (sv5_inner r))"
| no_call: "v5_heard cfg sink r ps \<Longrightarrow> v5_server_step cfg r r' \<Longrightarrow> length (sv5_calls r') = length (sv5_calls r) \<Longrightarrow>
    v5_heard cfg sink r' ps"

lemma v5_server_reach_heard: "v5_server_reach cfg sink r \<Longrightarrow> \<exists>ps. v5_heard cfg sink r ps"
proof (induction rule: v5_server_reach.induct)
  case init
  show ?case by (rule exI [of _ "[]"]) (rule v5_heard.init)
next
  case (step r r')
  then obtain ps where ps: "v5_heard cfg sink r ps" by blast
  from step(2) show ?case
  proof cases
    case (receive env req c s)
    then show ?thesis using v5_heard.receive [OF ps receive(2)] by blast
  qed (use v5_heard.no_call [OF ps step(2)] in auto)
qed

lemma v5_taken_checks:
  assumes "v5_taken p s"
  obtains s1 p' aliases where "\<not> has_wildcard (pub5_topic p)" "v5_publish_checks p s = Inr s1"
    "v5_topic_alias (sh_topic_alias_max (in5_sink s1)) ''Topic alias is greater than max allowed [MQTT-3.2.2-17]'' p (in5_aliases s1) = Inr (p', aliases)"
proof -
  have w: "\<not> has_wildcard (pub5_topic p)" using assms by (auto simp: v5_taken_def v5_refusal_def)
  obtain s1 where s1: "v5_publish_checks p s = Inr s1"
    using assms by (cases "pub5_packet_id p") (auto simp: v5_taken_def v5_refusal_def v5_publish_checks_def Let_def split: if_splits)
  have "\<exists>p' aliases. v5_topic_alias (sh_topic_alias_max (in5_sink s)) ''Topic alias is greater than max allowed [MQTT-3.2.2-17]'' p (in5_aliases s) =
      Inr (p', aliases)"
    using assms by (auto simp: v5_taken_def v5_refusal_def v5_topic_alias_def Let_def split: if_splits option.splits)
  then show thesis using that w s1 v5_publish_checks_Inr(1,2) [OF s1] by auto
qed

lemma v5_not_taken_aliases:
  fixes c :: "('e, 'io) v5_call"
  assumes "\<not> v5_taken p s" and "v5_dispatch_publish cfg env p sz s = (c, s')"
  shows "in5_aliases s' = in5_aliases s"
proof (cases "v5_refusal p s")
  case (Some reason)
  then obtain e s1 where "v5_dispatch_publish cfg env p sz s = (v5_proto_error e s1 :: ('e, 'io) v5_call \<times> v5_Inner)" "in5_aliases s1 = in5_aliases s"
    using v5_dispatch_refused [of p s reason cfg env sz] by blast
  then show ?thesis using assms(2) by (auto simp: v5_proto_error_def v5_control_def)
next
  case None
  then have "set_option (pub5_packet_id p) \<inter> in5_inflight s \<noteq> {}" using assms(1) by (simp add: v5_taken_def)
  then have "\<exists>e. v5_publish_checks p s = Inl e" by (cases "v5_publish_checks p s") (use v5_publish_checks_Inr(4) in auto)
  then show ?thesis using assms(2)
    by (auto simp: v5_dispatch_publish_def v5_proto_error_def v5_control_def v5_id_in_use_def v5_encode_packet_def split: if_splits option.splits)
qed

lemma v5_dispatch_aliases:
  assumes "v5_dispatch cfg env req s = (c, s')"
  shows "in5_aliases s' a = (case last_topic (v5_takes req s) a of Some t \<Rightarrow> Some t | None \<Rightarrow> in5_aliases s a)"
  using assms
proof (cases "(cfg, env, req, s)" rule: v5_dispatch.cases)
  case (1 cfg' env' p sz s'')
  show ?thesis
  proof (cases "v5_taken p s")
    case True
    then obtain s1 p' aliases where "\<not> has_wildcard (pub5_topic p)" and s1: "v5_publish_checks p s = Inr s1"
      and al: "v5_topic_alias (sh_topic_alias_max (in5_sink s1)) ''Topic alias is greater than max allowed [MQTT-3.2.2-17]'' p (in5_aliases s1) = Inr (p', aliases)"
      by (rule v5_taken_checks)
    then have "in5_aliases s' = aliases" using assms 1 by (auto simp: v5_dispatch_publish_def Let_def split: if_splits)
    then show ?thesis using v5_topic_alias_table [OF al, of a] v5_publish_checks_Inr(2) [OF s1] 1 True by (auto split: option.splits)
  next
    case False
    then show ?thesis using v5_not_taken_aliases [of p s cfg env sz c s'] assms 1 by simp
  qed
qed (auto simp: v5_dispatch_filters_def v5_dispatch_ack_def v5_proto_error_def v5_control_def v5_encode_packet_def
    split: if_splits option.splits prod.splits res.splits)

lemma v5_heard_aliases: "v5_heard cfg sink r ps \<Longrightarrow> in5_aliases (sv5_inner r) a = last_topic ps a"
proof (induction rule: v5_heard.induct)
  case init
  show ?case by (simp add: v5_Inner_new_def)
next
  case (receive r ps env req c s)
  then show ?case using v5_dispatch_aliases [OF receive(2), of a] by (simp add: last_topic_append split: option.splits)
next
  case (no_call r ps r')
  from no_call(2,3,4) show ?case
    by (induction rule: v5_server_step.induct)
      (auto dest!: v5_publish_done_continues [THEN v5_continues_aliases] v5_control_done_continues [THEN v5_continues_aliases])
qed

text \<open>C19: An MQTT 5 server gives a PUBLISH that carries only a topic alias to the publish service with the topic that the peer sent
  last together with that alias on this connection, whatever requests, answers and other steps came in between, and refuses it as an invalid
  topic alias when there was none. What counts are the messages the server took: one that it refused, or whose identifier was in
  use, leaves the alias as it was. The PUBLISH itself passes the checks of its identifier, and the stream is open.\<close>

theorem v5_topic_alias_resolves:
  fixes r :: "('e, 'io) v5_server" and cfg :: "('t, 'e) v5_DispatcherCfg"
  assumes "v5_heard cfg sink r ps" and "pub5_topic p = []" and "pp5_topic_alias (pub5_properties p) = Some a"
    and "v5_publish_checks p (sv5_inner r) = Inr s1" and "\<not> env_closed env"
  shows "v5_dispatch cfg env (DI_Item (V5_Publish p) sz :: (v5_Packet, 'io) DispatchItem) (sv5_inner r) =
    (case last_topic ps a of
       Some topic \<Rightarrow> (Call_publish (p\<lparr>pub5_topic := topic\<rparr>, sz) (pub5_packet_id p), s1)
     | None \<Rightarrow> v5_proto_error (violation DR_TopicAliasInvalid ''Unknown topic alias'') s1)"
proof -
  have "in5_aliases s1 a = last_topic ps a" using v5_heard_aliases [OF assms(1), of a] v5_publish_checks_Inr(2) [OF assms(4)] by simp
  then show ?thesis using assms
    by (simp add: v5_dispatch_publish_def v5_topic_alias_def has_wildcard_def skip_after_disconnect_def split: option.splits)
qed

lemma v5_alias_sample:
  "\<exists>r :: (unit, unit) v5_server. v5_heard v5_cfg v5_limited r [v5_aliased 2 [0x61], v5_aliased 3 [0x63], v5_aliased 2 [0x62]] \<and>
     in5_inflight (sv5_inner r) = {}"
proof -
  have next_pub: "\<exists>r' :: (unit, unit) v5_server. v5_heard v5_cfg v5_limited r' (ps @ [v5_aliased a t]) \<and> in5_inflight (sv5_inner r') = {} \<and>
      in5_sink (sv5_inner r') = v5_limited"
    if r: "v5_heard v5_cfg v5_limited r ps" "in5_inflight (sv5_inner r) = {}" "in5_sink (sv5_inner r) = v5_limited"
      and t: "t \<noteq> []" "\<not> has_wildcard t" "a \<le> sh_topic_alias_max v5_limited" for r :: "(unit, unit) v5_server" and ps a t
  proof -
    let ?req = "DI_Item (V5_Publish (v5_aliased a t)) 9 :: (v5_Packet, unit) DispatchItem"
    obtain c s where d: "v5_dispatch v5_cfg v5_env ?req (sv5_inner r) = (c :: (unit, unit) v5_call, s)" by fastforce
    have "v5_taken (v5_aliased a t) (sv5_inner r)" using r t by (auto simp: v5_taken_def v5_refusal_def v5_aliased_def v5_publish_def Let_def)
    moreover have "in5_inflight s = {} \<and> in5_sink s = v5_limited"
      using d r(2,3) t by (auto simp: v5_dispatch_publish_def v5_publish_checks_def v5_topic_alias_def v5_aliased_def v5_publish_def v5_proto_error_def
          v5_control_def Let_def split: if_splits option.splits)
    ultimately show ?thesis using v5_heard.receive [OF r(1) d] by (intro exI conjI) auto
  qed
  obtain r1 :: "(unit, unit) v5_server" where "v5_heard v5_cfg v5_limited r1 ([] @ [v5_aliased 2 [0x61]])" "in5_inflight (sv5_inner r1) = {}" "in5_sink (sv5_inner r1) = v5_limited"
    using next_pub [OF v5_heard.init, of "[0x61]" 2] by (auto simp: has_wildcard_def v5_Inner_new_def v5_sample_defs)
  from next_pub [OF this, of "[0x63]" 3] obtain r2 :: "(unit, unit) v5_server" where
    "v5_heard v5_cfg v5_limited r2 ([v5_aliased 2 [0x61]] @ [v5_aliased 3 [0x63]])" "in5_inflight (sv5_inner r2) = {}" "in5_sink (sv5_inner r2) = v5_limited"
    by (auto simp: has_wildcard_def v5_sample_defs)
  from next_pub [OF this, of "[0x62]" 2] show ?thesis by (auto simp: has_wildcard_def v5_sample_defs)
qed

theorem v5_topic_alias_resolves_witness:
  "\<exists>r :: (unit, unit) v5_server. v5_dispatch v5_cfg v5_env (DI_Item (V5_Publish (v5_aliased 2 [])) 9 :: (v5_Packet, unit) DispatchItem) (sv5_inner r) =
     (Call_publish (v5_aliased 2 [0x62], 9) None, sv5_inner r)"
proof -
  obtain r :: "(unit, unit) v5_server" where r: "v5_heard v5_cfg v5_limited r [v5_aliased 2 [0x61], v5_aliased 3 [0x63], v5_aliased 2 [0x62]]"
    using v5_alias_sample by blast
  have "last_topic [v5_aliased 2 [0x61], v5_aliased 3 [0x63], v5_aliased 2 [0x62]] 2 = Some [0x62]"
    by (simp add: last_topic_def v5_aliased_def v5_publish_def)
  then show ?thesis
    using v5_topic_alias_resolves [OF r, of "v5_aliased 2 []" 2 "sv5_inner r" v5_env 9]
    by (intro exI [of _ r]) (simp add: v5_aliased_def v5_publish_def v5_publish_checks_def v5_env_def del: v5_dispatch.simps)
qed

text \<open>C37: A call of the MQTT 5 server ends after at most three answers of the user's services: every answer
  lowers its rank, which starts at three at most; an error of the control service is reported to it
  once and never again.\<close>

theorem v5_call_terminates:
  "call_rank (fst (v5_dispatch cfg env req s) :: ('e, 'io) v5_call) \<le> 3 \<and>
   call_rank (fst (v5_publish_done cfg res i s) :: ('e, 'io) v5_call) < call_rank (Call_publish p i :: ('e, 'io) v5_call) \<and>
   call_rank (fst (v5_control_done env (snd m) error j answer s) :: ('e, 'io) v5_call) <
     call_rank (Call_control m error j :: ('e, 'io) v5_call)"
proof -
  have "call_rank c \<le> 3" for c :: "('e, 'io) v5_call" by (cases c) auto
  then show ?thesis using v5_publish_done_rank v5_control_done_rank by (metis call_rank.simps(3))
qed

section \<open>Gaps in the checks\<close>

text \<open>The checks of \<open>RETAIN\<close> are made only for a PUBLISH with an identifier: at QoS 0 a retained message is
  given to the publish service although retain is not available.\<close>

theorem v5_retained_qos0_accepted:
  fixes cfg :: "('t, 'e) v5_DispatcherCfg"
  assumes "\<not> v5_retain_available (sh_codec (in5_sink s))" and "pub5_retain publish" and "pub5_packet_id publish = None"
    and "\<not> has_wildcard (pub5_topic publish)" and "pp5_topic_alias (pub5_properties publish) = None" and "\<not> env_closed env"
  shows "v5_dispatch cfg env (DI_Item (V5_Publish publish) sz :: (v5_Packet, 'io) DispatchItem) s =
    (Call_publish (publish, sz) None :: ('e, 'io) v5_call, s)"
  using assms by (simp add: v5_dispatch_publish_def v5_publish_checks_def v5_topic_alias_def skip_after_disconnect_def)

text \<open>The set that is compared with the receive maximum also holds the identifiers of SUBSCRIBE and
  UNSUBSCRIBE requests in progress: with a receive maximum of one, a PUBLISH that arrives while a
  subscription is being handled is refused, although no PUBLISH is in progress.\<close>

theorem v5_subscribe_counts_as_publish:
  assumes "sh_receive_max (in5_sink s) = 1" and "in5_inflight s = {}" and "\<not> env_closed env"
    and "\<forall>tf \<in> set (sub5_topic_filters pkt). topic_is_valid (fst tf)" and "sub5_id pkt = None"
    and "pub5_packet_id publish \<noteq> None" and "\<not> has_wildcard (pub5_topic publish)"
  shows "v5_refusal publish (snd (v5_dispatch cfg env (DI_Item (V5_Subscribe pkt) sz) s)) = Some DR_ReceiveMaximumExceeded"
  using assms by (auto simp: v5_dispatch_filters_def v5_sub_id_refused_def v5_control_def v5_refusal_def)

text \<open>A PUBLISH with an empty topic and no alias is given to the publish service.\<close>

theorem v5_empty_topic_accepted:
  fixes cfg :: "('t, 'e) v5_DispatcherCfg"
  assumes "pub5_topic publish = []" and "pp5_topic_alias (pub5_properties publish) = None" and "pub5_packet_id publish = None"
    and "\<not> env_closed env"
  shows "v5_dispatch cfg env (DI_Item (V5_Publish publish) sz :: (v5_Packet, 'io) DispatchItem) s =
    (Call_publish (publish, sz) None :: ('e, 'io) v5_call, s)"
  using assms by (simp add: v5_dispatch_publish_def v5_publish_checks_def v5_topic_alias_def skip_after_disconnect_def has_wildcard_def)

end
