(* ===== verification/V5_Client.thy ===== *)
theory V5_Client
  imports V5_Dispatcher
begin

text \<open>
  The client dispatcher of MQTT 5 (\<open>src/v5/client/dispatcher.rs\<close>). Its state has the same type as the
  server's; the limits are the client's own. The flag of a control message is not used.
\<close>

record v5c_DispatcherCfg =
  dcc5_max_receive :: nat
  dcc5_max_topic_alias :: u16

type_synonym ('e, 'io) v5c_call = "(v5_Publish \<times> u32, ('e, 'io) v5c_Control, v5_Packet, 'e, 'io) call"

definition v5c_is_error :: "('e, 'io) v5c_Control \<Rightarrow> bool" where
  "v5c_is_error c = (case c of CC5_Error _ \<Rightarrow> True | CC5_ProtocolError _ \<Rightarrow> True | _ \<Rightarrow> False)"

definition v5c_control :: "('e, 'io) v5c_Control \<Rightarrow> u16 option \<Rightarrow> v5_Inner \<Rightarrow> ('e, 'io) v5c_call \<times> v5_Inner" where
  "v5c_control pkt packet_id s = (Call_control pkt (v5c_is_error pkt) packet_id, s)"

definition v5c_proto_error :: "ProtocolError \<Rightarrow> v5_Inner \<Rightarrow> ('e, 'io) v5c_call \<times> v5_Inner" where
  "v5c_proto_error e = v5c_control (CC5_ProtocolError (v5_ProtocolError_new e)) None"

definition v5c_publish_checks :: "v5c_DispatcherCfg \<Rightarrow> v5_Publish \<Rightarrow> v5_Inner \<Rightarrow> ProtocolError option + v5_Inner" where
  "v5c_publish_checks cfg publish s =
     (case pub5_packet_id publish of
        None \<Rightarrow> Inr s
      | Some pid \<Rightarrow>
          if dcc5_max_receive cfg \<noteq> 0 \<and> dcc5_max_receive cfg \<le> card (in5_inflight s) then
            Inl (Some (violation DR_ReceiveMaximumExceeded ''Number of in-flight messages exceeds set maximum, [MQTT-3.3.4-9]''))
          else if pid \<in> in5_inflight s then Inl None
          else Inr (s\<lparr>in5_inflight := insert pid (in5_inflight s)\<rparr>))"

definition v5c_dispatch_publish :: "v5c_DispatcherCfg \<Rightarrow> v5_Env \<Rightarrow> v5_Publish \<Rightarrow> u32 \<Rightarrow> v5_Inner \<Rightarrow> ('e, 'io) v5c_call \<times> v5_Inner" where
  "v5c_dispatch_publish cfg env publish sz s =
     (case v5c_publish_checks cfg publish s of
        Inl (Some e) \<Rightarrow> v5c_proto_error e s
      | Inl None \<Rightarrow> (Call_done (Ok None), v5_id_in_use (pub5_packet_id publish) env s)
      | Inr s1 \<Rightarrow>
          (case v5_topic_alias (dcc5_max_topic_alias cfg) ''Topic alias is greater than max allowed [MQTT-3.1.2-26]''
              publish (in5_aliases s1) of
             Inl e \<Rightarrow> v5c_proto_error e s1
           | Inr (publish', aliases) \<Rightarrow>
               (Call_publish (publish', sz) (pub5_packet_id publish), s1\<lparr>in5_aliases := aliases\<rparr>)))"

definition v5c_ack :: "v5_Env \<Rightarrow> v5_Ack \<Rightarrow> v5_Inner \<Rightarrow> ('e, 'io) v5c_call \<times> v5_Inner" where
  "v5c_ack env ack s =
     (case v5_pkt_ack env ack (in5_sink s) of
        (Ok _, sink) \<Rightarrow> (Call_done (Ok None), s\<lparr>in5_sink := sink\<rparr>)
      | (Err e, sink) \<Rightarrow> v5c_proto_error e (s\<lparr>in5_sink := sink\<rparr>)
      | (Panic, sink) \<Rightarrow> (Call_done Panic, s\<lparr>in5_sink := sink\<rparr>))"

definition v5c_unexpected :: "v5_Packet \<Rightarrow> ('e, 'io) v5c_call" where
  "v5c_unexpected pkt = Call_done (Err (ME_Handshake (HE_Protocol
     (unexpected_packet (v5_packet_type pkt) ''Packet of the type is not expected from server''))))"

fun v5c_dispatch :: "v5c_DispatcherCfg \<Rightarrow> v5_Env \<Rightarrow> (v5_Packet, 'io) DispatchItem \<Rightarrow> v5_Inner \<Rightarrow> ('e, 'io) v5c_call \<times> v5_Inner" where
  "v5c_dispatch cfg env (DI_Item (V5_Publish publish) sz) s = v5c_dispatch_publish cfg env publish sz s"
| "v5c_dispatch cfg env (DI_Item (V5_PublishAck packet) sz) s = v5c_ack env (Ack_Publish packet) s"
| "v5c_dispatch cfg env (DI_Item (V5_SubscribeAck packet) sz) s = v5c_ack env (Ack_Subscribe packet) s"
| "v5c_dispatch cfg env (DI_Item (V5_UnsubscribeAck packet) sz) s = v5c_ack env (Ack_Unsubscribe packet) s"
| "v5c_dispatch cfg env (DI_Item (V5_Disconnect pkt) sz) s = v5c_control (CC5_Disconnect pkt sz) None s"
| "v5c_dispatch cfg env (DI_Item (V5_Auth _) sz) s =
     v5c_proto_error (unexpected_packet AUTH ''AUTH packet is not supported at this time'') s"
| "v5c_dispatch cfg env (DI_Item V5_PingRequest sz) s = (v5c_unexpected V5_PingRequest, s)"
| "v5c_dispatch cfg env (DI_Item (V5_Subscribe pkt) sz) s = (v5c_unexpected (V5_Subscribe pkt), s)"
| "v5c_dispatch cfg env (DI_Item (V5_Unsubscribe pkt) sz) s = (v5c_unexpected (V5_Unsubscribe pkt), s)"
| "v5c_dispatch cfg env (DI_Item _ sz) s = (Call_done (Ok None), s)"
| "v5c_dispatch cfg env (DI_EncoderError err) s = v5c_proto_error (PE_Encode err) s"
| "v5c_dispatch cfg env (DI_DecoderError err) s = v5c_proto_error (PE_Decode err) s"
| "v5c_dispatch cfg env (DI_Disconnect err) s = v5c_control (CC5_PeerGone err) None s"
| "v5c_dispatch cfg env DI_KeepAliveTimeout s = v5c_proto_error PE_KeepAliveTimeout s"
| "v5c_dispatch cfg env DI_ReadTimeout s = v5c_proto_error PE_ReadTimeout s"
| "v5c_dispatch cfg env DI_WBackPressureEnabled s =
     (Call_done (Ok None), s\<lparr>in5_sink := sh_enable_wr_backpressure (in5_sink s)\<rparr>)"
| "v5c_dispatch cfg env DI_WBackPressureDisabled s =
     (Call_done (Ok None), s\<lparr>in5_sink := sh_disable_wr_backpressure env (in5_sink s)\<rparr>)"

text \<open>\<open>publish_fn\<close> after the service answered: an error, an acknowledgement (\<open>Right\<close>), or the message handed
  back (\<open>Left\<close>), which goes to the control service with the size of the packet.\<close>

definition v5c_publish_done :: "'e + (v5_Publish \<times> u32) + v5_PubAck \<Rightarrow> u32 \<Rightarrow> u16 option \<Rightarrow> v5_Inner
    \<Rightarrow> ('e, 'io) v5c_call \<times> v5_Inner" where
  "v5c_publish_done res packet_size packet_id s =
     (case res of
        Inr (Inr ack) \<Rightarrow> map_prod Call_done (\<lambda>s. s) (v5_publish_acked ack packet_id s)
      | Inr (Inl pkt) \<Rightarrow> v5c_control (CC5_Publish (fst pkt) packet_size) packet_id s
      | Inl e \<Rightarrow> v5c_control (CC5_Error (v5_Error_new e)) None s)"

text \<open>One iteration of the loop of \<open>control\<close> after the control service answered.\<close>

definition v5c_control_done :: "v5_Env \<Rightarrow> bool \<Rightarrow> u16 option \<Rightarrow> ('e, 'io) MqttError + v5_ControlAck \<Rightarrow> v5_Inner
    \<Rightarrow> ('e, 'io) v5c_call \<times> v5_Inner" where
  "v5c_control_done env error packet_id res s =
     (case res of
        Inr result \<Rightarrow> map_prod Call_done (\<lambda>s. s) (v5_control_answered env error result (v5_release packet_id s))
      | Inl err \<Rightarrow>
          if error then (Call_done (Err err), s)
          else (case err of
                  ME_Service e \<Rightarrow> (Call_control (CC5_Error (v5_Error_new e)) True packet_id, s)
                | _ \<Rightarrow> (Call_done (Err err), s)))"

definition v5c_shutdown :: "v5_Inner \<Rightarrow> ('e, 'io) v5c_Control \<times> v5_Inner" where
  "v5c_shutdown s = (CC5_Closed, v5_drop s)"

text \<open>The whole call, for services that answer by functions.\<close>

function v5c_complete :: "v5_Env \<Rightarrow> (v5_Publish \<times> u32 \<Rightarrow> 'e + (v5_Publish \<times> u32) + v5_PubAck)
    \<Rightarrow> (('e, 'io) v5c_Control \<Rightarrow> ('e, 'io) MqttError + v5_ControlAck) \<Rightarrow> ('e, 'io) v5c_call \<Rightarrow> v5_Inner
    \<Rightarrow> (('e, 'io) MqttError, v5_Packet option) res \<times> v5_Inner" where
  "v5c_complete env pub ctl (Call_done r) s = (r, s)"
| "v5c_complete env pub ctl (Call_publish p packet_id) s =
     (let cs = v5c_publish_done (pub p) (snd p) packet_id s in v5c_complete env pub ctl (fst cs) (snd cs))"
| "v5c_complete env pub ctl (Call_control m error packet_id) s =
     (let cs = v5c_control_done env error packet_id (ctl m) s in v5c_complete env pub ctl (fst cs) (snd cs))"
  by pat_completeness auto

lemma v5c_publish_done_rank: "call_rank (fst (v5c_publish_done res sz packet_id s)) < 3"
  by (auto simp: v5c_publish_done_def v5c_control_def v5c_is_error_def v5_publish_acked_def split: sum.splits option.splits)

lemma v5c_control_done_rank:
  "call_rank (fst (v5c_control_done env error packet_id res s)) < call_rank (Call_control m error i)"
  by (auto simp: v5c_control_done_def v5_control_answered_def Let_def split: sum.splits MqttError.splits)

termination v5c_complete
  apply (relation "measure (\<lambda>(env, pub, ctl, c, s). call_rank c)")
    apply simp
  subgoal for env pub ctl p packet_id s cs
    using v5c_publish_done_rank [of "pub p" "snd p" packet_id s] by (simp add: case_prod_unfold)
  subgoal for env pub ctl m error packet_id s cs
    using v5c_control_done_rank [of env error packet_id "ctl m" s m packet_id]
    by (simp add: case_prod_unfold del: call_rank.simps)
  done

definition v5c_call :: "v5c_DispatcherCfg \<Rightarrow> v5_Env \<Rightarrow> (v5_Publish \<times> u32 \<Rightarrow> 'e + (v5_Publish \<times> u32) + v5_PubAck)
    \<Rightarrow> (('e, 'io) v5c_Control \<Rightarrow> ('e, 'io) MqttError + v5_ControlAck) \<Rightarrow> (v5_Packet, 'io) DispatchItem \<Rightarrow> v5_Inner
    \<Rightarrow> (('e, 'io) MqttError, v5_Packet option) res \<times> v5_Inner" where
  "v5c_call cfg env pub ctl req s = (let cs = v5c_dispatch cfg env req s in v5c_complete env pub ctl (fst cs) (snd cs))"

section \<open>Calls in progress\<close>

fun v5c_call_ids :: "('e, 'io) v5c_call \<Rightarrow> u16 list" where
  "v5c_call_ids (Call_publish _ (Some i)) = [i]"
| "v5c_call_ids (Call_control _ _ (Some i)) = [i]"
| "v5c_call_ids _ = []"

definition v5c_starts :: "v5c_DispatcherCfg \<Rightarrow> v5_Inner \<Rightarrow> ('e, 'io) v5c_call \<Rightarrow> v5_Inner \<Rightarrow> bool" where
  "v5c_starts cfg s c s' \<longleftrightarrow> (\<exists>env req. v5c_dispatch cfg env req s = (c, s'))"

inductive v5c_answers :: "('e, 'io) v5c_call \<Rightarrow> v5_Inner \<Rightarrow> ('e, 'io) v5c_call \<Rightarrow> v5_Inner \<Rightarrow> bool" where
  publish: "v5c_publish_done res (snd p) i s = (c', s') \<Longrightarrow> v5c_answers (Call_publish p i) s c' s'"
| control: "v5c_control_done env e i res s = (c', s') \<Longrightarrow> v5c_answers (Call_control m e i) s c' s'"

text \<open>What the state promises: a receive maximum bounds the identifiers in flight, and the alias table
  stays below the alias maximum.\<close>

definition v5c_bounded :: "v5c_DispatcherCfg \<Rightarrow> v5_Inner \<Rightarrow> bool" where
  "v5c_bounded cfg s \<longleftrightarrow> (dcc5_max_receive cfg \<noteq> 0 \<longrightarrow> card (in5_inflight s) \<le> dcc5_max_receive cfg) \<and>
     dom (in5_aliases s) \<subseteq> {..dcc5_max_topic_alias cfg}"

lemma v5c_bounded_sink [simp]: "v5c_bounded cfg (s\<lparr>in5_sink := sink\<rparr>) = v5c_bounded cfg s"
  by (simp add: v5c_bounded_def)

lemma v5c_publish_checks_Inr:
  assumes "v5c_publish_checks cfg publish s = Inr s1"
  shows "in5_sink s1 = in5_sink s" "in5_aliases s1 = in5_aliases s"
    "in5_inflight s1 = in5_inflight s \<union> set_option (pub5_packet_id publish)"
    "set_option (pub5_packet_id publish) \<inter> in5_inflight s = {}"
    "dcc5_max_receive cfg \<noteq> 0 \<longrightarrow> card (in5_inflight s) \<le> dcc5_max_receive cfg \<longrightarrow> card (in5_inflight s1) \<le> dcc5_max_receive cfg"
  using assms by (auto simp: v5c_publish_checks_def split: option.splits if_splits)

lemma v5_topic_alias_dom:
  assumes "v5_topic_alias alias_max msg publish aliases = Inr (publish', aliases')" and "dom aliases \<subseteq> {..alias_max}"
  shows "dom aliases' \<subseteq> {..alias_max}"
  using assms by (auto simp: v5_topic_alias_def subset_iff dom_def split: option.splits if_splits)

lemma v5c_dispatch_publish_ids:
  assumes "v5c_dispatch_publish cfg env publish sz s = (c, s')"
  shows "in5_inflight s \<subseteq> in5_inflight s' \<and>
    (v5c_call_ids c = [] \<or> (\<exists>i. v5c_call_ids c = [i] \<and> i \<notin> in5_inflight s \<and> i \<in> in5_inflight s')) \<and>
    (v5c_bounded cfg s \<longrightarrow> v5c_bounded cfg s')"
proof (cases "v5c_publish_checks cfg publish s")
  case (Inl e)
  then show ?thesis using assms
    by (auto simp: v5c_dispatch_publish_def v5c_proto_error_def v5c_control_def v5_id_in_use_def v5_encode_packet_def
        split: option.splits)
next
  case (Inr s1)
  note s1 = v5c_publish_checks_Inr [OF Inr]
  have "v5c_bounded cfg (s1\<lparr>in5_aliases := al\<rparr>)" if "v5c_bounded cfg s" "dom al \<subseteq> {..dcc5_max_topic_alias cfg}" for al
    using that s1(5) by (auto simp: v5c_bounded_def)
  moreover have "v5c_bounded cfg s1" if "v5c_bounded cfg s" using that s1(2,5) by (simp add: v5c_bounded_def)
  moreover have "v5c_bounded cfg s \<longrightarrow> dom (in5_aliases s1) \<subseteq> {..dcc5_max_topic_alias cfg}" using s1(2) by (simp add: v5c_bounded_def)
  ultimately show ?thesis using assms Inr s1(3,4)
    by (cases "pub5_packet_id publish")
      (auto simp: v5c_dispatch_publish_def v5c_proto_error_def v5c_control_def dest: v5_topic_alias_dom split: sum.splits)
qed

lemma v5c_dispatch_ids:
  assumes "v5c_dispatch cfg env req s = (c, s')"
  shows "in5_inflight s \<subseteq> in5_inflight s' \<and>
    (v5c_call_ids c = [] \<or> (\<exists>i. v5c_call_ids c = [i] \<and> i \<notin> in5_inflight s \<and> i \<in> in5_inflight s')) \<and>
    (v5c_bounded cfg s \<longrightarrow> v5c_bounded cfg s')"
  using assms
  by (cases "(cfg, env, req, s)" rule: v5c_dispatch.cases)
    (auto simp: v5c_dispatch_publish_ids v5c_ack_def v5c_proto_error_def v5c_unexpected_def v5c_control_def
      split: prod.splits res.splits)

lemma v5c_answers_ids:
  assumes "v5c_answers c s c' s'"
  shows "\<exists>rel. rel \<subseteq> set (v5c_call_ids c) \<and> in5_inflight s' = in5_inflight s - rel \<and>
    (v5c_call_ids c' = [] \<or> v5c_call_ids c' = v5c_call_ids c \<and> rel = {})"
  using assms
proof cases
  case (publish res p i)
  then show ?thesis
    by (intro exI [of _ "if \<exists>ack. res = Inr (Inr ack) then set_option i else {}"])
      (cases i; auto simp: v5c_publish_done_def v5c_control_def v5_publish_acked_def v5_release_def split: sum.splits)
next
  case (control env e i res m)
  then show ?thesis
    by (intro exI [of _ "if \<exists>a. res = Inr a then set_option i else {}"])
      (cases i; auto simp: v5c_control_done_def v5_control_answered_def v5_release_def v5_drop_def v5_encode_packet_def Let_def
        split: sum.splits if_splits MqttError.splits option.splits)
qed

lemma v5c_answers_aliases: "v5c_answers c s c' s' \<Longrightarrow> in5_aliases s' = in5_aliases s"
  by (cases rule: v5c_answers.cases, assumption)
    (auto simp: v5c_publish_done_def v5c_control_def v5_publish_acked_def v5_release_def v5c_control_done_def v5_control_answered_def
      v5_drop_def v5_encode_packet_def Let_def split: sum.splits if_splits MqttError.splits option.splits)

lemma v5c_answers_bounded:
  assumes "v5c_answers c s c' s'" and "v5c_bounded cfg s"
  shows "v5c_bounded cfg s'"
proof -
  from v5c_answers_ids [OF assms(1)] have "card (in5_inflight s') \<le> card (in5_inflight s)"
    by (auto intro: card_mono)
  then show ?thesis using assms(2) v5c_answers_aliases [OF assms(1)] by (auto simp: v5c_bounded_def)
qed

interpretation client5: dispatcher in5_inflight v5c_call_ids "v5c_starts cfg" v5c_answers for cfg
proof unfold_locales
  show "in5_inflight s \<subseteq> in5_inflight s' \<and>
      (v5c_call_ids c = [] \<or> (\<exists>i. v5c_call_ids c = [i] \<and> i \<notin> in5_inflight s \<and> i \<in> in5_inflight s'))"
    if "v5c_starts cfg s c s'" for s s' and c :: "('e, 'io) v5c_call"
    using that v5c_dispatch_ids unfolding v5c_starts_def by blast
qed (rule v5c_answers_ids)

section \<open>Properties\<close>

text \<open>However the calls of an MQTT 5 client interleave and in whatever order its services answer, its calls and its
  limits stay in order.\<close>

lemma v5c_reach_bounded:
  fixes calls :: "('e, 'io) v5c_call list"
  assumes "calls_reach (v5c_starts cfg) v5c_answers (\<lambda>s s'. \<exists>sink. s' = s\<lparr>in5_sink := sink\<rparr>) (v5_Inner_new sink) (s, calls)"
  shows "distinct (concat (map v5c_call_ids calls)) \<and> set (concat (map v5c_call_ids calls)) \<subseteq> in5_inflight s \<and> v5c_bounded cfg s"
proof -
  have "calls_ok v5c_call_ids (in5_inflight (fst (s, calls))) (snd (s, calls))"
    by (rule client5.reach_ok [OF assms]) auto
  moreover have "v5c_bounded cfg (fst (s, calls))" using assms
  proof (induction rule: calls_reach.induct)
    case calls_init
    show ?case by (simp add: v5c_bounded_def v5_Inner_new_def)
  next
    case (calls_start s calls c s')
    then show ?case using v5c_dispatch_ids unfolding v5c_starts_def by fastforce
  next
    case (calls_answer s pre c post c' s')
    then show ?case using v5c_answers_bounded by simp
  next
    case (calls_other s calls s')
    then show ?case by auto
  qed
  ultimately show ?thesis by (simp add: calls_ok_def)
qed



end
