(* ===== verification/Io.thy ===== *)
theory Io
  imports Dispatch
begin

text \<open>
  The framed transport dispatcher (\<open>src/io.rs\<close>): it reads items from the stream, gives them to the
  protocol dispatcher and writes the responses in the order of the requests, watches the
  keep-alive and frame read timers, and drains and closes the connection.

  \<open>poll\<close> is a loop; \<open>io_iter\<close> is one iteration of it. What the stream and the service answer when they
  are polled is the argument of type \<open>IoInput\<close>. A future is named by the number of the call it
  belongs to; a future that was moved to a task of its own is in \<open>io_tasks\<close>. \<open>None\<close> stands for a panic;
  subtraction below zero is one.
\<close>

section \<open>Types\<close>

datatype 'r ServiceResult = SR_Pending | SR_Ready 'r

datatype IoDispatcherState = IDS_Processing | IDS_Backpressure | IDS_Stop | IDS_Shutdown

datatype 'e IoDispatcherError = IDE_Encoder EncodeError | IDE_Service 'e

datatype ('pkt, 'io) PollService = PS_Item "('pkt, 'io) DispatchItem" | PS_Continue | PS_Ready

text \<open>The effects on the stream and the requests given to the service, in order.\<close>

datatype ('pkt, 'io) io_event =
    IoEv_encode 'pkt
  | IoEv_call "('pkt, 'io) DispatchItem"
  | IoEv_wake
  | IoEv_start_timer u16
  | IoEv_stop_timer
  | IoEv_pause

definition READY_ERR :: u8 where "READY_ERR = 0b00001"
definition IO_ERR :: u8 where "IO_ERR = 0b00010"
definition KA_ENABLED :: u8 where "KA_ENABLED = 0b00100"
definition KA_TIMEOUT :: u8 where "KA_TIMEOUT = 0b01000"
definition READ_TIMEOUT :: u8 where "READ_TIMEOUT = 0b10000"

lemmas io_flag_defs = READY_ERR_def IO_ERR_def KA_ENABLED_def KA_TIMEOUT_def READ_TIMEOUT_def

text \<open>\<open>DispatcherState\<close> with the log of the stream it writes to.\<close>

record ('pkt, 'e, 'io) DispatcherState =
  ds_error :: "'e IoDispatcherError option"
  ds_base :: "64 word"
  ds_queue :: "('e + 'pkt option) ServiceResult list"
  ds_events :: "('pkt, 'io) io_event list"

text \<open>\<open>DispatcherInner\<close>. \<open>io_calls\<close> counts the calls of the service.\<close>

record ('pkt, 'e, 'io) DispatcherInner =
  io_st :: IoDispatcherState
  io_flags :: u8
  io_state :: "('pkt, 'e, 'io) DispatcherState"
  io_read_remains :: u32
  io_read_remains_prev :: u32
  io_read_max_timeout :: u16
  io_keepalive_timeout :: u16
  io_response :: "nat option"
  io_response_idx :: "64 word"
  io_tasks :: "(nat \<times> 64 word) list"
  io_calls :: nat

text \<open>\<open>DispatcherConfig\<close>: the keep-alive timeout, and period, maximum and rate of \<open>frame_read_rate\<close>.\<close>

record IoConfig =
  cfg_keepalive_timeout :: u16
  cfg_frame_read_rate :: "(u16 \<times> u16 \<times> u16) option"

datatype 'e SvcReady = Svc_ok | Svc_pending | Svc_err 'e

datatype 'io IoStatusUpdate = ISU_KeepAlive | ISU_Stop | ISU_PeerGone "'io option" | ISU_WriteBackpressure

datatype 'io RecvError = RE_Stop | RE_KeepAlive | RE_WriteBackpressure | RE_Decoder DecodeError | RE_PeerGone "'io option"

text \<open>The answers of one iteration: \<open>service.poll_ready\<close>, \<open>io.poll_read_pause\<close>, \<open>io.poll_recv_decode\<close> (item and
  bytes that remain), \<open>io.poll_flush\<close>, \<open>io.poll_status_update\<close>, \<open>io.poll_shutdown\<close>, \<open>service.poll_shutdown\<close>, and for
  each call the answer it has at once. \<open>None\<close> is \<open>Poll::Pending\<close>.\<close>

record ('pkt, 'e, 'io) IoInput =
  in_ready :: "'e SvcReady"
  in_pause :: "'io IoStatusUpdate option"
  in_recv :: "'io RecvError + ('pkt \<times> u32) option \<times> nat"
  in_flush :: "('io + unit) option"
  in_status :: "'io IoStatusUpdate option"
  in_shutdown :: bool
  in_service_shutdown :: bool
  in_now :: "nat \<Rightarrow> ('e + 'pkt option) option"

datatype 'e Iter = It_continue | It_pending | It_ready "'e + unit"

section \<open>Responses\<close>

definition ds_log :: "('pkt, 'io) io_event \<Rightarrow> ('pkt, 'e, 'io) DispatcherState \<Rightarrow> ('pkt, 'e, 'io) DispatcherState" where
  "ds_log e s = s\<lparr>ds_events := ds_events s @ [e]\<rparr>"

text \<open>The \<open>match item\<close> of \<open>handle_result\<close> and \<open>call_service\<close>; \<open>enc\<close> is the result of the codec.\<close>

definition handle_item :: "('pkt \<Rightarrow> EncodeError option) \<Rightarrow> 'e + 'pkt option \<Rightarrow> ('pkt, 'e, 'io) DispatcherState
    \<Rightarrow> ('pkt, 'e, 'io) DispatcherState" where
  "handle_item enc item s =
     (case item of
        Inl err \<Rightarrow> s\<lparr>ds_error := Some (IDE_Service err)\<rparr>
      | Inr (Some pkt) \<Rightarrow>
          (case enc pkt of
             Some err \<Rightarrow> (ds_log (IoEv_encode pkt) s)\<lparr>ds_error := Some (IDE_Encoder err)\<rparr>
           | None \<Rightarrow> ds_log (IoEv_encode pkt) s)
      | Inr None \<Rightarrow> s)"

definition ds_pop :: "('pkt, 'e, 'io) DispatcherState \<Rightarrow> ('pkt, 'e, 'io) DispatcherState" where
  "ds_pop s = s\<lparr>ds_queue := tl (ds_queue s), ds_base := ds_base s + 1\<rparr>"

text \<open>\<open>check remaining response\<close>: the loop over the results at the front that are ready.\<close>

fun drain_ready :: "('pkt \<Rightarrow> EncodeError option) \<Rightarrow> ('e + 'pkt option) ServiceResult list \<Rightarrow> ('pkt, 'e, 'io) DispatcherState
    \<Rightarrow> ('pkt, 'e, 'io) DispatcherState" where
  "drain_ready enc (SR_Ready item # queue) s = drain_ready enc queue (handle_item enc item (ds_pop s))"
| "drain_ready enc queue s = s"

definition handle_result :: "('pkt \<Rightarrow> EncodeError option) \<Rightarrow> 'e + 'pkt option \<Rightarrow> 64 word \<Rightarrow> bool
    \<Rightarrow> ('pkt, 'e, 'io) DispatcherState \<Rightarrow> ('pkt, 'e, 'io) DispatcherState option" where
  "handle_result enc item response_idx wake s =
     (let idx = response_idx - ds_base s in
      if idx = 0 then
        let s1 = handle_item enc item (ds_pop s); s2 = drain_ready enc (ds_queue s1) s1 in
        Some (if wake \<and> ds_queue s2 = [] then ds_log IoEv_wake s2 else s2)
      else if unat idx < length (ds_queue s) then Some (s\<lparr>ds_queue := (ds_queue s)[unat idx := SR_Ready item]\<rparr>)
      else None)"

section \<open>The dispatcher\<close>

definition io_log :: "('pkt, 'io) io_event \<Rightarrow> ('pkt, 'e, 'io) DispatcherInner \<Rightarrow> ('pkt, 'e, 'io) DispatcherInner" where
  "io_log e d = d\<lparr>io_state := ds_log e (io_state d)\<rparr>"

text \<open>\<open>Dispatcher::new\<close> and \<open>keepalive_timeout\<close>.\<close>

definition io_new :: "IoConfig \<Rightarrow> ('pkt, 'e, 'io) DispatcherInner" where
  "io_new config =
     \<lparr>io_st = IDS_Processing, io_flags = (if cfg_keepalive_timeout config = 0 then KA_ENABLED else 0),
      io_state = \<lparr>ds_error = None, ds_base = 0, ds_queue = [], ds_events = []\<rparr>,
      io_read_remains = 0, io_read_remains_prev = 0, io_read_max_timeout = 0,
      io_keepalive_timeout = cfg_keepalive_timeout config, io_response = None, io_response_idx = 0, io_tasks = [], io_calls = 0\<rparr>"

definition io_set_keepalive_timeout :: "u16 \<Rightarrow> ('pkt, 'e, 'io) DispatcherInner \<Rightarrow> ('pkt, 'e, 'io) DispatcherInner" where
  "io_set_keepalive_timeout timeout d =
     (let d1 = d\<lparr>io_keepalive_timeout := timeout\<rparr> in
      if timeout = 0 then d1\<lparr>io_flags := io_flags d1 AND NOT KA_ENABLED\<rparr>
      else d1\<lparr>io_flags := io_flags d1 OR KA_ENABLED\<rparr>)"

definition call_service :: "('pkt \<Rightarrow> EncodeError option) \<Rightarrow> ('pkt, 'e, 'io) IoInput \<Rightarrow> ('pkt, 'io) DispatchItem
    \<Rightarrow> ('pkt, 'e, 'io) DispatcherInner \<Rightarrow> ('pkt, 'e, 'io) DispatcherInner" where
  "call_service enc inp item d0 =
     (let fut = io_calls d0; d = (io_log (IoEv_call item) d0)\<lparr>io_calls := Suc fut\<rparr>; state = io_state d;
          response_idx = ds_base state + of_nat (length (ds_queue state)) in
      if io_response d = None then
        (case in_now inp fut of
           Some res \<Rightarrow>
             if ds_queue state = [] then d\<lparr>io_state := handle_item enc res state\<rparr>
             else d\<lparr>io_response_idx := response_idx, io_state := state\<lparr>ds_queue := ds_queue state @ [SR_Ready res]\<rparr>\<rparr>
         | None \<Rightarrow>
             d\<lparr>io_response := Some fut, io_response_idx := response_idx,
               io_state := state\<lparr>ds_queue := ds_queue state @ [SR_Pending]\<rparr>\<rparr>)
      else
        d\<lparr>io_tasks := io_tasks d @ [(fut, response_idx)], io_state := state\<lparr>ds_queue := ds_queue state @ [SR_Pending]\<rparr>\<rparr>)"

definition clear_timers :: "('pkt, 'e, 'io) DispatcherInner \<Rightarrow> ('pkt, 'e, 'io) DispatcherInner" where
  "clear_timers d = io_log IoEv_stop_timer (d\<lparr>io_flags := io_flags d AND NOT (KA_TIMEOUT OR READ_TIMEOUT)\<rparr>)"

definition io_set_error :: "'e IoDispatcherError option \<Rightarrow> ('pkt, 'e, 'io) DispatcherInner \<Rightarrow> ('pkt, 'e, 'io) DispatcherInner" where
  "io_set_error err d = d\<lparr>io_state := (io_state d)\<lparr>ds_error := err\<rparr>\<rparr>"

definition poll_service :: "('pkt, 'e, 'io) IoInput \<Rightarrow> ('pkt, 'e, 'io) DispatcherInner
    \<Rightarrow> ('pkt, 'io) PollService option \<times> ('pkt, 'e, 'io) DispatcherInner" where
  "poll_service inp d =
     (case in_ready inp of
        Svc_ok \<Rightarrow>
          (case ds_error (io_state d) of
             Some (IDE_Encoder err) \<Rightarrow>
               (Some (PS_Item (DI_EncoderError err)), (io_set_error None d)\<lparr>io_st := IDS_Stop\<rparr>)
           | Some (IDE_Service err) \<Rightarrow> (Some PS_Continue, d\<lparr>io_st := IDS_Stop\<rparr>)
           | None \<Rightarrow> (Some PS_Ready, d))
      | Svc_pending \<Rightarrow>
          (let d1 = clear_timers d in
           case in_pause inp of
             None \<Rightarrow> (None, d1)
           | Some ISU_KeepAlive \<Rightarrow> (Some (PS_Item DI_KeepAliveTimeout), d1\<lparr>io_st := IDS_Stop\<rparr>)
           | Some ISU_Stop \<Rightarrow> (Some PS_Continue, d1\<lparr>io_st := IDS_Stop\<rparr>)
           | Some (ISU_PeerGone err) \<Rightarrow> (Some (PS_Item (DI_Disconnect err)), d1\<lparr>io_st := IDS_Stop\<rparr>)
           | Some ISU_WriteBackpressure \<Rightarrow> (Some (PS_Item DI_WBackPressureEnabled), d1\<lparr>io_st := IDS_Backpressure\<rparr>))
      | Svc_err err \<Rightarrow>
          (Some PS_Continue,
           (io_set_error (Some (IDE_Service err)) d)\<lparr>io_st := IDS_Stop, io_flags := io_flags d OR READY_ERR\<rparr>))"

definition update_timer :: "IoConfig \<Rightarrow> ('pkt \<times> u32) option \<Rightarrow> nat \<Rightarrow> ('pkt, 'e, 'io) DispatcherInner \<Rightarrow> ('pkt, 'e, 'io) DispatcherInner" where
  "update_timer config item remains d =
     (if item \<noteq> None then
        d\<lparr>io_read_remains := 0, io_flags := io_flags d AND NOT (KA_TIMEOUT OR READ_TIMEOUT)\<rparr>
      else if flags_contains (io_flags d) READ_TIMEOUT then d\<lparr>io_read_remains := of_nat remains\<rparr>
      else if io_read_remains d = 0 \<and> remains = 0 then
        if flags_contains (io_flags d) KA_ENABLED \<and> \<not> flags_contains (io_flags d) KA_TIMEOUT then
          io_log (IoEv_start_timer (io_keepalive_timeout d)) (d\<lparr>io_flags := io_flags d OR KA_TIMEOUT\<rparr>)
        else d
      else
        (case cfg_frame_read_rate config of
           Some (timeout, max_timeout, _) \<Rightarrow>
             io_log (IoEv_start_timer timeout)
               (d\<lparr>io_flags := io_flags d OR READ_TIMEOUT, io_read_remains := of_nat remains, io_read_remains_prev := 0,
                  io_read_max_timeout := max_timeout\<rparr>)
         | None \<Rightarrow> d))"

text \<open>\<open>handle_timeout\<close>: \<open>Inl item\<close> is the \<open>Err\<close> of the source, \<open>None\<close> the subtraction that underflows.\<close>

definition handle_timeout :: "IoConfig \<Rightarrow> ('pkt, 'e, 'io) DispatcherInner
    \<Rightarrow> (('pkt, 'io) DispatchItem option \<times> ('pkt, 'e, 'io) DispatcherInner) option" where
  "handle_timeout config d =
     (if flags_contains (io_flags d) READ_TIMEOUT then
        (case cfg_frame_read_rate config of
           Some (timeout, max_timeout, rate) \<Rightarrow>
             if io_read_remains d < io_read_remains_prev d then None
             else
               let diff = io_read_remains d - io_read_remains_prev d;
                   total = (if unat diff < 2 ^ 16 then ucast diff else 0xFFFF) :: u16 in
               if rate < total then
                 let d1 = d\<lparr>io_read_remains_prev := io_read_remains d, io_read_remains := 0\<rparr>;
                     d2 = (if max_timeout \<noteq> 0 then
                             d1\<lparr>io_read_max_timeout := (if timeout \<le> io_read_max_timeout d1 then io_read_max_timeout d1 - timeout else 0)\<rparr>
                           else d1) in
                 if max_timeout = 0 \<or> io_read_max_timeout d2 \<noteq> 0 then Some (None, io_log (IoEv_start_timer timeout) d2)
                 else Some (Some DI_ReadTimeout, d2)
               else Some (Some DI_ReadTimeout, d)
         | None \<Rightarrow> Some (None, d))
      else if flags_contains (io_flags d) KA_TIMEOUT then Some (Some DI_KeepAliveTimeout, d)
      else Some (None, d))"

text \<open>The states \<open>Processing\<close>, \<open>Backpressure\<close>, \<open>Stop\<close> and \<open>Shutdown\<close> of the loop.\<close>

definition iter_processing :: "IoConfig \<Rightarrow> ('pkt \<Rightarrow> EncodeError option) \<Rightarrow> ('pkt, 'e, 'io) IoInput \<Rightarrow> ('pkt, 'e, 'io) DispatcherInner
    \<Rightarrow> ('e Iter \<times> ('pkt, 'e, 'io) DispatcherInner) option" where
  "iter_processing config enc inp d =
     (let call = (\<lambda>item d. Some (It_continue, call_service enc inp item d)) in
      case poll_service inp d of
        (None, d1) \<Rightarrow> Some (It_pending, d1)
      | (Some (PS_Item item), d1) \<Rightarrow> call item d1
      | (Some PS_Continue, d1) \<Rightarrow> Some (It_continue, d1)
      | (Some PS_Ready, d1) \<Rightarrow>
          (case in_recv inp of
             Inr (item, remains) \<Rightarrow>
               (let d2 = update_timer config item remains d1 in
                case item of
                  Some (pkt, sz) \<Rightarrow> call (DI_Item pkt sz) d2
                | None \<Rightarrow> Some (It_pending, d2))
           | Inl RE_Stop \<Rightarrow> Some (It_continue, d1\<lparr>io_st := IDS_Stop\<rparr>)
           | Inl RE_KeepAlive \<Rightarrow>
               (case handle_timeout config d1 of
                  None \<Rightarrow> None
                | Some (Some item, d2) \<Rightarrow> call item (d2\<lparr>io_st := IDS_Stop\<rparr>)
                | Some (None, d2) \<Rightarrow> Some (It_continue, d2))
           | Inl RE_WriteBackpressure \<Rightarrow> call DI_WBackPressureEnabled (d1\<lparr>io_st := IDS_Backpressure\<rparr>)
           | Inl (RE_Decoder err) \<Rightarrow> call (DI_DecoderError err) (d1\<lparr>io_st := IDS_Stop\<rparr>)
           | Inl (RE_PeerGone err) \<Rightarrow> call (DI_Disconnect err) (d1\<lparr>io_st := IDS_Stop\<rparr>)))"

definition iter_backpressure :: "('pkt \<Rightarrow> EncodeError option) \<Rightarrow> ('pkt, 'e, 'io) IoInput \<Rightarrow> ('pkt, 'e, 'io) DispatcherInner
    \<Rightarrow> 'e Iter \<times> ('pkt, 'e, 'io) DispatcherInner" where
  "iter_backpressure enc inp d =
     (let flush = (\<lambda>d. case in_flush inp of
            None \<Rightarrow> (It_pending, d)
          | Some (Inl err) \<Rightarrow> (It_continue, call_service enc inp (DI_Disconnect (Some err)) (d\<lparr>io_st := IDS_Stop\<rparr>))
          | Some (Inr _) \<Rightarrow> (It_continue, call_service enc inp DI_WBackPressureDisabled (d\<lparr>io_st := IDS_Processing\<rparr>))) in
      case poll_service inp d of
        (None, d1) \<Rightarrow> (It_pending, d1)
      | (Some PS_Ready, d1) \<Rightarrow> flush d1
      | (Some (PS_Item item), d1) \<Rightarrow> flush (call_service enc inp item d1)
      | (Some PS_Continue, d1) \<Rightarrow> (It_continue, d1))"

definition iter_stop :: "('pkt, 'e, 'io) IoInput \<Rightarrow> ('pkt, 'e, 'io) DispatcherInner \<Rightarrow> 'e Iter \<times> ('pkt, 'e, 'io) DispatcherInner" where
  "iter_stop inp d =
     (let d1 = io_log IoEv_stop_timer d; io_err = d1\<lparr>io_flags := io_flags d1 OR IO_ERR\<rparr> in
      if ds_queue (io_state d1) = [] then
        if in_shutdown inp then (It_continue, d1\<lparr>io_st := IDS_Shutdown\<rparr>) else (It_pending, d1)
      else if \<not> flags_contains (io_flags d1) IO_ERR then
        (case in_status inp of
           None \<Rightarrow> (It_pending, d1)
         | Some ISU_WriteBackpressure \<Rightarrow>
             (case in_flush inp of
                None \<Rightarrow> (It_pending, d1)
              | Some (Inl _) \<Rightarrow> (It_continue, io_err)
              | Some (Inr _) \<Rightarrow> (It_continue, d1))
         | Some _ \<Rightarrow> (It_continue, io_err))
      else (It_pending, d1))"

definition iter_shutdown :: "('pkt, 'e, 'io) IoInput \<Rightarrow> ('pkt, 'e, 'io) DispatcherInner \<Rightarrow> 'e Iter \<times> ('pkt, 'e, 'io) DispatcherInner" where
  "iter_shutdown inp d =
     (if in_service_shutdown inp then
        (It_ready (case ds_error (io_state d) of Some (IDE_Service err) \<Rightarrow> Inl err | _ \<Rightarrow> Inr ()), io_set_error None d)
      else (It_pending, d))"

definition io_iter :: "IoConfig \<Rightarrow> ('pkt \<Rightarrow> EncodeError option) \<Rightarrow> ('pkt, 'e, 'io) IoInput \<Rightarrow> ('pkt, 'e, 'io) DispatcherInner
    \<Rightarrow> ('e Iter \<times> ('pkt, 'e, 'io) DispatcherInner) option" where
  "io_iter config enc inp d =
     (case io_st d of
        IDS_Processing \<Rightarrow> iter_processing config enc inp d
      | IDS_Backpressure \<Rightarrow> Some (iter_backpressure enc inp d)
      | IDS_Stop \<Rightarrow> Some (iter_stop inp d)
      | IDS_Shutdown \<Rightarrow> Some (iter_shutdown inp d))"

text \<open>The start of \<open>poll\<close>: the response future is ready with \<open>item\<close>, or the memory pool is under pressure.\<close>

definition io_response_ready :: "('pkt \<Rightarrow> EncodeError option) \<Rightarrow> 'e + 'pkt option \<Rightarrow> ('pkt, 'e, 'io) DispatcherInner
    \<Rightarrow> ('pkt, 'e, 'io) DispatcherInner option" where
  "io_response_ready enc item d =
     map_option (\<lambda>s. d\<lparr>io_state := s, io_response := None\<rparr>) (handle_result enc item (io_response_idx d) False (io_state d))"

definition io_pool_pressure :: "('pkt, 'e, 'io) DispatcherInner \<Rightarrow> ('pkt, 'e, 'io) DispatcherInner" where
  "io_pool_pressure d = io_log IoEv_pause (clear_timers d)"

text \<open>A spawned task whose future is ready.\<close>

definition io_task_ready :: "('pkt \<Rightarrow> EncodeError option) \<Rightarrow> 'e + 'pkt option \<Rightarrow> nat \<times> 64 word \<Rightarrow> ('pkt, 'e, 'io) DispatcherInner
    \<Rightarrow> ('pkt, 'e, 'io) DispatcherInner option" where
  "io_task_ready enc item t d =
     map_option (\<lambda>s. d\<lparr>io_state := s, io_tasks := remove1 t (io_tasks d)\<rparr>) (handle_result enc item (snd t) True (io_state d))"

section \<open>Runs\<close>

text \<open>
  A run of a connection. \<open>res k\<close> is the answer of the service to its call \<open>k\<close>, whenever it comes. The
  queue of responses is a \<open>VecDeque\<close> and fits into memory.
\<close>

definition now_ok :: "(nat \<Rightarrow> 'e + 'pkt option) \<Rightarrow> ('pkt, 'e, 'io) IoInput \<Rightarrow> bool" where
  "now_ok res inp \<longleftrightarrow> (\<forall>k r. in_now inp k = Some r \<longrightarrow> r = res k)"

inductive io_step :: "IoConfig \<Rightarrow> ('pkt \<Rightarrow> EncodeError option) \<Rightarrow> (nat \<Rightarrow> 'e + 'pkt option) \<Rightarrow> ('pkt, 'e, 'io) DispatcherInner
    \<Rightarrow> ('pkt, 'e, 'io) DispatcherInner \<Rightarrow> bool" for config enc res where
  iter: "now_ok res inp \<Longrightarrow> length (ds_queue (io_state d)) + 2 < 2 ^ 64 \<Longrightarrow>
    io_iter config enc inp d = Some (it, d') \<Longrightarrow> io_step config enc res d d'"
| response: "io_response d = Some k \<Longrightarrow> io_response_ready enc (res k) d = Some d' \<Longrightarrow> io_step config enc res d d'"
| pressure: "io_step config enc res d (io_pool_pressure d)"
| task: "t \<in> set (io_tasks d) \<Longrightarrow> io_task_ready enc (res (fst t)) t d = Some d' \<Longrightarrow> io_step config enc res d d'"

inductive io_reach :: "IoConfig \<Rightarrow> ('pkt \<Rightarrow> EncodeError option) \<Rightarrow> (nat \<Rightarrow> 'e + 'pkt option) \<Rightarrow> ('pkt, 'e, 'io) DispatcherInner \<Rightarrow> bool"
  for config enc res where
  new: "io_reach config enc res (io_new config)"
| keepalive: "io_reach config enc res (io_set_keepalive_timeout timeout (io_new config))"
| step: "io_reach config enc res d \<Longrightarrow> io_step config enc res d d' \<Longrightarrow> io_reach config enc res d'"

section \<open>The queue of responses\<close>

text \<open>What was written, and what a sequence of answers writes.\<close>

definition encoded :: "('pkt, 'io) io_event list \<Rightarrow> 'pkt list" where
  "encoded evs = concat (map (\<lambda>e. case e of IoEv_encode p \<Rightarrow> [p] | _ \<Rightarrow> []) evs)"

definition written :: "('e + 'pkt option) list \<Rightarrow> 'pkt list" where
  "written rs = concat (map (\<lambda>r. case r of Inr (Some p) \<Rightarrow> [p] | _ \<Rightarrow> []) rs)"

lemma encoded_simps [simp]:
  "encoded [] = []" "encoded (evs @ evs') = encoded evs @ encoded evs'" "encoded (IoEv_encode p # evs) = p # encoded evs"
  "encoded (IoEv_call i # evs) = encoded evs" "encoded (IoEv_wake # evs) = encoded evs"
  "encoded (IoEv_start_timer n # evs) = encoded evs" "encoded (IoEv_stop_timer # evs) = encoded evs" "encoded (IoEv_pause # evs) = encoded evs"
  by (simp_all add: encoded_def)

lemma written_simps [simp]:
  "written [] = []" "written (rs @ rs') = written rs @ written rs'" "written (Inl e # rs) = written rs"
  "written (Inr None # rs) = written rs" "written (Inr (Some p) # rs) = p # written rs"
  by (simp_all add: written_def)

lemma written_snoc: "written (map res [0..<Suc m]) = written (map res [0..<m]) @ written [res m]"
  by simp

text \<open>The futures that are still to answer, with the index each was given: entry \<open>j\<close> of the queue belongs
  to call \<open>m + j\<close> and has index \<open>base + j\<close>.\<close>

fun outstanding :: "nat \<Rightarrow> 64 word \<Rightarrow> 'r ServiceResult list \<Rightarrow> (nat \<times> 64 word) set" where
  "outstanding m base [] = {}"
| "outstanding m base (x # q) = (if x = SR_Pending then {(m, base)} else {}) \<union> outstanding (Suc m) (base + 1) q"

definition queue_ok :: "(nat \<Rightarrow> 'r) \<Rightarrow> nat \<Rightarrow> 'r ServiceResult list \<Rightarrow> bool" where
  "queue_ok res m q \<longleftrightarrow> (\<forall>j r. j < length q \<longrightarrow> q ! j = SR_Ready r \<longrightarrow> r = res (m + j))"

lemma outstanding_append:
  "outstanding m base (q @ q') = outstanding m base q \<union> outstanding (m + length q) (base + of_nat (length q)) q'"
  by (induction q arbitrary: m base) (simp_all add: add.assoc)

lemma outstanding_fst:
  "(k, idx) \<in> outstanding m base q \<Longrightarrow> m \<le> k \<and> k < m + length q \<and> idx = base + of_nat (k - m) \<and> q ! (k - m) = SR_Pending"
proof (induction q arbitrary: m base)
  case (Cons x q)
  show ?case
  proof (cases "(k, idx) \<in> outstanding (Suc m) (base + 1) q")
    case True
    note ih = Cons.IH [OF True]
    then have "k - m = Suc (k - Suc m)" by linarith
    then show ?thesis using ih by (simp add: add.assoc)
  next
    case False
    then show ?thesis using Cons.prems by (auto split: if_splits)
  qed
qed simp

lemma outstanding_ready:
  "j < length q \<Longrightarrow> q ! j = SR_Pending \<Longrightarrow>
   outstanding m base (q[j := SR_Ready r]) = outstanding m base q - {(m + j, base + of_nat j)}"
proof (induction q arbitrary: j m base)
  case (Cons x q)
  have fresh: "(m, b) \<notin> outstanding (Suc m) b' q" for b b' using outstanding_fst by fastforce
  show ?case
  proof (cases j)
    case 0
    then show ?thesis using Cons.prems fresh by auto
  next
    case (Suc i)
    have "outstanding (Suc m) (base + 1) (q[i := SR_Ready r]) = outstanding (Suc m) (base + 1) q - {(m + j, base + of_nat j)}"
      using Cons.IH [of i "Suc m" "base + 1"] Cons.prems Suc by (simp add: add.assoc)
    moreover have "(m + j, base + of_nat j) \<noteq> (m, base)" using Suc by simp
    ultimately show ?thesis using Suc by (simp add: Un_Diff)
  qed
qed simp

lemma queue_ok_Cons: "queue_ok res m (x # q) \<longleftrightarrow> (\<forall>r. x = SR_Ready r \<longrightarrow> r = res m) \<and> queue_ok res (Suc m) q"
proof
  assume a: "queue_ok res m (x # q)"
  have "r = res (Suc m + j)" if "j < length q" "q ! j = SR_Ready r" for j r
    using a that unfolding queue_ok_def by (metis Suc_less_eq add_Suc_shift length_Cons nth_Cons_Suc)
  moreover have "r = res m" if "x = SR_Ready r" for r
    using a that unfolding queue_ok_def by (metis Nat.add_0_right length_greater_0_conv list.distinct(1) nth_Cons_0)
  ultimately show "(\<forall>r. x = SR_Ready r \<longrightarrow> r = res m) \<and> queue_ok res (Suc m) q"
    by (simp add: queue_ok_def)
next
  assume "(\<forall>r. x = SR_Ready r \<longrightarrow> r = res m) \<and> queue_ok res (Suc m) q"
  then show "queue_ok res m (x # q)" by (auto simp: queue_ok_def nth_Cons split: nat.splits)
qed

lemma queue_ok_simps [simp]: "queue_ok res m []"
  "queue_ok res m (q @ q') \<longleftrightarrow> queue_ok res m q \<and> queue_ok res (m + length q) q'"
proof -
  show "queue_ok res m []" for m by (simp add: queue_ok_def)
  then show "queue_ok res m (q @ q') \<longleftrightarrow> queue_ok res m q \<and> queue_ok res (m + length q) q'"
    by (induction q arbitrary: m) (simp_all add: queue_ok_Cons)
qed

text \<open>The invariant of a dispatcher state that has answered \<open>m\<close> calls and waits for the futures \<open>futs\<close>.\<close>

definition state_inv :: "(nat \<Rightarrow> 'e + 'pkt option) \<Rightarrow> nat \<Rightarrow> (nat \<times> 64 word) set \<Rightarrow> ('pkt, 'e, 'io) DispatcherState \<Rightarrow> bool" where
  "state_inv res m futs s \<longleftrightarrow>
     queue_ok res m (ds_queue s) \<and> futs = outstanding m (ds_base s) (ds_queue s) \<and>
     (ds_queue s \<noteq> [] \<longrightarrow> hd (ds_queue s) = SR_Pending) \<and> length (ds_queue s) < 2 ^ 64 \<and>
     encoded (ds_events s) = written (map res [0..<m])"

lemma handle_item_simps [simp]:
  "ds_queue (handle_item enc r s) = ds_queue s" "ds_base (handle_item enc r s) = ds_base s"
  "encoded (ds_events (handle_item enc r s)) = encoded (ds_events s) @ written [r]"
  by (simp_all add: handle_item_def ds_log_def split: sum.splits option.splits)

lemma ds_log_simps [simp]: "ds_queue (ds_log e s) = ds_queue s" "ds_base (ds_log e s) = ds_base s"
  "ds_events (ds_log e s) = ds_events s @ [e]" "ds_error (ds_log e s) = ds_error s"
  by (simp_all add: ds_log_def)

text \<open>The loop answers the calls at the front that are ready and stops at one that is not.\<close>

lemma drain_ready_inv:
  assumes "queue_ok res m q" and "ds_queue s = q" and "length q < 2 ^ 64" and "encoded (ds_events s) = written (map res [0..<m])"
  shows "\<exists>m' \<le> m + length q. state_inv res m' (outstanding m (ds_base s) q) (drain_ready enc q s) \<and>
    m' + length (ds_queue (drain_ready enc q s)) = m + length q"
  using assms
proof (induction enc q s arbitrary: m rule: drain_ready.induct)
  case (1 enc item queue s)
  let ?s = "handle_item enc item (ds_pop s)"
  have item: "item = res m" "queue_ok res (Suc m) queue" using 1(2) by (simp_all add: queue_ok_Cons)
  have "encoded (ds_events ?s) = written (map res [0..<Suc m])"
    using 1(5) item(1) by (simp add: ds_pop_def)
  then obtain m' where "m' \<le> Suc m + length queue" "state_inv res m' (outstanding (Suc m) (ds_base ?s) queue) (drain_ready enc queue ?s)"
      "m' + length (ds_queue (drain_ready enc queue ?s)) = Suc m + length queue"
    using 1(1) [of "Suc m"] item(2) 1(3,4) by (auto simp: ds_pop_def)
  then show ?case by (intro exI [of _ m']) (simp add: ds_pop_def)
qed (auto simp: state_inv_def)

lemma outstanding_fresh: "(m, b) \<notin> outstanding (Suc m) b' q"
  using outstanding_fst by fastforce

lemma unat_index: "n < 2 ^ 64 \<Longrightarrow> unat (of_nat n :: 64 word) = n"
  by (simp add: unat_of_nat take_bit_nat_eq_self)

text \<open>An answer that arrives finds its entry, and leaves the queue in order.\<close>

lemma handle_result_inv:
  assumes inv: "state_inv res m futs s" and fut: "(k, idx) \<in> futs"
  shows "\<exists>s' m'. handle_result enc (res k) idx wake s = Some s' \<and> state_inv res m' (futs - {(k, idx)}) s' \<and>
    m' + length (ds_queue s') = m + length (ds_queue s)"
proof -
  let ?q = "ds_queue s" and ?j = "k - m"
  have q: "queue_ok res m ?q" "futs = outstanding m (ds_base s) ?q" "length ?q < 2 ^ 64"
      "encoded (ds_events s) = written (map res [0..<m])" "?q \<noteq> [] \<longrightarrow> hd ?q = SR_Pending"
    using inv by (simp_all add: state_inv_def)
  from outstanding_fst fut q(2) have k: "m \<le> k" "k < m + length ?q" "idx = ds_base s + of_nat ?j" "?q ! ?j = SR_Pending" by blast+
  have u: "unat (of_nat ?j :: 64 word) = ?j" by (rule unat_index) (use k(1,2) q(3) in linarith)
  show ?thesis
  proof (cases "?j = 0")
    case True
    then have km: "k = m" "idx = ds_base s" using k by simp_all
    obtain q' where q': "?q = SR_Pending # q'" using k(2) q(5) km by (cases ?q) auto
    let ?s1 = "handle_item enc (res k) (ds_pop s)"
    let ?s2 = "drain_ready enc q' ?s1"
    have "\<exists>m' \<le> Suc m + length q'. state_inv res m' (outstanding (Suc m) (ds_base ?s1) q') ?s2 \<and>
        m' + length (ds_queue ?s2) = Suc m + length q'"
      by (rule drain_ready_inv) (use q q' km in \<open>simp_all add: queue_ok_Cons ds_pop_def\<close>)
    then obtain m' where m': "state_inv res m' (outstanding (Suc m) (ds_base s + 1) q') ?s2"
        "m' + length (ds_queue ?s2) = m + length ?q"
      using q' by (auto simp: ds_pop_def)
    have futs: "futs - {(k, idx)} = outstanding (Suc m) (ds_base s + 1) q'"
      using q(2) q' km outstanding_fresh [of m "ds_base s" "ds_base s + 1" q'] by simp
    let ?s3 = "if wake \<and> ds_queue ?s2 = [] then ds_log IoEv_wake ?s2 else ?s2"
    have "handle_result enc (res k) idx wake s = Some ?s3"
      using km q' by (simp add: handle_result_def ds_pop_def Let_def)
    moreover have "state_inv res m' (futs - {(k, idx)}) ?s3" using m'(1) futs by (simp add: state_inv_def)
    moreover have "m' + length (ds_queue ?s3) = m + length ?q" using m'(2) by auto
    ultimately show ?thesis by blast
  next
    case False
    let ?s' = "s\<lparr>ds_queue := ?q[?j := SR_Ready (res k)]\<rparr>"
    have "(of_nat ?j :: 64 word) \<noteq> 0" using False u by (metis unat_0)
    then have "handle_result enc (res k) idx wake s = Some ?s'"
      using k u by (simp add: handle_result_def Let_def)
    moreover have "state_inv res m (futs - {(k, idx)}) ?s'"
    proof -
      have "outstanding m (ds_base s) (?q[?j := SR_Ready (res k)]) = futs - {(k, idx)}"
        using outstanding_ready [of ?j ?q m "ds_base s" "res k"] k q(2) by simp
      moreover have "queue_ok res m (?q[?j := SR_Ready (res k)])"
        using q(1) k(1) unfolding queue_ok_def
        by (metis ServiceResult.inject le_add_diff_inverse length_list_update nth_list_update_eq nth_list_update_neq)
      moreover have "hd (?q[?j := SR_Ready (res k)]) = SR_Pending" if "?q \<noteq> []"
        using q(5) that False by (cases ?q; cases ?j) simp_all
      ultimately show ?thesis using q by (auto simp: state_inv_def)
    qed
    ultimately show ?thesis by force
  qed
qed

definition io_futs :: "('pkt, 'e, 'io) DispatcherInner \<Rightarrow> (nat \<times> 64 word) list" where
  "io_futs d = (case io_response d of Some k \<Rightarrow> [(k, io_response_idx d)] | None \<Rightarrow> []) @ io_tasks d"

definition io_inv :: "(nat \<Rightarrow> 'e + 'pkt option) \<Rightarrow> ('pkt, 'e, 'io) DispatcherInner \<Rightarrow> bool" where
  "io_inv res d \<longleftrightarrow>
     (\<exists>m. m + length (ds_queue (io_state d)) = io_calls d \<and> state_inv res m (set (io_futs d)) (io_state d)) \<and>
     distinct (io_futs d)"

lemma state_inv_log: "state_inv res m futs s \<Longrightarrow> encoded [e] = [] \<Longrightarrow> state_inv res m futs (ds_log e s)"
  by (simp add: state_inv_def)

lemma call_service_inv:
  assumes inv: "io_inv res d" and now: "now_ok res inp"
    and len: "length (ds_queue (io_state d)) + 1 < 2 ^ 64"
  shows "io_inv res (call_service enc inp item d)"
proof -
  let ?s = "ds_log (IoEv_call item) (io_state d)" and ?n = "io_calls d"
  let ?q = "ds_queue (io_state d)"
  let ?idx = "ds_base (io_state d) + of_nat (length ?q)"
  obtain m where m: "m + length ?q = ?n" "state_inv res m (set (io_futs d)) ?s" and d: "distinct (io_futs d)"
    using inv state_inv_log unfolding io_inv_def by fastforce
  have fresh: "(?n, i) \<notin> set (io_futs d)" for i
    using m outstanding_fst [of ?n i m "ds_base ?s" "ds_queue ?s"] by (auto simp: state_inv_def)
  have pending: "state_inv res m (insert (?n, ?idx) (set (io_futs d))) (?s\<lparr>ds_queue := ?q @ [SR_Pending]\<rparr>)"
    using m len by (auto simp: state_inv_def outstanding_append queue_ok_Cons hd_append)
  have ready: "state_inv res m (set (io_futs d)) (?s\<lparr>ds_queue := ?q @ [SR_Ready (res ?n)]\<rparr>)" if "?q \<noteq> []"
    using m len that by (auto simp: state_inv_def outstanding_append queue_ok_Cons)
  have direct: "state_inv res (Suc m) (set (io_futs d)) (handle_item enc (res ?n) ?s)" if "?q = []"
    using m that by (auto simp: state_inv_def)
  show ?thesis
  proof (cases "io_response d")
    case None
    show ?thesis
    proof (cases "in_now inp ?n")
      case now_None: None
      then show ?thesis using None m pending d fresh
        by (auto simp: call_service_def io_inv_def io_futs_def io_log_def Let_def intro!: exI [of _ m])
    next
      case (Some r)
      then have r: "r = res ?n" using now by (simp add: now_ok_def)
      show ?thesis using None Some m d ready direct unfolding r
        by (cases "?q = []") (auto simp: call_service_def io_inv_def io_futs_def io_log_def Let_def intro: exI [of _ m] exI [of _ "Suc m"])
    qed
  next
    case (Some k)
    have "set (io_futs (call_service enc inp item d)) = insert (?n, ?idx) (set (io_futs d))"
      using Some by (auto simp: call_service_def io_futs_def io_log_def Let_def)
    moreover have "distinct (io_futs (call_service enc inp item d))"
      using Some d fresh by (auto simp: call_service_def io_futs_def io_log_def Let_def)
    ultimately show ?thesis using Some m pending
      by (auto simp: call_service_def io_inv_def io_log_def Let_def intro!: exI [of _ m])
  qed
qed

text \<open>The rest of the code does not touch the responses.\<close>

definition io_core :: "('pkt, 'e, 'io) DispatcherInner
    \<Rightarrow> ('e + 'pkt option) ServiceResult list \<times> 64 word \<times> 'pkt list \<times> nat option \<times> 64 word \<times> (nat \<times> 64 word) list \<times> nat" where
  "io_core d = (ds_queue (io_state d), ds_base (io_state d), encoded (ds_events (io_state d)), io_response d, io_response_idx d,
     io_tasks d, io_calls d)"

lemma io_futs_core: "io_core d = io_core d' \<Longrightarrow> io_futs d = io_futs d'"
  by (simp add: io_core_def io_futs_def split: option.splits)

lemma io_inv_core: "io_core d = io_core d' \<Longrightarrow> io_inv res d = io_inv res d'"
  using io_futs_core [of d d'] by (simp add: io_core_def io_inv_def state_inv_def)

lemma io_core_simps [simp]:
  "io_core (d\<lparr>io_st := st\<rparr>) = io_core d" "io_core (d\<lparr>io_flags := fl\<rparr>) = io_core d"
  "io_core (d\<lparr>io_read_remains := n\<rparr>) = io_core d" "io_core (d\<lparr>io_read_remains_prev := n\<rparr>) = io_core d"
  "io_core (d\<lparr>io_read_max_timeout := t\<rparr>) = io_core d" "io_core (d\<lparr>io_keepalive_timeout := t\<rparr>) = io_core d"
  "io_core (io_log (IoEv_start_timer t) d) = io_core d" "io_core (io_log IoEv_stop_timer d) = io_core d"
  "io_core (io_log IoEv_pause d) = io_core d" "io_core (io_set_error e d) = io_core d"
  by (simp_all add: io_core_def io_log_def io_set_error_def)

lemma io_core_ops [simp]:
  "io_core (clear_timers d) = io_core d" "io_core (io_pool_pressure d) = io_core d"
  "io_core (update_timer config item remains d) = io_core d" "io_core (snd (poll_service inp d)) = io_core d"
  "io_core (io_set_keepalive_timeout timeout d) = io_core d"
  by (simp_all add: clear_timers_def io_pool_pressure_def update_timer_def poll_service_def io_set_keepalive_timeout_def Let_def
      split: option.splits SvcReady.splits IoDispatcherError.splits IoStatusUpdate.splits prod.splits)

lemma io_core_handle_timeout: "handle_timeout config d = Some (r, d') \<Longrightarrow> io_core d' = io_core d"
  by (auto simp: handle_timeout_def Let_def split: if_splits option.splits)

lemma io_core_queue: "io_core d = io_core d' \<Longrightarrow> ds_queue (io_state d) = ds_queue (io_state d')"
  by (simp add: io_core_def)

lemma call_service_len: "length (ds_queue (io_state (call_service enc inp item d))) \<le> length (ds_queue (io_state d)) + 1"
  by (simp add: call_service_def io_log_def Let_def split: option.splits)

lemma call_after:
  assumes "io_inv res d" and "now_ok res inp" and "length (ds_queue (io_state d)) + 2 < 2 ^ 64"
    and "io_core d1 = io_core d"
  shows "io_inv res (call_service enc inp item d1)"
  using assms io_inv_core [of d1 d res] io_core_queue [of d1 d] by (intro call_service_inv) simp_all

lemma iter_processing_inv:
  assumes "io_inv res d" and "now_ok res inp" and "length (ds_queue (io_state d)) + 2 < 2 ^ 64"
    and "iter_processing config enc inp d = Some (it, d')"
  shows "io_inv res d'"
proof -
  note call = call_after [where enc = enc, OF assms(1-3)]
  obtain ps d1 where ps: "poll_service inp d = (ps, d1)" by fastforce
  then have d1: "io_core d1 = io_core d" by (metis io_core_ops(4) snd_conv)
  have same: "io_inv res d2" if "io_core d2 = io_core d" for d2 using assms(1) io_inv_core [OF that, of res] by simp
  have tm: "io_core d2 = io_core d" if "handle_timeout config d1 = Some (r, d2)" for r d2
    using io_core_handle_timeout [OF that] d1 by simp
  show ?thesis using assms(4) ps d1
    by (auto simp: iter_processing_def Let_def split: option.splits PollService.splits sum.splits RecvError.splits prod.splits)
      (rule call, (simp; fail) | rule call, simp, erule tm | rule same, (simp; fail) | rule same, erule tm)+
qed

lemma iter_backpressure_inv:
  assumes "io_inv res d" and now: "now_ok res inp" and "length (ds_queue (io_state d)) + 2 < 2 ^ 64"
    and "iter_backpressure enc inp d = (it, d')"
  shows "io_inv res d'"
proof -
  note call = call_after [where enc = enc, OF assms(1-3)]
  obtain ps d1 where ps: "poll_service inp d = (ps, d1)" by fastforce
  then have d1: "io_core d1 = io_core d" by (metis io_core_ops(4) snd_conv)
  have same: "io_inv res d2" if "io_core d2 = io_core d" for d2 using assms(1) io_inv_core [OF that, of res] by simp
  have twice: "io_inv res (call_service enc inp i2 ((call_service enc inp i d1)\<lparr>io_st := st\<rparr>))" for i i2 st
    using call [OF d1, of i] call_service_len [of enc inp i d1] assms(3) io_core_queue [OF d1] now
      io_inv_core [of "(call_service enc inp i d1)\<lparr>io_st := st\<rparr>" "call_service enc inp i d1" res]
    by (intro call_service_inv) simp_all
  show ?thesis using assms(4) ps d1
    by (auto simp: iter_backpressure_def Let_def split: option.splits PollService.splits sum.splits)
      (rule twice | rule call, simp | rule same, simp)+
qed

lemma iter_stop_core: "io_core (snd (iter_stop inp d)) = io_core d"
  by (simp add: iter_stop_def Let_def split: option.splits IoStatusUpdate.splits sum.splits)

lemma iter_shutdown_core: "io_core (snd (iter_shutdown inp d)) = io_core d"
  by (simp add: iter_shutdown_def)

lemma answer_inv:
  assumes "io_inv res d" and "(k, idx) \<in> set (io_futs d)"
  shows "\<exists>s. handle_result enc (res k) idx wake (io_state d) = Some s \<and>
    (\<forall>d'. io_state d' = s \<and> io_calls d' = io_calls d \<and> io_futs d' = remove1 (k, idx) (io_futs d) \<longrightarrow> io_inv res d')"
proof -
  obtain m where m: "m + length (ds_queue (io_state d)) = io_calls d" "state_inv res m (set (io_futs d)) (io_state d)"
      and d: "distinct (io_futs d)"
    using assms(1) by (auto simp: io_inv_def)
  from handle_result_inv [OF m(2) assms(2), of enc wake] obtain s m' where s: "handle_result enc (res k) idx wake (io_state d) = Some s"
      "state_inv res m' (set (io_futs d) - {(k, idx)}) s" "m' + length (ds_queue s) = m + length (ds_queue (io_state d))" by blast
  have "io_inv res d'" if "io_state d' = s" "io_calls d' = io_calls d" "io_futs d' = remove1 (k, idx) (io_futs d)" for d'
    using that s m(1) d by (auto simp: io_inv_def)
  then show ?thesis using s(1) by blast
qed

lemma io_step_inv: "io_step config enc res d d' \<Longrightarrow> io_inv res d \<Longrightarrow> io_inv res d'"
proof (induction rule: io_step.induct)
  case (iter inp d it d')
  then show ?case
  proof (cases "io_st d")
    case IDS_Stop
    then show ?thesis using iter io_inv_core [OF iter_stop_core, of res inp d] by (auto simp: io_iter_def)
  next
    case IDS_Shutdown
    then show ?thesis using iter io_inv_core [OF iter_shutdown_core, of res inp d] by (auto simp: io_iter_def)
  qed (auto simp: io_iter_def dest: iter_processing_inv iter_backpressure_inv)
next
  case (response d k d')
  then have "(k, io_response_idx d) \<in> set (io_futs d)" by (simp add: io_futs_def)
  from answer_inv [OF response(3) this, of enc False] response(1,2) show ?case
    by (auto simp: io_response_ready_def io_futs_def)
next
  case (pressure d)
  then show ?case using io_inv_core [of "io_pool_pressure d" d res] by simp
next
  case (task t d d')
  obtain k idx where t: "t = (k, idx)" by (cases t)
  then have mem: "(k, idx) \<in> set (io_futs d)" using task(1) by (simp add: io_futs_def)
  have "distinct (io_futs d)" using task(3) by (simp add: io_inv_def)
  then have "remove1 (k, idx) (io_futs d) = (case io_response d of Some k \<Rightarrow> [(k, io_response_idx d)] | None \<Rightarrow> []) @ remove1 (k, idx) (io_tasks d)"
    using task(1) t by (auto simp: io_futs_def remove1_append split: option.splits)
  moreover obtain s where s: "handle_result enc (res k) idx True (io_state d) = Some s"
      "\<And>d'. io_state d' = s \<Longrightarrow> io_calls d' = io_calls d \<Longrightarrow> io_futs d' = remove1 (k, idx) (io_futs d) \<Longrightarrow> io_inv res d'"
    using answer_inv [OF task(3) mem, of enc True] by blast
  ultimately show ?case using task(2) t by (auto simp: io_task_ready_def io_futs_def intro!: s(2) split: option.splits)
qed

lemma io_reach_inv: "io_reach config enc res d \<Longrightarrow> io_inv res d"
proof (induction rule: io_reach.induct)
  case new
  show ?case by (simp add: io_inv_def io_futs_def io_new_def state_inv_def)
next
  case (keepalive timeout)
  show ?case
    by (subst io_inv_core [OF io_core_ops(5)]) (simp add: io_inv_def io_futs_def io_new_def state_inv_def)
qed (rule io_step_inv)

lemma state_inv_idle: "state_inv res m {} s \<Longrightarrow> ds_queue s = []"
  by (cases "ds_queue s") (auto simp: state_inv_def)

lemma io_inv_idle:
  "io_inv res d \<Longrightarrow> ds_queue (io_state d) = [] \<Longrightarrow> encoded (ds_events (io_state d)) = written (map res [0..<io_calls d])"
  by (simp add: io_inv_def state_inv_def)

section \<open>Stopping\<close>

definition io_stopped :: "('pkt, 'e, 'io) DispatcherInner \<Rightarrow> bool" where
  "io_stopped d \<longleftrightarrow> io_st d = IDS_Stop \<or> io_st d = IDS_Shutdown"

lemma io_step_stopped:
  assumes "io_step config enc res d d'" and "io_stopped d"
  shows "io_stopped d' \<and> io_calls d' = io_calls d"
  using assms
proof (induction rule: io_step.induct)
  case (iter inp d it d')
  then show ?case
    by (auto simp: io_stopped_def io_iter_def iter_stop_def iter_shutdown_def io_log_def io_set_error_def Let_def
        split: option.splits IoStatusUpdate.splits sum.splits if_splits)
qed (auto simp: io_stopped_def io_response_ready_def io_task_ready_def io_pool_pressure_def clear_timers_def io_log_def)

lemma call_service_st [simp]: "io_st (call_service enc inp item d) = io_st d"
  by (simp add: call_service_def io_log_def Let_def split: option.splits)

lemma poll_service_st: "poll_service inp d = (ps, d1) \<Longrightarrow> io_st d \<noteq> IDS_Shutdown \<Longrightarrow> io_st d1 \<noteq> IDS_Shutdown"
  by (auto simp: poll_service_def clear_timers_def io_log_def io_set_error_def Let_def
      split: SvcReady.splits option.splits IoDispatcherError.splits IoStatusUpdate.splits)

lemma update_timer_st [simp]: "io_st (update_timer config item remains d) = io_st d"
  by (auto simp: update_timer_def io_log_def split: option.splits)

lemma handle_timeout_st: "handle_timeout config d = Some (r, d') \<Longrightarrow> io_st d' = io_st d"
  by (auto simp: handle_timeout_def io_log_def Let_def split: if_splits option.splits)

lemma io_iter_shutdown:
  assumes "io_iter config enc inp d = Some (it, d')" and "io_st d' = IDS_Shutdown" and "io_st d \<noteq> IDS_Shutdown"
  shows "ds_queue (io_state d') = []"
proof (cases "io_st d")
  case IDS_Processing
  obtain ps d1 where ps: "poll_service inp d = (ps, d1)" by fastforce
  then have "io_st d1 \<noteq> IDS_Shutdown" using poll_service_st IDS_Processing by fastforce
  then have "io_st d' \<noteq> IDS_Shutdown" using assms(1) IDS_Processing ps
    by (auto simp: io_iter_def iter_processing_def Let_def
        split: option.splits PollService.splits sum.splits RecvError.splits prod.splits dest: handle_timeout_st)
  then show ?thesis using assms(2) by simp
next
  case IDS_Backpressure
  obtain ps d1 where ps: "poll_service inp d = (ps, d1)" by fastforce
  then have "io_st d1 \<noteq> IDS_Shutdown" using poll_service_st IDS_Backpressure by fastforce
  then have "io_st d' \<noteq> IDS_Shutdown" using assms(1) IDS_Backpressure ps
    by (auto simp: io_iter_def iter_backpressure_def Let_def split: option.splits PollService.splits sum.splits)
  then show ?thesis using assms(2) by simp
next
  case IDS_Stop
  then show ?thesis using assms(1,2)
    by (auto simp: io_iter_def iter_stop_def io_log_def Let_def split: option.splits IoStatusUpdate.splits sum.splits if_splits)
qed (use assms(3) in simp)

lemma io_shutdown_idle:
  "io_reach config enc res d \<Longrightarrow> io_st d = IDS_Shutdown \<Longrightarrow> ds_queue (io_state d) = []"
proof (induction rule: io_reach.induct)
  case (step d d')
  show ?case
  proof (cases "io_st d = IDS_Shutdown")
    case True
    note q = step.IH [OF True]
    have inv: "io_inv res d'" using step.hyps by (blast intro: io_step_inv io_reach_inv)
    have inv0: "io_inv res d" using step.hyps(1) by (rule io_reach_inv)
    have idle: "io_futs d = []" using inv0 q by (auto simp: io_inv_def state_inv_def)
    show ?thesis using step.hyps(2)
    proof (cases rule: io_step.cases)
      case (iter inp it)
      then show ?thesis using True q io_core_queue [OF iter_shutdown_core, of inp d] by (auto simp: io_iter_def)
    next
      case pressure
      then show ?thesis using q io_core_queue [of "io_pool_pressure d" d] by simp
    qed (use idle in \<open>auto simp: io_futs_def\<close>)
  next
    case False
    show ?thesis using step.hyps(2)
    proof (cases rule: io_step.cases)
      case (iter inp it)
      then show ?thesis using False step.prems by (blast intro: io_iter_shutdown)
    qed (use False step.prems in \<open>auto simp: io_response_ready_def io_task_ready_def io_pool_pressure_def clear_timers_def io_log_def\<close>)
  qed
qed (simp_all add: io_new_def io_set_keepalive_timeout_def Let_def)

section \<open>Properties\<close>

text \<open>C5: However the answers of the service interleave, the responses are written in the order of the
  requests and each exactly once: what was written is the responses of the first calls, all of those
  before the oldest one that is still unanswered; once no call is unanswered everything has been
  written, and no answer ever misses its place in the queue, also when the index counter wraps.\<close>

theorem io_responses_in_order:
  assumes "io_reach config enc res d"
  shows "length (ds_queue (io_state d)) \<le> io_calls d \<and>
    encoded (ds_events (io_state d)) = written (map res [0..<io_calls d - length (ds_queue (io_state d))]) \<and>
    (io_response d = None \<and> io_tasks d = [] \<longrightarrow> ds_queue (io_state d) = []) \<and>
    (\<forall>k. io_response d = Some k \<longrightarrow> io_response_ready enc (res k) d \<noteq> None) \<and>
    (\<forall>t \<in> set (io_tasks d). io_task_ready enc (res (fst t)) t d \<noteq> None)"
proof -
  have inv: "io_inv res d" using assms by (rule io_reach_inv)
  then obtain m where m: "m + length (ds_queue (io_state d)) = io_calls d" "state_inv res m (set (io_futs d)) (io_state d)"
    unfolding io_inv_def by blast
  have "m = io_calls d - length (ds_queue (io_state d))" using m(1) by simp
  then have out: "encoded (ds_events (io_state d)) = written (map res [0..<io_calls d - length (ds_queue (io_state d))])"
    using m(2) by (simp add: state_inv_def)
  have ans: "handle_result enc (res k) idx w (io_state d) \<noteq> None" if "(k, idx) \<in> set (io_futs d)" for k idx w
    using handle_result_inv [OF m(2) that] by (metis option.distinct(1))
  have r: "io_response_ready enc (res k) d \<noteq> None" if "io_response d = Some k" for k
    using ans [of k "io_response_idx d" False] that by (simp add: io_response_ready_def io_futs_def)
  have t: "io_task_ready enc (res (fst t)) t d \<noteq> None" if "t \<in> set (io_tasks d)" for t
    using ans [of "fst t" "snd t" True] that by (simp add: io_task_ready_def io_futs_def)
  have idle: "ds_queue (io_state d) = []" if "io_response d = None \<and> io_tasks d = []"
    using m(2) that by (auto simp: io_futs_def intro: state_inv_idle)
  show ?thesis using out r t idle m(1) by auto
qed

text \<open>C29: A dispatcher that is in the state Stop or Shutdown when an iteration of its loop ends stays there, whatever follows: it
  never calls the service again and never goes back to reading. It is in the state Shutdown only when the response to every call was
  written, it enters it as soon as none is missing and the stream is shut down, and its future completes in no other state. (The
  iteration in the state Backpressure may itself leave Stop again before it ends, which \<open>io_backpressure_resumes\<close> shows.)\<close>

theorem io_stop_drains:
  assumes "io_reach config enc res d" and "io_stopped d" and "rtranclp (io_step config enc res) d d'"
  shows "io_stopped d' \<and> io_calls d' = io_calls d \<and>
    (io_st d' = IDS_Shutdown \<longrightarrow> encoded (ds_events (io_state d')) = written (map res [0..<io_calls d'])) \<and>
    (\<forall>inp. io_st d' = IDS_Stop \<and> ds_queue (io_state d') = [] \<and> in_shutdown inp \<longrightarrow>
       (\<exists>d''. io_iter config enc inp d' = Some (It_continue, d'') \<and> io_st d'' = IDS_Shutdown)) \<and>
    (\<forall>inp r d''. io_iter config enc inp d' = Some (It_ready r, d'') \<longrightarrow> io_st d' = IDS_Shutdown)"
proof -
  have *: "io_reach config enc res d' \<and> io_stopped d' \<and> io_calls d' = io_calls d"
    using assms(3,1,2) by (induction rule: rtranclp_induct) (use io_step_stopped io_reach.step in \<open>fastforce+\<close>)
  have "encoded (ds_events (io_state d')) = written (map res [0..<io_calls d'])" if "io_st d' = IDS_Shutdown"
    using * io_inv_idle [OF io_reach_inv io_shutdown_idle [OF _ that]] by blast
  moreover have "\<exists>d''. io_iter config enc inp d' = Some (It_continue, d'') \<and> io_st d'' = IDS_Shutdown"
    if "io_st d' = IDS_Stop" "ds_queue (io_state d') = []" "in_shutdown inp" for inp
    using that by (simp add: io_iter_def iter_stop_def io_log_def ds_log_def)
  moreover have "io_st d' = IDS_Shutdown" if "io_iter config enc inp d' = Some (It_ready r, d'')" for inp r d''
    using * that by (auto simp: io_stopped_def io_iter_def iter_stop_def Let_def split: if_splits option.splits IoStatusUpdate.splits sum.splits)
  ultimately show ?thesis using * by blast
qed

text \<open>Two requests whose answers come in the reverse order.\<close>

definition io_sample_cfg :: IoConfig where
  "io_sample_cfg = \<lparr>cfg_keepalive_timeout = 30, cfg_frame_read_rate = Some (1, 4, 2)\<rparr>"

definition io_sample_input :: "('io RecvError + (nat \<times> u32) option \<times> nat) \<Rightarrow> (nat, unit, 'io) IoInput" where
  "io_sample_input recv = \<lparr>in_ready = Svc_ok, in_pause = None, in_recv = recv, in_flush = None, in_status = None,
     in_shutdown = True, in_service_shutdown = True, in_now = (\<lambda>_. None)\<rparr>"

definition io_sample_res :: "nat \<Rightarrow> unit + nat option" where
  "io_sample_res k = Inr (Some (10 + k))"

definition io_sample2 :: "(nat, unit, unit) DispatcherInner" where
  "io_sample2 = (io_new io_sample_cfg)\<lparr>io_calls := 2, io_response := Some 0, io_tasks := [(1, 1)],
     io_state := \<lparr>ds_error = None, ds_base = 0, ds_queue = [SR_Pending, SR_Pending],
       ds_events = [IoEv_call (DI_Item 7 2), IoEv_call (DI_Item 8 2)]\<rparr>\<rparr>"

lemmas io_sample_defs = io_sample_cfg_def io_sample_input_def io_sample_res_def io_sample2_def io_new_def

lemma io_sample2_reach: "io_reach io_sample_cfg (\<lambda>_. None) io_sample_res io_sample2"
proof -
  let ?in = "\<lambda>p. io_sample_input (Inr (Some (p, 2), 0)) :: (nat, unit, unit) IoInput"
  have now: "now_ok io_sample_res (?in p)" for p by (simp add: now_ok_def io_sample_input_def)
  let ?d0 = "io_new io_sample_cfg :: (nat, unit, unit) DispatcherInner"
  let ?d1 = "?d0\<lparr>io_calls := 1, io_response := Some 0, io_state := \<lparr>ds_error = None, ds_base = 0, ds_queue = [SR_Pending],
    ds_events = [IoEv_call (DI_Item 7 2)]\<rparr>\<rparr>"
  have i0: "io_iter io_sample_cfg (\<lambda>_. None) (?in 7) ?d0 = Some (It_continue, ?d1)"
    by (simp add: io_iter_def iter_processing_def poll_service_def update_timer_def call_service_def io_log_def ds_log_def io_sample_defs Let_def)
  have i1: "io_iter io_sample_cfg (\<lambda>_. None) (?in 8) ?d1 = Some (It_continue, io_sample2)"
    by (simp add: io_iter_def iter_processing_def poll_service_def update_timer_def call_service_def io_log_def ds_log_def io_sample_defs Let_def)
  have "io_reach io_sample_cfg (\<lambda>_. None) io_sample_res ?d1"
    by (rule io_reach.step [OF io_reach.new io_step.iter [OF now _ i0]]) (simp add: io_new_def)
  then show ?thesis by (rule io_reach.step [OF _ io_step.iter [OF now _ i1]]) simp
qed

theorem io_responses_in_order_witness:
  "\<exists>d :: (nat, unit, unit) DispatcherInner. io_reach io_sample_cfg (\<lambda>_. None) io_sample_res d \<and> io_calls d = 2 \<and> encoded (ds_events (io_state d)) = [10, 11 :: nat]"
proof -
  let ?r = "\<lambda>d :: (nat, unit, unit) DispatcherInner. io_reach io_sample_cfg (\<lambda>_. None) io_sample_res d"
  obtain d1 where t: "io_task_ready (\<lambda>_. None) (io_sample_res 1) (1, 1) io_sample2 = Some d1"
    by (simp add: io_task_ready_def handle_result_def io_sample_defs Let_def)
  then have "?r d1" by (intro io_reach.step [OF io_sample2_reach io_step.task [of "(1, 1)"]]) (simp_all add: io_sample_defs)
  have d1: "io_response d1 = Some 0" "io_calls d1 = 2"
    using t by (auto simp: io_task_ready_def handle_result_def io_sample_defs Let_def)
  obtain d2 where d2: "io_response_ready (\<lambda>_. None) (io_sample_res 0) d1 = Some d2" "io_calls d2 = 2" "ds_queue (io_state d2) = []"
    using t by (auto simp: io_task_ready_def io_response_ready_def handle_result_def handle_item_def ds_pop_def ds_log_def io_sample_defs Let_def)
  have "?r d2" by (rule io_reach.step [OF \<open>?r d1\<close> io_step.response]) (rule d1(1) d2(1))+
  moreover have "encoded (ds_events (io_state d2)) = written (map io_sample_res [0..<2])"
    using io_responses_in_order [OF \<open>?r d2\<close>] d2 by simp
  ultimately show ?thesis using d2(2) by (intro exI [of _ d2]) (simp add: io_sample_res_def upt_rec)
qed

theorem io_stop_drains_witness:
  "\<exists>d d' :: (nat, unit, unit) DispatcherInner. io_st d = IDS_Stop \<and> length (ds_queue (io_state d)) = 2 \<and>
     rtranclp (io_step io_sample_cfg (\<lambda>_. None) io_sample_res) d d' \<and>
     io_st d' = IDS_Shutdown \<and> encoded (ds_events (io_state d')) = [10, 11]"
proof -
  let ?step = "io_step io_sample_cfg (\<lambda>_. None) io_sample_res :: (nat, unit, unit) DispatcherInner \<Rightarrow> _ \<Rightarrow> bool"
  let ?in = "io_sample_input (Inl RE_Stop) :: (nat, unit, unit) IoInput" and ?d = "io_sample2\<lparr>io_st := IDS_Stop\<rparr>"
  have now: "now_ok io_sample_res ?in" by (simp add: now_ok_def io_sample_input_def)
  have "io_iter io_sample_cfg (\<lambda>_. None) ?in io_sample2 = Some (It_continue, ?d)"
    by (simp add: io_iter_def iter_processing_def poll_service_def io_sample_defs)
  then have r: "io_reach io_sample_cfg (\<lambda>_. None) io_sample_res ?d"
    by (intro io_reach.step [OF io_sample2_reach io_step.iter [OF now]]) (simp_all add: io_sample_defs)
  obtain d1 where t: "io_task_ready (\<lambda>_. None) (io_sample_res 1) (1, 1) ?d = Some d1"
    by (simp add: io_task_ready_def handle_result_def io_sample_defs Let_def)
  then have s1: "?step ?d d1" by (intro io_step.task [of "(1, 1)"]) (simp_all add: io_sample_defs)
  have d1: "io_response d1 = Some 0" using t by (auto simp: io_task_ready_def handle_result_def io_sample_defs Let_def)
  obtain d2 where d2: "io_response_ready (\<lambda>_. None) (io_sample_res 0) d1 = Some d2" "io_calls d2 = 2" "ds_queue (io_state d2) = []" "io_st d2 = IDS_Stop"
    using t by (auto simp: io_task_ready_def io_response_ready_def handle_result_def handle_item_def ds_pop_def ds_log_def io_sample_defs Let_def)
  have s2: "?step d1 d2" by (rule io_step.response) (rule d1 d2(1))+
  obtain d3 where d3: "io_iter io_sample_cfg (\<lambda>_. None) ?in d2 = Some (It_continue, d3)" "io_st d3 = IDS_Shutdown" "io_calls d3 = 2"
    using d2 by (simp add: io_iter_def iter_stop_def io_log_def ds_log_def io_sample_input_def)
  have "?step d2 d3" by (rule io_step.iter [OF now _ d3(1)]) (simp add: d2)
  with s1 s2 have run: "rtranclp ?step ?d d3" by (meson rtranclp.rtrancl_into_rtrancl rtranclp.rtrancl_refl)
  have "encoded (ds_events (io_state d3)) = written (map io_sample_res [0..<2])"
    using io_stop_drains [OF r _ run] d3 by (simp add: io_stopped_def)
  then show ?thesis using run d3(2) by (intro exI [of _ ?d] exI [of _ d3]) (simp add: io_sample_res_def io_sample2_def upt_rec)
qed

section \<open>Timers\<close>

text \<open>With a maximum, a frame that arrives slowly cannot hold the connection for ever: each time the frame
  read timer is extended the remaining time gets smaller, and when it is used up the dispatcher
  stops with a read timeout; without enough bytes in a period it stops at once.\<close>

theorem io_read_timer_bounded:
  assumes "cfg_frame_read_rate config = Some (timeout, max_timeout, rate)" and "timeout \<noteq> 0" and "max_timeout \<noteq> 0"
    and "flags_contains (io_flags d) READ_TIMEOUT" and "handle_timeout config d = Some (r, d')"
  shows "r = Some DI_ReadTimeout \<or>
    (r = None \<and> io_read_max_timeout d' < io_read_max_timeout d \<and> io_read_max_timeout d' \<noteq> 0 \<and>
     unat rate < unat (io_read_remains d - io_read_remains_prev d))"
proof -
  have sat: "x - t < x" if "t \<le> x" "t \<noteq> 0" for t x :: u16
  proof -
    have "0 < unat t" using that(2) by (simp add: unat_gt_0)
    then show ?thesis using that(1) by (auto simp: word_less_nat_alt word_le_nat_alt unat_sub)
  qed
  have slow: "unat rate < unat diff" if "rate < ucast diff" "unat diff < 65536" for diff :: u32
  proof -
    have "unat (ucast diff :: u16) = unat diff" using that(2) by (simp add: unsigned_ucast_eq take_bit_nat_eq_self)
    then show ?thesis using that(1) by (simp add: word_less_nat_alt)
  qed
  have fast: "unat rate < unat diff" if "\<not> unat diff < 65536" for diff :: u32
    using that unsigned_less [of rate, where ?'a = nat] by simp
  show ?thesis using assms
    by (auto simp: handle_timeout_def io_log_def Let_def intro: sat slow fast split: if_splits)
qed

section \<open>Defects\<close>

text \<open>After a period that was long enough, the bytes of the next period are compared with the count at the
  end of the last one, although the counter was set to zero: when no byte arrives in the next
  period the subtraction \<open>read_remains - read_remains_prev\<close> underflows.\<close>

theorem io_read_rate_underflows:
  assumes "cfg_frame_read_rate config = Some (timeout, max_timeout, rate)" and "flags_contains (io_flags d) READ_TIMEOUT"
    and "handle_timeout config d = Some (None, d')" and "io_read_remains_prev d = 0"
  shows "handle_timeout config d' = None"
proof -
  have "io_read_remains d \<noteq> 0" using assms by (auto simp: handle_timeout_def Let_def split: if_splits)
  then have "0 < io_read_remains d" by (simp add: word_gt_0)
  then show ?thesis using assms by (auto simp: handle_timeout_def io_log_def Let_def split: if_splits)
qed

text \<open>In the state \<open>Backpressure\<close> the loop goes on to flush the stream after \<open>poll_service\<close> asked to stop: a peer
  that is gone, a keep-alive timeout or an encoder error is reported to the service, but the
  dispatcher then returns to reading.\<close>

theorem io_backpressure_resumes:
  fixes d :: "('pkt, 'e, 'io) DispatcherInner"
  assumes "io_st d = IDS_Backpressure" and "poll_service inp d = (Some (PS_Item item), d1)" and "io_st d1 = IDS_Stop"
    and "in_flush inp = Some (Inr ())"
  shows "\<exists>d'. io_iter config enc inp d = Some (It_continue, d') \<and> io_st d' = IDS_Processing"
  using assms by (simp add: io_iter_def iter_backpressure_def)

text \<open>\<open>Dispatcher::new\<close> enables the keep-alive timer exactly when the configured timeout is zero, the reverse of
  \<open>keepalive_timeout\<close>.\<close>

theorem io_new_keepalive_inverted:
  fixes config :: IoConfig
  shows "flags_contains (io_flags (io_new config)) KA_ENABLED \<longleftrightarrow>
    \<not> flags_contains (io_flags (io_set_keepalive_timeout (cfg_keepalive_timeout config) (io_new config))) KA_ENABLED"
  by (simp add: io_new_def io_set_keepalive_timeout_def flags_contains_def io_flag_defs)

end
