(* ===== verification/Handshake.thy ===== *)
theory Handshake
  imports V3_Dispatcher V5_Dispatcher
begin

text \<open>
  The handshakes of both protocols: \<open>src/v3/handshake.rs\<close>, \<open>src/v5/handshake.rs\<close> and the services
  \<open>HandshakeService\<close> of \<open>src/v3/server.rs\<close> and \<open>src/v5/server.rs\<close>. The user's handshake service is a
  parameter, a function from the handshake message to its answer; what the stream delivers first
  is an argument. The result is the value of the call and the shared state with its log.
\<close>

section \<open>Shared parts\<close>

text \<open>\<open>timeout_checked(connect_timeout, io.recv(codec))\<close>.\<close>

datatype ('pkt, 'io) first_packet =
    FP_timeout
  | FP_error "DecodeError + 'io"
  | FP_closed
  | FP_packet 'pkt u32

definition HandshakeError_from :: "DecodeError + 'io \<Rightarrow> ('e, 'io) HandshakeError" where
  "HandshakeError_from err = (case err of Inl e \<Rightarrow> HE_Protocol (PE_Decode e) | Inr e \<Rightarrow> HE_Disconnected (Some e))"

definition MqttError_from_encode :: "EncodeError \<Rightarrow> ('e, 'io) MqttError" where
  "MqttError_from_encode err = ME_Handshake (HE_Protocol (PE_Encode err))"

text \<open>\<open>io.encode(packet, codec)?\<close>, then \<open>ok\<close>.\<close>

definition encode_then :: "'pkt Env \<Rightarrow> 'pkt \<Rightarrow> ('pkt, 'ack, 'c, 'z) MqttShared_scheme
    \<Rightarrow> (('pkt, 'ack, 'c, 'z) MqttShared_scheme \<Rightarrow> (('e, 'io) MqttError, 'a) res)
    \<Rightarrow> (('e, 'io) MqttError, 'a) res \<times> ('pkt, 'ack, 'c, 'z) MqttShared_scheme" where
  "encode_then env pkt s ok =
     (case sh_encode_packet env pkt s of
        (Some err, s') \<Rightarrow> (Err (MqttError_from_encode err), s')
      | (None, s') \<Rightarrow> (ok s', s'))"

text \<open>The idle time-out both versions derive from the keep-alive of CONNECT: half as long again, at most
  \<open>u16::MAX\<close>, and 30 seconds for a client that sent 0.\<close>

definition keepalive_timeout :: "u16 \<Rightarrow> u16" where
  "keepalive_timeout keep_alive =
     (if keep_alive \<noteq> 0 then
        if unat (drop_bit 1 keep_alive) + unat keep_alive < 2 ^ 16 then drop_bit 1 keep_alive + keep_alive else 0xFFFF
      else 30)"

section \<open>MQTT 3.1.1\<close>

record v3_Handshake =
  hs3_pkt :: v3_Connect
  hs3_size :: u32
  hs3_shared :: v3_Shared

record 'st v3_HandshakeAck =
  ha3_session :: "'st option"
  ha3_session_present :: bool
  ha3_return_code :: v3_ConnectAckReason
  ha3_shared :: v3_Shared
  ha3_keepalive :: u16
  ha3_max_send :: "u16 option"

definition DEFAULT_KEEPALIVE :: u16 where "DEFAULT_KEEPALIVE = 30"

definition v3_Handshake_ack :: "'st \<Rightarrow> bool \<Rightarrow> v3_Handshake \<Rightarrow> 'st v3_HandshakeAck" where
  "v3_Handshake_ack st session_present h =
     \<lparr>ha3_session = Some st, ha3_session_present = session_present, ha3_return_code = CAR3_ConnectionAccepted,
      ha3_shared = hs3_shared h, ha3_keepalive = keepalive_timeout (con3_keep_alive (hs3_pkt h)), ha3_max_send = None\<rparr>"

text \<open>The four constructors of refusals differ in the return code only.\<close>

definition v3_Handshake_refuse :: "v3_ConnectAckReason \<Rightarrow> v3_Handshake \<Rightarrow> 'st v3_HandshakeAck" where
  "v3_Handshake_refuse code h =
     \<lparr>ha3_session = None, ha3_session_present = False, ha3_return_code = code, ha3_shared = hs3_shared h,
      ha3_keepalive = DEFAULT_KEEPALIVE, ha3_max_send = None\<rparr>"

definition v3_identifier_rejected :: "v3_Handshake \<Rightarrow> 'st v3_HandshakeAck" where
  "v3_identifier_rejected = v3_Handshake_refuse CAR3_IdentifierRejected"

definition v3_bad_username_or_pwd :: "v3_Handshake \<Rightarrow> 'st v3_HandshakeAck" where
  "v3_bad_username_or_pwd = v3_Handshake_refuse CAR3_BadUserNameOrPassword"

definition v3_not_authorized :: "v3_Handshake \<Rightarrow> 'st v3_HandshakeAck" where
  "v3_not_authorized = v3_Handshake_refuse CAR3_NotAuthorized"

definition v3_service_unavailable :: "v3_Handshake \<Rightarrow> 'st v3_HandshakeAck" where
  "v3_service_unavailable = v3_Handshake_refuse CAR3_ServiceUnavailable"

definition v3_idle_timeout :: "u16 \<Rightarrow> 'st v3_HandshakeAck \<Rightarrow> 'st v3_HandshakeAck" where
  "v3_idle_timeout timeout a = a\<lparr>ha3_keepalive := timeout\<rparr>"

definition v3_max_send :: "u16 \<Rightarrow> 'st v3_HandshakeAck \<Rightarrow> 'st v3_HandshakeAck" where
  "v3_max_send val a = a\<lparr>ha3_max_send := Some val\<rparr>"

text \<open>\<open>HandshakeService::call\<close>; \<open>max_send\<close> is the setting of the server.\<close>

definition v3_handshake_call :: "u16 \<Rightarrow> v3_Env \<Rightarrow> (v3_Handshake \<Rightarrow> 'e + 'st v3_HandshakeAck) \<Rightarrow> (v3_Packet, 'io) first_packet
    \<Rightarrow> (('e, 'io) MqttError, v3_Shared \<times> 'st \<times> u16) res \<times> v3_Shared" where
  "v3_handshake_call max_send env service first =
     (let shared = v3_Shared_new False in
      case first of
        FP_timeout \<Rightarrow> (Err (ME_Handshake HE_Timeout), shared)
      | FP_error err \<Rightarrow> (Err (ME_Handshake (HandshakeError_from err)), shared)
      | FP_closed \<Rightarrow> (Err (ME_Handshake (HE_Disconnected None)), shared)
      | FP_packet (V3_Connect connect) sz \<Rightarrow>
          (case service \<lparr>hs3_pkt = connect, hs3_size = sz, hs3_shared = shared\<rparr> of
             Inl e \<Rightarrow> (Err (ME_Service e), shared)
           | Inr ack \<Rightarrow>
               (case ha3_session ack of
                  Some session \<Rightarrow>
                    let shared = sh_set_cap env (unat (case ha3_max_send ack of Some n \<Rightarrow> n | None \<Rightarrow> max_send)) (ha3_shared ack) in
                    encode_then env (V3_ConnectAck \<lparr>cack3_return_code = CAR3_ConnectionAccepted, cack3_session_present = ha3_session_present ack\<rparr>) shared
                      (\<lambda>shared. Ok (shared, session, ha3_keepalive ack))
                | None \<Rightarrow>
                    encode_then env (V3_ConnectAck \<lparr>cack3_return_code = ha3_return_code ack, cack3_session_present = False\<rparr>) (ha3_shared ack)
                      (\<lambda>_. Err (ME_Handshake (HE_Disconnected None)))))
      | FP_packet packet _ \<Rightarrow>
          (Err (ME_Handshake (HE_Protocol (unexpected_packet (v3_packet_type packet) ''MQTT-3.1.0-1: Expected CONNECT packet''))), shared))"

section \<open>MQTT 5\<close>

record v5_Handshake =
  hs5_pkt :: v5_Connect
  hs5_size :: u32
  hs5_shared :: v5_Shared

record 'st v5_HandshakeAck =
  ha5_session :: "'st option"
  ha5_shared :: v5_Shared
  ha5_packet :: v5_ConnectAck
  ha5_keepalive :: u16

definition v5_Handshake_ack :: "'st \<Rightarrow> v5_Handshake \<Rightarrow> 'st v5_HandshakeAck" where
  "v5_Handshake_ack st h =
     (let shared = hs5_shared h; max_pkt_size = c5_max_in_size (sh_codec shared); receive_max = sh_receive_max shared in
      \<lparr>ha5_session = Some st, ha5_shared = shared,
       ha5_packet = v5_ConnectAck_default\<lparr>cack5_reason_code := CA_Success, cack5_max_qos := sh_max_qos shared,
         cack5_topic_alias_max := sh_topic_alias_max shared,
         cack5_receive_max := (case NonZero_new receive_max of Some n \<Rightarrow> n | None \<Rightarrow> RECEIVE_MAX_DEFAULT),
         cack5_max_packet_size := (if max_pkt_size = 0 then None else Some (of_nat max_pkt_size))\<rparr>,
       ha5_keepalive = keepalive_timeout (con5_keep_alive (hs5_pkt h))\<rparr>)"

definition v5_Handshake_fail_with :: "v5_ConnectAck \<Rightarrow> v5_Handshake \<Rightarrow> 'st v5_HandshakeAck" where
  "v5_Handshake_fail_with ack h = \<lparr>ha5_session = None, ha5_shared = hs5_shared h, ha5_packet = ack, ha5_keepalive = 30\<rparr>"

definition v5_Handshake_failed :: "ConnectAckReason \<Rightarrow> v5_Handshake \<Rightarrow> 'st v5_HandshakeAck" where
  "v5_Handshake_failed reason_code h =
     \<lparr>ha5_session = None, ha5_shared = hs5_shared h, ha5_packet = v5_ConnectAck_default\<lparr>cack5_reason_code := reason_code\<rparr>,
      ha5_keepalive = 30\<rparr>"

text \<open>\<open>HandshakeAck::keep_alive\<close>; \<open>None\<close> is the panic.\<close>

definition v5_keep_alive :: "u16 \<Rightarrow> 'st v5_HandshakeAck \<Rightarrow> 'st v5_HandshakeAck option" where
  "v5_keep_alive timeout a = (if timeout = 0 then None else Some (a\<lparr>ha5_keepalive := timeout\<rparr>))"

definition v5_HandshakeAck_with :: "(v5_ConnectAck \<Rightarrow> v5_ConnectAck) \<Rightarrow> 'st v5_HandshakeAck \<Rightarrow> 'st v5_HandshakeAck" where
  "v5_HandshakeAck_with f a = a\<lparr>ha5_packet := f (ha5_packet a)\<rparr>"

record v5_HandshakeCfg =
  hc5_max_size :: u32
  hc5_max_receive :: u16
  hc5_max_topic_alias :: u16
  hc5_max_qos :: QoS

definition v5_map_codec :: "(v5_Codec \<Rightarrow> v5_Codec) \<Rightarrow> v5_Shared \<Rightarrow> v5_Shared" where
  "v5_map_codec f s = s\<lparr>sh_codec := f (sh_codec s)\<rparr>"

definition v5_handshake_shared :: "v5_HandshakeCfg \<Rightarrow> v5_Shared" where
  "v5_handshake_shared cfg =
     v5_set_topic_alias_max (hc5_max_topic_alias cfg)
       (v5_set_receive_max (hc5_max_receive cfg)
         (v5_set_max_qos (hc5_max_qos cfg)
           (v5_Shared_new (v5_set_max_inbound_size (unat (hc5_max_size cfg)) v5_Codec_new))))"

text \<open>The limits of an accepted connection, from the CONNACK packet that is about to be sent.\<close>

definition v5_apply_connack :: "v5_ConnectAck \<Rightarrow> v5_Shared \<Rightarrow> v5_Shared" where
  "v5_apply_connack p s =
     v5_map_codec (v5_set_sub_ids_available (cack5_subscription_identifiers_available p))
       (v5_map_codec (v5_set_retain_available (cack5_retain_available p))
         (v5_map_codec (v5_set_max_inbound_size (case cack5_max_packet_size p of Some n \<Rightarrow> unat n | None \<Rightarrow> 0))
           (v5_set_topic_alias_max (cack5_topic_alias_max p)
             (v5_set_receive_max (cack5_receive_max p)
               (v5_set_max_qos (cack5_max_qos p) s)))))"

text \<open>The shared state when CONNECT has arrived: \<open>io.recv(&shared.codec)\<close> has left its mark on the codec (\<open>v5_finish\<close>), which
  knows if the client wants problem information, and the packet size the client asks for is set.\<close>

definition v5_handshake_received :: "v5_Connect \<Rightarrow> v5_Shared \<Rightarrow> v5_Shared" where
  "v5_handshake_received connect shared =
     (let shared = v5_map_codec (v5_finish (V5_Connect connect)) shared in
      case con5_max_packet_size connect of
        Some n \<Rightarrow> v5_map_codec (v5_set_max_outbound_size (unat n)) shared
      | None \<Rightarrow> shared)"

definition v5_handshake_call :: "v5_HandshakeCfg \<Rightarrow> v5_Env \<Rightarrow> (v5_Handshake \<Rightarrow> 'e + 'st v5_HandshakeAck) \<Rightarrow> (v5_Packet, 'io) first_packet
    \<Rightarrow> (('e, 'io) MqttError, v5_Shared \<times> 'st \<times> u16) res \<times> v5_Shared" where
  "v5_handshake_call cfg env service first =
     (let shared = v5_handshake_shared cfg in
      case first of
        FP_timeout \<Rightarrow> (Err (ME_Handshake HE_Timeout), shared)
      | FP_error err \<Rightarrow> (Err (ME_Handshake (HandshakeError_from err)), shared)
      | FP_closed \<Rightarrow> (Err (ME_Handshake (HE_Disconnected None)), shared)
      | FP_packet (V5_Connect connect) sz \<Rightarrow>
          let shared = v5_handshake_received connect shared;
              keep_alive = con5_keep_alive connect;
              peer_receive_max = (case con5_receive_max connect of Some n \<Rightarrow> unat n | None \<Rightarrow> 16) in
          (case service \<lparr>hs5_pkt = connect, hs5_size = sz, hs5_shared = shared\<rparr> of
             Inl e \<Rightarrow> (Err (ME_Handshake (HE_Service e)), shared)
           | Inr ack \<Rightarrow>
               (case ha5_session ack of
                  Some session \<Rightarrow>
                    let p = ha5_packet ack;
                        p' = (if cack5_server_keepalive_sec p = None \<and> ha5_keepalive ack < keep_alive
                              then p\<lparr>cack5_server_keepalive_sec := Some (ha5_keepalive ack)\<rparr> else p);
                        shared = sh_set_cap env peer_receive_max (v5_apply_connack p (ha5_shared ack)) in
                    encode_then env (V5_ConnectAck p') shared (\<lambda>shared. Ok (shared, session, ha5_keepalive ack))
                | None \<Rightarrow>
                    encode_then env (V5_ConnectAck (ha5_packet ack)) (ha5_shared ack)
                      (\<lambda>_. Err (ME_Handshake (HE_Disconnected None)))))
      | FP_packet packet _ \<Rightarrow>
          (Err (ME_Handshake (HE_Protocol (unexpected_packet (v5_packet_type packet) ''Expected CONNECT packet [MQTT-3.1.0-1]''))), shared))"

section \<open>Lemmas\<close>

lemma v5_flags_read [simp]:
  "v5_retain_available (v5_set_retain_available b c) = b"
  "v5_sub_ids_available (v5_set_sub_ids_available b c) = b"
  "v5_retain_available (v5_set_sub_ids_available b c) = v5_retain_available c"
proof -
  have o: "(f OR g) AND g = g" "(f AND - 3) AND 2 = 0" "(f AND - 9) AND 8 = 0" for f g :: u8
    by (simp add: bit_eq_iff bit_simps) (simp_all add: and.assoc)
  show "v5_retain_available (v5_set_retain_available b c) = b" "v5_sub_ids_available (v5_set_sub_ids_available b c) = b"
    using o by (simp_all add: v5_retain_available_def v5_set_retain_available_def v5_sub_ids_available_def
        v5_set_sub_ids_available_def flags_contains_def flags_set_def codec_flag_defs)
  have "(f OR 8) AND 2 = f AND 2" "(f AND NOT 8) AND 2 = f AND 2" for f :: u8
    by (simp_all add: bit.conj_disj_distrib2 and.assoc)
  then show "v5_retain_available (v5_set_sub_ids_available b c) = v5_retain_available c"
    by (simp add: v5_retain_available_def v5_set_sub_ids_available_def flags_contains_def flags_set_def codec_flag_defs)
qed

lemma more_set_cap [simp]: "MqttShared.more (sh_set_cap env n s) = MqttShared.more s"
  by (simp add: sh_set_cap_def sh_woken_def)

lemma v5_codec_simps [simp]:
  "v5_retain_available (v5_set_max_inbound_size n c) = v5_retain_available c"
  "v5_sub_ids_available (v5_set_max_inbound_size n c) = v5_sub_ids_available c"
  "c5_max_in_size (v5_set_retain_available b c) = c5_max_in_size c"
  "c5_max_in_size (v5_set_sub_ids_available b c) = c5_max_in_size c"
  "c5_max_in_size (v5_set_max_inbound_size n c) = n"
  by (simp_all add: v5_retain_available_def v5_sub_ids_available_def v5_set_max_inbound_size_def v5_set_retain_available_def
      v5_set_sub_ids_available_def)

text \<open>The limits a CONNACK packet announces are those a shared state enforces.\<close>

definition v5_enforces :: "v5_Shared \<Rightarrow> v5_ConnectAck \<Rightarrow> bool" where
  "v5_enforces s p \<longleftrightarrow>
     sh_receive_max s = cack5_receive_max p \<and> sh_topic_alias_max s = cack5_topic_alias_max p \<and> sh_max_qos s = cack5_max_qos p \<and>
     v5_retain_available (sh_codec s) = cack5_retain_available p \<and>
     v5_sub_ids_available (sh_codec s) = cack5_subscription_identifiers_available p \<and>
     c5_max_in_size (sh_codec s) = (case cack5_max_packet_size p of Some n \<Rightarrow> unat n | None \<Rightarrow> 0)"

lemma v5_enforces_more: "MqttShared.more s = MqttShared.more s' \<Longrightarrow> v5_enforces s p = v5_enforces s' p"
  using more_limits [of s s'] by (simp add: v5_enforces_def)

lemma v5_apply_connack_enforces: "v5_enforces (v5_apply_connack p s) p"
  by (simp add: v5_enforces_def v5_apply_connack_def v5_map_codec_def v5_set_topic_alias_max_def v5_set_receive_max_def
      v5_set_max_qos_def split: option.splits)

lemma v5_enforces_keepalive: "v5_enforces s (p\<lparr>cack5_server_keepalive_sec := k\<rparr>) = v5_enforces s p"
  by (simp add: v5_enforces_def)

lemma v5_handshake_Ok:
  assumes "v5_handshake_call cfg env service first = (Ok (shared, session, timeout), s')"
  obtains connect sz ack p' sh where
    "first = FP_packet (V5_Connect connect) sz" "ha5_session ack = Some session" "timeout = ha5_keepalive ack"
    "service \<lparr>hs5_pkt = connect, hs5_size = sz, hs5_shared = v5_handshake_received connect (v5_handshake_shared cfg)\<rparr> = Inr ack"
    "p' = (if cack5_server_keepalive_sec (ha5_packet ack) = None \<and> ha5_keepalive ack < con5_keep_alive connect
           then (ha5_packet ack)\<lparr>cack5_server_keepalive_sec := Some (ha5_keepalive ack)\<rparr> else ha5_packet ack)"
    "sh = sh_set_cap env (case con5_receive_max connect of Some n \<Rightarrow> unat n | None \<Rightarrow> 16) (v5_apply_connack (ha5_packet ack) (ha5_shared ack))"
    "shared = log_event (Ev_encode (V5_ConnectAck p')) sh" "s' = shared" "env_encode env (V5_ConnectAck p') = None"
  using assms that
  by (auto simp: v5_handshake_call_def encode_then_def sh_encode_packet_def Let_def
      split: first_packet.splits v5_Packet.splits sum.splits option.splits)

section \<open>Properties\<close>

text \<open>A completed handshake ends with a CONNACK, and the shared state enforces the limits of this packet.\<close>

lemma v5_handshake_enforces_connack:
  fixes service :: "v5_Handshake \<Rightarrow> 'e + 'st v5_HandshakeAck"
  assumes "v5_handshake_call cfg env service first = (Ok (shared, session, timeout), s')"
  shows "\<exists>connect sz connack. first = FP_packet (V5_Connect connect) sz \<and> last (sh_events shared) = Ev_encode (V5_ConnectAck connack) \<and>
    v5_enforces shared connack \<and> sh_cap shared = (case con5_receive_max connect of Some n \<Rightarrow> unat n | None \<Rightarrow> 16)"
proof -
  obtain connect sz ack p' sh where h: "first = FP_packet (V5_Connect connect) sz"
    and svc: "service \<lparr>hs5_pkt = connect, hs5_size = sz, hs5_shared = v5_handshake_received connect (v5_handshake_shared cfg)\<rparr> = Inr ack"
    and p': "p' = (if cack5_server_keepalive_sec (ha5_packet ack) = None \<and> ha5_keepalive ack < con5_keep_alive connect
           then (ha5_packet ack)\<lparr>cack5_server_keepalive_sec := Some (ha5_keepalive ack)\<rparr> else ha5_packet ack)"
    and sh: "sh = sh_set_cap env (case con5_receive_max connect of Some n \<Rightarrow> unat n | None \<Rightarrow> 16) (v5_apply_connack (ha5_packet ack) (ha5_shared ack))"
      "shared = log_event (Ev_encode (V5_ConnectAck p')) sh"
    by (rule v5_handshake_Ok [OF assms(1)]) blast
  have "v5_enforces shared p'"
    using v5_apply_connack_enforces [of "ha5_packet ack" "ha5_shared ack"]
      v5_enforces_more [of shared "v5_apply_connack (ha5_packet ack) (ha5_shared ack)" p'] sh p'
    by (simp add: v5_enforces_keepalive)
  moreover have "sh_cap sh = (case con5_receive_max connect of Some n \<Rightarrow> unat n | None \<Rightarrow> 16)"
    unfolding sh(1) by (simp add: sh_set_cap_def)
  ultimately show ?thesis using h sh(2) by (intro exI [of _ connect] exI [of _ sz] exI [of _ p']) (simp add: log_event_def)
qed

definition v5_hs_cfg :: v5_HandshakeCfg where
  "v5_hs_cfg = \<lparr>hc5_max_size = 1024, hc5_max_receive = 15, hc5_max_topic_alias = 32, hc5_max_qos = AtLeastOnce\<rparr>"

definition v5_hs_connect :: v5_Connect where
  "v5_hs_connect = v5_Connect_default\<lparr>con5_keep_alive := 40, con5_receive_max := Some 7, con5_max_packet_size := Some 200\<rparr>"

lemma keepalive_timeout_nat:
  "keep_alive \<noteq> 0 \<Longrightarrow> unat (keepalive_timeout keep_alive) = min 65535 (unat keep_alive + unat keep_alive div 2)"
proof -
  assume "keep_alive \<noteq> 0"
  moreover have "unat (drop_bit 1 keep_alive + keep_alive) = unat (drop_bit 1 keep_alive) + unat keep_alive"
    if "unat (drop_bit 1 keep_alive) + unat keep_alive < 2 ^ 16"
    using that by (simp add: unat_word_ariths)
  moreover have "unat (drop_bit 1 keep_alive) = unat keep_alive div 2"
    by (simp add: drop_bit_Suc unat_div)
  ultimately show ?thesis by (auto simp: keepalive_timeout_def min_def)
qed

text \<open>The idle time-out the server uses by default is one and a half times the keep-alive of the client,
  cut off at the largest value of 16 bits and never shorter than the keep-alive itself, and with it a
  CONNACK of MQTT 5 never announces a server keep-alive.\<close>

theorem v5_default_keepalive:
  assumes "v5_handshake_call cfg env (\<lambda>h. Inr (v5_Handshake_ack st h) :: 'e + 'st v5_HandshakeAck) (FP_packet (V5_Connect connect) sz) =
      (Ok (shared, session, timeout), s')"
  shows "unat timeout = (if con5_keep_alive connect = 0 then 30 else min 65535 (unat (con5_keep_alive connect) * 3 div 2)) \<and>
    (\<exists>connack. last (sh_events shared) = Ev_encode (V5_ConnectAck connack) \<and> cack5_server_keepalive_sec connack = None)"
proof -
  let ?k = "con5_keep_alive connect"
  obtain h ack p' sh where a: "timeout = ha5_keepalive ack" "ack = v5_Handshake_ack st h" "hs5_pkt h = connect"
    and p': "p' = (if cack5_server_keepalive_sec (ha5_packet ack) = None \<and> ha5_keepalive ack < ?k
           then (ha5_packet ack)\<lparr>cack5_server_keepalive_sec := Some (ha5_keepalive ack)\<rparr> else ha5_packet ack)"
    and sh: "shared = log_event (Ev_encode (V5_ConnectAck p')) sh"
    by (rule v5_handshake_Ok [OF assms]) force
  have ack: "timeout = ha5_keepalive ack" "ha5_keepalive ack = keepalive_timeout ?k" "cack5_server_keepalive_sec (ha5_packet ack) = None"
    using a by (simp_all add: v5_Handshake_ack_def v5_ConnectAck_default_def Let_def)
  have le: "\<not> keepalive_timeout ?k < ?k"
  proof (cases "?k = 0")
    case False
    have "unat ?k < 2 ^ 16" using unsigned_less [of ?k, where ?'a = nat] by simp
    then show ?thesis using keepalive_timeout_nat [OF False] by (simp add: word_less_nat_alt)
  qed simp
  have "unat timeout = (if ?k = 0 then 30 else min 65535 (unat ?k * 3 div 2))"
  proof (cases "?k = 0")
    case True
    then show ?thesis using ack by (simp add: keepalive_timeout_def)
  next
    case False
    then show ?thesis using ack keepalive_timeout_nat [OF False] by simp
  qed
  moreover have "cack5_server_keepalive_sec p' = None" using p' ack le by simp
  ultimately show ?thesis using sh by (intro conjI exI [of _ p']) (simp_all add: log_event_def)
qed

text \<open>A handshake never opens a connection without a CONNECT as the first packet that the handshake
  service accepted: everything else (time-out, malformed or other packet, end of stream, refusal,
  a CONNACK that cannot be encoded) is an error, and a refusal is sent to the client first.\<close>

theorem handshake_only_connect:
  fixes service3 :: "v3_Handshake \<Rightarrow> 'e + 'st v3_HandshakeAck" and service5 :: "v5_Handshake \<Rightarrow> 'e + 'st v5_HandshakeAck"
  shows "fst (v3_handshake_call max_send env3 service3 first3) = Ok r3 \<Longrightarrow>
      (\<exists>c sz ack. first3 = FP_packet (V3_Connect c) sz \<and> service3 \<lparr>hs3_pkt = c, hs3_size = sz, hs3_shared = v3_Shared_new False\<rparr> = Inr ack \<and>
         ha3_session ack = Some (fst (snd r3)) \<and> snd (snd r3) = ha3_keepalive ack)"
    and "fst (v5_handshake_call cfg env5 service5 first5) = Ok r5 \<Longrightarrow>
      (\<exists>h c sz ack. first5 = FP_packet (V5_Connect c) sz \<and> service5 h = Inr ack \<and> hs5_pkt h = c \<and>
         ha5_session ack = Some (fst (snd r5)) \<and> snd (snd r5) = ha5_keepalive ack)"
proof -
  show "fst (v3_handshake_call max_send env3 service3 first3) = Ok r3 \<Longrightarrow>
      (\<exists>c sz ack. first3 = FP_packet (V3_Connect c) sz \<and> service3 \<lparr>hs3_pkt = c, hs3_size = sz, hs3_shared = v3_Shared_new False\<rparr> = Inr ack \<and>
         ha3_session ack = Some (fst (snd r3)) \<and> snd (snd r3) = ha3_keepalive ack)"
    by (auto simp: v3_handshake_call_def encode_then_def sh_encode_packet_def Let_def
        split: first_packet.splits v3_Packet.splits sum.splits option.splits)
next
  assume "fst (v5_handshake_call cfg env5 service5 first5) = Ok r5"
  then obtain s' where "v5_handshake_call cfg env5 service5 first5 = (Ok (fst r5, fst (snd r5), snd (snd r5)), s')"
    by (cases "v5_handshake_call cfg env5 service5 first5") auto
  then show "\<exists>h c sz ack. first5 = FP_packet (V5_Connect c) sz \<and> service5 h = Inr ack \<and> hs5_pkt h = c \<and>
      ha5_session ack = Some (fst (snd r5)) \<and> snd (snd r5) = ha5_keepalive ack"
    by (rule v5_handshake_Ok) force
qed

end
