(* ===== verification/Server.thy ===== *)
theory Server
  imports Version Handshake
begin

text \<open>
  The server for both protocols (\<open>src/server.rs\<close>): it looks at the first bytes of a connection and gives
  the stream to the service of that version. The bytes are not consumed. A connection is the bytes
  in the buffer, the chunks that arrive before the deadline, and what happens after them.
\<close>

datatype 'io stream_end = SE_timeout | SE_closed | SE_error 'io

record 'io connection =
  cn_buffer :: bytes
  cn_chunks :: "bytes list"
  cn_end :: "'io stream_end"

definition version_error :: "DecodeError \<Rightarrow> ('e, 'io) MqttError" where
  "version_error e = ME_Handshake (HE_Protocol (PE_Decode e))"

text \<open>\<open>select(deadline, io.recv(&VersionCodec))\<close>.\<close>

fun recv_version :: "bytes \<Rightarrow> bytes list \<Rightarrow> 'io stream_end \<Rightarrow> (('e, 'io) MqttError, ProtocolVersion \<times> 'io connection) res" where
  "recv_version buffer [] ending =
     (case version_decode buffer of
        Ok (Some ver) \<Rightarrow> Ok (ver, \<lparr>cn_buffer = buffer, cn_chunks = [], cn_end = ending\<rparr>)
      | Err e \<Rightarrow> Err (version_error e)
      | Panic \<Rightarrow> Panic
      | Ok None \<Rightarrow>
          (case ending of
             SE_timeout \<Rightarrow> Err (ME_Handshake HE_Timeout)
           | SE_closed \<Rightarrow> Err (ME_Handshake (HE_Disconnected None))
           | SE_error e \<Rightarrow> Err (ME_Handshake (HE_Disconnected (Some e)))))"
| "recv_version buffer (c # cs) ending =
     (case version_decode buffer of
        Ok (Some ver) \<Rightarrow> Ok (ver, \<lparr>cn_buffer = buffer, cn_chunks = c # cs, cn_end = ending\<rparr>)
      | Err e \<Rightarrow> Err (version_error e)
      | Panic \<Rightarrow> Panic
      | Ok None \<Rightarrow> recv_version (buffer @ c) cs ending)"

definition server_call :: "('io connection \<Rightarrow> (('e, 'io) MqttError, unit) res) \<Rightarrow> ('io connection \<Rightarrow> (('e, 'io) MqttError, unit) res)
    \<Rightarrow> 'io connection \<Rightarrow> (('e, 'io) MqttError, unit) res" where
  "server_call v3 v5 io =
     (case version_decode (cn_buffer io) of
        Err e \<Rightarrow> Err (version_error e)
      | Panic \<Rightarrow> Panic
      | Ok (Some ver) \<Rightarrow> (case ver of MQTT3 \<Rightarrow> v3 io | MQTT5 \<Rightarrow> v5 io)
      | Ok None \<Rightarrow>
          bindR (recv_version (cn_buffer io) (cn_chunks io) (cn_end io)) (\<lambda>(ver, io).
            case ver of MQTT3 \<Rightarrow> v3 io | MQTT5 \<Rightarrow> v5 io))"

text \<open>\<open>DefaultProtocolServer\<close>: the service for a version that was not configured; \<open>other\<close> makes the
  \<open>io::Error\<close>.\<close>

definition default_protocol_server :: "(string \<Rightarrow> 'io) \<Rightarrow> ProtocolVersion \<Rightarrow> 'io connection \<Rightarrow> (('e, 'io) MqttError, unit) res" where
  "default_protocol_server other ver _ =
     Err (ME_Handshake (HE_Disconnected (Some (other (''Protocol is not supported: '' @ (case ver of MQTT3 \<Rightarrow> ''MQTT3'' | MQTT5 \<Rightarrow> ''MQTT5''))))))"

section \<open>Properties\<close>

lemma version_decode_prefix:
  assumes "version_decode (s @ t) = Ok (Some ver)"
  shows "version_decode s = Ok None \<or> version_decode s = Ok (Some ver)"
  using assms version_decode_append [of s t] by (cases "version_decode s = Ok None") auto

lemma recv_version_finds:
  assumes "version_decode (buffer @ concat chunks) = Ok (Some ver)"
  shows "\<exists>pre post. chunks = pre @ post \<and>
    (recv_version buffer chunks ending :: (('e, 'io) MqttError, _) res) = Ok (ver, \<lparr>cn_buffer = buffer @ concat pre, cn_chunks = post, cn_end = ending\<rparr>)"
  using assms
proof (induction chunks arbitrary: buffer)
  case Nil
  then show ?case by (intro exI [of _ "[]"]) simp
next
  case (Cons c cs)
  show ?case
  proof (cases "version_decode buffer = Ok None")
    case True
    have "version_decode ((buffer @ c) @ concat cs) = Ok (Some ver)" using Cons.prems by simp
    from Cons.IH [OF this] obtain pre post where "cs = pre @ post"
      "(recv_version (buffer @ c) cs ending :: (('e, 'io) MqttError, _) res) = Ok (ver, \<lparr>cn_buffer = (buffer @ c) @ concat pre, cn_chunks = post, cn_end = ending\<rparr>)" by blast
    then show ?thesis using True by (intro exI [of _ "c # pre"] exI [of _ post]) simp
  next
    case False
    then have "version_decode buffer = Ok (Some ver)" using version_decode_prefix Cons.prems by blast
    then show ?thesis by (intro exI [of _ "[]"] exI [of _ "c # cs"]) simp
  qed
qed

lemma server_call_routes:
  assumes "version_decode (buffer @ concat chunks) = Ok (Some ver)"
  shows "\<exists>pre post. chunks = pre @ post \<and>
    server_call v3_srv v5_srv \<lparr>cn_buffer = buffer, cn_chunks = chunks, cn_end = ending\<rparr> =
      (case ver of MQTT3 \<Rightarrow> v3_srv | MQTT5 \<Rightarrow> v5_srv) \<lparr>cn_buffer = buffer @ concat pre, cn_chunks = post, cn_end = ending\<rparr>"
proof (cases "version_decode buffer = Ok None")
  case True
  from recv_version_finds [OF assms, of ending] obtain pre post where r: "chunks = pre @ post"
    "(recv_version buffer chunks ending :: (('a, 'b) MqttError, _) res) =
       Ok (ver, \<lparr>cn_buffer = buffer @ concat pre, cn_chunks = post, cn_end = ending\<rparr>)" by blast
  then show ?thesis using True by (intro exI [of _ pre] exI [of _ post]) (simp add: server_call_def split: ProtocolVersion.splits)
next
  case False
  then have "version_decode buffer = Ok (Some ver)" using version_decode_prefix assms by blast
  then show ?thesis by (intro exI [of _ "[]"] exI [of _ chunks]) (simp add: server_call_def split: ProtocolVersion.splits)
qed

lemma v5_connect_start: "\<exists>s. fst (v5_Connect_encode con n) = [0, 4] @ MQTT @ MQTT_LEVEL_5 # s"
  using MQTT_header by (simp add: v5_Connect_encode_def) (simp add: MQTT_def)

lemma version_decode_v5_connect:
  assumes "v5_encoded_size (V5_Connect con) (v5_out_limit c) = Ok n" and "n \<le> v5_out_limit c" and "n \<le> 268435455"
  shows "version_decode (fst (v5_codec_encode c (V5_Connect con)) @ r) = Ok (Some MQTT5)"
proof -
  obtain s where s: "fst (v5_Connect_encode con n) = [0, 4] @ MQTT @ MQTT_LEVEL_5 # s" using v5_connect_start by blast
  have w: "snd (write_variable_length n) = Ok ()" using assms(3) by simp
  have "v5_out_packet c (V5_Connect con) = V5_Connect con" by (simp add: v5_out_packet_def)
  then have "fst (v5_codec_encode c (V5_Connect con)) = CONNECT # fst (write_variable_length n) @ fst (v5_Connect_encode con n)"
    using assms w by (simp add: v5_codec_encode_def Let_def eseq_nothing)
  then show ?thesis using version_decode_level [OF assms(3), of MQTT_LEVEL_5 "s @ r"] s by (simp add: mqtt_consts)
qed

end
