(* ===== verification/Router.thy ===== *)
theory Router
  imports V3_Client V5_Client
begin

text \<open>
  Routing of PUBLISH messages to handlers: \<open>src/v3/router.rs\<close>, \<open>src/v5/router.rs\<close> and the function \<open>dispatch\<close> of
  \<open>src/v3/client/connection.rs\<close> and \<open>src/v5/client/connection.rs\<close>. The pattern matcher is the crate
  \<open>ntex_router\<close>: a parameter \<open>recognize\<close> that maps a topic path to the value of the resource it matches
  and to the path with its matched segments. Type \<open>'path\<close> is \<open>Path<ByteString>\<close>.
\<close>

section \<open>Routers\<close>

text \<open>\<open>Router\<close> (also \<open>ClientRouter\<close>): the patterns with the values given to the matcher, and the handlers.\<close>

record ('addr, 'h) Router =
  rt_router :: "('addr \<times> nat) list"
  rt_handlers :: "'h list"

definition Router_new :: "('addr, 'h) Router" where
  "Router_new = \<lparr>rt_router = [], rt_handlers = []\<rparr>"

definition Router_resource :: "'addr \<Rightarrow> 'h \<Rightarrow> ('addr, 'h) Router \<Rightarrow> ('addr, 'h) Router" where
  "Router_resource address service r =
     \<lparr>rt_router = rt_router r @ [(address, length (rt_handlers r))], rt_handlers = rt_handlers r @ [service]\<rparr>"

text \<open>Where a message goes. \<open>Rt_other\<close> is the default service of a server, and the control service of a
  client, to which the message is handed back.\<close>

datatype 'h route = Rt_handler 'h | Rt_other

type_synonym 'path recognizer = "'path \<Rightarrow> nat option \<times> 'path"

definition handler_at :: "'h list \<Rightarrow> nat \<Rightarrow> ('e, 'h route) res" where
  "handler_at handlers idx = (if idx < length handlers then Ok (Rt_handler (handlers ! idx)) else Panic)"

text \<open>MQTT 3.1.1: \<open>RouterService::call\<close> and \<open>dispatch\<close>.\<close>

definition v3_route :: "'path recognizer \<Rightarrow> ('addr, 'h) Router \<Rightarrow> 'path \<Rightarrow> ('e, 'h route) res \<times> 'path" where
  "v3_route recognize r topic =
     (case recognize topic of
        (Some idx, topic') \<Rightarrow> (handler_at (rt_handlers r) idx, topic')
      | (None, topic') \<Rightarrow> (Ok Rt_other, topic'))"

text \<open>MQTT 5: \<open>RouterService::call\<close> and \<open>dispatch\<close>, with the aliases of topics that were routed before.\<close>

definition v5_route :: "'path recognizer \<Rightarrow> ('addr, 'h) Router \<Rightarrow> v5_Publish \<Rightarrow> 'path \<Rightarrow> (u16 \<rightharpoonup> nat \<times> 'path)
    \<Rightarrow> ('e, 'h route) res \<times> 'path \<times> (u16 \<rightharpoonup> nat \<times> 'path)" where
  "v5_route recognize r publish topic aliases =
     (if pub5_topic publish \<noteq> [] then
        (case recognize topic of
           (Some idx, topic') \<Rightarrow>
             let aliases' = (case pp5_topic_alias (pub5_properties publish) of
                   Some alias \<Rightarrow> aliases(alias \<mapsto> (idx, topic')) | None \<Rightarrow> aliases) in
             (handler_at (rt_handlers r) idx, topic', aliases')
         | (None, topic') \<Rightarrow> (Ok Rt_other, topic', aliases))
      else
        (case pp5_topic_alias (pub5_properties publish) of
           Some alias \<Rightarrow>
             (case aliases alias of
                Some (idx, path) \<Rightarrow> (handler_at (rt_handlers r) idx, path, aliases)
              | None \<Rightarrow> (Ok Rt_other, topic, aliases))
         | None \<Rightarrow> (Ok Rt_other, topic, aliases)))"

text \<open>The end of a client's \<open>dispatch\<close>, when the handler has answered: \<open>call\<close> of both versions. Type \<open>'msg\<close> is that of
  the message, which \<open>dispatch\<close> hands back when no resource matches.\<close>

definition v3c_handler_call :: "('p \<Rightarrow> 'e) \<Rightarrow> 'p + unit \<Rightarrow> 'e + (unit + 'msg)" where
  "v3c_handler_call into res = (case res of Inr _ \<Rightarrow> Inr (Inl ()) | Inl err \<Rightarrow> Inl (into err))"

definition v5c_handler_call :: "('p \<Rightarrow> 'e + v5_PubAck) \<Rightarrow> 'p + v5_PubAck \<Rightarrow> 'e + ('msg + v5_PubAck)" where
  "v5c_handler_call try_from res =
     (case res of
        Inr ack \<Rightarrow> Inr (Inr ack)
      | Inl err \<Rightarrow> (case try_from err of Inr ack \<Rightarrow> Inr (Inr ack) | Inl err \<Rightarrow> Inl err))"

section \<open>Properties\<close>

text \<open>What the routers rely on: the matcher gives back only values it was given.\<close>

definition recognizes :: "'path recognizer \<Rightarrow> ('addr, 'h) Router \<Rightarrow> bool" where
  "recognizes recognize r \<longleftrightarrow> (\<forall>topic idx topic'. recognize topic = (Some idx, topic') \<longrightarrow> idx \<in> snd ` set (rt_router r))"

inductive built :: "('addr, 'h) Router \<Rightarrow> bool" where
  new: "built Router_new"
| resource: "built r \<Longrightarrow> built (Router_resource address service r)"

lemma built_range: "built r \<Longrightarrow> map snd (rt_router r) = [0..<length (rt_handlers r)]"
  by (induction rule: built.induct) (simp_all add: Router_new_def Router_resource_def)

lemma recognized_in_range:
  assumes "built r" and "recognizes recognize r" and "recognize topic = (Some idx, topic')"
  shows "idx < length (rt_handlers r)"
proof -
  have "idx \<in> set (map snd (rt_router r))" using assms(2,3) by (auto simp: recognizes_def)
  then show ?thesis using built_range [OF assms(1)] by simp
qed

text \<open>The messages of a connection in order.\<close>

fun v5_routes :: "'path recognizer \<Rightarrow> ('addr, 'h) Router \<Rightarrow> (v5_Publish \<times> 'path) list \<Rightarrow> (u16 \<rightharpoonup> nat \<times> 'path)
    \<Rightarrow> ('e, 'h route) res list \<times> (u16 \<rightharpoonup> nat \<times> 'path)" where
  "v5_routes recognize r [] aliases = ([], aliases)"
| "v5_routes recognize r ((p, t) # ps) aliases =
     (let (x, _, aliases') = v5_route recognize r p t aliases; (xs, aliases'') = v5_routes recognize r ps aliases' in (x # xs, aliases''))"

lemma v5_route_ok:
  fixes x :: "('e, 'h route) res"
  assumes "built r" and "recognizes recognize r" and "\<forall>a i p. aliases a = Some (i, p) \<longrightarrow> i < length (rt_handlers r)"
    and "v5_route recognize r publish topic aliases = (x, topic', aliases')"
  shows "x \<noteq> Panic \<and> (\<forall>a i p. aliases' a = Some (i, p) \<longrightarrow> i < length (rt_handlers r))"
  using assms(3,4) recognized_in_range [OF assms(1,2)]
  by (auto simp: v5_route_def handler_at_def Let_def split: if_splits option.splits prod.splits) blast+

lemma v5_routes_ok:
  fixes xs :: "('e, 'h route) res list"
  assumes "built r" and "recognizes recognize r"
  shows "\<forall>a i p. aliases a = Some (i, p) \<longrightarrow> i < length (rt_handlers r) \<Longrightarrow>
    v5_routes recognize r ps aliases = (xs, aliases') \<Longrightarrow> Panic \<notin> set xs"
proof (induction ps arbitrary: aliases xs)
  case (Cons pt ps)
  obtain p t where pt: "pt = (p, t)" by (cases pt)
  obtain x :: "('e, 'h route) res" and t' a' where x: "v5_route recognize r p t aliases = (x, t', a')"
    by (cases "v5_route recognize r p t aliases :: ('e, 'h route) res \<times> _") auto
  obtain ys :: "('e, 'h route) res list" where ys: "v5_routes recognize r ps a' = (ys, aliases')" "xs = x # ys"
    using Cons.prems(2) pt x by (auto split: prod.splits)
  from v5_route_ok [OF assms Cons.prems(1) x] Cons.IH [of a' ys] ys show ?case by auto
qed simp

text \<open>A router that was built with \<open>resource\<close> never looks for a handler that does not exist, whatever
  messages and aliases arrive, as long as the matcher returns only values it was given; the handler
  of a message that carries only an alias is the handler of the last message that was routed with
  that alias.\<close>

theorem v5_router_total:
  fixes xs :: "('e, 'h route) res list"
  assumes "built r" and "recognizes recognize r" and "v5_routes recognize r ps Map.empty = (xs, aliases)"
    and "pub5_topic publish = []" and "pp5_topic_alias (pub5_properties publish) = Some a"
    and "pub5_topic earlier \<noteq> []" and "pp5_topic_alias (pub5_properties earlier) = Some a" and "recognize topic = (Some idx, topic')"
  shows "Panic \<notin> set xs \<and>
    v5_route recognize r publish t (snd (snd (v5_route recognize r earlier topic aliases :: ('e, 'h route) res \<times> _))) =
      (Ok (Rt_handler (rt_handlers r ! idx)) :: ('e, 'h route) res, topic', aliases(a \<mapsto> (idx, topic')))"
proof -
  have "Panic \<notin> set xs" using assms(3) by (intro v5_routes_ok [OF assms(1,2)]) simp_all
  then show ?thesis using assms(4-8) recognized_in_range [OF assms(1,2,8)] by (simp add: v5_route_def handler_at_def)
qed

definition sample_recognize :: "bytes recognizer" where
  "sample_recognize t = (if t = [0x61] then Some 0 else None, t)"

end
