(* ===== verification/Connector.thy ===== *)
theory Connector
  imports Handshake V3_Client V5_Client
begin

text \<open>
  Opening a client connection: \<open>src/v3/client/connector.rs\<close>, \<open>src/v5/client/connector.rs\<close> and the set-up of the
  dispatcher in \<open>src/v3/client/connection.rs\<close> and \<open>src/v5/client/connection.rs\<close>. The network connector is
  outside of the repository: its result is an argument, like the packet that answers CONNECT.
\<close>

section \<open>Errors\<close>

datatype ('ack, 'io, 'conn) ClientError =
    CE_Ack 'ack
  | CE_Protocol ProtocolError
  | CE_HandshakeTimeout
  | CE_Disconnected "'io option"
  | CE_Connect 'conn

definition ClientError_from :: "DecodeError + 'io \<Rightarrow> ('ack, 'io, 'conn) ClientError" where
  "ClientError_from err = (case err of Inl e \<Rightarrow> CE_Protocol (PE_Decode e) | Inr e \<Rightarrow> CE_Disconnected (Some e))"

text \<open>\<open>io.recv(&codec).await.map_err(..)?.ok_or_else(..)?\<close> under \<open>timeout_checked(handshake_timeout, ..)\<close>.\<close>

definition recv_first :: "('pkt, 'io) first_packet \<Rightarrow> (('ack, 'io, 'conn) ClientError, 'pkt) res" where
  "recv_first first =
     (case first of
        FP_timeout \<Rightarrow> Err CE_HandshakeTimeout
      | FP_error err \<Rightarrow> Err (ClientError_from err)
      | FP_closed \<Rightarrow> Err (CE_Disconnected None)
      | FP_packet packet _ \<Rightarrow> Ok packet)"

section \<open>MQTT 3.1.1\<close>

record v3_Connector =
  mc3_pkt :: v3_Connect
  mc3_max_size :: u32
  mc3_max_send :: nat
  mc3_max_receive :: nat
  mc3_handshake_timeout :: u16

definition v3_Connect_default :: v3_Connect where
  "v3_Connect_default = \<lparr>con3_clean_session = False, con3_keep_alive = 0, con3_last_will = None, con3_client_id = [],
     con3_username = None, con3_password = None\<rparr>"

definition v3_Connector_new :: v3_Connector where
  "v3_Connector_new = \<lparr>mc3_pkt = v3_Connect_default, mc3_max_size = 64 * 1024, mc3_max_send = 16, mc3_max_receive = 16,
     mc3_handshake_timeout = 0\<rparr>"

definition v3_Connector_client_id :: "bytes \<Rightarrow> v3_Connector \<Rightarrow> v3_Connector" where
  "v3_Connector_client_id client_id m = m\<lparr>mc3_pkt := (mc3_pkt m)\<lparr>con3_client_id := client_id\<rparr>\<rparr>"

definition v3_Connector_clean_session :: "v3_Connector \<Rightarrow> v3_Connector" where
  "v3_Connector_clean_session m = m\<lparr>mc3_pkt := (mc3_pkt m)\<lparr>con3_clean_session := True\<rparr>\<rparr>"

definition v3_Connector_keep_alive :: "u16 \<Rightarrow> v3_Connector \<Rightarrow> v3_Connector" where
  "v3_Connector_keep_alive val m = m\<lparr>mc3_pkt := (mc3_pkt m)\<lparr>con3_keep_alive := val\<rparr>\<rparr>"

definition v3_Connector_last_will :: "v3_LastWill \<Rightarrow> v3_Connector \<Rightarrow> v3_Connector" where
  "v3_Connector_last_will val m = m\<lparr>mc3_pkt := (mc3_pkt m)\<lparr>con3_last_will := Some val\<rparr>\<rparr>"

definition v3_Connector_username :: "bytes \<Rightarrow> v3_Connector \<Rightarrow> v3_Connector" where
  "v3_Connector_username val m = m\<lparr>mc3_pkt := (mc3_pkt m)\<lparr>con3_username := Some val\<rparr>\<rparr>"

definition v3_Connector_password :: "bytes \<Rightarrow> v3_Connector \<Rightarrow> v3_Connector" where
  "v3_Connector_password val m = m\<lparr>mc3_pkt := (mc3_pkt m)\<lparr>con3_password := Some val\<rparr>\<rparr>"

definition v3_Connector_max_size :: "u32 \<Rightarrow> v3_Connector \<Rightarrow> v3_Connector" where
  "v3_Connector_max_size val m = m\<lparr>mc3_max_size := val\<rparr>"

definition v3_Connector_max_send :: "u16 \<Rightarrow> v3_Connector \<Rightarrow> v3_Connector" where
  "v3_Connector_max_send val m = m\<lparr>mc3_max_send := unat val\<rparr>"

definition v3_Connector_max_receive :: "u16 \<Rightarrow> v3_Connector \<Rightarrow> v3_Connector" where
  "v3_Connector_max_receive val m = m\<lparr>mc3_max_receive := unat val\<rparr>"

definition v3_Connector_packet :: "(v3_Connect \<Rightarrow> v3_Connect) \<Rightarrow> v3_Connector \<Rightarrow> v3_Connector" where
  "v3_Connector_packet f m = m\<lparr>mc3_pkt := f (mc3_pkt m)\<rparr>"

definition v3_Connector_handshake_timeout :: "u16 \<Rightarrow> v3_Connector \<Rightarrow> v3_Connector" where
  "v3_Connector_handshake_timeout timeout m = m\<lparr>mc3_handshake_timeout := timeout\<rparr>"

record v3_Client =
  cl3_shared :: v3_Shared
  cl3_session_present :: bool
  cl3_codec :: v3_Codec
  cl3_keepalive :: u16
  cl3_max_receive :: nat

text \<open>\<open>connect\<close> and \<open>_connect\<close>; the CONNECT packet is written before the shared state exists, its log
  starts with it.\<close>

definition v3_connect :: "v3_Connector \<Rightarrow> v3_Env \<Rightarrow> 'conn + unit \<Rightarrow> (v3_Packet, 'io) first_packet
    \<Rightarrow> ((v3_ConnectAck, 'io, 'conn) ClientError, v3_Client) res" where
  "v3_connect m env conn first =
     (case conn of
        Inl e \<Rightarrow> Err (CE_Connect e)
      | Inr _ \<Rightarrow>
          (case env_encode env (V3_Connect (mc3_pkt m)) of
             Some e \<Rightarrow> Err (CE_Protocol (PE_Encode e))
           | None \<Rightarrow>
               bindR (recv_first first) (\<lambda>packet.
                 let shared = log_event (Ev_encode (V3_Connect (mc3_pkt m))) (v3_Shared_new True) in
                 case packet of
                   V3_ConnectAck pkt \<Rightarrow>
                     if cack3_return_code pkt = CAR3_ConnectionAccepted then
                       Ok \<lparr>cl3_shared = sh_set_cap env (mc3_max_send m) shared, cl3_session_present = cack3_session_present pkt,
                         cl3_codec = v3_set_max_size (unat (mc3_max_size m)) v3_Codec_new,
                         cl3_keepalive = con3_keep_alive (mc3_pkt m), cl3_max_receive = mc3_max_receive m\<rparr>
                     else Err (CE_Ack pkt)
                 | p \<Rightarrow> Err (CE_Protocol (unexpected_packet (v3_packet_type p) ''Expected CONNACK packet'')))))"

text \<open>One round of the task \<open>keepalive\<close> after the sleep: \<open>False\<close> ends it.\<close>

definition v3_keepalive_tick :: "v3_Env \<Rightarrow> v3_Shared \<Rightarrow> bool \<times> v3_Shared" where
  "v3_keepalive_tick env s = (if env_closed env then (False, s) else v3_ping env s)"

section \<open>MQTT 5\<close>

record v5_Connector =
  mc5_pkt :: v5_Connect
  mc5_handshake_timeout :: u16

definition v5_Connector_new :: v5_Connector where
  "v5_Connector_new = \<lparr>mc5_pkt = v5_Connect_default, mc5_handshake_timeout = 0\<rparr>"

definition v5_Connector_packet :: "(v5_Connect \<Rightarrow> v5_Connect) \<Rightarrow> v5_Connector \<Rightarrow> v5_Connector" where
  "v5_Connector_packet f m = m\<lparr>mc5_pkt := f (mc5_pkt m)\<rparr>"

definition v5_Connector_client_id :: "bytes \<Rightarrow> v5_Connector \<Rightarrow> v5_Connector" where
  "v5_Connector_client_id client_id = v5_Connector_packet (\<lambda>p. p\<lparr>con5_client_id := client_id\<rparr>)"

definition v5_Connector_clean_start :: "v5_Connector \<Rightarrow> v5_Connector" where
  "v5_Connector_clean_start = v5_Connector_packet (\<lambda>p. p\<lparr>con5_clean_start := True\<rparr>)"

definition v5_Connector_keep_alive :: "u16 \<Rightarrow> v5_Connector \<Rightarrow> v5_Connector" where
  "v5_Connector_keep_alive val = v5_Connector_packet (\<lambda>p. p\<lparr>con5_keep_alive := val\<rparr>)"

definition v5_Connector_last_will :: "v5_LastWill \<Rightarrow> v5_Connector \<Rightarrow> v5_Connector" where
  "v5_Connector_last_will val = v5_Connector_packet (\<lambda>p. p\<lparr>con5_last_will := Some val\<rparr>)"

definition v5_Connector_auth :: "bytes \<Rightarrow> bytes \<Rightarrow> v5_Connector \<Rightarrow> v5_Connector" where
  "v5_Connector_auth method data = v5_Connector_packet (\<lambda>p. p\<lparr>con5_auth_method := Some method, con5_auth_data := Some data\<rparr>)"

definition v5_Connector_username :: "bytes \<Rightarrow> v5_Connector \<Rightarrow> v5_Connector" where
  "v5_Connector_username val = v5_Connector_packet (\<lambda>p. p\<lparr>con5_username := Some val\<rparr>)"

definition v5_Connector_password :: "bytes \<Rightarrow> v5_Connector \<Rightarrow> v5_Connector" where
  "v5_Connector_password val = v5_Connector_packet (\<lambda>p. p\<lparr>con5_password := Some val\<rparr>)"

definition v5_Connector_max_packet_size :: "u32 \<Rightarrow> v5_Connector \<Rightarrow> v5_Connector" where
  "v5_Connector_max_packet_size val = v5_Connector_packet (\<lambda>p. p\<lparr>con5_max_packet_size := NonZero_new val\<rparr>)"

definition v5_Connector_max_receive :: "u16 \<Rightarrow> v5_Connector \<Rightarrow> v5_Connector" where
  "v5_Connector_max_receive val = v5_Connector_packet (\<lambda>p. p\<lparr>con5_receive_max := NonZero_new val\<rparr>)"

definition v5_Connector_properties :: "(UserProperty list \<Rightarrow> UserProperty list) \<Rightarrow> v5_Connector \<Rightarrow> v5_Connector" where
  "v5_Connector_properties f = v5_Connector_packet (\<lambda>p. p\<lparr>con5_user_properties := f (con5_user_properties p)\<rparr>)"

definition v5_Connector_handshake_timeout :: "u16 \<Rightarrow> v5_Connector \<Rightarrow> v5_Connector" where
  "v5_Connector_handshake_timeout timeout m = m\<lparr>mc5_handshake_timeout := timeout\<rparr>"

record v5_Client =
  cl5_shared :: v5_Shared
  cl5_pkt :: v5_ConnectAck
  cl5_max_receive :: nat
  cl5_keepalive :: u16

text \<open>The shared state when the first packet of the server has arrived: the codec limits inbound packets to what
  CONNECT announces, and CONNECT has been written.\<close>

definition v5_connect_shared :: "v5_Connect \<Rightarrow> v5_Shared" where
  "v5_connect_shared connect =
     (let max_packet_size = (case con5_max_packet_size connect of Some n \<Rightarrow> unat n | None \<Rightarrow> 0) in
      log_event (Ev_encode (V5_Connect connect)) (v5_Shared_new (v5_set_max_inbound_size max_packet_size v5_Codec_new)))"

definition v5_connect :: "v5_Connector \<Rightarrow> v5_Env \<Rightarrow> 'conn + unit \<Rightarrow> (v5_Packet, 'io) first_packet
    \<Rightarrow> ((v5_ConnectAck, 'io, 'conn) ClientError, v5_Client) res" where
  "v5_connect m env conn first =
     (case conn of
        Inl e \<Rightarrow> Err (CE_Connect e)
      | Inr _ \<Rightarrow>
          let connect = mc5_pkt m;
              max_receive = (case con5_receive_max connect of Some n \<Rightarrow> unat n | None \<Rightarrow> 65535) in
          (case env_encode env (V5_Connect connect) of
             Some e \<Rightarrow> Err (CE_Protocol (PE_Encode e))
           | None \<Rightarrow>
               bindR (recv_first first) (\<lambda>packet.
                 let shared = v5_connect_shared connect in
                 case packet of
                   V5_ConnectAck pkt \<Rightarrow>
                     if cack5_reason_code pkt = CA_Success then
                       let shared = (case cack5_max_packet_size pkt of
                             Some n \<Rightarrow> v5_map_codec (v5_set_max_outbound_size (unat n)) shared | None \<Rightarrow> shared);
                           keep_alive = (case cack5_server_keepalive_sec pkt of Some k \<Rightarrow> k | None \<Rightarrow> con5_keep_alive connect) in
                       Ok \<lparr>cl5_shared = sh_set_cap env (unat (cack5_receive_max pkt)) shared, cl5_pkt = pkt, cl5_max_receive = max_receive,
                         cl5_keepalive = keep_alive\<rparr>
                     else Err (CE_Ack pkt)
                 | p \<Rightarrow> Err (CE_Protocol (unexpected_packet (v5_packet_type p) ''CONNACK packet expected from server first [MQTT-3.2.0-1]'')))))"

text \<open>\<open>create_dispatcher(sink, self.max_receive, 16, ..)\<close> in the four functions that start a client.\<close>

definition v5_client_cfg :: "v5_Client \<Rightarrow> v5c_DispatcherCfg" where
  "v5_client_cfg cl = \<lparr>dcc5_max_receive = cl5_max_receive cl, dcc5_max_topic_alias = 16\<rparr>"

definition v5_keepalive_tick :: "v5_Env \<Rightarrow> v5_Shared \<Rightarrow> bool \<times> v5_Shared" where
  "v5_keepalive_tick env s = (if \<not> v5_is_open env then (False, s) else v5_ping env s)"

section \<open>Properties\<close>

lemma recv_first_Ok: "recv_first first = Ok packet \<longleftrightarrow> (\<exists>sz. first = FP_packet packet sz)"
  by (auto simp: recv_first_def split: first_packet.splits)

lemma set_cap_no_waiters: "sh_waiters s = [] \<Longrightarrow> sh_set_cap env n s = s\<lparr>sh_cap := n\<rparr>"
  by (cases n) (simp_all add: sh_set_cap_def sh_woken_def)

lemma v5_connect_shared_simps:
  "sh_waiters (v5_connect_shared connect) = []" "sh_inflight (v5_connect_shared connect) = []"
  "sh_events (v5_connect_shared connect) = [Ev_encode (V5_Connect connect)]"
  "c5_max_out_size (sh_codec (v5_connect_shared connect)) = 0"
  "c5_max_in_size (sh_codec (v5_connect_shared connect)) = (case con5_max_packet_size connect of Some n \<Rightarrow> unat n | None \<Rightarrow> 0)"
  "sh_waiters (v5_map_codec f s) = sh_waiters s" "sh_inflight (v5_map_codec f s) = sh_inflight s"
  "sh_events (v5_map_codec f s) = sh_events s" "sh_codec (v5_map_codec f s) = f (sh_codec s)"
  by (simp_all add: v5_connect_shared_def Let_def log_event_def v5_Shared_new_def v5_Codec_new_def v5_set_max_inbound_size_def
      v5_map_codec_def)

text \<open>The limits of both sides as the client keeps them: \<open>connect\<close> is what it announced, \<open>pkt\<close> what the server did.\<close>

definition v5_client_limits :: "v5_Client \<Rightarrow> v5_Connect \<Rightarrow> v5_ConnectAck \<Rightarrow> bool" where
  "v5_client_limits cl connect pkt \<longleftrightarrow>
     sh_cap (cl5_shared cl) = unat (cack5_receive_max pkt) \<and>
     cl5_keepalive cl = (case cack5_server_keepalive_sec pkt of Some k \<Rightarrow> k | None \<Rightarrow> con5_keep_alive connect) \<and>
     c5_max_out_size (sh_codec (cl5_shared cl)) =
       (case cack5_max_packet_size pkt of Some n \<Rightarrow> if 5 < unat n then unat n - 5 else unat n | None \<Rightarrow> 0) \<and>
     c5_max_in_size (sh_codec (cl5_shared cl)) = (case con5_max_packet_size connect of Some n \<Rightarrow> unat n | None \<Rightarrow> 0) \<and>
     cl5_max_receive cl = (case con5_receive_max connect of Some n \<Rightarrow> unat n | None \<Rightarrow> 65535)"

lemma v5_connect_keeps_limits:
  assumes "v5_connect m env conn first = Ok cl"
  shows "\<exists>pkt sz. first = FP_packet (V5_ConnectAck pkt) sz \<and> cack5_reason_code pkt = CA_Success \<and>
    sh_events (cl5_shared cl) = [Ev_encode (V5_Connect (mc5_pkt m))] \<and>
    sh_credit (cl5_shared cl) = unat (cack5_receive_max pkt) \<and> v5_client_limits cl (mc5_pkt m) pkt"
proof -
  obtain packet sz where p: "first = FP_packet packet sz" and "conn = Inr ()" "env_encode env (V5_Connect (mc5_pkt m)) = None"
    using assms by (auto simp: v5_connect_def recv_first_def Let_def split: sum.splits option.splits first_packet.splits)
  moreover obtain pkt where pkt: "packet = V5_ConnectAck pkt" "cack5_reason_code pkt = CA_Success"
    using assms calculation by (cases packet) (auto simp: v5_connect_def recv_first_def Let_def split: if_splits)
  ultimately have cl: "cl = \<lparr>cl5_shared = (case cack5_max_packet_size pkt of
        Some n \<Rightarrow> v5_map_codec (v5_set_max_outbound_size (unat n)) (v5_connect_shared (mc5_pkt m)) | None \<Rightarrow> v5_connect_shared (mc5_pkt m))
          \<lparr>sh_cap := unat (cack5_receive_max pkt)\<rparr>,
      cl5_pkt = pkt, cl5_max_receive = (case con5_receive_max (mc5_pkt m) of Some n \<Rightarrow> unat n | None \<Rightarrow> 65535),
      cl5_keepalive = (case cack5_server_keepalive_sec pkt of Some k \<Rightarrow> k | None \<Rightarrow> con5_keep_alive (mc5_pkt m))\<rparr>"
    using assms by (cases "cack5_max_packet_size pkt") (auto simp: v5_connect_def recv_first_def Let_def set_cap_no_waiters v5_connect_shared_simps)
  show ?thesis
    by (intro exI [of _ pkt] exI [of _ sz])
      (auto simp: p pkt cl v5_client_limits_def sh_credit_def v5_connect_shared_simps v5_set_max_outbound_size_def split: option.splits)
qed

lemma v5_connect_accepted:
  assumes "env_encode env (V5_Connect (mc5_pkt m)) = None" and "cack5_reason_code pkt = CA_Success"
  shows "\<exists>cl. v5_connect m env (Inr ()) (FP_packet (V5_ConnectAck pkt) sz) = Ok cl"
  using assms by (simp add: v5_connect_def Let_def recv_first_def)

section \<open>Where the documentation and the code part\<close>

text \<open>\<open>max_send(0)\<close> is documented as no limit; the connection it opens has no credit and is never ready.\<close>

theorem v3_max_send_zero_blocks:
  assumes "v3_connect (v3_Connector_max_send 0 m) env conn first = Ok cl"
  shows "\<not> sh_is_ready (cl3_shared cl)"
proof -
  obtain pkt sz where p: "conn = Inr ()" "first = FP_packet pkt sz" "env_encode env (V3_Connect (mc3_pkt m)) = None"
    using assms by (auto simp: v3_connect_def v3_Connector_max_send_def recv_first_def split: sum.splits option.splits first_packet.splits)
  then show ?thesis using assms
    by (cases pkt)
      (auto simp: v3_connect_def v3_Connector_max_send_def Let_def recv_first_def sh_is_ready_def sh_credit_def sh_set_cap_def split: if_splits)
qed

text \<open>The keep alive of a new connector is documented as 30 seconds, the receive maximum of MQTT 5 as 16.\<close>

theorem connector_defaults:
  "con3_keep_alive (mc3_pkt v3_Connector_new) = 0" "con5_keep_alive (mc5_pkt v5_Connector_new) = 0"
  "con5_receive_max (mc5_pkt v5_Connector_new) = None"
  by (simp_all add: v3_Connector_new_def v3_Connect_default_def v5_Connector_new_def v5_Connect_default_def)

text \<open>The topic alias maximum the client enforces is 16, not the one that it announced in CONNECT.\<close>

theorem v5_client_alias_max_fixed: "dcc5_max_topic_alias (v5_client_cfg cl) = 16"
  by (simp add: v5_client_cfg_def)

end
