(* ===== verification/Builder.thy ===== *)
theory Builder
  imports Handshake Io Inflight
begin

text \<open>
  The servers as the user configures them: the settings and builder methods of \<open>src/v3/server.rs\<close> and
  \<open>src/v5/server.rs\<close>, the dispatcher factories of \<open>src/v3/dispatcher.rs\<close> and \<open>src/v5/dispatcher.rs\<close>, the default
  services of \<open>src/v3/default.rs\<close> and \<open>src/v5/default.rs\<close>, and \<open>MqttHandler::call\<close> of \<open>src/service.rs\<close>, which joins the
  handshake, the dispatcher and the stream dispatcher into a connection.

  The default \<open>DispatcherConfig\<close> comes from \<open>ntex_io\<close> and is an argument. Service factories are functions of the
  session; the write parameters of the memory pool and the time limit of a disconnect are left out.
\<close>

section \<open>Settings\<close>

record v3_MqttServer =
  ms3_max_qos :: QoS
  ms3_max_size :: u32
  ms3_max_receive :: u16
  ms3_max_receive_size :: nat
  ms3_max_send :: u16
  ms3_handle_qos_after_disconnect :: "QoS option"
  ms3_connect_timeout :: u16
  ms3_config :: IoConfig

definition v3_MqttServer_new :: "IoConfig \<Rightarrow> v3_MqttServer" where
  "v3_MqttServer_new config =
     \<lparr>ms3_max_qos = AtLeastOnce, ms3_max_size = 0, ms3_max_receive = 16, ms3_max_receive_size = 65535, ms3_max_send = 16,
      ms3_handle_qos_after_disconnect = None, ms3_connect_timeout = 0, ms3_config = config\<rparr>"

definition v3_MqttServer_connect_timeout :: "u16 \<Rightarrow> v3_MqttServer \<Rightarrow> v3_MqttServer" where
  "v3_MqttServer_connect_timeout timeout m = m\<lparr>ms3_connect_timeout := timeout\<rparr>"

definition v3_MqttServer_max_qos :: "QoS \<Rightarrow> v3_MqttServer \<Rightarrow> v3_MqttServer" where
  "v3_MqttServer_max_qos qos m = m\<lparr>ms3_max_qos := qos\<rparr>"

definition v3_MqttServer_max_size :: "u32 \<Rightarrow> v3_MqttServer \<Rightarrow> v3_MqttServer" where
  "v3_MqttServer_max_size sz m = m\<lparr>ms3_max_size := sz\<rparr>"

definition v3_MqttServer_max_receive :: "u16 \<Rightarrow> v3_MqttServer \<Rightarrow> v3_MqttServer" where
  "v3_MqttServer_max_receive val m = m\<lparr>ms3_max_receive := val\<rparr>"

definition v3_MqttServer_max_receive_size :: "nat \<Rightarrow> v3_MqttServer \<Rightarrow> v3_MqttServer" where
  "v3_MqttServer_max_receive_size val m = m\<lparr>ms3_max_receive_size := val\<rparr>"

definition v3_MqttServer_max_send :: "u16 \<Rightarrow> v3_MqttServer \<Rightarrow> v3_MqttServer" where
  "v3_MqttServer_max_send val m = m\<lparr>ms3_max_send := val\<rparr>"

definition v3_MqttServer_handle_qos_after_disconnect :: "QoS option \<Rightarrow> v3_MqttServer \<Rightarrow> v3_MqttServer" where
  "v3_MqttServer_handle_qos_after_disconnect val m = m\<lparr>ms3_handle_qos_after_disconnect := val\<rparr>"

record v5_MqttServer =
  ms5_max_qos :: QoS
  ms5_max_size :: u32
  ms5_max_receive :: u16
  ms5_max_receive_size :: nat
  ms5_max_topic_alias :: u16
  ms5_handle_qos_after_disconnect :: "QoS option"
  ms5_connect_timeout :: u16
  ms5_config :: IoConfig

definition v5_MqttServer_new :: "IoConfig \<Rightarrow> v5_MqttServer" where
  "v5_MqttServer_new config =
     \<lparr>ms5_max_qos = AtLeastOnce, ms5_max_size = 0, ms5_max_receive = 15, ms5_max_receive_size = 65535, ms5_max_topic_alias = 32,
      ms5_handle_qos_after_disconnect = None, ms5_connect_timeout = 0, ms5_config = config\<rparr>"

definition v5_MqttServer_connect_timeout :: "u16 \<Rightarrow> v5_MqttServer \<Rightarrow> v5_MqttServer" where
  "v5_MqttServer_connect_timeout timeout m = m\<lparr>ms5_connect_timeout := timeout\<rparr>"

definition v5_MqttServer_max_size :: "u32 \<Rightarrow> v5_MqttServer \<Rightarrow> v5_MqttServer" where
  "v5_MqttServer_max_size sz m = m\<lparr>ms5_max_size := sz\<rparr>"

definition v5_MqttServer_max_receive :: "u16 \<Rightarrow> v5_MqttServer \<Rightarrow> v5_MqttServer" where
  "v5_MqttServer_max_receive val m = m\<lparr>ms5_max_receive := val\<rparr>"

definition v5_MqttServer_max_receive_size :: "nat \<Rightarrow> v5_MqttServer \<Rightarrow> v5_MqttServer" where
  "v5_MqttServer_max_receive_size val m = m\<lparr>ms5_max_receive_size := val\<rparr>"

definition v5_MqttServer_max_topic_alias :: "u16 \<Rightarrow> v5_MqttServer \<Rightarrow> v5_MqttServer" where
  "v5_MqttServer_max_topic_alias val m = m\<lparr>ms5_max_topic_alias := val\<rparr>"

definition v5_MqttServer_max_qos :: "QoS \<Rightarrow> v5_MqttServer \<Rightarrow> v5_MqttServer" where
  "v5_MqttServer_max_qos qos m = m\<lparr>ms5_max_qos := qos\<rparr>"

definition v5_MqttServer_handle_qos_after_disconnect :: "QoS option \<Rightarrow> v5_MqttServer \<Rightarrow> v5_MqttServer" where
  "v5_MqttServer_handle_qos_after_disconnect val m = m\<lparr>ms5_handle_qos_after_disconnect := val\<rparr>"

section \<open>Default services\<close>

definition v3_default_publish :: "v3_Publish \<times> u32 \<Rightarrow> 'e + unit" where
  "v3_default_publish _ = Inr ()"

fun v3_default_control :: "('e, 'io) v3_Control \<Rightarrow> ('e, 'io) MqttError + v3_ControlAckKind" where
  "v3_default_control C3_Ping = Inr (v3_Control_ack (C3_Ping :: ('e, 'io) v3_Control))"
| "v3_default_control C3_Disconnect = Inr (v3_Control_ack (C3_Disconnect :: ('e, 'io) v3_Control))"
| "v3_default_control C3_Closed = Inr (v3_Control_ack (C3_Closed :: ('e, 'io) v3_Control))"
| "v3_default_control _ = Inr CAK3_Disconnect"

definition v5_default_publish :: "v5_Publish \<times> u32 \<Rightarrow> 't + v5_PubAck" where
  "v5_default_publish req = Inr (v5_Publish_ack req)"

fun v5_default_control :: "('e, 'io) v5_Control \<Rightarrow> ('e, 'io) MqttError + v5_ControlAck" where
  "v5_default_control C5_Ping = Inr v5_Ping_ack"
| "v5_default_control (C5_Disconnect pkt sz) = Inr v5_Disconnect_ack"
| "v5_default_control _ = Inr (v5_Control_disconnect_with (v5_Disconnect_new DR_UnspecifiedError))"

section \<open>Connections\<close>

text \<open>\<open>join\<close> of the two factories, then the first error.\<close>

definition create_services :: "('st \<Rightarrow> 'e + 'p) \<Rightarrow> ('st \<Rightarrow> 'e + 'c) \<Rightarrow> 'st \<Rightarrow> (('e, 'io) MqttError, 'p \<times> 'c) res" where
  "create_services publish control ses =
     (case publish ses of
        Inl e \<Rightarrow> Err (ME_Service e)
      | Inr p \<Rightarrow> (case control ses of Inl e \<Rightarrow> Err (ME_Service e) | Inr c \<Rightarrow> Ok (p, c)))"

text \<open>A running connection: the dispatcher with its user services, the in-flight limit around it and the
  stream dispatcher that drives both.\<close>

record ('inner, 'cfg, 'p, 'c, 'pkt, 'e, 'io) running =
  rc_inner :: 'inner
  rc_cfg :: 'cfg
  rc_services :: "'p \<times> 'c"
  rc_counter :: "unit CounterInner"
  rc_io :: "('pkt, ('e, 'io) MqttError, 'io) DispatcherInner"

definition v3_factory :: "v3_MqttServer \<Rightarrow> v3_DispatcherCfg \<times> unit CounterInner" where
  "v3_factory m =
     (\<lparr>dc3_max_qos = ms3_max_qos m, dc3_handle_qos_after_disconnect = ms3_handle_qos_after_disconnect m\<rparr>,
      Counter_new (ms3_max_receive m) (ms3_max_receive_size m))"

definition v5_factory :: "v5_MqttServer \<Rightarrow> ('t \<Rightarrow> 'e + v5_PubAck) \<Rightarrow> ('t \<Rightarrow> 'e) \<Rightarrow> ('t, 'e) v5_DispatcherCfg \<times> unit CounterInner" where
  "v5_factory m try_from from_err =
     (\<lparr>dc5_handle_qos_after_disconnect = ms5_handle_qos_after_disconnect m, dc5_try_from = try_from, dc5_from = from_err\<rparr>,
      Counter_new 0 (ms5_max_receive_size m))"

definition v5_handshake_cfg :: "v5_MqttServer \<Rightarrow> v5_HandshakeCfg" where
  "v5_handshake_cfg m = \<lparr>hc5_max_size = ms5_max_size m, hc5_max_receive = ms5_max_receive m,
     hc5_max_topic_alias = ms5_max_topic_alias m, hc5_max_qos = ms5_max_qos m\<rparr>"

text \<open>\<open>MqttHandler::call\<close> up to the point where the stream dispatcher runs; of 3.1.1 also the codec the handshake made.\<close>

definition v3_serve :: "v3_MqttServer \<Rightarrow> v3_Env \<Rightarrow> (v3_Handshake \<Rightarrow> 'e + 'st v3_HandshakeAck) \<Rightarrow> ('st \<Rightarrow> 'e + 'p) \<Rightarrow> ('st \<Rightarrow> 'e + 'c)
    \<Rightarrow> (v3_Packet, 'io) first_packet \<Rightarrow> (('e, 'io) MqttError, v3_Codec \<times> (v3_Inner, v3_DispatcherCfg, 'p, 'c, v3_Packet, 'e, 'io) running) res" where
  "v3_serve m env handshake publish control first =
     bindR (fst (v3_handshake_call (ms3_max_send m) env handshake first)) (\<lambda>(shared, session, keepalive).
       bindR (create_services publish control session) (\<lambda>services.
         let (cfg, counter) = v3_factory m in
         Ok (v3_set_max_size (unat (ms3_max_size m)) v3_Codec_new,
           \<lparr>rc_inner = \<lparr>in3_sink = shared, in3_inflight = {}\<rparr>, rc_cfg = cfg, rc_services = services, rc_counter = counter,
            rc_io = io_set_keepalive_timeout keepalive (io_new (ms3_config m))\<rparr>)))"

definition v5_serve :: "v5_MqttServer \<Rightarrow> v5_Env \<Rightarrow> (v5_Handshake \<Rightarrow> 'e + 'st v5_HandshakeAck) \<Rightarrow> ('t \<Rightarrow> 'e + v5_PubAck) \<Rightarrow> ('t \<Rightarrow> 'e)
    \<Rightarrow> ('st \<Rightarrow> 'e + 'p) \<Rightarrow> ('st \<Rightarrow> 'e + 'c) \<Rightarrow> (v5_Packet, 'io) first_packet
    \<Rightarrow> (('e, 'io) MqttError, (v5_Inner, ('t, 'e) v5_DispatcherCfg, 'p, 'c, v5_Packet, 'e, 'io) running) res" where
  "v5_serve m env handshake try_from from_err publish control first =
     bindR (fst (v5_handshake_call (v5_handshake_cfg m) env handshake first)) (\<lambda>(shared, session, keepalive).
       bindR (create_services publish control session) (\<lambda>services.
         let (cfg, counter) = v5_factory m try_from from_err in
         Ok \<lparr>rc_inner = v5_Inner_new shared, rc_cfg = cfg, rc_services = services, rc_counter = counter,
           rc_io = io_set_keepalive_timeout keepalive (io_new (ms5_config m))\<rparr>))"

section \<open>Lemmas\<close>

lemma v5_serve_Ok:
  fixes publish :: "'st \<Rightarrow> 'e + 'p"
  assumes "v5_serve m env handshake try_from from_err publish control first = Ok rc"
  obtains shared session timeout s' where
    "v5_handshake_call (v5_handshake_cfg m) env handshake first = (Ok (shared, session, timeout), s')"
    "rc_inner rc = v5_Inner_new shared" "rc_io rc = io_set_keepalive_timeout timeout (io_new (ms5_config m))"
    "rc_counter rc = Counter_new 0 (ms5_max_receive_size m)"
  using assms that
  by (cases "v5_handshake_call (v5_handshake_cfg m) env handshake first")
    (auto simp: v5_serve_def v5_factory_def elim!: bindR_Ok_E)

lemma io_keepalive_set:
  "io_keepalive_timeout (io_set_keepalive_timeout t d) = t"
  "flags_contains (io_flags (io_set_keepalive_timeout t d)) KA_ENABLED \<longleftrightarrow> t \<noteq> 0"
proof -
  have "(f OR KA_ENABLED) AND KA_ENABLED = KA_ENABLED" "(f AND NOT KA_ENABLED) AND KA_ENABLED = 0" for f
    by (simp_all add: bit_eq_iff bit_simps)
  then show "flags_contains (io_flags (io_set_keepalive_timeout t d)) KA_ENABLED \<longleftrightarrow> t \<noteq> 0"
    by (simp add: io_set_keepalive_timeout_def Let_def flags_contains_def) (simp add: KA_ENABLED_def)
qed (simp add: io_set_keepalive_timeout_def Let_def)

end
