(* ===== verification/V3_Api.thy ===== *)
theory V3_Api
  imports V3_Client
begin

text \<open>
  What the user of a 3.1.1 server or client sees: the messages of \<open>src/v3/control.rs\<close> and
  \<open>src/v3/client/control.rs\<close> with the answers their methods make, and \<open>Publish\<close> of \<open>src/v3/publish.rs\<close>.
  The dispatcher theories assume that a control service answers with something these methods can make
  (\<open>v3_answer_of\<close>, \<open>v3c_answer_of\<close>); this theory derives the answers from the methods.
\<close>

section \<open>Control messages of a server\<close>

text \<open>\<open>ControlAck\<close> has one field, so that a \<open>v3_ControlAckKind\<close> stands for it. The messages that carry nothing
  (\<open>Ping\<close>, \<open>Disconnect\<close>, \<open>Closed\<close>) are constructors of \<open>v3_Control\<close>; a message with one field is that field.\<close>

definition v3_Control_ping :: "('e, 'io) v3_Control" where
  "v3_Control_ping = C3_Ping"

definition v3_Control_subscribe :: "v3_SubscribeMsg \<Rightarrow> ('e, 'io) v3_Control" where
  "v3_Control_subscribe pkt = C3_Subscribe pkt"

definition v3_Control_unsubscribe :: "v3_UnsubscribeMsg \<Rightarrow> ('e, 'io) v3_Control" where
  "v3_Control_unsubscribe pkt = C3_Unsubscribe pkt"

definition v3_Control_remote_disconnect :: "('e, 'io) v3_Control" where
  "v3_Control_remote_disconnect = C3_Disconnect"

definition v3_Control_closed :: "('e, 'io) v3_Control" where
  "v3_Control_closed = C3_Closed"

definition v3_Control_wr_backpressure :: "bool \<Rightarrow> ('e, 'io) v3_Control" where
  "v3_Control_wr_backpressure enabled = C3_WrBackpressure enabled"

definition v3_Error_new :: "'e \<Rightarrow> 'e" where
  "v3_Error_new err = err"

definition v3_Control_error :: "'e \<Rightarrow> ('e, 'io) v3_Control" where
  "v3_Control_error err = C3_Error (v3_Error_new err)"

definition v3_ProtocolError_new :: "ProtocolError \<Rightarrow> ProtocolError" where
  "v3_ProtocolError_new err = err"

definition v3_Control_proto_error :: "ProtocolError \<Rightarrow> ('e, 'io) v3_Control" where
  "v3_Control_proto_error err = C3_ProtocolError (v3_ProtocolError_new err)"

definition v3_Control_peer_gone :: "'io option \<Rightarrow> ('e, 'io) v3_Control" where
  "v3_Control_peer_gone err = C3_PeerGone err"

definition v3_Control_disconnect :: "('e, 'io) v3_Control \<Rightarrow> v3_ControlAckKind" where
  "v3_Control_disconnect _ = CAK3_Disconnect"

definition v3_Ping_ack :: v3_ControlAckKind where
  "v3_Ping_ack = CAK3_Ping"

definition v3_Disconnect_ack :: v3_ControlAckKind where
  "v3_Disconnect_ack = CAK3_Disconnect"

definition v3_Error_ack :: "'e \<Rightarrow> v3_ControlAckKind" where
  "v3_Error_ack _ = CAK3_Disconnect"

definition v3_Error_ack_and_error :: "'e \<Rightarrow> v3_ControlAckKind \<times> 'e" where
  "v3_Error_ack_and_error err = (CAK3_Disconnect, err)"

definition v3_ProtocolError_ack :: "ProtocolError \<Rightarrow> v3_ControlAckKind" where
  "v3_ProtocolError_ack _ = CAK3_Disconnect"

definition v3_ProtocolError_ack_and_error :: "ProtocolError \<Rightarrow> v3_ControlAckKind \<times> ProtocolError" where
  "v3_ProtocolError_ack_and_error err = (CAK3_Disconnect, err)"

definition v3_WrBackpressure_ack :: "bool \<Rightarrow> v3_ControlAckKind" where
  "v3_WrBackpressure_ack _ = CAK3_Nothing"

definition v3_Closed_ack :: v3_ControlAckKind where
  "v3_Closed_ack = CAK3_Closed"

definition v3_PeerGone_take :: "'io option \<Rightarrow> 'io option \<times> 'io option" where
  "v3_PeerGone_take err = (err, None)"

definition v3_PeerGone_ack :: "'io option \<Rightarrow> v3_ControlAckKind" where
  "v3_PeerGone_ack _ = CAK3_Nothing"

text \<open>\<open>Subscription::topic\<close> and \<open>Subscription::qos\<close> of the item that the iterator gives.\<close>

definition v3_Subscription_topic :: "(bytes \<times> QoS) \<times> nat \<Rightarrow> bytes" where
  "v3_Subscription_topic sub = fst (fst sub)"

definition v3_Subscription_qos :: "(bytes \<times> QoS) \<times> nat \<Rightarrow> QoS" where
  "v3_Subscription_qos sub = snd (fst sub)"

text \<open>\<open>Iterator::next\<close>: the item and the iterator after it.\<close>

definition v3_SubscribeIter_step :: "v3_SubscribeMsg \<Rightarrow> nat \<Rightarrow> (DecodeError, ((bytes \<times> QoS) \<times> nat) option \<times> nat) res" where
  "v3_SubscribeIter_step m entry =
     (case v3_SubscribeIter_next m entry of
        Ok (Some sub) \<Rightarrow> Ok (Some sub, entry + 1)
      | Ok None \<Rightarrow> Ok (None, entry)
      | Err e \<Rightarrow> Err e
      | Panic \<Rightarrow> Panic)"

text \<open>\<open>Unsubscribe::iter\<close>.\<close>

definition v3_UnsubscribeMsg_iter :: "v3_UnsubscribeMsg \<Rightarrow> bytes list" where
  "v3_UnsubscribeMsg_iter m = um3_topics m"

section \<open>Control messages of a client\<close>

definition v3c_Control_publish :: "v3_Publish \<Rightarrow> ('e, 'io) v3c_Control" where
  "v3c_Control_publish pkt = CC3_Publish pkt"

definition v3c_Control_closed :: "('e, 'io) v3c_Control" where
  "v3c_Control_closed = CC3_Closed"

definition v3c_Control_error :: "'e \<Rightarrow> ('e, 'io) v3c_Control" where
  "v3c_Control_error err = CC3_Error (v3_Error_new err)"

definition v3c_Control_proto_error :: "ProtocolError \<Rightarrow> ('e, 'io) v3c_Control" where
  "v3c_Control_proto_error err = CC3_ProtocolError (v3_ProtocolError_new err)"

definition v3c_Control_peer_gone :: "'io option \<Rightarrow> ('e, 'io) v3c_Control" where
  "v3c_Control_peer_gone err = CC3_PeerGone err"

definition v3c_Control_disconnect :: "('e, 'io) v3c_Control \<Rightarrow> v3_ControlAckKind" where
  "v3c_Control_disconnect _ = CAK3_Disconnect"

definition v3c_Publish_packet_mut :: "(v3_Publish \<Rightarrow> v3_Publish) \<Rightarrow> v3_Publish \<Rightarrow> v3_Publish" where
  "v3c_Publish_packet_mut f p = f p"

definition v3c_Publish_into_inner :: "v3_Publish \<Rightarrow> v3_ControlAckKind \<times> v3_Publish" where
  "v3c_Publish_into_inner p =
     (case pub3_packet_id p of
        Some packet_id \<Rightarrow> (CAK3_PublishAck packet_id, p)
      | None \<Rightarrow> (CAK3_Nothing, p))"

section \<open>Publish messages\<close>

text \<open>\<open>Publish\<close> as a publish service gets it. Type \<open>'path\<close> is \<open>Path<ByteString>\<close> of \<open>ntex_router\<close>, whose constructor is
  the argument \<open>path_new\<close>. An update through \<open>topic_mut\<close> or \<open>packet_mut\<close> is a function.\<close>

record 'path v3_PublishMsg =
  pm3_pkt :: v3_Publish
  pm3_pkt_size :: u32
  pm3_topic :: 'path

definition v3_PublishMsg_new :: "(bytes \<Rightarrow> 'path) \<Rightarrow> v3_Publish \<Rightarrow> u32 \<Rightarrow> 'path v3_PublishMsg" where
  "v3_PublishMsg_new path_new pkt pkt_size = \<lparr>pm3_pkt = pkt, pm3_pkt_size = pkt_size, pm3_topic = path_new (pub3_topic pkt)\<rparr>"

definition v3_PublishMsg_dup :: "'path v3_PublishMsg \<Rightarrow> bool" where
  "v3_PublishMsg_dup m = pub3_dup (pm3_pkt m)"

definition v3_PublishMsg_retain :: "'path v3_PublishMsg \<Rightarrow> bool" where
  "v3_PublishMsg_retain m = pub3_retain (pm3_pkt m)"

definition v3_PublishMsg_qos :: "'path v3_PublishMsg \<Rightarrow> QoS" where
  "v3_PublishMsg_qos m = pub3_qos (pm3_pkt m)"

definition v3_PublishMsg_publish_topic :: "'path v3_PublishMsg \<Rightarrow> bytes" where
  "v3_PublishMsg_publish_topic m = pub3_topic (pm3_pkt m)"

definition v3_PublishMsg_id :: "'path v3_PublishMsg \<Rightarrow> u16 option" where
  "v3_PublishMsg_id m = pub3_packet_id (pm3_pkt m)"

definition v3_PublishMsg_topic_mut :: "('path \<Rightarrow> 'path) \<Rightarrow> 'path v3_PublishMsg \<Rightarrow> 'path v3_PublishMsg" where
  "v3_PublishMsg_topic_mut f m = m\<lparr>pm3_topic := f (pm3_topic m)\<rparr>"

definition v3_PublishMsg_packet_mut :: "(v3_Publish \<Rightarrow> v3_Publish) \<Rightarrow> 'path v3_PublishMsg \<Rightarrow> 'path v3_PublishMsg" where
  "v3_PublishMsg_packet_mut f m = m\<lparr>pm3_pkt := f (pm3_pkt m)\<rparr>"

definition v3_PublishMsg_payload :: "'path v3_PublishMsg \<Rightarrow> bytes" where
  "v3_PublishMsg_payload m = pub3_payload (pm3_pkt m)"

definition v3_PublishMsg_take_payload :: "'path v3_PublishMsg \<Rightarrow> bytes \<times> 'path v3_PublishMsg" where
  "v3_PublishMsg_take_payload m = (pub3_payload (pm3_pkt m), m\<lparr>pm3_pkt := (pm3_pkt m)\<lparr>pub3_payload := []\<rparr>\<rparr>)"

text \<open>\<open>json\<close>: the parser of \<open>serde_json\<close> is an argument.\<close>

definition v3_PublishMsg_json :: "(bytes \<Rightarrow> 'err + 'a) \<Rightarrow> 'path v3_PublishMsg \<Rightarrow> 'err + 'a" where
  "v3_PublishMsg_json from_slice m = from_slice (pub3_payload (pm3_pkt m))"

definition v3_PublishMsg_into_inner :: "'path v3_PublishMsg \<Rightarrow> v3_Publish" where
  "v3_PublishMsg_into_inner m = pm3_pkt m"

section \<open>Answers a control service can make\<close>

text \<open>The messages that come from a SUBSCRIBE through the iterator, and the answers that come from a message by one
  of its methods.\<close>

inductive v3_sub_msg :: "v3_SubscribeMsg \<Rightarrow> v3_SubscribeMsg \<Rightarrow> bool" for m0 where
  start: "v3_sub_msg m0 m0"
| fail: "v3_sub_msg m0 m \<Longrightarrow> v3_SubscribeIter_step m entry = Ok (Some (tf, i), n) \<Longrightarrow> v3_sub_msg m0 (v3_Subscription_fail i m)"
| confirm: "v3_sub_msg m0 m \<Longrightarrow> v3_SubscribeIter_step m entry = Ok (Some (tf, i), n) \<Longrightarrow>
    v3_sub_msg m0 (v3_Subscription_confirm i qos m)"

inductive v3_makes :: "('e, 'io) v3_Control \<Rightarrow> v3_ControlAckKind \<Rightarrow> bool" where
  disconnect: "v3_makes m (v3_Control_disconnect m)"
| ack: "v3_makes m (v3_Control_ack m)"
| ping: "v3_makes C3_Ping v3_Ping_ack"
| peer_disconnect: "v3_makes C3_Disconnect v3_Disconnect_ack"
| subscribe: "v3_sub_msg m m' \<Longrightarrow> v3_makes (C3_Subscribe m) (v3_SubscribeMsg_ack m')"
| unsubscribe: "v3_makes (C3_Unsubscribe u) (v3_UnsubscribeMsg_ack u)"
| backpressure: "v3_makes (C3_WrBackpressure b) (v3_WrBackpressure_ack b)"
| closed: "v3_makes C3_Closed v3_Closed_ack"
| error: "v3_makes (C3_Error e) (v3_Error_ack e)"
| error_and: "v3_Error_ack_and_error e = (a, e') \<Longrightarrow> v3_makes (C3_Error e) a"
| protocol: "v3_makes (C3_ProtocolError p) (v3_ProtocolError_ack p)"
| protocol_and: "v3_ProtocolError_ack_and_error p = (a, p') \<Longrightarrow> v3_makes (C3_ProtocolError p) a"
| peer_gone: "v3_makes (C3_PeerGone err) (v3_PeerGone_ack err)"

inductive v3c_makes :: "('e, 'io) v3c_Control \<Rightarrow> v3_ControlAckKind \<Rightarrow> bool" where
  disconnect: "v3c_makes m (v3c_Control_disconnect m)"
| ack: "v3c_makes m (v3c_Control_ack m)"
| packet_mut: "v3c_makes (CC3_Publish (v3c_Publish_packet_mut f p)) a \<Longrightarrow> v3c_makes (CC3_Publish p) a"
| publish: "v3c_makes (CC3_Publish p) (v3c_Publish_ack p)"
| publish_inner: "v3c_Publish_into_inner p = (a, p') \<Longrightarrow> v3c_makes (CC3_Publish p) a"
| closed: "v3c_makes CC3_Closed v3_Closed_ack"
| error: "v3c_makes (CC3_Error e) (v3_Error_ack e)"
| error_and: "v3_Error_ack_and_error e = (a, e') \<Longrightarrow> v3c_makes (CC3_Error e) a"
| protocol: "v3c_makes (CC3_ProtocolError p) (v3_ProtocolError_ack p)"
| protocol_and: "v3_ProtocolError_ack_and_error p = (a, p') \<Longrightarrow> v3c_makes (CC3_ProtocolError p) a"
| peer_gone: "v3c_makes (CC3_PeerGone err) (v3_PeerGone_ack err)"

lemmas v3_method_defs =
  v3_Control_disconnect_def v3_Ping_ack_def v3_Disconnect_ack_def v3_Error_ack_def v3_Error_ack_and_error_def
  v3_ProtocolError_ack_def v3_ProtocolError_ack_and_error_def v3_WrBackpressure_ack_def v3_Closed_ack_def
  v3_PeerGone_ack_def v3_UnsubscribeMsg_ack_def v3c_Control_disconnect_def v3c_Publish_ack_def v3c_Publish_into_inner_def

lemma v3_SubscribeIter_step_eq:
  assumes "length (sm3_codes m) = length (sm3_topics m)"
  shows "v3_SubscribeIter_step m n =
    Ok (if n < length (sm3_topics m) then (Some (sm3_topics m ! n, n), n + 1) else (None, n))"
  using assms by (simp add: v3_SubscribeIter_step_def v3_SubscribeIter_next_def)

lemma v3_sub_msg_shape:
  assumes "v3_sub_msg m0 m"
  shows "sm3_packet_id m = sm3_packet_id m0 \<and> sm3_topics m = sm3_topics m0 \<and> length (sm3_codes m) = length (sm3_codes m0)"
  using assms by induction (simp_all add: v3_Subscription_fail_def v3_Subscription_confirm_def)

text \<open>Setting the codes one after the other gives any list of codes.\<close>

lemma v3_sub_msg_all_codes:
  assumes "length (sm3_codes m0) = length (sm3_topics m0)" and "length codes = length (sm3_codes m0)"
  shows "v3_sub_msg m0 (m0\<lparr>sm3_codes := codes\<rparr>)"
proof -
  have "v3_sub_msg m0 (m0\<lparr>sm3_codes := take k codes @ drop k (sm3_codes m0)\<rparr>)" if "k \<le> length codes" for k
    using that
  proof (induction k)
    case 0
    then show ?case by (simp add: v3_sub_msg.start)
  next
    case (Suc k)
    let ?m = "m0\<lparr>sm3_codes := take k codes @ drop k (sm3_codes m0)\<rparr>"
    have k: "k < length codes" using Suc.prems by simp
    have reach: "v3_sub_msg m0 ?m" using Suc.IH k by simp
    have step: "v3_SubscribeIter_step ?m k = Ok (Some (sm3_topics m0 ! k, k), k + 1)"
      using assms k by (simp add: v3_SubscribeIter_step_eq)
    have upd: "(take k codes @ drop k (sm3_codes m0))[k := codes ! k] = take (Suc k) codes @ drop (Suc k) (sm3_codes m0)"
      using assms(2) k by (simp add: list_update_append take_Suc_conv_app_nth Cons_nth_drop_Suc [symmetric])
    show ?case
    proof (cases "codes ! k")
      case SRC_Failure
      from v3_sub_msg.fail [OF reach step] show ?thesis using upd by (simp add: v3_Subscription_fail_def SRC_Failure)
    next
      case (SRC_Success qos)
      from v3_sub_msg.confirm [OF reach step, of qos] show ?thesis using upd by (simp add: v3_Subscription_confirm_def SRC_Success)
    qed
  qed
  from this [of "length codes"] assms(2) show ?thesis by simp
qed

lemma v3_makes_answer: "v3_makes m a \<Longrightarrow> v3_answer_of m a"
proof -
  assume "v3_makes m a"
  then show "v3_answer_of m a"
  proof cases
    case disconnect
    then show ?thesis by (cases m) (simp_all add: v3_method_defs)
  next
    case ack
    then show ?thesis by (cases m) simp_all
  next
    case (subscribe sm m')
    then show ?thesis using v3_sub_msg_shape [of sm m'] by (simp add: v3_SubscribeMsg_ack_def)
  qed (auto simp: v3_method_defs)
qed

lemma v3_makes_iff:
  assumes "\<And>sm. m = C3_Subscribe sm \<Longrightarrow> length (sm3_codes sm) = length (sm3_topics sm)"
  shows "v3_makes m a \<longleftrightarrow> v3_answer_of m a"
proof
  assume "v3_makes m a"
  then show "v3_answer_of m a" by (rule v3_makes_answer)
next
  assume *: "v3_answer_of m a"
  show "v3_makes m a"
  proof (cases "a = CAK3_Disconnect")
    case True
    then show ?thesis using v3_makes.disconnect [of m] by (simp add: v3_Control_disconnect_def)
  next
    case False
    show ?thesis
    proof (cases m)
      case (C3_Subscribe sm)
      then obtain codes where a: "a = CAK3_Subscribe codes (sm3_packet_id sm)" "length codes = length (sm3_codes sm)"
        using * False by auto
      have "v3_sub_msg sm (sm\<lparr>sm3_codes := codes\<rparr>)" using assms C3_Subscribe a(2) by (intro v3_sub_msg_all_codes) simp_all
      from v3_makes.subscribe [OF this] show ?thesis by (simp add: C3_Subscribe a(1) v3_SubscribeMsg_ack_def)
    next
      case (C3_Unsubscribe u)
      then show ?thesis using * False v3_makes.unsubscribe [of u] by simp
    qed (use * False v3_makes.ack [of m] in simp_all)
  qed
qed

lemma v3c_makes_answer:
  "v3c_makes m a \<Longrightarrow> a = CAK3_Disconnect \<or> a = v3c_Control_ack m \<or> (\<exists>p q. m = CC3_Publish p \<and> a = v3c_Publish_ack q)"
proof (induction rule: v3c_makes.induct)
  case (packet_mut f p a)
  then show ?case by auto
qed (auto simp: v3_method_defs split: option.splits)

lemma v3c_makes_iff:
  "v3c_makes m a \<longleftrightarrow> a = CAK3_Disconnect \<or> a = v3c_Control_ack m \<or> (\<exists>p q. m = CC3_Publish p \<and> a = v3c_Publish_ack q)"
proof
  have "v3c_makes (CC3_Publish p) (v3c_Publish_ack q)" for p q
    using v3c_makes.packet_mut [of "\<lambda>_. q" p "v3c_Publish_ack q"] v3c_makes.publish [of q] by (simp add: v3c_Publish_packet_mut_def)
  moreover have "v3c_makes m CAK3_Disconnect" using v3c_makes.disconnect [of m] by (simp add: v3c_Control_disconnect_def)
  ultimately show "a = CAK3_Disconnect \<or> a = v3c_Control_ack m \<or> (\<exists>p q. m = CC3_Publish p \<and> a = v3c_Publish_ack q) \<Longrightarrow> v3c_makes m a"
    using v3c_makes.ack [of m] by blast
qed (rule v3c_makes_answer)

lemma v3_dispatch_subscribe_shape:
  assumes "v3_dispatch cfg env req s = (Call_control (C3_Subscribe sm) e i, s')"
  shows "length (sm3_codes sm) = length (sm3_topics sm)"
  using assms
proof (induction cfg env req s rule: v3_dispatch.induct)
  case (1 cfg env publish sz s)
  then show ?case
    by (auto simp: v3_dispatch_publish_def v3_proto_error_def v3_control_def Let_def split: if_splits option.splits QoS.splits)
next
  case (4 cfg env packet_id topic_filters sz s)
  then show ?case by (auto simp: v3_dispatch_filters_def v3_proto_error_def v3_control_def v3_SubscribeMsg_new_def split: if_splits)
next
  case (5 cfg env packet_id topic_filters sz s)
  then show ?case by (auto simp: v3_dispatch_filters_def v3_proto_error_def v3_control_def split: if_splits)
qed (auto simp: v3_proto_error_def v3_control_def split: prod.splits res.splits)

section \<open>Properties\<close>

text \<open>C28: The answers that a 3.1.1 control service can make from the message of a call by the methods of
  \<open>control.rs\<close> are exactly these: to disconnect, the plain acknowledgement of the message, and for a
  SUBSCRIBE an acknowledgement with its identifier and any choice of return codes, one for each filter. A client's control
  service can disconnect or give the plain acknowledgement, and for a PUBLISH, whose packet it may change first (\<open>packet_mut\<close>), it can give
  the acknowledgement of any other packet, so that the dispatcher depends on the service to keep the identifier.\<close>

theorem v3_control_answers:
  "(v3_dispatch cfg env req s = (Call_control m e i, s') \<longrightarrow> (v3_makes m a \<longleftrightarrow> v3_answer_of m a)) \<and>
   (v3c_makes m' a \<longleftrightarrow> a = CAK3_Disconnect \<or> a = v3c_Control_ack m' \<or> (\<exists>p q. m' = CC3_Publish p \<and> a = v3c_Publish_ack q))"
proof (intro conjI impI)
  assume "v3_dispatch cfg env req s = (Call_control m e i, s')"
  then show "v3_makes m a \<longleftrightarrow> v3_answer_of m a" by (intro v3_makes_iff v3_dispatch_subscribe_shape) simp
qed (rule v3c_makes_iff)

theorem v3_control_answers_witness:
  "v3_makes (C3_Subscribe (v3_SubscribeMsg_new 7 9 [([0x61], AtMostOnce), ([0x62], ExactlyOnce)]) :: (unit, unit) v3_Control)
     (CAK3_Subscribe [SRC_Success AtLeastOnce, SRC_Failure] 7)"
proof -
  have "v3_dispatch \<lparr>dc3_max_qos = AtMostOnce, dc3_handle_qos_after_disconnect = None\<rparr> (v3_env (v3_run_init False))
      (DI_Item (V3_Subscribe 7 [([0x61], AtMostOnce), ([0x62], ExactlyOnce)]) 9) \<lparr>in3_sink = v3_Shared_new False, in3_inflight = {}\<rparr> =
    (Call_control (C3_Subscribe (v3_SubscribeMsg_new 7 9 [([0x61], AtMostOnce), ([0x62], ExactlyOnce)]) :: (unit, unit) v3_Control) False None,
     \<lparr>in3_sink = v3_Shared_new False, in3_inflight = {7}\<rparr>)"
    by (simp add: v3_dispatch_filters_def v3_control_def v3_is_error_def v3_env_def) code_simp
  from v3_control_answers [THEN conjunct1, rule_format, OF this] show ?thesis by (simp add: v3_SubscribeMsg_new_def)
qed

text \<open>C26: No packet and no event makes the 3.1.1 server panic, as long as the control service answers a
  message with what the methods of \<open>control.rs\<close> make from it, and a callback is registered for the
  packets that were sent without blocking.\<close>

theorem v3_call_no_panic:
  assumes "\<forall>m a. ctl m = Inr a \<longrightarrow> v3_makes m a"
    and "\<forall>(i, tx, tp) \<in> set (sh_inflight (in3_sink s)). tx \<noteq> None \<or> sh_on_publish_ack (in3_sink s) \<and> tp = AckType_Publish"
  shows "fst (v3_call cfg env pub ctl req s) \<noteq> Panic"
  using assms v3_makes_answer by (intro v3_call_answers_no_panic) blast+

theorem v3_call_no_panic_witness:
  "fst (v3_call \<lparr>dc3_max_qos = AtMostOnce, dc3_handle_qos_after_disconnect = None\<rparr> (v3_env (v3_run_init False))
     (\<lambda>_. Inl () :: unit + unit) (\<lambda>m :: (unit, unit) v3_Control. Inr (v3_Control_ack m))
     (DI_Item (V3_PublishAck 3) 2) \<lparr>in3_sink = v3_Shared_new False, in3_inflight = {}\<rparr>) \<noteq> Panic"
  by (rule v3_call_no_panic) (auto simp: v3_makes.ack v3_Shared_new_def)

text \<open>The packets that answer a request.\<close>

definition v3_answers_request :: "(v3_Packet, 'io) DispatchItem \<Rightarrow> v3_Packet \<Rightarrow> bool" where
  "v3_answers_request req resp =
     (case resp of
        V3_PublishAck pid \<Rightarrow> (case req of DI_Item (V3_Publish p) _ \<Rightarrow> pub3_packet_id p = Some pid | _ \<Rightarrow> False)
      | V3_SubscribeAck pid codes \<Rightarrow>
          (case req of DI_Item (V3_Subscribe i filters) _ \<Rightarrow> pid = i \<and> length codes = length filters | _ \<Rightarrow> False)
      | V3_UnsubscribeAck pid \<Rightarrow> (case req of DI_Item (V3_Unsubscribe i _) _ \<Rightarrow> pid = i | _ \<Rightarrow> False)
      | V3_PingResponse \<Rightarrow> (case req of DI_Item V3_PingRequest _ \<Rightarrow> True | _ \<Rightarrow> False)
      | _ \<Rightarrow> False)"

definition v3_packet_of :: "('e, 'io) v3_Control \<Rightarrow> v3_Packet \<Rightarrow> bool" where
  "v3_packet_of m pkt =
     (case m of
        C3_Ping \<Rightarrow> pkt = V3_PingResponse
      | C3_Subscribe sm \<Rightarrow> (\<exists>codes. pkt = V3_SubscribeAck (sm3_packet_id sm) codes \<and> length codes = length (sm3_codes sm))
      | C3_Unsubscribe um \<Rightarrow> pkt = V3_UnsubscribeAck (um3_packet_id um)
      | _ \<Rightarrow> False)"

lemma v3_control_done_answer:
  assumes "v3_answer_of m a" and "v3_control_done env error (Inr a) s = (Call_done (Ok (Some pkt)), s')"
  shows "v3_packet_of m pkt"
  using assms by (cases m; cases a) (auto simp: v3_control_done_def v3_packet_of_def v3_UnsubscribeMsg_ack_def)

lemma v3_complete_control:
  fixes ctl :: "('e, 'io) v3_Control \<Rightarrow> ('e, 'io) MqttError + v3_ControlAckKind"
  assumes ctl: "\<forall>m a. ctl m = Inr a \<longrightarrow> v3_makes m a"
    and run: "fst (v3_complete env pub ctl (Call_control m error i) s) = Ok (Some pkt)"
  shows "v3_packet_of m pkt"
proof -
  have final: "\<exists>r. v3_control_done env e (Inr a) t = (Call_done r :: ('e, 'io) v3_call, snd (v3_control_done env e (Inr a) t :: ('e, 'io) v3_call \<times> _))"
    for e t and a by (cases a) (simp_all add: v3_control_done_def)
  have ans: "v3_packet_of m' pkt" if "ctl m' = Inr a" "fst (v3_complete env pub ctl (Call_control m' e j) t) = Ok (Some pkt)" for m' a e j t
  proof -
    obtain r where r: "v3_control_done env e (Inr a) t = (Call_done r :: ('e, 'io) v3_call, snd (v3_control_done env e (Inr a) t :: ('e, 'io) v3_call \<times> _))"
      using final by blast
    then have "r = Ok (Some pkt)" using that by (metis (no_types, lifting) fst_conv v3_complete.simps(1,3))
    then show ?thesis using v3_control_done_answer [of m' a env e t pkt] v3_makes_answer ctl that(1) r by metis
  qed
  show ?thesis
  proof (cases "ctl m")
    case (Inr a)
    then show ?thesis using ans run by blast
  next
    case (Inl err)
    then obtain e' where e: "fst (v3_complete env pub ctl (Call_control (C3_Error e') True None) s) = Ok (Some pkt)"
      using run by (auto simp: v3_control_done_def split: if_splits MqttError.splits)
    then obtain a where "ctl (C3_Error e') = Inr a" by (cases "ctl (C3_Error e')") (auto simp: v3_control_done_def)
    from ans [OF this e] show ?thesis by (simp add: v3_packet_of_def)
  qed
qed

lemma v3_dispatch_call:
  assumes "v3_dispatch cfg env req s = (c, s')"
  shows "(\<forall>r. c = Call_done r \<longrightarrow> r = Ok None \<or> r = Panic) \<and>
    (\<forall>p i. c = Call_publish p i \<longrightarrow> (\<exists>publish sz. req = DI_Item (V3_Publish publish) sz \<and> i = pub3_packet_id publish)) \<and>
    (\<forall>m e i pkt. c = Call_control m e i \<longrightarrow> v3_packet_of m pkt \<longrightarrow> v3_answers_request req pkt)"
  using assms
proof (induction cfg env req s arbitrary: c s' rule: v3_dispatch.induct)
  case (1 cfg env publish sz s)
  then show ?case
    by (auto simp: v3_dispatch_publish_def v3_proto_error_def v3_control_def v3_packet_of_def Let_def
        split: if_splits option.splits QoS.splits)
next
  case (2 cfg env packet_id sz s)
  then show ?case by (auto simp: v3_proto_error_def v3_control_def v3_packet_of_def split: prod.splits res.splits)
next
  case (4 cfg env packet_id topic_filters sz s)
  then show ?case
    by (auto simp: v3_dispatch_filters_def v3_proto_error_def v3_control_def v3_packet_of_def v3_SubscribeMsg_new_def v3_answers_request_def
        split: if_splits)
next
  case (5 cfg env packet_id topic_filters sz s)
  then show ?case
    by (auto simp: v3_dispatch_filters_def v3_proto_error_def v3_control_def v3_packet_of_def v3_UnsubscribeMsg_new_def v3_answers_request_def
        split: if_splits)
qed (auto simp: v3_proto_error_def v3_control_def v3_packet_of_def v3_answers_request_def)

lemma v3_complete_publish:
  fixes ctl :: "('e, 'io) v3_Control \<Rightarrow> ('e, 'io) MqttError + v3_ControlAckKind"
  assumes "\<forall>m a. ctl m = Inr a \<longrightarrow> v3_makes m a"
    and "fst (v3_complete env pub ctl (Call_publish p i) s) = Ok (Some pkt)"
  shows "\<exists>pid. i = Some pid \<and> pkt = V3_PublishAck pid"
proof (cases "pub p")
  case (Inl e)
  then show ?thesis using assms(2) v3_complete_control [OF assms(1), of env pub "C3_Error e" True None s pkt]
    by (simp add: v3_publish_done_def v3_control_def v3_is_error_def v3_packet_of_def del: v3_complete.simps(3))
next
  case (Inr u)
  then show ?thesis using assms(2) by (auto simp: v3_publish_done_def split: option.splits)
qed

text \<open>Every packet that a 3.1.1 server sends as the response of a call answers the request of that call,
  when the control service makes its answers by the methods of the message: PUBACK, SUBACK and UNSUBACK
  have the identifier of the PUBLISH, SUBSCRIBE or UNSUBSCRIBE, a SUBACK has one return code for each
  filter, PINGRESP answers PINGREQ only, and nothing else is ever the response of a call.\<close>

theorem v3_call_response:
  fixes ctl :: "('e, 'io) v3_Control \<Rightarrow> ('e, 'io) MqttError + v3_ControlAckKind"
  assumes "\<forall>m a. ctl m = Inr a \<longrightarrow> v3_makes m a" and "fst (v3_call cfg env pub ctl req s) = Ok (Some resp)"
  shows "v3_answers_request req resp"
proof -
  obtain c s' where c: "v3_dispatch cfg env req s = (c :: ('e, 'io) v3_call, s')" by (cases "v3_dispatch cfg env req s :: ('e, 'io) v3_call \<times> _")
  then have run: "fst (v3_complete env pub ctl c s') = Ok (Some resp)" using assms(2) by (simp add: v3_call_def)
  note d = v3_dispatch_call [OF c]
  show ?thesis
  proof (cases c)
    case (Call_done r)
    then show ?thesis using run d by auto
  next
    case (Call_publish p i)
    then show ?thesis using v3_complete_publish [OF assms(1), of env pub p i s' resp] run d by (auto simp: v3_answers_request_def)
  next
    case (Call_control m error i)
    then show ?thesis using v3_complete_control [OF assms(1), of env pub m error i s' resp] run d by auto
  qed
qed

theorem v3_call_response_witness:
  "v3_answers_request (DI_Item V3_PingRequest 2 :: (v3_Packet, unit) DispatchItem) V3_PingResponse"
proof -
  have "fst (v3_call \<lparr>dc3_max_qos = AtMostOnce, dc3_handle_qos_after_disconnect = None\<rparr> (v3_env (v3_run_init False))
      (\<lambda>_. Inl ()) (\<lambda>m :: (unit, unit) v3_Control. Inr (v3_Control_ack m)) (DI_Item V3_PingRequest 2)
      \<lparr>in3_sink = v3_Shared_new False, in3_inflight = {}\<rparr>) = Ok (Some V3_PingResponse)"
    by (simp add: v3_call_def v3_control_def v3_control_done_def)
  then show ?thesis by (intro v3_call_response) (auto simp: v3_makes.ack)
qed

end
