(* ===== verification/V5_Api.thy ===== *)
theory V5_Api
  imports V5_Client
begin

text \<open>
  What the user of an MQTT 5 server or client sees: the rest of the messages of \<open>src/v5/control.rs\<close> and
  \<open>src/v5/client/control.rs\<close>, \<open>Publish\<close> of \<open>src/v5/publish.rs\<close>, and the answers that a control service can make
  from a message by its methods.
\<close>

section \<open>Control messages of a server\<close>

definition v5_Control_auth :: "v5_Auth \<Rightarrow> u32 \<Rightarrow> ('e, 'io) v5_Control" where
  "v5_Control_auth pkt sz = C5_Auth pkt sz"

definition v5_Control_subscribe :: "v5_Subscribe \<Rightarrow> u32 \<Rightarrow> ('e, 'io) v5_Control" where
  "v5_Control_subscribe pkt sz = C5_Subscribe (v5_SubscribeMsg_new pkt sz)"

definition v5_Control_unsubscribe :: "v5_Unsubscribe \<Rightarrow> u32 \<Rightarrow> ('e, 'io) v5_Control" where
  "v5_Control_unsubscribe pkt sz = C5_Unsubscribe (v5_UnsubscribeMsg_new pkt sz)"

definition v5_Control_ping :: "('e, 'io) v5_Control" where
  "v5_Control_ping = C5_Ping"

definition v5_Control_remote_disconnect :: "v5_Disconnect \<Rightarrow> u32 \<Rightarrow> ('e, 'io) v5_Control" where
  "v5_Control_remote_disconnect pkt sz = C5_Disconnect pkt sz"

definition v5_Control_closed :: "('e, 'io) v5_Control" where
  "v5_Control_closed = C5_Closed"

definition v5_Control_wr_backpressure :: "bool \<Rightarrow> ('e, 'io) v5_Control" where
  "v5_Control_wr_backpressure enabled = C5_WrBackpressure enabled"

definition v5_Control_error :: "'e \<Rightarrow> ('e, 'io) v5_Control" where
  "v5_Control_error err = C5_Error (v5_Error_new err)"

definition v5_Control_peer_gone :: "'io option \<Rightarrow> ('e, 'io) v5_Control" where
  "v5_Control_peer_gone err = C5_PeerGone err"

definition v5_Control_proto_error :: "ProtocolError \<Rightarrow> ('e, 'io) v5_Control" where
  "v5_Control_proto_error err = C5_ProtocolError (v5_ProtocolError_new err)"

text \<open>The items of the iterators: the filter (with its options) and the position of its reason code.\<close>

definition v5_Subscription_topic :: "(bytes \<times> SubscriptionOptions) \<times> nat \<Rightarrow> bytes" where
  "v5_Subscription_topic sub = fst (fst sub)"

definition v5_Subscription_options :: "(bytes \<times> SubscriptionOptions) \<times> nat \<Rightarrow> SubscriptionOptions" where
  "v5_Subscription_options sub = snd (fst sub)"

definition v5_UnsubscribeMsg_properties :: "v5_UnsubscribeMsg \<Rightarrow> UserProperty list" where
  "v5_UnsubscribeMsg_properties m = unsub5_user_properties (um5_packet m)"

definition v5_UnsubscribeMsg_iter :: "v5_UnsubscribeMsg \<Rightarrow> bytes list" where
  "v5_UnsubscribeMsg_iter m = unsub5_topic_filters (um5_packet m)"

definition v5_UnsubscribeItem_topic :: "bytes \<times> nat \<Rightarrow> bytes" where
  "v5_UnsubscribeItem_topic item = fst item"

text \<open>The setters of \<open>ProtocolError\<close>.\<close>

definition v5_ProtocolError_reason_string :: "bytes \<Rightarrow> ProtocolError v5_ErrorMsg \<Rightarrow> ProtocolError v5_ErrorMsg" where
  "v5_ProtocolError_reason_string reason m = m\<lparr>em5_pkt := (em5_pkt m)\<lparr>dis5_reason_string := Some reason\<rparr>\<rparr>"

definition v5_ProtocolError_server_reference :: "bytes \<Rightarrow> ProtocolError v5_ErrorMsg \<Rightarrow> ProtocolError v5_ErrorMsg" where
  "v5_ProtocolError_server_reference reference m = m\<lparr>em5_pkt := (em5_pkt m)\<lparr>dis5_server_reference := Some reference\<rparr>\<rparr>"

definition v5_ProtocolError_properties :: "(UserProperty list \<Rightarrow> UserProperty list) \<Rightarrow> ProtocolError v5_ErrorMsg \<Rightarrow> ProtocolError v5_ErrorMsg" where
  "v5_ProtocolError_properties f m =
     m\<lparr>em5_pkt := (em5_pkt m)\<lparr>dis5_user_properties := f (dis5_user_properties (em5_pkt m))\<rparr>\<rparr>"

section \<open>Control messages of a client\<close>

definition v5c_Control_publish :: "v5_Publish \<Rightarrow> u32 \<Rightarrow> ('e, 'io) v5c_Control" where
  "v5c_Control_publish pkt sz = CC5_Publish pkt sz"

definition v5c_Control_dis :: "v5_Disconnect \<Rightarrow> u32 \<Rightarrow> ('e, 'io) v5c_Control" where
  "v5c_Control_dis pkt sz = CC5_Disconnect pkt sz"

definition v5c_Control_closed :: "('e, 'io) v5c_Control" where
  "v5c_Control_closed = CC5_Closed"

definition v5c_Control_error :: "'e \<Rightarrow> ('e, 'io) v5c_Control" where
  "v5c_Control_error err = CC5_Error (v5_Error_new err)"

definition v5c_Control_proto_error :: "ProtocolError \<Rightarrow> ('e, 'io) v5c_Control" where
  "v5c_Control_proto_error err = CC5_ProtocolError (v5_ProtocolError_new err)"

definition v5c_Control_peer_gone :: "'io option \<Rightarrow> ('e, 'io) v5c_Control" where
  "v5c_Control_peer_gone err = CC5_PeerGone err"

definition v5c_PeerGone_ack :: "'io option \<Rightarrow> v5_ControlAck" where
  "v5c_PeerGone_ack _ = \<lparr>ca5_packet = None, ca5_disconnect = True\<rparr>"

section \<open>Publish messages\<close>

text \<open>\<open>Publish\<close> as a publish service gets it; see \<open>V3_Api\<close> for \<open>'path\<close> and \<open>path_new\<close>.\<close>

record 'path v5_PublishMsg =
  pm5_pkt :: v5_Publish
  pm5_pkt_size :: u32
  pm5_topic :: 'path

definition v5_PublishMsg_new :: "(bytes \<Rightarrow> 'path) \<Rightarrow> v5_Publish \<Rightarrow> u32 \<Rightarrow> 'path v5_PublishMsg" where
  "v5_PublishMsg_new path_new pkt pkt_size = \<lparr>pm5_pkt = pkt, pm5_pkt_size = pkt_size, pm5_topic = path_new (pub5_topic pkt)\<rparr>"

definition v5_PublishMsg_dup :: "'path v5_PublishMsg \<Rightarrow> bool" where
  "v5_PublishMsg_dup m = pub5_dup (pm5_pkt m)"

definition v5_PublishMsg_retain :: "'path v5_PublishMsg \<Rightarrow> bool" where
  "v5_PublishMsg_retain m = pub5_retain (pm5_pkt m)"

definition v5_PublishMsg_qos :: "'path v5_PublishMsg \<Rightarrow> QoS" where
  "v5_PublishMsg_qos m = pub5_qos (pm5_pkt m)"

definition v5_PublishMsg_publish_topic :: "'path v5_PublishMsg \<Rightarrow> bytes" where
  "v5_PublishMsg_publish_topic m = pub5_topic (pm5_pkt m)"

definition v5_PublishMsg_id :: "'path v5_PublishMsg \<Rightarrow> u16 option" where
  "v5_PublishMsg_id m = pub5_packet_id (pm5_pkt m)"

definition v5_PublishMsg_topic_mut :: "('path \<Rightarrow> 'path) \<Rightarrow> 'path v5_PublishMsg \<Rightarrow> 'path v5_PublishMsg" where
  "v5_PublishMsg_topic_mut f m = m\<lparr>pm5_topic := f (pm5_topic m)\<rparr>"

definition v5_PublishMsg_packet_mut :: "(v5_Publish \<Rightarrow> v5_Publish) \<Rightarrow> 'path v5_PublishMsg \<Rightarrow> 'path v5_PublishMsg" where
  "v5_PublishMsg_packet_mut f m = m\<lparr>pm5_pkt := f (pm5_pkt m)\<rparr>"

definition v5_PublishMsg_payload :: "'path v5_PublishMsg \<Rightarrow> bytes" where
  "v5_PublishMsg_payload m = pub5_payload (pm5_pkt m)"

definition v5_PublishMsg_json :: "(bytes \<Rightarrow> 'err + 'a) \<Rightarrow> 'path v5_PublishMsg \<Rightarrow> 'err + 'a" where
  "v5_PublishMsg_json from_slice m = from_slice (pub5_payload (pm5_pkt m))"

definition v5_PublishMsg_into_inner :: "'path v5_PublishMsg \<Rightarrow> v5_Publish" where
  "v5_PublishMsg_into_inner m = pm5_pkt m"

section \<open>Answers a control service can make\<close>

text \<open>The methods of \<open>Error\<close> and \<open>ProtocolError\<close> that change the DISCONNECT packet.\<close>

inductive v5_error_msg :: "'err v5_ErrorMsg \<Rightarrow> 'err v5_ErrorMsg \<Rightarrow> bool" for m0 where
  start: "v5_error_msg m0 m0"
| reason_string: "v5_error_msg m0 m \<Longrightarrow> v5_error_msg m0 (v5_ErrorMsg_reason_string r m)"
| server_reference: "v5_error_msg m0 m \<Longrightarrow> v5_error_msg m0 (v5_ErrorMsg_server_reference r m)"
| properties: "v5_error_msg m0 m \<Longrightarrow> v5_error_msg m0 (v5_ErrorMsg_properties f m)"

inductive v5_protocol_msg :: "ProtocolError v5_ErrorMsg \<Rightarrow> ProtocolError v5_ErrorMsg \<Rightarrow> bool" for m0 where
  start: "v5_protocol_msg m0 m0"
| reason_code: "v5_protocol_msg m0 m \<Longrightarrow> v5_protocol_msg m0 (v5_ProtocolError_reason_code c m)"
| reason_string: "v5_protocol_msg m0 m \<Longrightarrow> v5_protocol_msg m0 (v5_ProtocolError_reason_string r m)"
| server_reference: "v5_protocol_msg m0 m \<Longrightarrow> v5_protocol_msg m0 (v5_ProtocolError_server_reference r m)"
| properties: "v5_protocol_msg m0 m \<Longrightarrow> v5_protocol_msg m0 (v5_ProtocolError_properties f m)"

inductive v5_makes :: "('e, 'io) v5_Control \<Rightarrow> v5_ControlAck \<Rightarrow> bool" where
  disconnect: "v5_makes m v5_Control_disconnect"
| disconnect_with: "v5_makes m (v5_Control_disconnect_with pkt)"
| ack: "v5_makes m (v5_Control_ack m)"
| auth: "v5_makes (C5_Auth pkt sz) (v5_Auth_ack response)"
| ping: "v5_makes C5_Ping v5_Ping_ack"
| peer_disconnect: "v5_makes (C5_Disconnect d sz) v5_Disconnect_ack"
| subscribe: "v5_sub_msg packet sz m \<Longrightarrow> v5_makes (C5_Subscribe (v5_SubscribeMsg_new packet sz)) (v5_SubscribeMsg_ack m)"
| unsubscribe: "v5_unsub_msg packet' sz' m' \<Longrightarrow> v5_makes (C5_Unsubscribe (v5_UnsubscribeMsg_new packet' sz')) (v5_UnsubscribeMsg_ack m')"
| backpressure: "v5_makes (C5_WrBackpressure b) v5_WrBackpressure_ack"
| closed: "v5_makes C5_Closed v5_Closed_ack"
| error: "v5_error_msg em em' \<Longrightarrow> v5_makes (C5_Error em) (v5_Error_ack code em')"
| error_with: "v5_error_msg em em' \<Longrightarrow> v5_makes (C5_Error em) (v5_Error_ack_with f em')"
| protocol: "v5_protocol_msg pm pm' \<Longrightarrow> v5_makes (C5_ProtocolError pm) (v5_ProtocolError_ack pm')"
| protocol_and: "v5_protocol_msg pm pm' \<Longrightarrow> v5_ProtocolError_ack_and_error pm' = (a, e) \<Longrightarrow> v5_makes (C5_ProtocolError pm) a"
| peer_gone: "v5_makes (C5_PeerGone err) v5_PeerGone_ack"

text \<open>What can be told about the packet of an answer.\<close>

definition v5_packet_of :: "('e, 'io) v5_Control \<Rightarrow> v5_Packet \<Rightarrow> bool" where
  "v5_packet_of m pkt =
     (case pkt of
        V5_Disconnect _ \<Rightarrow> True
      | V5_Auth _ \<Rightarrow> (case m of C5_Auth _ _ \<Rightarrow> True | _ \<Rightarrow> False)
      | V5_PingResponse \<Rightarrow> (case m of C5_Ping \<Rightarrow> True | _ \<Rightarrow> False)
      | V5_SubscribeAck a \<Rightarrow>
          (case m of
             C5_Subscribe sm \<Rightarrow> sack5_packet_id a = sack5_packet_id (sm5_result sm) \<and>
               length (sack5_status a) = length (sack5_status (sm5_result sm))
           | _ \<Rightarrow> False)
      | V5_UnsubscribeAck a \<Rightarrow>
          (case m of
             C5_Unsubscribe um \<Rightarrow> sack5_packet_id a = sack5_packet_id (um5_result um) \<and>
               length (sack5_status a) = length (sack5_status (um5_result um))
           | _ \<Rightarrow> False)
      | _ \<Rightarrow> False)"

lemmas v5_method_defs =
  v5_Control_disconnect_def v5_Control_disconnect_with_def v5_disconnect_ack_def v5_disconnect_unsupported_def v5_Auth_ack_def
  v5_Ping_ack_def v5_Disconnect_ack_def v5_WrBackpressure_ack_def v5_Closed_ack_def v5_Error_ack_def v5_Error_ack_with_def
  v5_ProtocolError_ack_def v5_ProtocolError_ack_and_error_def v5_PeerGone_ack_def v5_SubscribeMsg_ack_def v5_UnsubscribeMsg_ack_def

lemma v5_packet_of_disconnect [simp]: "v5_packet_of m (V5_Disconnect d)"
  by (simp add: v5_packet_of_def)

lemma v5_makes_packet:
  assumes "v5_makes m a" and "ca5_packet a = Some pkt"
  shows "v5_packet_of m pkt \<and> (ca5_disconnect a \<longleftrightarrow> (\<exists>d. pkt = V5_Disconnect d))"
  using assms
proof cases
  case ack
  then show ?thesis using assms(2) by (cases m) (auto simp: v5_packet_of_def v5_method_defs)
next
  case (subscribe packet sz m')
  then show ?thesis using assms(2) v5_sub_msg_shape [of packet sz m'] by (auto simp: v5_packet_of_def v5_method_defs v5_SubscribeMsg_new_def)
next
  case (unsubscribe packet sz m')
  then show ?thesis using assms(2) v5_unsub_msg_shape [of packet sz m'] by (auto simp: v5_packet_of_def v5_method_defs v5_UnsubscribeMsg_new_def)
qed (auto simp: v5_packet_of_def v5_method_defs)

text \<open>The packets that answer a request.\<close>

definition v5_answers_request :: "(v5_Packet, 'io) DispatchItem \<Rightarrow> v5_Packet \<Rightarrow> bool" where
  "v5_answers_request req resp =
     (case resp of
        V5_PublishAck a \<Rightarrow> (case req of DI_Item (V5_Publish p) _ \<Rightarrow> pub5_packet_id p = Some (ack5_packet_id a) | _ \<Rightarrow> False)
      | V5_SubscribeAck a \<Rightarrow>
          (case req of
             DI_Item (V5_Subscribe p) _ \<Rightarrow> sack5_packet_id a = sub5_packet_id p \<and> length (sack5_status a) = length (sub5_topic_filters p)
           | _ \<Rightarrow> False)
      | V5_UnsubscribeAck a \<Rightarrow>
          (case req of
             DI_Item (V5_Unsubscribe p) _ \<Rightarrow> sack5_packet_id a = unsub5_packet_id p \<and> length (sack5_status a) = length (unsub5_topic_filters p)
           | _ \<Rightarrow> False)
      | V5_PingResponse \<Rightarrow> (case req of DI_Item V5_PingRequest _ \<Rightarrow> True | _ \<Rightarrow> False)
      | V5_Auth _ \<Rightarrow> (case req of DI_Item (V5_Auth _) _ \<Rightarrow> True | _ \<Rightarrow> False)
      | V5_Disconnect _ \<Rightarrow> (case req of DI_Item (V5_Publish _) _ \<Rightarrow> False | DI_Item (V5_PublishAck _) _ \<Rightarrow> False | _ \<Rightarrow> True)
      | _ \<Rightarrow> False)"

text \<open>A control message whose answer is the response of the call is no report of an error.\<close>

lemma v5_complete_control:
  fixes ctl :: "('e, 'io) v5_Control \<Rightarrow> ('e, 'io) MqttError + v5_ControlAck"
  assumes "\<forall>m a. ctl m = Inr a \<longrightarrow> v5_makes m a"
    and "fst (v5_complete cfg env pub ctl (Call_control (m, nested) error i) s) = Ok (Some pkt)"
  shows "\<not> error \<and> v5_packet_of m pkt"
proof (cases "ctl m")
  case (Inl err)
  then show ?thesis using assms(2)
    by (cases err; cases "ctl (C5_Error (v5_Error_new (case err of ME_Service e \<Rightarrow> e)))")
      (auto simp: v5_control_done_def v5_control_answered_def Let_def split: if_splits)
next
  case (Inr a)
  then have "\<not> error" "ca5_packet a = Some pkt"
    using assms(2) by (auto simp: v5_control_done_def v5_control_answered_def Let_def split: if_splits)
  then show ?thesis using assms(1) Inr v5_makes_packet by blast
qed

lemma v5_dispatch_control_answer:
  assumes "v5_dispatch cfg env req s = (Call_control (m, nested) False i, s')" and "v5_packet_of m pkt"
  shows "v5_answers_request req pkt"
  using assms
proof (induction cfg env req s arbitrary: m i s' rule: v5_dispatch.induct)
  case (1 cfg env publish sz s)
  then show ?case
    by (auto simp: v5_dispatch_publish_def v5_proto_error_def v5_control_def v5_is_error_def Let_def
        split: if_splits sum.splits option.splits prod.splits)
next
  case (2 cfg env packet sz s)
  then show ?case
    by (auto simp: v5_dispatch_ack_def v5_proto_error_def v5_control_def v5_is_error_def split: prod.splits res.splits)
next
  case (6 cfg env packet sz s)
  then show ?case
    by (auto simp: v5_dispatch_filters_def v5_proto_error_def v5_control_def v5_is_error_def v5_packet_of_def v5_answers_request_def
        v5_SubscribeMsg_new_def split: if_splits option.splits v5_Packet.splits)
next
  case (7 cfg env packet sz s)
  then show ?case
    by (auto simp: v5_dispatch_filters_def v5_proto_error_def v5_control_def v5_is_error_def v5_packet_of_def v5_answers_request_def
        v5_UnsubscribeMsg_new_def split: if_splits option.splits v5_Packet.splits)
qed (auto simp: v5_proto_error_def v5_control_def v5_is_error_def v5_packet_of_def v5_answers_request_def
      split: if_splits v5_Packet.splits)

lemma v5_dispatch_publish_call:
  assumes "v5_dispatch cfg env req s = (Call_publish p i, s')"
  shows "\<exists>publish sz. req = DI_Item (V5_Publish publish) sz \<and> i = pub5_packet_id publish"
  using assms
proof (induction cfg env req s arbitrary: p i s' rule: v5_dispatch.induct)
  case (1 cfg env publish sz s)
  then show ?case
    by (auto simp: v5_dispatch_publish_def v5_proto_error_def v5_control_def Let_def
        split: if_splits sum.splits option.splits prod.splits)
next
  case (2 cfg env packet sz s)
  then show ?case by (auto simp: v5_dispatch_ack_def v5_proto_error_def v5_control_def split: prod.splits res.splits)
qed (auto simp: v5_dispatch_filters_def v5_proto_error_def v5_control_def split: if_splits option.splits)

lemma v5_dispatch_done:
  assumes "v5_dispatch cfg env req s = (Call_done r, s')"
  shows "r = Ok None \<or> r = Panic"
  using assms
proof (induction cfg env req s arbitrary: s' rule: v5_dispatch.induct)
  case (1 cfg env publish sz s)
  then show ?case
    by (auto simp: v5_dispatch_publish_def v5_proto_error_def v5_control_def Let_def
        split: if_splits sum.splits option.splits prod.splits)
next
  case (2 cfg env packet sz s)
  then show ?case by (auto simp: v5_dispatch_ack_def v5_proto_error_def v5_control_def split: prod.splits res.splits)
qed (auto simp: v5_dispatch_filters_def v5_proto_error_def v5_control_def split: if_splits option.splits)

lemma v5_complete_publish:
  fixes ctl :: "('e, 'io) v5_Control \<Rightarrow> ('e, 'io) MqttError + v5_ControlAck"
  assumes "\<forall>m a. ctl m = Inr a \<longrightarrow> v5_makes m a"
    and "fst (v5_complete cfg env pub ctl (Call_publish p i) s) = Ok (Some pkt)"
  shows "\<exists>pid ack. i = Some pid \<and> pkt = V5_PublishAck (v5_puback pid ack)"
proof -
  obtain c s' where c: "v5_publish_done cfg (pub p) i s = (c :: ('e, 'io) v5_call, s')" by (cases "v5_publish_done cfg (pub p) i s :: ('e, 'io) v5_call \<times> _")
  then have run: "fst (v5_complete cfg env pub ctl c s') = Ok (Some pkt)" using assms(2) by simp
  show ?thesis
  proof (cases c)
    case (Call_done r)
    then show ?thesis using run c
      by (auto simp: v5_publish_done_def v5_publish_acked_def v5_control_def split: sum.splits option.splits if_splits)
  next
    case (Call_publish q j)
    then show ?thesis using c by (auto simp: v5_publish_done_def v5_publish_acked_def v5_control_def split: sum.splits option.splits if_splits)
  next
    case (Call_control m error j)
    then have "error" using c
      by (auto simp: v5_publish_done_def v5_publish_acked_def v5_control_def v5_is_error_def split: sum.splits option.splits if_splits)
    then show ?thesis using v5_complete_control [OF assms(1), of cfg env pub "fst m" "snd m" error j s' pkt] run Call_control by simp
  qed
qed

section \<open>Properties\<close>

text \<open>C27: Every packet that an MQTT 5 server sends as the response of a call answers the request of that call,
  when the control service makes its answers by the methods of the message: a PUBACK has the identifier
  of the PUBLISH, a SUBACK or UNSUBACK the identifier of the request and one reason code for each filter,
  PINGRESP answers PINGREQ only and AUTH answers AUTH only; a DISCONNECT can answer any request but
  PUBLISH and PUBACK.\<close>

theorem v5_call_response:
  fixes ctl :: "('e, 'io) v5_Control \<Rightarrow> ('e, 'io) MqttError + v5_ControlAck"
  assumes "\<forall>m a. ctl m = Inr a \<longrightarrow> v5_makes m a" and "fst (v5_call cfg env pub ctl req s) = Ok (Some resp)"
  shows "v5_answers_request req resp"
proof -
  obtain c s' where c: "v5_dispatch cfg env req s = (c :: ('e, 'io) v5_call, s')" by (cases "v5_dispatch cfg env req s :: ('e, 'io) v5_call \<times> _")
  then have run: "fst (v5_complete cfg env pub ctl c s') = Ok (Some resp)" using assms(2) by (simp add: v5_call_def)
  show ?thesis
  proof (cases c)
    case (Call_done r)
    then show ?thesis using run c v5_dispatch_done by fastforce
  next
    case (Call_publish p i)
    then show ?thesis using v5_complete_publish [OF assms(1), of cfg env pub p i s' resp] run c v5_dispatch_publish_call [of cfg env req s p i s']
      by (auto simp: v5_answers_request_def v5_puback_def)
  next
    case (Call_control m error i)
    then show ?thesis
      using v5_complete_control [OF assms(1), of cfg env pub "fst m" "snd m" error i s' resp] run c
        v5_dispatch_control_answer [of cfg env req s "fst m" "snd m" i s' resp] by auto
  qed
qed

theorem v5_call_response_witness:
  "v5_answers_request (DI_Item (V5_Subscribe v5_sub_sample) 9 :: (v5_Packet, unit) DispatchItem)
     (V5_SubscribeAck (sm5_result (v5_SubscribeMsg_new v5_sub_sample 9)))"
proof -
  have valid: "topic_is_valid [0x61]" by code_simp
  have "fst (v5_call \<lparr>dc5_handle_qos_after_disconnect = None, dc5_try_from = Inl, dc5_from = (\<lambda>e. e)\<rparr> v5_env (\<lambda>_. Inl ())
      (\<lambda>m :: (unit, unit) v5_Control. Inr (v5_Control_ack m)) (DI_Item (V5_Subscribe v5_sub_sample) 9)
      (v5_Inner_new (v5_Shared_new v5_Codec_new))) = Ok (Some (V5_SubscribeAck (sm5_result (v5_SubscribeMsg_new v5_sub_sample 9))))"
    using valid
    by (simp add: v5_call_def v5_dispatch_filters_def v5_sub_id_refused_def v5_sub_sample_def v5_Inner_new_def v5_control_def
        v5_is_error_def v5_control_done_def v5_control_answered_def v5_SubscribeMsg_ack_def v5_env_def Let_def)
  then show ?thesis by (intro v5_call_response) (auto simp: v5_makes.ack)
qed

end
