(* ===== verification/Services.thy ===== *)
theory Services
  imports Router V3_Api V5_Api
begin

text \<open>
  Services and their factories: the session (\<open>src/session.rs\<close>), the readiness of the dispatchers, of the routers and
  of the handshake services, and the routers of \<open>src/v3/router.rs\<close> and \<open>src/v5/router.rs\<close> as services: how the
  handlers of a connection are created and how a message reaches its handler.

  A service factory is a function from the session to a service or an error. What \<open>ctx.ready(..).await\<close> returns for
  a service is an argument of the readiness of the service around it.
\<close>

section \<open>Sessions\<close>

record ('sink, 'st) Session =
  ses_st :: 'st
  ses_sink :: 'sink

definition Session_new :: "'st \<Rightarrow> 'sink \<Rightarrow> ('sink, 'st) Session" where
  "Session_new st sink = \<lparr>ses_st = st, ses_sink = sink\<rparr>"

definition Session_sink :: "('sink, 'st) Session \<Rightarrow> 'sink" where
  "Session_sink ses = ses_sink ses"

definition Session_state :: "('sink, 'st) Session \<Rightarrow> 'st" where
  "Session_state ses = ses_st ses"

definition Session_deref :: "('sink, 'st) Session \<Rightarrow> 'st" where
  "Session_deref ses = ses_st ses"

section \<open>Readiness\<close>

text \<open>\<open>Dispatcher::ready\<close> of the servers: the error of the publish service is converted by \<open>e.into()\<close>.\<close>

definition v3_Dispatcher_ready :: "('t \<Rightarrow> 'e) \<Rightarrow> 't + unit \<Rightarrow> ('e, 'io) MqttError + unit \<Rightarrow> ('e, 'io) MqttError + unit" where
  "v3_Dispatcher_ready into publish control =
     (case publish of Inl e \<Rightarrow> Inl (ME_Service (into e)) | Inr _ \<Rightarrow> control)"

definition v5_Dispatcher_ready :: "('t \<Rightarrow> 'e) \<Rightarrow> 't + unit \<Rightarrow> ('e, 'io) MqttError + unit \<Rightarrow> ('e, 'io) MqttError + unit" where
  "v5_Dispatcher_ready into publish control =
     (case publish of Inl e \<Rightarrow> Inl (ME_Service (into e)) | Inr _ \<Rightarrow> control)"

text \<open>\<open>Dispatcher::ready\<close> of the clients.\<close>

definition v3c_Dispatcher_ready :: "'e + unit \<Rightarrow> ('e, 'io) MqttError + unit \<Rightarrow> ('e, 'io) MqttError + unit" where
  "v3c_Dispatcher_ready publish control = (case publish of Inl e \<Rightarrow> Inl (ME_Service e) | Inr _ \<Rightarrow> control)"

definition v5c_Dispatcher_ready :: "'e + unit \<Rightarrow> ('e, 'io) MqttError + unit \<Rightarrow> ('e, 'io) MqttError + unit" where
  "v5c_Dispatcher_ready publish control = (case publish of Inl e \<Rightarrow> Inl (ME_Service e) | Inr _ \<Rightarrow> control)"

text \<open>\<open>RouterService::ready\<close> of both versions: the handlers one after the other, then the default service.\<close>

fun ready_in_order :: "('e + unit) list \<Rightarrow> 'e + unit \<Rightarrow> 'e + unit" where
  "ready_in_order [] deflt = deflt"
| "ready_in_order (r # rs) deflt = (case r of Inl e \<Rightarrow> Inl e | Inr _ \<Rightarrow> ready_in_order rs deflt)"

definition v3_RouterService_ready :: "('h \<Rightarrow> 'e + unit) \<Rightarrow> 'h list \<Rightarrow> 'h \<Rightarrow> 'e + unit" where
  "v3_RouterService_ready ready handlers deflt = ready_in_order (map ready handlers) (ready deflt)"

definition v5_RouterService_ready :: "('h \<Rightarrow> 'e + unit) \<Rightarrow> 'h list \<Rightarrow> 'h \<Rightarrow> 'e + unit" where
  "v5_RouterService_ready ready handlers deflt = ready_in_order (map ready handlers) (ready deflt)"

text \<open>Two services that are waited for together: ready when both are, and the error of the first goes before the
  error of the second.\<close>

locale joined_ready =
  fixes ready :: "'a + unit \<Rightarrow> 'b + unit \<Rightarrow> 'c + unit" and first_error :: "'a \<Rightarrow> 'c" and second_error :: "'b \<Rightarrow> 'c"
  assumes ready_first: "ready (Inl e) r = Inl (first_error e)"
    and ready_second: "ready (Inr ()) (Inl e') = Inl (second_error e')"
    and ready_both: "ready (Inr ()) (Inr ()) = Inr ()"
begin

lemma ready_iff: "ready a b = Inr () \<longleftrightarrow> a = Inr () \<and> b = Inr ()"
  by (cases a; cases b) (simp_all add: ready_first ready_second ready_both)

lemma ready_error: "ready a b = Inl e \<longleftrightarrow> (\<exists>e'. a = Inl e' \<and> e = first_error e') \<or> a = Inr () \<and> (\<exists>e'. b = Inl e' \<and> e = second_error e')"
  by (cases a; cases b) (auto simp: ready_first ready_second ready_both)

end

interpretation ready3: joined_ready "v3_Dispatcher_ready into" "\<lambda>e. ME_Service (into e)" "\<lambda>e. e" for into
  by unfold_locales (simp_all add: v3_Dispatcher_ready_def)

interpretation ready5: joined_ready "v5_Dispatcher_ready into" "\<lambda>e. ME_Service (into e)" "\<lambda>e. e" for into
  by unfold_locales (simp_all add: v5_Dispatcher_ready_def)

interpretation ready3c: joined_ready v3c_Dispatcher_ready ME_Service "\<lambda>e. e"
  by unfold_locales (simp_all add: v3c_Dispatcher_ready_def)

interpretation ready5c: joined_ready v5c_Dispatcher_ready ME_Service "\<lambda>e. e"
  by unfold_locales (simp_all add: v5c_Dispatcher_ready_def)

lemma ready_in_order_iff: "ready_in_order rs deflt = Inr () \<longleftrightarrow> (\<forall>r \<in> set rs. r = Inr ()) \<and> deflt = Inr ()"
  by (induction rs) (auto split: sum.splits)

section \<open>Routers\<close>

text \<open>\<open>Router\<close> with its default service. The default is a factory, as are the handlers.\<close>

record ('addr, 'f) RouterBuild =
  rb_routes :: "('addr, 'f) Router"
  rb_default :: 'f

definition v5_Router_new :: "'f \<Rightarrow> ('addr, 'f) RouterBuild" where
  "v5_Router_new default_service = \<lparr>rb_routes = Router_new, rb_default = default_service\<rparr>"

definition v5_Router_resource :: "'addr \<Rightarrow> 'f \<Rightarrow> ('addr, 'f) RouterBuild \<Rightarrow> ('addr, 'f) RouterBuild" where
  "v5_Router_resource address service r = r\<lparr>rb_routes := Router_resource address service (rb_routes r)\<rparr>"

record ('addr, 'f) RouterFactory =
  rf_routes :: "('addr, 'f) Router"
  rf_default :: 'f

definition v3_Router_into_factory :: "('addr, 'f) RouterBuild \<Rightarrow> ('addr, 'f) RouterFactory" where
  "v3_Router_into_factory r = \<lparr>rf_routes = rb_routes r, rf_default = rb_default r\<rparr>"

definition v5_Router_finish :: "('addr, 'f) RouterBuild \<Rightarrow> ('addr, 'f) RouterFactory" where
  "v5_Router_finish r = \<lparr>rf_routes = rb_routes r, rf_default = rb_default r\<rparr>"

definition v5_Router_into_factory :: "('addr, 'f) RouterBuild \<Rightarrow> ('addr, 'f) RouterFactory" where
  "v5_Router_into_factory r = v5_Router_finish r"

text \<open>\<open>RouterService\<close>: the patterns with the handlers of this connection, and its default service.\<close>

record ('addr, 'h) RouterService =
  rs_routes :: "('addr, 'h) Router"
  rs_default :: 'h

fun create_all :: "('ses \<Rightarrow> 'e + 'h) list \<Rightarrow> 'ses \<Rightarrow> 'e + 'h list" where
  "create_all [] ses = Inr []"
| "create_all (f # fs) ses =
     (case f ses of
        Inl e \<Rightarrow> Inl e
      | Inr h \<Rightarrow> (case create_all fs ses of Inl e \<Rightarrow> Inl e | Inr hs \<Rightarrow> Inr (h # hs)))"

definition router_service :: "('addr, 'f) RouterFactory \<Rightarrow> 'h list \<Rightarrow> 'h \<Rightarrow> ('addr, 'h) RouterService" where
  "router_service rf handlers deflt =
     \<lparr>rs_routes = \<lparr>rt_router = rt_router (rf_routes rf), rt_handlers = handlers\<rparr>, rs_default = deflt\<rparr>"

text \<open>\<open>RouterFactory::create\<close>: 3.1.1 makes the default service last, MQTT 5 first.\<close>

definition v3_RouterFactory_create :: "('addr, 'ses \<Rightarrow> 'e + 'h) RouterFactory \<Rightarrow> 'ses \<Rightarrow> 'e + ('addr, 'h) RouterService" where
  "v3_RouterFactory_create rf ses =
     (case create_all (rt_handlers (rf_routes rf)) ses of
        Inl e \<Rightarrow> Inl e
      | Inr handlers \<Rightarrow> (case rf_default rf ses of Inl e \<Rightarrow> Inl e | Inr deflt \<Rightarrow> Inr (router_service rf handlers deflt)))"

definition v5_RouterFactory_create :: "('addr, 'ses \<Rightarrow> 'e + 'h) RouterFactory \<Rightarrow> 'ses \<Rightarrow> 'e + ('addr, 'h) RouterService" where
  "v5_RouterFactory_create rf ses =
     (case rf_default rf ses of
        Inl e \<Rightarrow> Inl e
      | Inr deflt \<Rightarrow>
          (case create_all (rt_handlers (rf_routes rf)) ses of
             Inl e \<Rightarrow> Inl e
           | Inr handlers \<Rightarrow> Inr (router_service rf handlers deflt)))"

text \<open>\<open>RouterService::call\<close>. A handler is a function of the message with its routed topic; \<open>Panic\<close> is an index out of
  range.\<close>

definition v3_RouterService_call :: "'path recognizer \<Rightarrow> ('addr, 'path v3_PublishMsg \<Rightarrow> 'e + unit) RouterService \<Rightarrow> 'path v3_PublishMsg
    \<Rightarrow> ('x, 'e + unit) res" where
  "v3_RouterService_call recognize srv req =
     (case v3_route recognize (rs_routes srv) (pm3_topic req) of
        (r, topic) \<Rightarrow>
          bindR r (\<lambda>target. Ok ((case target of Rt_handler h \<Rightarrow> h | Rt_other \<Rightarrow> rs_default srv) (v3_PublishMsg_topic_mut (\<lambda>_. topic) req))))"

definition v5_RouterService_call :: "'path recognizer \<Rightarrow> ('addr, 'path v5_PublishMsg \<Rightarrow> 't + v5_PubAck) RouterService \<Rightarrow> 'path v5_PublishMsg
    \<Rightarrow> (u16 \<rightharpoonup> nat \<times> 'path) \<Rightarrow> ('x, 't + v5_PubAck) res \<times> (u16 \<rightharpoonup> nat \<times> 'path)" where
  "v5_RouterService_call recognize srv req aliases =
     (case v5_route recognize (rs_routes srv) (pm5_pkt req) (pm5_topic req) aliases of
        (r, topic, aliases') \<Rightarrow>
          (bindR r (\<lambda>target. Ok ((case target of Rt_handler h \<Rightarrow> h | Rt_other \<Rightarrow> rs_default srv) (v5_PublishMsg_topic_mut (\<lambda>_. topic) req))),
           aliases'))"

text \<open>\<open>dispatch\<close> of the clients, with the call of the handler.\<close>

definition v3_client_dispatch :: "('p \<Rightarrow> 'e) \<Rightarrow> 'path recognizer \<Rightarrow> ('addr, 'path v3_PublishMsg \<Rightarrow> 'p + unit) Router \<Rightarrow> 'path v3_PublishMsg
    \<Rightarrow> ('x, 'e + (unit + 'path v3_PublishMsg)) res" where
  "v3_client_dispatch into recognize r req =
     (case v3_route recognize r (pm3_topic req) of
        (target, topic) \<Rightarrow>
          let req = v3_PublishMsg_topic_mut (\<lambda>_. topic) req in
          bindR target (\<lambda>target. Ok (case target of
              Rt_handler h \<Rightarrow> v3c_handler_call into (h req)
            | Rt_other \<Rightarrow> Inr (Inr req))))"

definition v5_client_dispatch :: "('p \<Rightarrow> 'e + v5_PubAck) \<Rightarrow> 'path recognizer \<Rightarrow> ('addr, 'path v5_PublishMsg \<Rightarrow> 'p + v5_PubAck) Router
    \<Rightarrow> 'path v5_PublishMsg \<Rightarrow> (u16 \<rightharpoonup> nat \<times> 'path) \<Rightarrow> ('x, 'e + ('path v5_PublishMsg + v5_PubAck)) res \<times> (u16 \<rightharpoonup> nat \<times> 'path)" where
  "v5_client_dispatch try_from recognize r req aliases =
     (case v5_route recognize r (pm5_pkt req) (pm5_topic req) aliases of
        (target, topic, aliases') \<Rightarrow>
          let req = v5_PublishMsg_topic_mut (\<lambda>_. topic) req in
          (bindR target (\<lambda>target. Ok (case target of
              Rt_handler h \<Rightarrow> v5c_handler_call try_from (h req)
            | Rt_other \<Rightarrow> Inr (Inl req))),
           aliases'))"

section \<open>Lemmas\<close>

lemma create_all_Inr: "create_all fs ses = Inr hs \<longleftrightarrow> list_all2 (\<lambda>f h. f ses = Inr h) fs hs"
proof (induction fs arbitrary: hs)
  case (Cons f fs)
  show ?case
  proof (cases "create_all fs ses")
    case (Inl e)
    then have "\<not> list_all2 (\<lambda>f h. f ses = Inr h) fs hs" for hs using Cons.IH [of hs] by auto
    then show ?thesis using Inl by (auto simp: list_all2_Cons1 split: sum.splits)
  next
    case (Inr hs')
    then have "list_all2 (\<lambda>f h. f ses = Inr h) fs hs \<longleftrightarrow> hs = hs'" for hs using Cons.IH [of hs] by auto
    then show ?thesis using Inr by (auto simp: list_all2_Cons1 split: sum.splits)
  qed
qed auto

lemma create_all_Inl: "create_all fs ses = Inl e \<Longrightarrow> \<exists>f \<in> set fs. f ses = Inl e"
  by (induction fs) (auto split: sum.splits)

text \<open>What both factories promise.\<close>

locale router_factory =
  fixes create :: "('addr, 'ses \<Rightarrow> 'e + 'h) RouterFactory \<Rightarrow> 'ses \<Rightarrow> 'e + ('addr, 'h) RouterService"
  assumes create_Inr: "create rf ses = Inr srv \<longleftrightarrow>
      (\<exists>hs d. list_all2 (\<lambda>f h. f ses = Inr h) (rt_handlers (rf_routes rf)) hs \<and> rf_default rf ses = Inr d \<and> srv = router_service rf hs d)"
    and create_Inl: "create rf ses = Inl e \<Longrightarrow> \<exists>f \<in> set (rf_default rf # rt_handlers (rf_routes rf)). f ses = Inl e"
begin

lemma created_routes:
  assumes "create rf ses = Inr srv"
  shows "rt_router (rs_routes srv) = rt_router (rf_routes rf)"
    and "length (rt_handlers (rs_routes srv)) = length (rt_handlers (rf_routes rf))"
    and "idx < length (rt_handlers (rf_routes rf)) \<Longrightarrow> (rt_handlers (rf_routes rf) ! idx) ses = Inr (rt_handlers (rs_routes srv) ! idx)"
    and "rf_default rf ses = Inr (rs_default srv)"
  using assms unfolding create_Inr by (auto simp: router_service_def list_all2_conv_all_nth)

lemma created_handler:
  assumes "create rf ses = Inr srv" and "built (rf_routes rf)" and "recognizes recognize (rf_routes rf)" and "recognize topic = (Some idx, topic')"
  shows "handler_at (rt_handlers (rs_routes srv)) idx = Ok (Rt_handler (rt_handlers (rs_routes srv) ! idx))"
    and "(rt_handlers (rf_routes rf) ! idx) ses = Inr (rt_handlers (rs_routes srv) ! idx)"
  using created_routes [OF assms(1)] recognized_in_range [OF assms(2-4)] by (simp_all add: handler_at_def)

lemma create_total:
  assumes "\<forall>f \<in> set (rf_default rf # rt_handlers (rf_routes rf)). \<forall>e. f ses \<noteq> Inl e"
  shows "\<exists>srv. create rf ses = Inr srv"
  using assms create_Inl by (cases "create rf ses") blast+

end

interpretation factory3: router_factory v3_RouterFactory_create
proof unfold_locales
  show "v3_RouterFactory_create rf ses = Inr srv \<longleftrightarrow>
      (\<exists>hs d. list_all2 (\<lambda>f h. f ses = Inr h) (rt_handlers (rf_routes rf)) hs \<and> rf_default rf ses = Inr d \<and> srv = router_service rf hs d)"
    for rf :: "('addr, 'ses \<Rightarrow> 'e + 'h) RouterFactory" and ses srv
    by (auto simp: v3_RouterFactory_create_def create_all_Inr [symmetric] split: sum.splits)
  show "\<exists>f \<in> set (rf_default rf # rt_handlers (rf_routes rf)). f ses = Inl e" if "v3_RouterFactory_create rf ses = Inl e"
    for rf :: "('addr, 'ses \<Rightarrow> 'e + 'h) RouterFactory" and ses e
    using that create_all_Inl by (fastforce simp: v3_RouterFactory_create_def split: sum.splits)
qed

interpretation factory5: router_factory v5_RouterFactory_create
proof unfold_locales
  show "v5_RouterFactory_create rf ses = Inr srv \<longleftrightarrow>
      (\<exists>hs d. list_all2 (\<lambda>f h. f ses = Inr h) (rt_handlers (rf_routes rf)) hs \<and> rf_default rf ses = Inr d \<and> srv = router_service rf hs d)"
    for rf :: "('addr, 'ses \<Rightarrow> 'e + 'h) RouterFactory" and ses srv
    by (auto simp: v5_RouterFactory_create_def create_all_Inr [symmetric] split: sum.splits)
  show "\<exists>f \<in> set (rf_default rf # rt_handlers (rf_routes rf)). f ses = Inl e" if "v5_RouterFactory_create rf ses = Inl e"
    for rf :: "('addr, 'ses \<Rightarrow> 'e + 'h) RouterFactory" and ses e
    using that create_all_Inl by (fastforce simp: v5_RouterFactory_create_def split: sum.splits)
qed

text \<open>The service that should handle a message: the one that the matching resource made for this session.\<close>

definition expected_handler :: "'path recognizer \<Rightarrow> ('addr, 'ses \<Rightarrow> 'e + 'h) RouterFactory \<Rightarrow> 'ses \<Rightarrow> 'path \<Rightarrow> ('e + 'h) \<times> 'path" where
  "expected_handler recognize rf ses path =
     (case recognize path of
        (Some idx, path') \<Rightarrow> ((rt_handlers (rf_routes rf) ! idx) ses, path')
      | (None, path') \<Rightarrow> (rf_default rf ses, path'))"

lemma v3_router_call:
  assumes "v3_RouterFactory_create rf ses = Inr srv" and "built (rf_routes rf)" and "recognizes recognize (rf_routes rf)"
  shows "\<exists>h path. expected_handler recognize rf ses (pm3_topic req) = (Inr h, path) \<and>
    v3_RouterService_call recognize srv req = Ok (h (v3_PublishMsg_topic_mut (\<lambda>_. path) req))"
proof -
  obtain idx path where rec: "recognize (pm3_topic req) = (idx, path)" by (cases "recognize (pm3_topic req)")
  show ?thesis
  proof (cases idx)
    case None
    then show ?thesis using factory3.created_routes(4) [OF assms(1)] rec
      by (simp add: expected_handler_def v3_RouterService_call_def v3_route_def)
  next
    case (Some i)
    note hnd = factory3.created_handler [OF assms rec [unfolded Some]]
    show ?thesis using rec Some by (simp add: expected_handler_def v3_RouterService_call_def v3_route_def hnd)
  qed
qed

lemma v5_router_call:
  assumes "v5_RouterFactory_create rf ses = Inr srv" and "built (rf_routes rf)" and "recognizes recognize (rf_routes rf)"
    and "pub5_topic (pm5_pkt req) \<noteq> []"
  shows "\<exists>h path. expected_handler recognize rf ses (pm5_topic req) = (Inr h, path) \<and>
    fst (v5_RouterService_call recognize srv req aliases) = Ok (h (v5_PublishMsg_topic_mut (\<lambda>_. path) req))"
proof -
  obtain idx path where rec: "recognize (pm5_topic req) = (idx, path)" by (cases "recognize (pm5_topic req)")
  show ?thesis
  proof (cases idx)
    case None
    then show ?thesis using assms(4) factory5.created_routes(4) [OF assms(1)] rec
      by (simp add: expected_handler_def v5_RouterService_call_def v5_route_def)
  next
    case (Some i)
    note hnd = factory5.created_handler [OF assms(1-3) rec [unfolded Some]]
    show ?thesis using assms(4) rec Some by (simp add: expected_handler_def v5_RouterService_call_def v5_route_def hnd Let_def)
  qed
qed

section \<open>Properties\<close>

text \<open>C20: A router as the publish service of an MQTT 5 server never looks for a handler that does not exist: in
  every state of the connection, a message that is given to it goes to the service that the resource
  matching its topic made for this session, or to the default service when none matches, whatever the
  alias table of the router holds. A message that came with an alias only is routed by the topic that
  the dispatcher put in; a message without topic and alias goes to the default service.\<close>

theorem v5_router_behind_dispatcher:
  assumes "v5_server_reach cfg sink r" and "Call_publish (p, sz) i \<in> set (sv5_calls r)"
    and "v5_RouterFactory_create rf ses = Inr srv" and "built (rf_routes rf)" and "recognizes recognize (rf_routes rf)"
  shows "\<exists>h path.
    (if pub5_topic p = [] \<and> pp5_topic_alias (pub5_properties p) = None then (rf_default rf ses, path_new (pub5_topic p))
     else expected_handler recognize rf ses (path_new (pub5_topic p))) = (Inr h, path) \<and>
    fst (v5_RouterService_call recognize srv (v5_PublishMsg_new path_new p sz) aliases) =
      Ok (h (v5_PublishMsg_topic_mut (\<lambda>_. path) (v5_PublishMsg_new path_new p sz)))"
proof (cases "pub5_topic p = []")
  case True
  have "publish_topic_ok p" using v5_server_reach_inv [OF assms(1)] assms(2) by (auto simp: v5_server_inv_def)
  then have "pp5_topic_alias (pub5_properties p) = None" using True by (auto simp: publish_topic_ok_def)
  then show ?thesis using True factory5.created_routes(4) [OF assms(3)]
    by (simp add: v5_RouterService_call_def v5_route_def v5_PublishMsg_new_def v5_PublishMsg_topic_mut_def)
next
  case False
  then show ?thesis using v5_router_call [OF assms(3-5), of "v5_PublishMsg_new path_new p sz" aliases] by (simp add: v5_PublishMsg_new_def)
qed

definition sample_factory :: "(bytes, unit \<Rightarrow> unit + (bytes v5_PublishMsg \<Rightarrow> unit + v5_PubAck)) RouterFactory" where
  "sample_factory =
     v5_Router_into_factory (v5_Router_resource [0x61] (\<lambda>_. Inr (\<lambda>req. Inr (v5_PubAck_new PA_Success)))
       (v5_Router_new (\<lambda>_. Inr (\<lambda>_. Inr (v5_PubAck_new PA_UnspecifiedError)))))"

theorem v5_router_behind_dispatcher_witness:
  "\<exists>srv. v5_RouterFactory_create sample_factory () = Inr srv \<and>
     fst (v5_RouterService_call sample_recognize srv (v5_PublishMsg_new (\<lambda>t. t) (v5_qos1 5) 9) [2 \<mapsto> (7, [])]) =
       (Ok (Inr (v5_PubAck_new PA_Success)) :: (unit, unit + v5_PubAck) res)"
proof -
  note defs = sample_factory_def v5_Router_into_factory_def v5_Router_finish_def v5_Router_resource_def v5_Router_new_def
  obtain srv where srv: "v5_RouterFactory_create sample_factory () = Inr srv"
    using factory5.create_total [of sample_factory "()"] by (auto simp: defs Router_resource_def Router_new_def)
  have "built (rf_routes sample_factory)" by (simp add: defs) (intro built.intros)
  moreover have "recognizes sample_recognize (rf_routes sample_factory)"
    by (auto simp: recognizes_def sample_recognize_def defs Router_resource_def Router_new_def split: if_splits)
  ultimately have "fst (v5_RouterService_call sample_recognize srv (v5_PublishMsg_new (\<lambda>t. t) (v5_qos1 5) 9) [2 \<mapsto> (7, [])]) =
      (Ok (Inr (v5_PubAck_new PA_Success)) :: (unit, unit + v5_PubAck) res)"
    using v5_router_behind_dispatcher [OF v5_server_sample, where p = "v5_qos1 5" and sz = 9 and i = "Some 5" and srv = srv
        and path_new = "\<lambda>t. t" and aliases = "[2 \<mapsto> (7, [])]" and recognize = sample_recognize, OF _ srv]
    by (auto simp: expected_handler_def sample_recognize_def v5_qos1_def v5_aliased_def v5_publish_def
        defs Router_resource_def Router_new_def)
  with srv show ?thesis by blast
qed

end
