(* ===== verification/Protocol_Server.thy ===== *)
theory Protocol_Server
  imports Server Builder Services
begin

text \<open>
  How a server is put together: the rest of the settings of \<open>src/v3/server.rs\<close> and \<open>src/v5/server.rs\<close> with the
  services of the user and the handshake factories, \<open>MqttServer\<close> and \<open>MqttHandler\<close> of \<open>src/service.rs\<close>, and the server
  for both protocols of \<open>src/server.rs\<close> with its factory. Factories are functions; \<open>unit\<close> is their configuration where
  the code passes \<open>()\<close>. The conversion of seconds to milliseconds is an argument, like the setters of
  \<open>DispatcherConfig\<close> in \<open>ntex_io\<close>.
\<close>

section \<open>A connection service\<close>

record ('connect, 'handler) MqttService =
  msv_connect :: 'connect
  msv_handler :: 'handler
  msv_config :: IoConfig

definition MqttService_new :: "'connect \<Rightarrow> 'handler \<Rightarrow> IoConfig \<Rightarrow> ('connect, 'handler) MqttService" where
  "MqttService_new connect service config = \<lparr>msv_connect = connect, msv_handler = service, msv_config = config\<rparr>"

record ('connect, 'handler) MqttHandler =
  mh_connect :: 'connect
  mh_handler :: 'handler
  mh_config :: IoConfig

definition MqttService_create :: "(unit \<Rightarrow> 'init + 'connect, 'handler) MqttService \<Rightarrow> 'init + ('connect, 'handler) MqttHandler" where
  "MqttService_create m =
     (case msv_connect m () of
        Inl e \<Rightarrow> Inl e
      | Inr connect \<Rightarrow> Inr \<lparr>mh_connect = connect, mh_handler = msv_handler m, mh_config = msv_config m\<rparr>)"

text \<open>\<open>MqttHandler::call\<close> for any handshake and any handler: the codec, the handler and the stream dispatcher that
  then runs.\<close>

definition MqttHandler_call :: "('io \<Rightarrow> ('e, 'codec \<times> 'ses \<times> u16) res, 'ses \<Rightarrow> ('e, 'hnd) res) MqttHandler \<Rightarrow> 'io
    \<Rightarrow> ('e, 'codec \<times> 'hnd \<times> ('pkt, 'err, 'ioe) DispatcherInner) res" where
  "MqttHandler_call h req =
     bindR (mh_connect h req) (\<lambda>(codec, session, keepalive).
       bindR (mh_handler h session) (\<lambda>handler.
         Ok (codec, handler, io_set_keepalive_timeout keepalive (io_new (mh_config h)))))"

section \<open>Servers of one protocol\<close>

record ('h, 'c, 'p) v3_ServerBuild =
  sb3_settings :: v3_MqttServer
  sb3_max_send_size :: "u32 \<times> u32"
  sb3_handshake :: 'h
  sb3_control :: 'c
  sb3_publish :: 'p

type_synonym ('e, 'io) v3_control_service = "('e, 'io) v3_Control \<Rightarrow> ('e, 'io) MqttError + v3_ControlAckKind"
type_synonym ('e, 'io) v5_control_service = "('e, 'io) v5_Control \<Rightarrow> ('e, 'io) MqttError + v5_ControlAck"

text \<open>\<open>create\<close> of \<open>DefaultPublishService\<close> and \<open>DefaultControlService\<close>.\<close>

definition v3_default_publish_factory :: "'ses \<Rightarrow> 'e + (v3_Publish \<times> u32 \<Rightarrow> 'e + unit)" where
  "v3_default_publish_factory _ = Inr v3_default_publish"

definition v3_default_control_factory :: "'ses \<Rightarrow> 'e + ('e, 'io) v3_control_service" where
  "v3_default_control_factory _ = Inr v3_default_control"

definition v5_default_publish_factory :: "'ses \<Rightarrow> 'e + (v5_Publish \<times> u32 \<Rightarrow> 't + v5_PubAck)" where
  "v5_default_publish_factory _ = Inr v5_default_publish"

definition v5_default_control_factory :: "'ses \<Rightarrow> 'e + ('e, 'io) v5_control_service" where
  "v5_default_control_factory _ = Inr v5_default_control"

definition v3_ServerBuild_new :: "IoConfig \<Rightarrow> 'h \<Rightarrow>
    ('h, 'ses \<Rightarrow> 'e + ('e, 'io) v3_control_service, 'ses \<Rightarrow> 'e + (v3_Publish \<times> u32 \<Rightarrow> 'e + unit)) v3_ServerBuild" where
  "v3_ServerBuild_new config handshake =
     \<lparr>sb3_settings = v3_MqttServer_new config, sb3_max_send_size = (65535, 512), sb3_handshake = handshake,
      sb3_control = v3_default_control_factory, sb3_publish = v3_default_publish_factory\<rparr>"

definition v3_ServerBuild_set :: "(v3_MqttServer \<Rightarrow> v3_MqttServer) \<Rightarrow> ('h, 'c, 'p) v3_ServerBuild \<Rightarrow> ('h, 'c, 'p) v3_ServerBuild" where
  "v3_ServerBuild_set f b = b\<lparr>sb3_settings := f (sb3_settings b)\<rparr>"

text \<open>\<open>set_disconnect_timeout\<close> and \<open>set_frame_read_rate\<close> of \<open>DispatcherConfig\<close> are arguments.\<close>

definition v3_MqttServer_disconnect_timeout :: "(u16 \<Rightarrow> IoConfig \<Rightarrow> IoConfig) \<Rightarrow> u16 \<Rightarrow> v3_MqttServer \<Rightarrow> v3_MqttServer" where
  "v3_MqttServer_disconnect_timeout set_disconnect_timeout val m = m\<lparr>ms3_config := set_disconnect_timeout val (ms3_config m)\<rparr>"

definition v3_MqttServer_frame_read_rate :: "(u16 \<Rightarrow> u16 \<Rightarrow> u16 \<Rightarrow> IoConfig \<Rightarrow> IoConfig) \<Rightarrow> u16 \<Rightarrow> u16 \<Rightarrow> u16 \<Rightarrow> v3_MqttServer \<Rightarrow> v3_MqttServer" where
  "v3_MqttServer_frame_read_rate set_frame_read_rate timeout max_timeout rate m =
     m\<lparr>ms3_config := set_frame_read_rate timeout max_timeout rate (ms3_config m)\<rparr>"

definition v3_MqttServer_max_inflight :: "u16 \<Rightarrow> v3_MqttServer \<Rightarrow> v3_MqttServer" where
  "v3_MqttServer_max_inflight val m = m\<lparr>ms3_max_receive := val\<rparr>"

definition v3_MqttServer_max_inflight_size :: "nat \<Rightarrow> v3_MqttServer \<Rightarrow> v3_MqttServer" where
  "v3_MqttServer_max_inflight_size val m = m\<lparr>ms3_max_receive_size := val\<rparr>"

definition v3_ServerBuild_max_send_size :: "u32 \<Rightarrow> ('h, 'c, 'p) v3_ServerBuild \<Rightarrow> ('h, 'c, 'p) v3_ServerBuild" where
  "v3_ServerBuild_max_send_size val b = b\<lparr>sb3_max_send_size := (val, val div 10)\<rparr>"

definition v3_ServerBuild_control :: "'c2 \<Rightarrow> ('h, 'c, 'p) v3_ServerBuild \<Rightarrow> ('h, 'c2, 'p) v3_ServerBuild" where
  "v3_ServerBuild_control service b =
     \<lparr>sb3_settings = sb3_settings b, sb3_max_send_size = sb3_max_send_size b, sb3_handshake = sb3_handshake b,
      sb3_control = service, sb3_publish = sb3_publish b\<rparr>"

definition v3_ServerBuild_publish :: "'p2 \<Rightarrow> ('h, 'c, 'p) v3_ServerBuild \<Rightarrow> ('h, 'c, 'p2) v3_ServerBuild" where
  "v3_ServerBuild_publish publish b =
     \<lparr>sb3_settings = sb3_settings b, sb3_max_send_size = sb3_max_send_size b, sb3_handshake = sb3_handshake b,
      sb3_control = sb3_control b, sb3_publish = publish\<rparr>"

record 'h v3_HandshakeFactory =
  hf3_factory :: 'h
  hf3_max_size :: u32
  hf3_max_send :: u16
  hf3_max_send_size :: "u32 \<times> u32"
  hf3_connect_timeout :: u16

record ('h, 'ms) v3_HandshakeService =
  hv3_service :: 'h
  hv3_max_size :: u32
  hv3_max_send :: u16
  hv3_max_send_size :: "u32 \<times> u32"
  hv3_connect_timeout :: 'ms

definition v3_HandshakeFactory_create :: "(u16 \<Rightarrow> 'ms) \<Rightarrow> (unit \<Rightarrow> 'init + 'h) v3_HandshakeFactory \<Rightarrow> 'init + ('h, 'ms) v3_HandshakeService" where
  "v3_HandshakeFactory_create into f =
     (case hf3_factory f () of
        Inl e \<Rightarrow> Inl e
      | Inr service \<Rightarrow> Inr
          \<lparr>hv3_service = service, hv3_max_size = hf3_max_size f, hv3_max_send = hf3_max_send f,
           hv3_max_send_size = hf3_max_send_size f, hv3_connect_timeout = into (hf3_connect_timeout f)\<rparr>)"

record ('h, 'ms) v5_HandshakeFactory =
  hf5_factory :: 'h
  hf5_cfg :: v5_HandshakeCfg
  hf5_connect_timeout :: 'ms

record ('h, 'ms) v5_HandshakeService =
  hv5_service :: 'h
  hv5_cfg :: v5_HandshakeCfg
  hv5_connect_timeout :: 'ms

definition v5_HandshakeFactory_create :: "(unit \<Rightarrow> 'init + 'h, 'ms) v5_HandshakeFactory \<Rightarrow> 'init + ('h, 'ms) v5_HandshakeService" where
  "v5_HandshakeFactory_create f =
     (case hf5_factory f () of
        Inl e \<Rightarrow> Inl e
      | Inr service \<Rightarrow> Inr \<lparr>hv5_service = service, hv5_cfg = hf5_cfg f, hv5_connect_timeout = hf5_connect_timeout f\<rparr>)"

text \<open>\<open>forward_ready!(service, MqttError::Service)\<close> of both handshake services.\<close>

definition v3_HandshakeService_ready :: "'e + unit \<Rightarrow> ('e, 'io) MqttError + unit" where
  "v3_HandshakeService_ready service = map_sum ME_Service (\<lambda>u. u) service"

definition v5_HandshakeService_ready :: "'e + unit \<Rightarrow> ('e, 'io) MqttError + unit" where
  "v5_HandshakeService_ready service = map_sum ME_Service (\<lambda>u. u) service"

record ('h, 'c, 'p) v5_ServerBuild =
  sb5_settings :: v5_MqttServer
  sb5_handshake :: 'h
  sb5_control :: 'c
  sb5_publish :: 'p

definition v5_ServerBuild_new :: "IoConfig \<Rightarrow> 'h \<Rightarrow>
    ('h, 'ses \<Rightarrow> 'e + ('e, 'io) v5_control_service, 'ses \<Rightarrow> 'e + (v5_Publish \<times> u32 \<Rightarrow> 't + v5_PubAck)) v5_ServerBuild" where
  "v5_ServerBuild_new config handshake =
     \<lparr>sb5_settings = v5_MqttServer_new config, sb5_handshake = handshake,
      sb5_control = v5_default_control_factory, sb5_publish = v5_default_publish_factory\<rparr>"

definition v5_ServerBuild_set :: "(v5_MqttServer \<Rightarrow> v5_MqttServer) \<Rightarrow> ('h, 'c, 'p) v5_ServerBuild \<Rightarrow> ('h, 'c, 'p) v5_ServerBuild" where
  "v5_ServerBuild_set f b = b\<lparr>sb5_settings := f (sb5_settings b)\<rparr>"

definition v5_MqttServer_disconnect_timeout :: "(u16 \<Rightarrow> IoConfig \<Rightarrow> IoConfig) \<Rightarrow> u16 \<Rightarrow> v5_MqttServer \<Rightarrow> v5_MqttServer" where
  "v5_MqttServer_disconnect_timeout set_disconnect_timeout val m = m\<lparr>ms5_config := set_disconnect_timeout val (ms5_config m)\<rparr>"

definition v5_MqttServer_frame_read_rate :: "(u16 \<Rightarrow> u16 \<Rightarrow> u16 \<Rightarrow> IoConfig \<Rightarrow> IoConfig) \<Rightarrow> u16 \<Rightarrow> u16 \<Rightarrow> u16 \<Rightarrow> v5_MqttServer \<Rightarrow> v5_MqttServer" where
  "v5_MqttServer_frame_read_rate set_frame_read_rate timeout max_timeout rate m =
     m\<lparr>ms5_config := set_frame_read_rate timeout max_timeout rate (ms5_config m)\<rparr>"

definition v5_MqttServer_receive_max :: "u16 \<Rightarrow> v5_MqttServer \<Rightarrow> v5_MqttServer" where
  "v5_MqttServer_receive_max val m = m\<lparr>ms5_max_receive := val\<rparr>"

definition v5_MqttServer_max_inflight_size :: "nat \<Rightarrow> v5_MqttServer \<Rightarrow> v5_MqttServer" where
  "v5_MqttServer_max_inflight_size val m = m\<lparr>ms5_max_receive_size := val\<rparr>"

definition v5_ServerBuild_control :: "'c2 \<Rightarrow> ('h, 'c, 'p) v5_ServerBuild \<Rightarrow> ('h, 'c2, 'p) v5_ServerBuild" where
  "v5_ServerBuild_control service b =
     \<lparr>sb5_settings = sb5_settings b, sb5_handshake = sb5_handshake b, sb5_control = service, sb5_publish = sb5_publish b\<rparr>"

definition v5_ServerBuild_publish :: "'p2 \<Rightarrow> ('h, 'c, 'p) v5_ServerBuild \<Rightarrow> ('h, 'c, 'p2) v5_ServerBuild" where
  "v5_ServerBuild_publish publish b =
     \<lparr>sb5_settings = sb5_settings b, sb5_handshake = sb5_handshake b, sb5_control = sb5_control b, sb5_publish = publish\<rparr>"

text \<open>\<open>finish\<close>.\<close>

definition v3_handshake_factory :: "('h, 'c, 'p) v3_ServerBuild \<Rightarrow> 'h v3_HandshakeFactory" where
  "v3_handshake_factory b =
     \<lparr>hf3_factory = sb3_handshake b, hf3_max_size = ms3_max_size (sb3_settings b), hf3_max_send = ms3_max_send (sb3_settings b),
      hf3_max_send_size = sb3_max_send_size b, hf3_connect_timeout = ms3_connect_timeout (sb3_settings b)\<rparr>"

definition v5_handshake_factory :: "(u16 \<Rightarrow> 'ms) \<Rightarrow> ('h, 'c, 'p) v5_ServerBuild \<Rightarrow> ('h, 'ms) v5_HandshakeFactory" where
  "v5_handshake_factory into b =
     \<lparr>hf5_factory = sb5_handshake b, hf5_cfg = v5_handshake_cfg (sb5_settings b),
      hf5_connect_timeout = into (ms5_connect_timeout (sb5_settings b))\<rparr>"

text \<open>The two arguments of \<open>MqttServer::new\<close> in \<open>finish\<close>, as services: the handshake makes the session from the state of the
  user and the sink, the dispatcher factory makes the user's services from the session.\<close>

definition v5_connect_service :: "v5_HandshakeCfg \<Rightarrow> v5_Env \<Rightarrow> (v5_Handshake \<Rightarrow> 'e + 'st v5_HandshakeAck) \<Rightarrow> (v5_Packet, 'io) first_packet
    \<Rightarrow> (('e, 'io) MqttError, v5_Shared \<times> (v5_Shared, 'st) Session \<times> u16) res" where
  "v5_connect_service cfg env handshake first =
     bindR (fst (v5_handshake_call cfg env handshake first)) (\<lambda>(shared, st, keepalive). Ok (shared, Session_new st shared, keepalive))"

definition v5_dispatcher_factory :: "v5_MqttServer \<Rightarrow> ('t \<Rightarrow> 'e + v5_PubAck) \<Rightarrow> ('t \<Rightarrow> 'e)
    \<Rightarrow> ((v5_Shared, 'st) Session \<Rightarrow> 'e + 'p) \<Rightarrow> ((v5_Shared, 'st) Session \<Rightarrow> 'e + 'c) \<Rightarrow> (v5_Shared, 'st) Session
    \<Rightarrow> (('e, 'io) MqttError, v5_Inner \<times> ('t, 'e) v5_DispatcherCfg \<times> ('p \<times> 'c) \<times> unit CounterInner) res" where
  "v5_dispatcher_factory m try_from from_err publish control ses =
     bindR (create_services publish control ses) (\<lambda>services.
       let (cfg, counter) = v5_factory m try_from from_err in Ok (v5_Inner_new (Session_sink ses), cfg, services, counter))"

definition v5_handler :: "v5_MqttServer \<Rightarrow> v5_Env \<Rightarrow> (v5_Handshake \<Rightarrow> 'e + 'st v5_HandshakeAck) \<Rightarrow> ('t \<Rightarrow> 'e + v5_PubAck) \<Rightarrow> ('t \<Rightarrow> 'e)
    \<Rightarrow> ((v5_Shared, 'st) Session \<Rightarrow> 'e + 'p) \<Rightarrow> ((v5_Shared, 'st) Session \<Rightarrow> 'e + 'c)
    \<Rightarrow> ((v5_Packet, 'io) first_packet \<Rightarrow> (('e, 'io) MqttError, v5_Shared \<times> (v5_Shared, 'st) Session \<times> u16) res,
        (v5_Shared, 'st) Session \<Rightarrow> (('e, 'io) MqttError, v5_Inner \<times> ('t, 'e) v5_DispatcherCfg \<times> ('p \<times> 'c) \<times> unit CounterInner) res) MqttHandler" where
  "v5_handler m env handshake try_from from_err publish control =
     \<lparr>mh_connect = v5_connect_service (v5_handshake_cfg m) env handshake,
      mh_handler = v5_dispatcher_factory m try_from from_err publish control, mh_config = ms5_config m\<rparr>"

definition v3_connect_service :: "u16 \<Rightarrow> v3_Env \<Rightarrow> (v3_Handshake \<Rightarrow> 'e + 'st v3_HandshakeAck) \<Rightarrow> (v3_Packet, 'io) first_packet
    \<Rightarrow> (('e, 'io) MqttError, v3_Shared \<times> (v3_Shared, 'st) Session \<times> u16) res" where
  "v3_connect_service max_send env handshake first =
     bindR (fst (v3_handshake_call max_send env handshake first)) (\<lambda>(shared, st, keepalive). Ok (shared, Session_new st shared, keepalive))"

definition v3_dispatcher_factory :: "v3_MqttServer
    \<Rightarrow> ((v3_Shared, 'st) Session \<Rightarrow> 'e + 'p) \<Rightarrow> ((v3_Shared, 'st) Session \<Rightarrow> 'e + 'c) \<Rightarrow> (v3_Shared, 'st) Session
    \<Rightarrow> (('e, 'io) MqttError, v3_Inner \<times> v3_DispatcherCfg \<times> ('p \<times> 'c) \<times> unit CounterInner) res" where
  "v3_dispatcher_factory m publish control ses =
     bindR (create_services publish control ses) (\<lambda>services.
       let (cfg, counter) = v3_factory m in Ok (\<lparr>in3_sink = Session_sink ses, in3_inflight = {}\<rparr>, cfg, services, counter))"

definition v3_handler :: "v3_MqttServer \<Rightarrow> v3_Env \<Rightarrow> (v3_Handshake \<Rightarrow> 'e + 'st v3_HandshakeAck)
    \<Rightarrow> ((v3_Shared, 'st) Session \<Rightarrow> 'e + 'p) \<Rightarrow> ((v3_Shared, 'st) Session \<Rightarrow> 'e + 'c)
    \<Rightarrow> ((v3_Packet, 'io) first_packet \<Rightarrow> (('e, 'io) MqttError, v3_Shared \<times> (v3_Shared, 'st) Session \<times> u16) res,
        (v3_Shared, 'st) Session \<Rightarrow> (('e, 'io) MqttError, v3_Inner \<times> v3_DispatcherCfg \<times> ('p \<times> 'c) \<times> unit CounterInner) res) MqttHandler" where
  "v3_handler m env handshake publish control =
     \<lparr>mh_connect = v3_connect_service (ms3_max_send m) env handshake,
      mh_handler = v3_dispatcher_factory m publish control, mh_config = ms3_config m\<rparr>"

section \<open>The server for both protocols\<close>

text \<open>A service takes a connection; \<open>'ms\<close> is \<open>Millis\<close>.\<close>

type_synonym ('e, 'io) conn_service = "'io connection \<Rightarrow> (('e, 'io) MqttError, unit) res"

record ('f3, 'f5, 'ms) MqttServer =
  srv_v3 :: 'f3
  srv_v5 :: 'f5
  srv_connect_timeout :: 'ms

text \<open>\<open>DefaultProtocolServer\<close> as a factory.\<close>

definition DefaultProtocolServer_create :: "(string \<Rightarrow> 'io) \<Rightarrow> ProtocolVersion \<Rightarrow> unit \<Rightarrow> 'init + ('e, 'io) conn_service" where
  "DefaultProtocolServer_create other ver _ = Inr (default_protocol_server other ver)"

definition MqttServer_new :: "(string \<Rightarrow> 'io) \<Rightarrow> (nat \<Rightarrow> 'ms)
    \<Rightarrow> (unit \<Rightarrow> 'init + ('e, 'io) conn_service, unit \<Rightarrow> 'init + ('e, 'io) conn_service, 'ms) MqttServer" where
  "MqttServer_new other millis =
     \<lparr>srv_v3 = DefaultProtocolServer_create other MQTT3, srv_v5 = DefaultProtocolServer_create other MQTT5,
      srv_connect_timeout = millis 5000\<rparr>"

definition MqttServer_protocol_version_timeout :: "(u16 \<Rightarrow> 'ms) \<Rightarrow> u16 \<Rightarrow> ('f3, 'f5, 'ms) MqttServer \<Rightarrow> ('f3, 'f5, 'ms) MqttServer" where
  "MqttServer_protocol_version_timeout into timeout s = s\<lparr>srv_connect_timeout := into timeout\<rparr>"

text \<open>\<open>service\<close> is the result of \<open>finish\<close>.\<close>

definition MqttServer_v3 :: "'g3 \<Rightarrow> ('f3, 'f5, 'ms) MqttServer \<Rightarrow> ('g3, 'f5, 'ms) MqttServer" where
  "MqttServer_v3 service s = \<lparr>srv_v3 = service, srv_v5 = srv_v5 s, srv_connect_timeout = srv_connect_timeout s\<rparr>"

definition MqttServer_v5 :: "'g5 \<Rightarrow> ('f3, 'f5, 'ms) MqttServer \<Rightarrow> ('f3, 'g5, 'ms) MqttServer" where
  "MqttServer_v5 service s = \<lparr>srv_v3 = srv_v3 s, srv_v5 = service, srv_connect_timeout = srv_connect_timeout s\<rparr>"

record ('s3, 's5, 'ms) MqttServerImpl =
  si_handlers :: "'s3 \<times> 's5"
  si_connect_timeout :: 'ms

definition MqttServer_create_service :: "(unit \<Rightarrow> 'init + 's3, unit \<Rightarrow> 'init + 's5, 'ms) MqttServer \<Rightarrow> 'init + ('s3, 's5, 'ms) MqttServerImpl" where
  "MqttServer_create_service s =
     (case srv_v3 s () of
        Inl e \<Rightarrow> Inl e
      | Inr v3 \<Rightarrow>
          (case srv_v5 s () of
             Inl e \<Rightarrow> Inl e
           | Inr v5 \<Rightarrow> Inr \<lparr>si_handlers = (v3, v5), si_connect_timeout = srv_connect_timeout s\<rparr>))"

definition MqttServerImpl_ready :: "'e + unit \<Rightarrow> 'e + unit \<Rightarrow> 'e + unit" where
  "MqttServerImpl_ready ready1 ready2 = (case ready1 of Inl e \<Rightarrow> Inl e | Inr _ \<Rightarrow> ready2)"

text \<open>\<open>shutdown\<close> of the two services, one after the other; \<open>'w\<close> is what they act on.\<close>

definition MqttServerImpl_shutdown :: "('s3 \<Rightarrow> 'w \<Rightarrow> 'w) \<Rightarrow> ('s5 \<Rightarrow> 'w \<Rightarrow> 'w) \<Rightarrow> ('s3, 's5, 'ms) MqttServerImpl \<Rightarrow> 'w \<Rightarrow> 'w" where
  "MqttServerImpl_shutdown shutdown3 shutdown5 s w = shutdown5 (snd (si_handlers s)) (shutdown3 (fst (si_handlers s)) w)"

definition MqttServerImpl_call :: "(('e, 'io) conn_service, ('e, 'io) conn_service, 'ms) MqttServerImpl \<Rightarrow> ('e, 'io) conn_service" where
  "MqttServerImpl_call s io = server_call (fst (si_handlers s)) (snd (si_handlers s)) io"

interpretation ready_server: joined_ready MqttServerImpl_ready "\<lambda>e. e" "\<lambda>e. e"
  by unfold_locales (simp_all add: MqttServerImpl_ready_def)

section \<open>Lemmas\<close>

text \<open>\<open>v3_serve\<close> and \<open>v5_serve\<close> are the call of these handlers, for services that depend on the state of the session only.\<close>

lemma v5_handler_call:
  fixes publish :: "'st \<Rightarrow> 'e + 'p"
  shows "v5_serve m env handshake try_from from_err publish control first =
    bindR (MqttHandler_call (v5_handler m env handshake try_from from_err (\<lambda>ses. publish (Session_deref ses)) (\<lambda>ses. control (Session_deref ses))) first)
      (\<lambda>(_, (inner, cfg, services, counter), io). Ok \<lparr>rc_inner = inner, rc_cfg = cfg, rc_services = services, rc_counter = counter, rc_io = io\<rparr>)"
  by (cases "fst (v5_handshake_call (v5_handshake_cfg m) env handshake first)")
    (auto simp: v5_serve_def MqttHandler_call_def v5_handler_def v5_connect_service_def v5_dispatcher_factory_def
      Session_new_def Session_deref_def Session_sink_def create_services_def Let_def split: sum.splits prod.splits)

lemma v3_handler_call:
  fixes publish :: "'st \<Rightarrow> 'e + 'p"
  shows "v3_serve m env handshake publish control first =
    bindR (MqttHandler_call (v3_handler m env handshake (\<lambda>ses. publish (Session_deref ses)) (\<lambda>ses. control (Session_deref ses))) first)
      (\<lambda>(_, (inner, cfg, services, counter), io). Ok (v3_set_max_size (unat (ms3_max_size m)) v3_Codec_new,
         \<lparr>rc_inner = inner, rc_cfg = cfg, rc_services = services, rc_counter = counter, rc_io = io\<rparr>))"
  by (cases "fst (v3_handshake_call (ms3_max_send m) env handshake first)")
    (auto simp: v3_serve_def MqttHandler_call_def v3_handler_def v3_connect_service_def v3_dispatcher_factory_def
      Session_new_def Session_deref_def Session_sink_def create_services_def Let_def split: sum.splits prod.splits)

lemma create_service_handlers:
  assumes "MqttServer_create_service s = Inr impl"
  shows "srv_v3 s () = Inr (fst (si_handlers impl))" "srv_v5 s () = Inr (snd (si_handlers impl))"
    "si_connect_timeout impl = srv_connect_timeout s"
  using assms by (auto simp: MqttServer_create_service_def split: sum.splits)

text \<open>The first bytes of a client of a version: a CONNECT that the codec of that version wrote.\<close>

definition connect_bytes :: "ProtocolVersion \<Rightarrow> bytes \<Rightarrow> bool" where
  "connect_bytes ver bs \<longleftrightarrow>
     (ver = MQTT3 \<and> (\<exists>con u. bs = fst (v3_codec_encode (V3_Connect con)) \<and> v3_wf u (V3_Connect con) \<and>
        v3_get_encoded_size (V3_Connect con) \<le> 268435455)) \<or>
     (ver = MQTT5 \<and> (\<exists>con c n. bs = fst (v5_codec_encode c (V5_Connect con)) \<and>
        v5_encoded_size (V5_Connect con) (v5_out_limit c) = Ok n \<and> n \<le> v5_out_limit c \<and> n \<le> 268435455))"

lemma connect_bytes_version:
  assumes "connect_bytes ver bs"
  shows "version_decode (bs @ r) = Ok (Some ver)"
  using assms version_decode_v3_connect version_decode_v5_connect unfolding connect_bytes_def by blast

lemma connect_bytes_sample: "connect_bytes MQTT3 (fst (v3_codec_encode (V3_Connect v3_connect_sample)))"
proof -
  have "v3_wf (\<lambda>_. True) (V3_Connect v3_connect_sample)" "v3_get_encoded_size (V3_Connect v3_connect_sample) \<le> 268435455"
    by (simp_all add: v3_connect_sample_def str_ok_def bin_ok_def)
  then show ?thesis unfolding connect_bytes_def by blast
qed

lemma concat_singletons: "concat (map (\<lambda>b. [b]) bs) = bs"
  by (induction bs) simp_all

section \<open>Properties\<close>

text \<open>C21: A server that was created from its settings gives a connection to the service of the version the client
  speaks, from the first byte on and however the bytes are cut into chunks: a client that starts with
  a CONNECT of a version reaches the service that the factory of this version made, once enough of the
  packet has arrived.\<close>

theorem server_serves_version:
  assumes "MqttServer_create_service s = Inr impl" and "connect_bytes ver bs" and "buffer @ concat chunks = bs @ r"
  shows "\<exists>srv pre post. (case ver of MQTT3 \<Rightarrow> srv_v3 s | MQTT5 \<Rightarrow> srv_v5 s) () = Inr srv \<and> chunks = pre @ post \<and>
    MqttServerImpl_call impl \<lparr>cn_buffer = buffer, cn_chunks = chunks, cn_end = ending\<rparr> =
      srv \<lparr>cn_buffer = buffer @ concat pre, cn_chunks = post, cn_end = ending\<rparr>"
proof -
  have "version_decode (buffer @ concat chunks) = Ok (Some ver)" unfolding assms(3) by (rule connect_bytes_version [OF assms(2)])
  from server_call_routes [OF this, of "fst (si_handlers impl)" "snd (si_handlers impl)" ending]
  show ?thesis using create_service_handlers [OF assms(1)] by (cases ver) (auto simp: MqttServerImpl_call_def)
qed

theorem server_serves_version_witness:
  "\<exists>impl. MqttServer_create_service (MqttServer_v3 (\<lambda>_. Inr (\<lambda>_. Ok ())) (MqttServer_new (\<lambda>_. ()) (\<lambda>n. n))) = (Inr impl :: unit + _) \<and>
     MqttServerImpl_call impl
       \<lparr>cn_buffer = [], cn_chunks = map (\<lambda>b. [b]) (fst (v3_codec_encode (V3_Connect v3_connect_sample))), cn_end = SE_timeout\<rparr> =
     (Ok () :: ((unit, unit) MqttError, unit) res)"
proof -
  let ?bs = "fst (v3_codec_encode (V3_Connect v3_connect_sample))"
  let ?s = "MqttServer_v3 (\<lambda>_. Inr (\<lambda>_. Ok ())) (MqttServer_new (\<lambda>_. ()) (\<lambda>n. n))
    :: (unit \<Rightarrow> unit + (unit, unit) conn_service, unit \<Rightarrow> unit + (unit, unit) conn_service, nat) MqttServer"
  obtain impl where impl: "MqttServer_create_service ?s = Inr impl"
    by (simp add: MqttServer_create_service_def MqttServer_v3_def MqttServer_new_def DefaultProtocolServer_create_def)
  have "[] @ concat (map (\<lambda>b. [b]) ?bs) = ?bs @ []" by (simp add: concat_singletons)
  from server_serves_version [OF impl connect_bytes_sample this, where ending = SE_timeout]
  show ?thesis using impl by (auto simp: MqttServer_v3_def)
qed

text \<open>C22: A server on which only one protocol was configured refuses the clients of the other: it is created
  whenever the configured service is, and a client that starts with a CONNECT of the other version is
  disconnected with the error that names this version, after its first bytes and without any answer.\<close>

theorem server_refuses_unconfigured:
  assumes "service () = Inr srv" and "connect_bytes ver bs" and "buffer @ concat chunks = bs @ r"
    and "s = (case ver of MQTT3 \<Rightarrow> MqttServer_v5 service (MqttServer_new other millis) | MQTT5 \<Rightarrow> MqttServer_v3 service (MqttServer_new other millis))"
  shows "\<exists>impl. MqttServer_create_service s = Inr impl \<and>
    MqttServerImpl_call impl \<lparr>cn_buffer = buffer, cn_chunks = chunks, cn_end = ending\<rparr> =
      Err (ME_Handshake (HE_Disconnected (Some (other (''Protocol is not supported: '' @ (case ver of MQTT3 \<Rightarrow> ''MQTT3'' | MQTT5 \<Rightarrow> ''MQTT5''))))))"
proof -
  have "version_decode (buffer @ concat chunks) = Ok (Some ver)" unfolding assms(3) by (rule connect_bytes_version [OF assms(2)])
  note route = server_call_routes [OF this, where ending = ending]
  show ?thesis
  proof (cases ver)
    case MQTT3
    then show ?thesis using assms(1,4) route [of "default_protocol_server other MQTT3" srv]
      by (auto simp: MqttServer_create_service_def MqttServer_v5_def MqttServer_new_def DefaultProtocolServer_create_def
          MqttServerImpl_call_def default_protocol_server_def)
  next
    case MQTT5
    then show ?thesis using assms(1,4) route [of srv "default_protocol_server other MQTT5"]
      by (auto simp: MqttServer_create_service_def MqttServer_v3_def MqttServer_new_def DefaultProtocolServer_create_def
          MqttServerImpl_call_def default_protocol_server_def)
  qed
qed

theorem server_refuses_unconfigured_witness:
  "\<exists>impl. MqttServer_create_service (MqttServer_v5 (\<lambda>_. Inr (\<lambda>_. Ok ())) (MqttServer_new (\<lambda>msg. msg) (\<lambda>n. n))) = (Inr impl :: unit + _) \<and>
     MqttServerImpl_call impl
       \<lparr>cn_buffer = fst (v3_codec_encode (V3_Connect v3_connect_sample)), cn_chunks = [], cn_end = SE_closed\<rparr> =
     (Err (ME_Handshake (HE_Disconnected (Some ''Protocol is not supported: MQTT3''))) :: ((unit, string) MqttError, unit) res)"
  using server_refuses_unconfigured [where ver = MQTT3 and buffer = "fst (v3_codec_encode (V3_Connect v3_connect_sample))" and chunks = "[]"
      and r = "[]" and service = "\<lambda>_. Inr (\<lambda>_. Ok ()) :: unit + _" and ending = SE_closed and other = "\<lambda>msg. msg" and millis = "\<lambda>n. n",
      OF refl connect_bytes_sample] by simp

end
