(* ===== verification/Client_Connection.thy ===== *)
theory Client_Connection
  imports Connector Builder Services
begin

text \<open>
  Running a client: the rest of \<open>src/v3/client/connector.rs\<close> and \<open>src/v5/client/connector.rs\<close>, and \<open>Client\<close>,
  \<open>ClientRouter\<close> and the keep-alive task of \<open>src/v3/client/connection.rs\<close> and \<open>src/v5/client/connection.rs\<close>. The
  \<open>DispatcherConfig\<close> of a connector is an argument where it is used.
\<close>

section \<open>Connectors\<close>

definition v3_Connector_max_packet_size :: "u32 \<Rightarrow> v3_Connector \<Rightarrow> v3_Connector" where
  "v3_Connector_max_packet_size val m = m\<lparr>mc3_max_size := val\<rparr>"

definition v5_Connector_receive_max :: "u16 \<Rightarrow> v5_Connector \<Rightarrow> v5_Connector" where
  "v5_Connector_receive_max val = v5_Connector_max_receive val"

text \<open>A connector with the network service it uses: \<open>connector\<close> replaces the service, \<open>disconnect_timeout\<close> the setting of
  the stream dispatcher.\<close>

record ('m, 'net) connector =
  con_settings :: 'm
  con_config :: IoConfig
  con_connector :: 'net

definition v3_Connector_connector :: "'net2 \<Rightarrow> ('m, 'net) connector \<Rightarrow> ('m, 'net2) connector" where
  "v3_Connector_connector net c = \<lparr>con_settings = con_settings c, con_config = con_config c, con_connector = net\<rparr>"

definition v5_Connector_connector :: "'net2 \<Rightarrow> ('m, 'net) connector \<Rightarrow> ('m, 'net2) connector" where
  "v5_Connector_connector net c = \<lparr>con_settings = con_settings c, con_config = con_config c, con_connector = net\<rparr>"

definition v3_Connector_disconnect_timeout :: "(u16 \<Rightarrow> IoConfig \<Rightarrow> IoConfig) \<Rightarrow> u16 \<Rightarrow> ('m, 'net) connector \<Rightarrow> ('m, 'net) connector" where
  "v3_Connector_disconnect_timeout set_disconnect_timeout timeout c = c\<lparr>con_config := set_disconnect_timeout timeout (con_config c)\<rparr>"

definition v5_Connector_disconnect_timeout :: "(u16 \<Rightarrow> IoConfig \<Rightarrow> IoConfig) \<Rightarrow> u16 \<Rightarrow> ('m, 'net) connector \<Rightarrow> ('m, 'net) connector" where
  "v5_Connector_disconnect_timeout set_disconnect_timeout timeout c = c\<lparr>con_config := set_disconnect_timeout timeout (con_config c)\<rparr>"

section \<open>The keep-alive task\<close>

text \<open>\<open>keepalive\<close>: the list has the state of the stream after each sleep. The result tells if the task goes on.\<close>

fun v3_keepalive :: "v3_Env list \<Rightarrow> v3_Shared \<Rightarrow> bool \<times> v3_Shared" where
  "v3_keepalive [] s = (True, s)"
| "v3_keepalive (env # envs) s =
     (case v3_keepalive_tick env s of
        (True, s') \<Rightarrow> v3_keepalive envs s'
      | (False, s') \<Rightarrow> (False, s'))"

fun v5_keepalive :: "v5_Env list \<Rightarrow> v5_Shared \<Rightarrow> bool \<times> v5_Shared" where
  "v5_keepalive [] s = (True, s)"
| "v5_keepalive (env # envs) s =
     (case v5_keepalive_tick env s of
        (True, s') \<Rightarrow> v5_keepalive envs s'
      | (False, s') \<Rightarrow> (False, s'))"

text \<open>\<open>if self.keepalive.non_zero() { spawn(keepalive(..)) }\<close>: the period of the task, if there is one.\<close>

definition spawn_keepalive :: "u16 \<Rightarrow> u16 option" where
  "spawn_keepalive keepalive = (if keepalive \<noteq> 0 then Some keepalive else None)"

section \<open>MQTT 3.1.1 clients\<close>

text \<open>A started client: the dispatcher with its limit and its services, the keep-alive task and the stream dispatcher.\<close>

record ('inner, 'cfg, 'pub, 'ctl, 'pkt, 'e, 'io) running_client =
  rcl_inner :: 'inner
  rcl_cfg :: 'cfg
  rcl_publish :: 'pub
  rcl_control :: 'ctl
  rcl_keepalive :: "u16 option"
  rcl_io :: "('pkt, ('e, 'io) MqttError, 'io) DispatcherInner"

text \<open>\<open>create_dispatcher\<close>: the number of calls in progress is limited by the service of \<open>ntex_util\<close> around the dispatcher.\<close>

definition v3_create_dispatcher :: "v3_Shared \<Rightarrow> nat \<Rightarrow> v3_Inner \<times> nat" where
  "v3_create_dispatcher sink inflight = (\<lparr>in3_sink = sink, in3_inflight = {}\<rparr>, inflight)"

type_synonym ('path, 'x, 'e) v3_client_publish = "'path v3_PublishMsg \<Rightarrow> ('x, 'e + (unit + 'path v3_PublishMsg)) res"
type_synonym ('e, 'io) v3_client_control = "('e, 'io) v3c_Control \<Rightarrow> 'e + v3_ControlAckKind"

definition v3_run_client :: "IoConfig \<Rightarrow> v3_Client \<Rightarrow> 'pub \<Rightarrow> 'ctl \<Rightarrow> (v3_Inner, nat, 'pub, 'ctl, v3_Packet, 'e, 'io) running_client" where
  "v3_run_client config cl publish control =
     (let (inner, limit) = v3_create_dispatcher (cl3_shared cl) (cl3_max_receive cl) in
      \<lparr>rcl_inner = inner, rcl_cfg = limit, rcl_publish = publish, rcl_control = control,
       rcl_keepalive = spawn_keepalive (cl3_keepalive cl), rcl_io = io_new config\<rparr>)"

text \<open>\<open>Client::start\<close> hands every message to the control service, \<open>Client::start_default\<close> disconnects on every control
  message.\<close>

definition v3_Client_start :: "IoConfig \<Rightarrow> v3_Client \<Rightarrow> ('e, 'io) v3_client_control
    \<Rightarrow> (v3_Inner, nat, ('path, 'x, 'e) v3_client_publish, ('e, 'io) v3_client_control, v3_Packet, 'e, 'io) running_client" where
  "v3_Client_start config cl service = v3_run_client config cl (\<lambda>pkt. Ok (Inr (Inr pkt))) service"

definition v3_Client_start_default :: "IoConfig \<Rightarrow> v3_Client
    \<Rightarrow> (v3_Inner, nat, ('path, 'x, 'e) v3_client_publish, ('e, 'io) v3_client_control, v3_Packet, 'e, 'io) running_client" where
  "v3_Client_start_default config cl =
     v3_run_client config cl (\<lambda>pkt. Ok (Inr (Inr pkt))) (\<lambda>msg. Inr (v3c_Control_disconnect msg))"

definition v3_Client_into_inner :: "v3_Client \<Rightarrow> v3_Codec" where
  "v3_Client_into_inner cl = cl3_codec cl"

record ('addr, 'h) v3_ClientRouter =
  cr3_routes :: "('addr, 'h) Router"
  cr3_client :: v3_Client

definition v3_Client_resource :: "'addr \<Rightarrow> 'h \<Rightarrow> v3_Client \<Rightarrow> ('addr, 'h) v3_ClientRouter" where
  "v3_Client_resource address service cl =
     \<lparr>cr3_routes = \<lparr>rt_router = [(address, 0)], rt_handlers = [service]\<rparr>, cr3_client = cl\<rparr>"

definition v3_ClientRouter_resource :: "'addr \<Rightarrow> 'h \<Rightarrow> ('addr, 'h) v3_ClientRouter \<Rightarrow> ('addr, 'h) v3_ClientRouter" where
  "v3_ClientRouter_resource address service r = r\<lparr>cr3_routes := Router_resource address service (cr3_routes r)\<rparr>"

definition v3_ClientRouter_start :: "IoConfig \<Rightarrow> ('p \<Rightarrow> 'e) \<Rightarrow> 'path recognizer
    \<Rightarrow> ('addr, 'path v3_PublishMsg \<Rightarrow> 'p + unit) v3_ClientRouter \<Rightarrow> ('e, 'io) v3_client_control
    \<Rightarrow> (v3_Inner, nat, ('path, 'x, 'e) v3_client_publish, ('e, 'io) v3_client_control, v3_Packet, 'e, 'io) running_client" where
  "v3_ClientRouter_start config into recognize r service =
     v3_run_client config (cr3_client r) (v3_client_dispatch into recognize (cr3_routes r)) service"

definition v3_ClientRouter_start_default :: "IoConfig \<Rightarrow> ('p \<Rightarrow> 'e) \<Rightarrow> 'path recognizer
    \<Rightarrow> ('addr, 'path v3_PublishMsg \<Rightarrow> 'p + unit) v3_ClientRouter
    \<Rightarrow> (v3_Inner, nat, ('path, 'x, 'e) v3_client_publish, ('e, 'io) v3_client_control, v3_Packet, 'e, 'io) running_client" where
  "v3_ClientRouter_start_default config into recognize r =
     v3_run_client config (cr3_client r) (v3_client_dispatch into recognize (cr3_routes r)) (\<lambda>msg. Inr (v3c_Control_disconnect msg))"

section \<open>MQTT 5 clients\<close>

definition v5_create_dispatcher :: "v5_Shared \<Rightarrow> nat \<Rightarrow> u16 \<Rightarrow> v5_Inner \<times> v5c_DispatcherCfg" where
  "v5_create_dispatcher sink max_receive max_topic_alias =
     (v5_Inner_new sink, \<lparr>dcc5_max_receive = max_receive, dcc5_max_topic_alias = max_topic_alias\<rparr>)"

text \<open>The publish service of a client with resources has an alias table.\<close>

type_synonym ('path, 'x, 'e) v5_client_publish =
  "'path v5_PublishMsg \<Rightarrow> (u16 \<rightharpoonup> nat \<times> 'path) \<Rightarrow> ('x, 'e + ('path v5_PublishMsg + v5_PubAck)) res \<times> (u16 \<rightharpoonup> nat \<times> 'path)"
type_synonym ('e, 'io) v5_client_control = "('e, 'io) v5c_Control \<Rightarrow> 'e + v5_ControlAck"

definition v5_run_client :: "IoConfig \<Rightarrow> v5_Client \<Rightarrow> 'pub \<Rightarrow> 'ctl \<Rightarrow> (v5_Inner, v5c_DispatcherCfg, 'pub, 'ctl, v5_Packet, 'e, 'io) running_client" where
  "v5_run_client config cl publish control =
     (let (inner, cfg) = v5_create_dispatcher (cl5_shared cl) (cl5_max_receive cl) 16 in
      \<lparr>rcl_inner = inner, rcl_cfg = cfg, rcl_publish = publish, rcl_control = control,
       rcl_keepalive = spawn_keepalive (cl5_keepalive cl), rcl_io = io_new config\<rparr>)"

definition v5_Client_new :: "v5_Shared \<Rightarrow> v5_ConnectAck \<Rightarrow> u16 \<Rightarrow> u16 \<Rightarrow> v5_Client" where
  "v5_Client_new shared pkt max_receive keepalive =
     \<lparr>cl5_shared = shared, cl5_pkt = pkt, cl5_max_receive = unat max_receive, cl5_keepalive = keepalive\<rparr>"

definition v5_Client_session_present :: "v5_Client \<Rightarrow> bool" where
  "v5_Client_session_present cl = cack5_session_present (cl5_pkt cl)"

definition v5_Client_packet_mut :: "(v5_ConnectAck \<Rightarrow> v5_ConnectAck) \<Rightarrow> v5_Client \<Rightarrow> v5_Client" where
  "v5_Client_packet_mut f cl = cl\<lparr>cl5_pkt := f (cl5_pkt cl)\<rparr>"

definition v5_Client_start :: "IoConfig \<Rightarrow> v5_Client \<Rightarrow> ('e, 'io) v5_client_control
    \<Rightarrow> (v5_Inner, v5c_DispatcherCfg, ('path, 'x, 'e) v5_client_publish, ('e, 'io) v5_client_control, v5_Packet, 'e, 'io) running_client" where
  "v5_Client_start config cl service = v5_run_client config cl (\<lambda>pkt aliases. (Ok (Inr (Inl pkt)), aliases)) service"

definition v5_Client_start_default :: "IoConfig \<Rightarrow> v5_Client
    \<Rightarrow> (v5_Inner, v5c_DispatcherCfg, ('path, 'x, 'e) v5_client_publish, ('e, 'io) v5_client_control, v5_Packet, 'e, 'io) running_client" where
  "v5_Client_start_default config cl =
     v5_run_client config cl (\<lambda>pkt aliases. (Ok (Inr (Inl pkt)), aliases)) (\<lambda>msg. Inr (v5c_Control_disconnect v5_Disconnect_default))"

definition v5_Client_into_inner :: "v5_Client \<Rightarrow> v5_Codec" where
  "v5_Client_into_inner cl = sh_codec (cl5_shared cl)"

record ('addr, 'h) v5_ClientRouter =
  cr5_routes :: "('addr, 'h) Router"
  cr5_client :: v5_Client

definition v5_Client_resource :: "'addr \<Rightarrow> 'h \<Rightarrow> v5_Client \<Rightarrow> ('addr, 'h) v5_ClientRouter" where
  "v5_Client_resource address service cl =
     \<lparr>cr5_routes = \<lparr>rt_router = [(address, 0)], rt_handlers = [service]\<rparr>, cr5_client = cl\<rparr>"

definition v5_ClientRouter_resource :: "'addr \<Rightarrow> 'h \<Rightarrow> ('addr, 'h) v5_ClientRouter \<Rightarrow> ('addr, 'h) v5_ClientRouter" where
  "v5_ClientRouter_resource address service r = r\<lparr>cr5_routes := Router_resource address service (cr5_routes r)\<rparr>"

definition v5_ClientRouter_start :: "IoConfig \<Rightarrow> ('p \<Rightarrow> 'e + v5_PubAck) \<Rightarrow> 'path recognizer
    \<Rightarrow> ('addr, 'path v5_PublishMsg \<Rightarrow> 'p + v5_PubAck) v5_ClientRouter \<Rightarrow> ('e, 'io) v5_client_control
    \<Rightarrow> (v5_Inner, v5c_DispatcherCfg, ('path, 'x, 'e) v5_client_publish, ('e, 'io) v5_client_control, v5_Packet, 'e, 'io) running_client" where
  "v5_ClientRouter_start config try_from recognize r service =
     v5_run_client config (cr5_client r) (v5_client_dispatch try_from recognize (cr5_routes r)) service"

definition v5_ClientRouter_start_default :: "IoConfig \<Rightarrow> ('p \<Rightarrow> 'e + v5_PubAck) \<Rightarrow> 'path recognizer
    \<Rightarrow> ('addr, 'path v5_PublishMsg \<Rightarrow> 'p + v5_PubAck) v5_ClientRouter
    \<Rightarrow> (v5_Inner, v5c_DispatcherCfg, ('path, 'x, 'e) v5_client_publish, ('e, 'io) v5_client_control, v5_Packet, 'e, 'io) running_client" where
  "v5_ClientRouter_start_default config try_from recognize r =
     v5_run_client config (cr5_client r) (v5_client_dispatch try_from recognize (cr5_routes r))
       (\<lambda>msg. Inr (v5c_Control_disconnect v5_Disconnect_default))"

definition v5_ClientRouter_into_inner :: "('addr, 'h) v5_ClientRouter \<Rightarrow> v5_Codec" where
  "v5_ClientRouter_into_inner r = sh_codec (cl5_shared (cr5_client r))"

section \<open>Lemmas\<close>

text \<open>A task that pings once in every period: \<open>good\<close> is the state of the stream in which a round goes well.\<close>

locale keepalive_task =
  fixes run :: "'env list \<Rightarrow> 's \<Rightarrow> bool \<times> 's" and tick :: "'env \<Rightarrow> 's \<Rightarrow> bool \<times> 's"
    and good :: "'env \<Rightarrow> bool" and ping :: "'s \<Rightarrow> 's"
  assumes run_Nil: "run [] s = (True, s)"
    and run_Cons: "run (env # envs) s = (if fst (tick env s) then run envs (snd (tick env s)) else (False, snd (tick env s)))"
    and tick_good: "good env \<Longrightarrow> tick env s = (True, ping s)"
    and tick_bad: "\<not> good env \<Longrightarrow> \<not> fst (tick env s)"
begin

lemma run_good: "list_all good envs \<Longrightarrow> run (envs @ rest) s = run rest ((ping ^^ length envs) s)"
  by (induction envs arbitrary: s) (simp_all add: run_Cons tick_good funpow_swap1)

lemma run_all_good: "list_all good envs \<Longrightarrow> run envs s = (True, (ping ^^ length envs) s)"
  using run_good [of envs "[]" s] by (simp add: run_Nil)

lemma run_stops: "list_all good envs \<Longrightarrow> \<not> good env \<Longrightarrow> run (envs @ env # rest) s = (False, snd (tick env ((ping ^^ length envs) s)))"
  by (simp add: run_good run_Cons tick_bad)

end

lemma ping_events: "sh_events ((log_event e ^^ n) s) = sh_events s @ replicate n e"
  by (induction n) (simp_all add: log_event_def replicate_append_same)

definition v3_ping_good :: "v3_Env \<Rightarrow> bool" where
  "v3_ping_good env \<longleftrightarrow> \<not> env_closed env \<and> env_encode env V3_PingRequest = None"

definition v5_ping_good :: "v5_Env \<Rightarrow> bool" where
  "v5_ping_good env \<longleftrightarrow> \<not> env_closed env \<and> env_encode env V5_PingRequest = None"

interpretation keepalive3: keepalive_task v3_keepalive v3_keepalive_tick v3_ping_good "log_event (Ev_encode V3_PingRequest)"
  by unfold_locales
    (auto simp: v3_keepalive_tick_def v3_ping_def v3_ping_good_def sh_encode_packet_def split: prod.splits bool.splits)

interpretation keepalive5: keepalive_task v5_keepalive v5_keepalive_tick v5_ping_good "log_event (Ev_encode V5_PingRequest)"
  by unfold_locales
    (auto simp: v5_keepalive_tick_def v5_is_open_def v5_ping_def v5_ping_good_def sh_encode_packet_def split: prod.splits bool.splits)

lemma v3_start_services:
  "v3_Client_start config cl service = v3_run_client config cl (\<lambda>pkt. Ok (Inr (Inr pkt))) service"
  "cr3_routes (v3_Client_resource address h cl) = Router_resource address h Router_new"
  "cr3_client (v3_ClientRouter_resource address h r) = cr3_client r"
  by (simp_all add: v3_Client_start_def v3_Client_resource_def v3_ClientRouter_resource_def Router_resource_def Router_new_def)

lemma v5_run_client_simps [simp]:
  "rcl_inner (v5_run_client config cl publish control) = v5_Inner_new (cl5_shared cl)"
  "rcl_cfg (v5_run_client config cl publish control) = v5_client_cfg cl"
  "rcl_keepalive (v5_run_client config cl publish control) = spawn_keepalive (cl5_keepalive cl)"
  by (simp_all add: v5_run_client_def v5_create_dispatcher_def v5_client_cfg_def)

text \<open>The routes of a client router are in order, so that its \<open>dispatch\<close> finds every handler.\<close>

inductive v5_client_router :: "('addr, 'h) v5_ClientRouter \<Rightarrow> bool" where
  first: "v5_client_router (v5_Client_resource address service cl)"
| more: "v5_client_router r \<Longrightarrow> v5_client_router (v5_ClientRouter_resource address service r)"

lemma v5_client_router_built: "v5_client_router r \<Longrightarrow> built (cr5_routes r)"
proof (induction rule: v5_client_router.induct)
  case (first address service cl)
  have "built (Router_resource address service Router_new)" by (intro built.intros)
  then show ?case by (simp add: v5_Client_resource_def Router_resource_def Router_new_def)
qed (simp add: v5_ClientRouter_resource_def built.resource)

lemma v5_client_dispatch_no_panic:
  assumes "v5_client_router r" and "recognizes recognize (cr5_routes r)"
    and "\<forall>a i p. aliases a = Some (i, p) \<longrightarrow> i < length (rt_handlers (cr5_routes r))"
  shows "fst (v5_client_dispatch try_from recognize (cr5_routes r) req aliases :: ('x, _) res \<times> _) \<noteq> Panic"
proof -
  obtain x :: "('x, _ route) res" and t' a' where x: "v5_route recognize (cr5_routes r) (pm5_pkt req) (pm5_topic req) aliases = (x, t', a')"
    by (cases "v5_route recognize (cr5_routes r) (pm5_pkt req) (pm5_topic req) aliases :: ('x, _ route) res \<times> _") auto
  have "x \<noteq> Panic" using v5_route_ok [OF v5_client_router_built [OF assms(1)] assms(2,3) x] by simp
  then show ?thesis by (cases x) (simp_all add: v5_client_dispatch_def x Let_def)
qed

section \<open>Properties\<close>

text \<open>C23: A client of MQTT 5 keeps the receive maximum its CONNECT announced, however it is started, in every later state of its
  dispatcher and whatever its services answer: there are never more PUBLISH messages with an identifier
  in progress than the announced receive maximum (65535 when it announced none), and no two calls have the
  same identifier. No topic alias above 16 is in use; this limit is fixed and does not depend on the alias maximum of CONNECT.\<close>

theorem v5_client_keeps_limits:
  fixes calls :: "('e, 'io) v5c_call list"
  assumes "v5_connect m env conn first = Ok cl" and "con5_receive_max (mc5_pkt m) \<noteq> Some 0"
    and "rc = v5_run_client config cl publish control"
    and "calls_reach (v5c_starts (rcl_cfg rc)) v5c_answers (\<lambda>s s'. \<exists>sink. s' = s\<lparr>in5_sink := sink\<rparr>) (rcl_inner rc) (s, calls)"
  shows "card (in5_inflight s) \<le> (case con5_receive_max (mc5_pkt m) of Some n \<Rightarrow> unat n | None \<Rightarrow> 65535) \<and>
    dom (in5_aliases s) \<subseteq> {..16} \<and>
    distinct (concat (map v5c_call_ids calls)) \<and> set (concat (map v5c_call_ids calls)) \<subseteq> in5_inflight s"
proof -
  obtain pkt where lim: "v5_client_limits cl (mc5_pkt m) pkt" using v5_connect_keeps_limits [OF assms(1)] by blast
  have "calls_reach (v5c_starts (v5_client_cfg cl)) v5c_answers (\<lambda>s s'. \<exists>sink. s' = s\<lparr>in5_sink := sink\<rparr>)
      (v5_Inner_new (cl5_shared cl)) (s, calls)" using assms(3,4) by simp
  from v5c_reach_bounded [OF this] show ?thesis using lim assms(2)
    by (auto simp: v5c_bounded_def v5_client_limits_def v5_client_cfg_def unat_eq_0 split: option.splits)
qed

theorem v5_client_keeps_limits_witness:
  "\<exists>(cl :: v5_Client) (s :: v5_Inner) (calls :: (unit, unit) v5c_call list).
     v5_connect (v5_Connector_max_receive 1 v5_Connector_new) v5_env (Inr () :: unit + unit)
       (FP_packet (V5_ConnectAck v5_ConnectAck_default) 9 :: (v5_Packet, unit) first_packet) = Ok cl \<and>
     calls_reach (v5c_starts (v5_client_cfg cl)) v5c_answers (\<lambda>s s'. \<exists>sink. s' = s\<lparr>in5_sink := sink\<rparr>) (v5_Inner_new (cl5_shared cl)) (s, calls) \<and>
     length calls = 1 \<and> in5_inflight s = {5} \<and> card (in5_inflight s) \<le> 1"
proof -
  let ?m = "v5_Connector_max_receive 1 v5_Connector_new"
  let ?pkt = "v5_ConnectAck_default"
  have m: "con5_receive_max (mc5_pkt ?m) = Some 1" by (simp add: v5_Connector_max_receive_def v5_Connector_packet_def NonZero_new_def)
  have "env_encode v5_env (V5_Connect (mc5_pkt ?m)) = None" "cack5_reason_code ?pkt = CA_Success"
    by (simp_all add: v5_env_def v5_ConnectAck_default_def)
  then obtain cl where cl: "v5_connect ?m v5_env (Inr () :: unit + unit) (FP_packet (V5_ConnectAck ?pkt) 9 :: (v5_Packet, unit) first_packet) = Ok cl"
    using v5_connect_accepted by blast
  have recv: "cl5_max_receive cl = 1" using v5_connect_keeps_limits [OF cl] m by (auto simp: v5_client_limits_def)
  let ?rc = "v5_run_client \<lparr>cfg_keepalive_timeout = 30, cfg_frame_read_rate = None\<rparr> cl () ()
    :: (v5_Inner, v5c_DispatcherCfg, unit, unit, v5_Packet, unit, unit) running_client"
  let ?s = "\<lparr>in5_sink = cl5_shared cl, in5_inflight = {5}, in5_aliases = [2 \<mapsto> [0x61]]\<rparr>"
  let ?c = "Call_publish (v5_qos1 5, 9) (Some 5) :: (unit, unit) v5c_call"
  have "v5c_starts (rcl_cfg ?rc) (rcl_inner ?rc) ?c ?s"
    unfolding v5c_starts_def
    by (intro exI [of _ v5_env] exI [of _ "DI_Item (V5_Publish (v5_qos1 5)) 9"])
      (simp add: recv v5_client_cfg_def v5c_dispatch_publish_def v5c_publish_checks_def v5_topic_alias_def v5_sample_defs)
  then have run: "calls_reach (v5c_starts (rcl_cfg ?rc)) v5c_answers (\<lambda>s s'. \<exists>sink. s' = s\<lparr>in5_sink := sink\<rparr>) (rcl_inner ?rc) (?s, [?c])"
    by (rule calls_start [OF calls_init])
  from v5_client_keeps_limits [OF cl _ refl this] m have "card (in5_inflight ?s) \<le> 1" by simp
  then show ?thesis using cl run by (intro exI [of _ cl] exI [of _ ?s] exI [of _ "[?c]"]) simp
qed

text \<open>C24: The keep-alive task of an MQTT 5 client with a keep alive sends one PINGREQ in every period as long as the
  stream is open and the packet can be written, and goes on; in the first period in which the stream is
  closed it sends nothing and ends for good, and no task is started for a keep alive of zero.\<close>

theorem v5_client_keepalive:
  assumes "list_all v5_ping_good envs"
  shows "fst (v5_keepalive envs s) \<and>
    sh_events (snd (v5_keepalive envs s)) = sh_events s @ replicate (length envs) (Ev_encode V5_PingRequest) \<and>
    (env_closed env \<longrightarrow> v5_keepalive (envs @ env # later) s = (False, snd (v5_keepalive envs s))) \<and>
    rcl_keepalive (v5_run_client config cl publish control) = (if cl5_keepalive cl = 0 then None else Some (cl5_keepalive cl))"
proof -
  have stop: "v5_keepalive (envs @ env # later) s = (False, snd (v5_keepalive envs s))" if "env_closed env"
    using that keepalive5.run_stops [OF assms, of env later s] keepalive5.run_all_good [OF assms, of s]
    by (simp add: v5_ping_good_def v5_keepalive_tick_def v5_is_open_def)
  show ?thesis using stop by (simp add: keepalive5.run_all_good [OF assms] ping_events spawn_keepalive_def)
qed

theorem v5_client_keepalive_witness:
  "sh_events (snd (v5_keepalive [v5_env, v5_env] (v5_Shared_new v5_Codec_new))) = [Ev_encode V5_PingRequest, Ev_encode V5_PingRequest]"
  using v5_client_keepalive [of "[v5_env, v5_env]" "v5_Shared_new v5_Codec_new"]
  by (simp add: v5_ping_good_def v5_env_def v5_Shared_new_def)

end
