(* ===== verification/Topic_Write.thy ===== *)
theory Topic_Write
  imports Topic
begin

text \<open>
  \<open>WriteTopicExt\<close> of \<open>src/topic.rs\<close>: topic filters written to an \<open>io::Write\<close>. The writer is a parameter; locale \<open>io_write\<close> is
  what the standard library documents of \<open>write\<close>, which may take only a part of the bytes. Interpretations are the writers of the
  standard library for a vector and for a slice of bytes.
\<close>

section \<open>The code\<close>

type_synonym ('w, 'io) writer = "'w \<Rightarrow> bytes \<Rightarrow> ('io, nat) res \<times> 'w"

primrec write_level :: "('w, 'io) writer \<Rightarrow> 'w \<Rightarrow> TopicFilterLevel \<Rightarrow> ('io, nat) res \<times> 'w" where
  "write_level wr w (TFL_Normal s) = wr w s"
| "write_level wr w (TFL_System s) = wr w s"
| "write_level wr w TFL_Blank = (Ok 0, w)"
| "write_level wr w TFL_SingleWildcard = wr w [PLUS]"
| "write_level wr w TFL_MultiWildcard = wr w [HASH]"

text \<open>The loop of \<open>write_topic\<close>; \<open>n\<close> counts what was taken.\<close>

fun write_levels :: "('w, 'io) writer \<Rightarrow> 'w \<Rightarrow> nat \<Rightarrow> TopicFilterLevel \<Rightarrow> TopicFilterLevel list \<Rightarrow> ('io, nat) res \<times> 'w" where
  "write_levels wr w n level ls =
     (case write_level wr w level of
        (Ok k, w1) \<Rightarrow>
          (case ls of
             [] \<Rightarrow> (Ok (n + k), w1)
           | l # ls' \<Rightarrow>
               (case wr w1 [SLASH] of
                  (Ok j, w2) \<Rightarrow> write_levels wr w2 (n + k + j) l ls'
                | (Err e, w2) \<Rightarrow> (Err e, w2)
                | (Panic, w2) \<Rightarrow> (Panic, w2)))
      | (Err e, w1) \<Rightarrow> (Err e, w1)
      | (Panic, w1) \<Rightarrow> (Panic, w1))"

definition write_topic :: "('w, 'io) writer \<Rightarrow> 'w \<Rightarrow> TopicFilter \<Rightarrow> ('io, nat) res \<times> 'w" where
  "write_topic wr w topic = (case topic of [] \<Rightarrow> (Panic, w) | level # ls \<Rightarrow> write_levels wr w 0 level ls)"

text \<open>\<open>impl Write for Vec<u8>\<close> takes everything, \<open>impl Write for &mut [u8]\<close> what there is room for.\<close>

definition vec_write :: "(bytes, 'io) writer" where
  "vec_write out buf = (Ok (length buf), out @ buf)"

definition slice_write :: "(bytes \<times> nat, 'io) writer" where
  "slice_write w buf = (let n = min (length buf) (snd w) in (Ok n, (fst w @ take n buf, snd w - n)))"

section \<open>What is written\<close>

locale io_write =
  fixes wr :: "('w, 'io) writer" and out :: "'w \<Rightarrow> bytes"
  assumes takes: "wr w buf = (Ok n, w') \<Longrightarrow> n \<le> length buf \<and> out w' = out w @ take n buf"
    and refuses: "wr w buf = (Err e, w') \<Longrightarrow> out w' = out w"
begin

text \<open>A part of the text in its order: all of it if and only if its length is counted.\<close>

lemma write_level_takes:
  assumes "write_level wr w level = (Ok n, w')"
  shows "\<exists>bs. out w' = out w @ bs \<and> length bs = n \<and> n \<le> length (level_fmt level) \<and> (n = length (level_fmt level) \<longrightarrow> bs = level_fmt level)"
proof (cases level)
  case TFL_Blank
  then show ?thesis using assms by simp
qed (use assms in \<open>auto dest!: takes\<close>)

lemma write_levels_takes:
  assumes "write_levels wr w n level ls = (Ok m, w')"
  shows "\<exists>bs. out w' = out w @ bs \<and> m = n + length bs \<and> length bs \<le> length (filter_fmt_loop level ls) \<and>
    (length bs = length (filter_fmt_loop level ls) \<longrightarrow> bs = filter_fmt_loop level ls)"
  using assms
proof (induction ls arbitrary: w n level)
  case Nil
  then show ?case by (auto dest!: write_level_takes split: prod.splits res.splits)
next
  case (Cons l ls)
  obtain k w1 where k: "write_level wr w level = (Ok k, w1)"
    using Cons.prems by (auto split: prod.splits res.splits)
  moreover obtain j w2 where j: "wr w1 [SLASH] = (Ok j, w2)"
    using Cons.prems k by (auto split: prod.splits res.splits)
  ultimately have "write_levels wr w2 (n + k + j) l ls = (Ok m, w')" using Cons.prems by simp
  from Cons.IH [OF this] obtain bs where bs: "out w' = out w2 @ bs" "m = n + k + j + length bs" "length bs \<le> length (filter_fmt_loop l ls)"
      "length bs = length (filter_fmt_loop l ls) \<longrightarrow> bs = filter_fmt_loop l ls" by blast
  from write_level_takes [OF k] obtain as where as: "out w1 = out w @ as" "length as = k" "k \<le> length (level_fmt level)"
      "k = length (level_fmt level) \<longrightarrow> as = level_fmt level" by blast
  have sep: "j \<le> 1" "out w2 = out w1 @ take j [SLASH]" using takes [OF j] by simp_all
  have "length (as @ take j [SLASH] @ bs) = k + j + length bs" using as(2) sep(1) by simp
  moreover have "as @ take j [SLASH] @ bs = filter_fmt_loop level (l # ls)" if "k + j + length bs = length (filter_fmt_loop level (l # ls))"
  proof -
    have "k = length (level_fmt level)" "j = 1" "length bs = length (filter_fmt_loop l ls)" using that as(3) sep(1) bs(3) by simp_all
    then show ?thesis using as(4) bs(4) by simp
  qed
  ultimately show ?case using as(1,3) bs(1-3) sep
    by (intro exI [of _ "as @ take j [SLASH] @ bs"]) (simp add: add.assoc)
qed

lemma write_topic_takes:
  assumes "filter_fmt f = Ok s" and "write_topic wr w f = (Ok n, w')"
  shows "\<exists>bs. out w' = out w @ bs \<and> length bs = n \<and> n \<le> length s \<and> (n = length s \<longrightarrow> bs = s)"
  using assms write_levels_takes
  by (auto simp: write_topic_def filter_fmt_def simp del: write_levels.simps split: list.splits) fastforce

end

interpretation vec: io_write vec_write "\<lambda>out. out"
  by unfold_locales (auto simp: vec_write_def)

interpretation slice: io_write slice_write fst
  by unfold_locales (auto simp: slice_write_def Let_def)

section \<open>Writers that take everything\<close>

lemma vec_write_level: "write_level vec_write out level = (Ok (length (level_fmt level)), out @ level_fmt level)"
  by (cases level) (simp_all add: vec_write_def)

lemma vec_write_levels:
  "write_levels vec_write out n level ls = (Ok (n + length (filter_fmt_loop level ls)), out @ filter_fmt_loop level ls)"
  by (induction ls arbitrary: out n level) (simp_all add: vec_write_level vec_write_def)

text \<open>A vector gets the text that \<open>Display\<close> prints, so that a parsed filter is written as the text it was parsed from.\<close>

theorem write_topic_vec:
  assumes "filter_try_from s = Ok f"
  shows "write_topic vec_write out f = (Ok (length s) :: ('io, nat) res, out @ s)"
  using filter_fmt_parsed [OF assms]
  by (auto simp: write_topic_def filter_fmt_def vec_write_levels simp del: write_levels.simps split: list.splits)

section \<open>Short writes\<close>

text \<open>The code does not use \<open>write_all\<close>: a writer that takes a part of the bytes gets an incomplete topic, and the call succeeds.
  Only the count tells.\<close>

theorem write_topic_short:
  "filter_try_from [0x61, 0x62, SLASH, 0x63] = Ok [TFL_Normal [0x61, 0x62], TFL_Normal [0x63]] \<and>
   write_topic slice_write ([], 3) [TFL_Normal [0x61, 0x62], TFL_Normal [0x63]] = (Ok 3 :: (unit, nat) res, ([0x61, 0x62, SLASH], 0))"
proof
  show "filter_try_from [0x61, 0x62, SLASH, 0x63] = Ok [TFL_Normal [0x61, 0x62], TFL_Normal [0x63]]" by code_simp
qed (simp add: write_topic_def slice_write_def)

theorem write_topic_count:
  assumes "filter_try_from s = Ok f" and "write_topic slice_write ([], room) f = (Ok n :: ('io, nat) res, w')" and "n = length s"
  shows "fst w' = s"
  using slice.write_topic_takes [OF filter_fmt_parsed [OF assms(1)] assms(2)] assms(3) by auto

end
