(* ===== verification/Shared_Loops.thy ===== *)
theory Shared_Loops
  imports V3_Sink V5_Sink "HOL-Library.While_Combinator"
begin

text \<open>
  The operations of \<open>src/v3/shared.rs\<close> and \<open>src/v5/shared.rs\<close> that the theory \<open>Shared\<close> models once for both files. Here the code that
  is repeated in the other file is translated statement by statement, its loops with the while combinator, and shown to be
  what \<open>Shared\<close> says; the loops that wake senders get a declarative specification.
\<close>

section \<open>3.1.1\<close>

text \<open>\<open>queues.waiters.pop_front()\<close> and \<open>tx.send(())\<close>.\<close>

definition v3_pop_waiter :: "v3_Shared \<Rightarrow> chan option \<times> v3_Shared" where
  "v3_pop_waiter s = (case sh_waiters s of [] \<Rightarrow> (None, s) | tx # ws \<Rightarrow> (Some tx, s\<lparr>sh_waiters := ws\<rparr>))"

definition v3_waiter_send :: "v3_Env \<Rightarrow> chan \<Rightarrow> v3_Shared \<Rightarrow> bool \<times> v3_Shared" where
  "v3_waiter_send env tx s = (if env_alive env tx then (True, log_event (Ev_wake tx) s) else (False, s))"

definition v3_next_id :: "v3_Shared \<Rightarrow> (SendPacketError, u16) res \<times> v3_Shared" where
  "v3_next_id s =
     (if sh_inflight_idx s = 0xFFFF then (Panic, s)
      else
        let idx = sh_inflight_idx s + 1;
            (idx, s) = (if idx = 0xFFFF then (0xFFFF, s\<lparr>sh_inflight_idx := 0\<rparr>) else (idx, s\<lparr>sh_inflight_idx := idx\<rparr>)) in
        (if idx = 0 then Panic else Ok idx, s))"

text \<open>The inner loop of \<open>set_cap\<close>; the result tells if it was left by \<open>continue 'outer\<close>.\<close>

definition v3_set_cap_inner :: "v3_Env \<Rightarrow> v3_Shared \<Rightarrow> bool \<times> v3_Shared" where
  "v3_set_cap_inner env s =
     while (\<lambda>(sent, s). \<not> sent \<and> fst (v3_pop_waiter s) \<noteq> None)
       (\<lambda>(sent, s). case v3_pop_waiter s of (Some tx, s) \<Rightarrow> v3_waiter_send env tx s | (None, s) \<Rightarrow> (sent, s))
       (False, s)"

fun v3_set_cap_outer :: "v3_Env \<Rightarrow> nat \<Rightarrow> v3_Shared \<Rightarrow> v3_Shared" where
  "v3_set_cap_outer env 0 s = s"
| "v3_set_cap_outer env (Suc n) s =
     (case v3_set_cap_inner env s of (True, s) \<Rightarrow> v3_set_cap_outer env n s | (False, s) \<Rightarrow> s)"

definition v3_set_cap :: "v3_Env \<Rightarrow> nat \<Rightarrow> v3_Shared \<Rightarrow> v3_Shared" where
  "v3_set_cap env cap s = (v3_set_cap_outer env cap s)\<lparr>sh_cap := cap\<rparr>"

definition v3_set_publish_ack :: "v3_Shared \<Rightarrow> v3_Shared" where
  "v3_set_publish_ack s =
     (let flags = sh_flags s OR SF_ON_PUBLISH_ACK; s = s\<lparr>sh_flags := flags\<rparr> in s\<lparr>sh_on_publish_ack := True\<rparr>)"

definition v3_enable_wr_backpressure :: "v3_Shared \<Rightarrow> v3_Shared" where
  "v3_enable_wr_backpressure s = (let flags = sh_flags s OR SF_WRB_ENABLED in s\<lparr>sh_flags := flags\<rparr>)"

text \<open>The loop of \<open>disable_wr_backpressure\<close>; \<open>break\<close> sets the second component.\<close>

definition v3_wake_while :: "v3_Env \<Rightarrow> nat \<Rightarrow> v3_Shared \<Rightarrow> nat \<times> bool \<times> v3_Shared" where
  "v3_wake_while env num s =
     while (\<lambda>(num, broken, s). \<not> broken \<and> 0 < num)
       (\<lambda>(num, broken, s).
          case v3_pop_waiter s of
            (Some tx, s) \<Rightarrow> (case v3_waiter_send env tx s of (True, s) \<Rightarrow> (num - 1, broken, s) | (False, s) \<Rightarrow> (num, broken, s))
          | (None, s) \<Rightarrow> (num, True, s))
       (num, False, s)"

definition v3_disable_wr_backpressure :: "v3_Env \<Rightarrow> v3_Shared \<Rightarrow> v3_Shared" where
  "v3_disable_wr_backpressure env s =
     (let flags = sh_flags s AND NOT SF_WRB_ENABLED; s = s\<lparr>sh_flags := flags\<rparr> in
      if length (sh_inflight s) < sh_cap s then snd (snd (v3_wake_while env (sh_cap s - length (sh_inflight s)) s)) else s)"

definition v3_wait_readiness :: "v3_Shared \<Rightarrow> chan option \<times> v3_Shared" where
  "v3_wait_readiness s =
     (if length (sh_inflight s) \<ge> sh_cap s \<or> flags_contains (sh_flags s) SF_WRB_ENABLED
      then let (rx, s) = new_channel s in (Some rx, s\<lparr>sh_waiters := sh_waiters s @ [rx]\<rparr>)
      else (None, s))"

section \<open>MQTT 5\<close>

definition v5_next_id :: "v5_Shared \<Rightarrow> (SendPacketError, u16) res \<times> v5_Shared" where
  "v5_next_id s =
     (if sh_inflight_idx s = 0xFFFF then (Panic, s)
      else
        let idx = sh_inflight_idx s + 1;
            s = s\<lparr>sh_inflight_idx := idx\<rparr>;
            (idx, s) = (if idx = 0xFFFF then (0xFFFF, s\<lparr>sh_inflight_idx := 0\<rparr>) else (idx, s\<lparr>sh_inflight_idx := idx\<rparr>)) in
        (if idx = 0 then Panic else Ok idx, s))"

definition v5_credit :: "v5_Shared \<Rightarrow> nat" where
  "v5_credit s = sh_cap s - length (sh_inflight s)"

definition v5_shared_is_ready :: "v5_Shared \<Rightarrow> bool" where
  "v5_shared_is_ready s \<longleftrightarrow> 0 < v5_credit s \<and> \<not> flags_contains (sh_flags s) SF_WRB_ENABLED"

definition v5_wait_response :: "u16 \<Rightarrow> AckType \<Rightarrow> v5_Shared \<Rightarrow> (SendPacketError, chan) res \<times> v5_Shared" where
  "v5_wait_response pkt_id ack s =
     (if pkt_id \<in> sh_inflight_ids s then (Err (PacketIdInUse pkt_id), s)
      else
        let (rx, s) = new_channel s;
            s = s\<lparr>sh_inflight := sh_inflight s @ [(pkt_id, Some rx, ack)]\<rparr>;
            s = s\<lparr>sh_inflight_ids := insert pkt_id (sh_inflight_ids s)\<rparr> in
        (Ok rx, s))"

definition v5_wait_packet_response :: "v5_Env \<Rightarrow> u16 \<Rightarrow> AckType \<Rightarrow> v5_Packet \<Rightarrow> v5_Shared \<Rightarrow> (SendPacketError, chan) res \<times> v5_Shared" where
  "v5_wait_packet_response env pkt_id ack pkt s =
     (if pkt_id \<in> sh_inflight_ids s then (Err (PacketIdInUse pkt_id), s)
      else
        let s = log_event (Ev_encode pkt) s in
        case env_encode env pkt of
          None \<Rightarrow>
            (let (rx, s) = new_channel s;
                 s = s\<lparr>sh_inflight := sh_inflight s @ [(pkt_id, Some rx, ack)]\<rparr>;
                 s = s\<lparr>sh_inflight_ids := insert pkt_id (sh_inflight_ids s)\<rparr> in
             (Ok rx, s))
        | Some e \<Rightarrow> (Err (SPE_Encode e), s))"

definition v5_wait_packet_response_no_block :: "v5_Env \<Rightarrow> u16 \<Rightarrow> AckType \<Rightarrow> v5_Packet \<Rightarrow> v5_Shared \<Rightarrow> (SendPacketError, unit) res \<times> v5_Shared" where
  "v5_wait_packet_response_no_block env pkt_id ack pkt s =
     (if pkt_id \<in> sh_inflight_ids s then (Err (PacketIdInUse pkt_id), s)
      else
        let s = log_event (Ev_encode pkt) s in
        case env_encode env pkt of
          None \<Rightarrow>
            (let s = s\<lparr>sh_inflight := sh_inflight s @ [(pkt_id, None, ack)]\<rparr>;
                 s = s\<lparr>sh_inflight_ids := insert pkt_id (sh_inflight_ids s)\<rparr> in
             (Ok (), s))
        | Some e \<Rightarrow> (Err (SPE_Encode e), s))"

section \<open>Lemmas\<close>

lemmas pop_defs = v3_pop_waiter_def v3_waiter_send_def

text \<open>One round of each loop, by the head of the queue.\<close>

lemma set_cap_inner_simps:
  "sh_waiters s = [] \<Longrightarrow> v3_set_cap_inner env s = (False, s)"
  "sh_waiters s = tx # ws \<Longrightarrow> v3_set_cap_inner env s =
     (if env_alive env tx then (True, log_event (Ev_wake tx) (s\<lparr>sh_waiters := ws\<rparr>)) else v3_set_cap_inner env (s\<lparr>sh_waiters := ws\<rparr>))"
proof -
  show "sh_waiters s = [] \<Longrightarrow> v3_set_cap_inner env s = (False, s)"
    unfolding v3_set_cap_inner_def by (subst while_unfold) (simp add: pop_defs)
  show "sh_waiters s = tx # ws \<Longrightarrow> v3_set_cap_inner env s =
     (if env_alive env tx then (True, log_event (Ev_wake tx) (s\<lparr>sh_waiters := ws\<rparr>)) else v3_set_cap_inner env (s\<lparr>sh_waiters := ws\<rparr>))"
    unfolding v3_set_cap_inner_def by (subst while_unfold) (simp add: pop_defs, subst while_unfold, simp)
qed

lemma wake_while_simps:
  "v3_wake_while env 0 s = (0, False, s)"
  "sh_waiters s = [] \<Longrightarrow> 0 < num \<Longrightarrow> v3_wake_while env num s = (num, True, s)"
  "sh_waiters s = tx # ws \<Longrightarrow> 0 < num \<Longrightarrow> v3_wake_while env num s =
     (if env_alive env tx then v3_wake_while env (num - 1) (log_event (Ev_wake tx) (s\<lparr>sh_waiters := ws\<rparr>))
      else v3_wake_while env num (s\<lparr>sh_waiters := ws\<rparr>))"
proof -
  show "v3_wake_while env 0 s = (0, False, s)" 
    unfolding v3_wake_while_def by (subst while_unfold) simp
  show "sh_waiters s = [] \<Longrightarrow> 0 < num \<Longrightarrow> v3_wake_while env num s = (num, True, s)"
    unfolding v3_wake_while_def by (subst while_unfold) (simp add: pop_defs, subst while_unfold, simp)
  show "sh_waiters s = tx # ws \<Longrightarrow> 0 < num \<Longrightarrow> v3_wake_while env num s =
     (if env_alive env tx then v3_wake_while env (num - 1) (log_event (Ev_wake tx) (s\<lparr>sh_waiters := ws\<rparr>))
      else v3_wake_while env num (s\<lparr>sh_waiters := ws\<rparr>))"
    unfolding v3_wake_while_def by (subst while_unfold) (simp add: pop_defs)
qed

lemma set_cap_inner_eq:
  "v3_set_cap_inner env s =
     (case wake_first (env_alive env) (sh_waiters s) of
        (None, ws) \<Rightarrow> (False, sh_woken ([], ws) s) | (Some tx, ws) \<Rightarrow> (True, sh_woken ([tx], ws) s))"
proof (induction "sh_waiters s" arbitrary: s)
  case Nil
  then show ?case by (simp add: set_cap_inner_simps(1) sh_woken_def)
next
  case (Cons tx ws)
  have "sh_waiters (s\<lparr>sh_waiters := ws\<rparr>) = ws" by simp
  from Cons.hyps(1) [OF this [symmetric]] Cons.hyps(2) [symmetric] show ?case
    by (simp add: set_cap_inner_simps(2) sh_woken_def log_event_def split: prod.splits option.splits)
qed

lemma set_cap_outer_eq: "v3_set_cap_outer env n s = sh_woken (set_cap_loop (env_alive env) n (sh_waiters s)) s"
  by (induction n arbitrary: s) (auto simp: sh_woken_def set_cap_inner_eq split: prod.splits option.splits)

lemma wake_while_eq: "snd (snd (v3_wake_while env num s)) = sh_woken (wake_loop (env_alive env) num (sh_waiters s)) s"
proof (induction "sh_waiters s" arbitrary: s num)
  case Nil
  then show ?case by (cases num) (simp_all add: wake_while_simps sh_woken_def)
next
  case (Cons tx ws)
  note IH = Cons.hyps(1) and s = Cons.hyps(2) [symmetric]
  show ?case
  proof (cases "num = 0")
    case True
    then show ?thesis using s by (simp add: wake_while_simps sh_woken_def)
  next
    case False
    have ws: "ws = sh_waiters (s\<lparr>sh_waiters := ws\<rparr>)" "ws = sh_waiters (log_event (Ev_wake tx) (s\<lparr>sh_waiters := ws\<rparr>))"
      by (simp_all add: log_event_def)
    show ?thesis using False s IH [OF ws(1), of num] IH [OF ws(2), of "num - 1"]
      by (auto simp: wake_while_simps(3) sh_woken_def log_event_def split: prod.splits)
  qed
qed

lemma next_idx: "idx \<noteq> 0xFFFF \<Longrightarrow> idx + 1 \<noteq> (0 :: u16)"
proof
  assume "idx \<noteq> 0xFFFF" and "idx + 1 = 0"
  then have "idx = - 1" by (simp add: eq_neg_iff_add_eq_0)
  then show False using \<open>idx \<noteq> 0xFFFF\<close> by simp
qed

text \<open>The model of both files is what the code of each says.\<close>

lemma v3_shared_eq:
  "v3_next_id = sh_next_id" "v3_set_cap = sh_set_cap" "v3_set_publish_ack = sh_set_publish_ack"
  "v3_enable_wr_backpressure = sh_enable_wr_backpressure" "v3_disable_wr_backpressure = sh_disable_wr_backpressure"
  "v3_wait_readiness = sh_wait_readiness"
proof -
  show "v3_next_id = sh_next_id"
    by (rule ext) (simp add: v3_next_id_def sh_next_id_def Let_def next_idx)
  show "v3_set_cap = sh_set_cap" by (intro ext) (simp add: v3_set_cap_def sh_set_cap_def set_cap_outer_eq)
  show "v3_set_publish_ack = sh_set_publish_ack" "v3_enable_wr_backpressure = sh_enable_wr_backpressure"
    by (intro ext, simp add: v3_set_publish_ack_def sh_set_publish_ack_def v3_enable_wr_backpressure_def sh_enable_wr_backpressure_def Let_def)+
  show "v3_disable_wr_backpressure = sh_disable_wr_backpressure"
    by (intro ext) (simp add: v3_disable_wr_backpressure_def sh_disable_wr_backpressure_def wake_while_eq Let_def)
  show "v3_wait_readiness = sh_wait_readiness"
    by (intro ext) (simp add: v3_wait_readiness_def sh_wait_readiness_def sh_wrb_def)
qed

lemma v5_shared_eq:
  "v5_next_id = sh_next_id" "v5_credit = sh_credit" "v5_shared_is_ready = sh_is_ready" "v5_wait_response = sh_wait_response"
  "v5_wait_packet_response = sh_wait_packet_response" "v5_wait_packet_response_no_block = sh_wait_packet_response_no_block False"
proof -
  show "v5_next_id = sh_next_id" by (rule ext) (simp add: v5_next_id_def sh_next_id_def Let_def next_idx)
  show "v5_credit = sh_credit" by (rule ext) (simp add: v5_credit_def sh_credit_def)
  then show "v5_shared_is_ready = sh_is_ready" by (intro ext) (simp add: v5_shared_is_ready_def sh_is_ready_def sh_wrb_def)
  show "v5_wait_response = sh_wait_response"
    by (intro ext) (simp add: v5_wait_response_def sh_wait_response_def sh_register_def new_channel_def Let_def)
  show "v5_wait_packet_response = sh_wait_packet_response"
    by (intro ext) (simp add: v5_wait_packet_response_def sh_wait_packet_response_def sh_encode_packet_def sh_register_def new_channel_def Let_def
        split: option.splits)
  show "v5_wait_packet_response_no_block = sh_wait_packet_response_no_block False"
    by (intro ext) (simp add: v5_wait_packet_response_no_block_def sh_wait_packet_response_no_block_def sh_encode_packet_def sh_register_def Let_def
        split: option.splits)
qed

lemma wake_loop_take: "fst (wake_loop alive n ws) = take n (filter alive ws)"
  by (induction alive n ws rule: wake_loop.induct) (auto simp: take_Cons' split: prod.splits)

lemma wake_loop_drop: "filter alive (snd (wake_loop alive n ws)) = drop n (filter alive ws)"
  by (induction alive n ws rule: wake_loop.induct) (auto simp: drop_Cons' split: prod.splits)

section \<open>Properties\<close>

text \<open>C13: The 3.1.1 loops that wake waiting senders are equivalent to taking a prefix: a new capacity wakes as many of the senders
  that still wait as the capacity allows, the end of back-pressure as many as there is credit for, both in the order in which they
  came, and the others keep their order and are not woken. Senders that have given up are skipped and do not use
  up a permit.\<close>

theorem v3_wakes_in_order:
  "let waiting = filter (env_alive env) (sh_waiters s) in
     sh_events (v3_set_cap env cap s) = sh_events s @ map Ev_wake (take cap waiting) \<and>
     filter (env_alive env) (sh_waiters (v3_set_cap env cap s)) = drop cap waiting \<and>
     sh_events (v3_disable_wr_backpressure env s) = sh_events s @ map Ev_wake (take (sh_credit s) waiting) \<and>
     filter (env_alive env) (sh_waiters (v3_disable_wr_backpressure env s)) = drop (sh_credit s) waiting"
  by (auto simp: v3_shared_eq sh_set_cap_def set_cap_loop_eq sh_disable_wr_backpressure_def sh_woken_def sh_credit_def wake_loop_take wake_loop_drop Let_def)

end
