(* ===== verification/Conversions.thy ===== *)
theory Conversions
  imports Handshake Connector
begin

text \<open>
  Small parts of several files: the conversions between error types (\<open>src/error.rs\<close>), the texts of the CONNACK reasons, the codec of a
  connection behind its shared state (\<open>Encoder\<close> and \<open>Decoder\<close> of \<open>MqttShared\<close>, \<open>src/v5/shared.rs\<close>), and what a handshake service
  can do with the message it gets (\<open>src/v3/handshake.rs\<close>, \<open>src/v5/handshake.rs\<close>).
\<close>

section \<open>Errors\<close>

definition MqttError_from_io :: "'io \<Rightarrow> ('e, 'io) MqttError" where
  "MqttError_from_io err = ME_Handshake (HE_Disconnected (Some err))"

text \<open>\<open>Either<io::Error, io::Error>::into_inner\<close> forgets the side.\<close>

definition MqttError_from_either :: "'io + 'io \<Rightarrow> ('e, 'io) MqttError" where
  "MqttError_from_either err = ME_Handshake (HE_Disconnected (Some (case err of Inl e \<Rightarrow> e | Inr e \<Rightarrow> e)))"

definition ClientError_from_encode :: "EncodeError \<Rightarrow> ('ack, 'io, 'conn) ClientError" where
  "ClientError_from_encode err = CE_Protocol (PE_Encode err)"

section \<open>Reasons\<close>

definition v3_ConnectAckReason_reason :: "v3_ConnectAckReason \<Rightarrow> string" where
  "v3_ConnectAckReason_reason r =
     (case r of
        CAR3_ConnectionAccepted \<Rightarrow> ''Connection Accepted''
      | CAR3_UnacceptableProtocolVersion \<Rightarrow> ''Connection Refused, unacceptable protocol version''
      | CAR3_IdentifierRejected \<Rightarrow> ''Connection Refused, identifier rejected''
      | CAR3_ServiceUnavailable \<Rightarrow> ''Connection Refused, Server unavailable''
      | CAR3_BadUserNameOrPassword \<Rightarrow> ''Connection Refused, bad user name or password''
      | CAR3_NotAuthorized \<Rightarrow> ''Connection Refused, not authorized''
      | _ \<Rightarrow> ''Connection Refused'')"

definition v5_ConnectAckReason_reason :: "ConnectAckReason \<Rightarrow> string" where
  "v5_ConnectAckReason_reason r =
     (case r of
        CA_Success \<Rightarrow> ''Connection Accepted''
      | CA_UnsupportedProtocolVersion \<Rightarrow> ''protocol version is not supported''
      | CA_ClientIdentifierNotValid \<Rightarrow> ''client identifier is invalid''
      | CA_ServerUnavailable \<Rightarrow> ''Server unavailable''
      | CA_BadUserNameOrPassword \<Rightarrow> ''bad user name or password''
      | CA_NotAuthorized \<Rightarrow> ''not authorized''
      | _ \<Rightarrow> ''Connection Refused'')"

section \<open>The codec of a connection\<close>

definition v5_shared_encode :: "v5_Packet \<Rightarrow> v5_Shared \<Rightarrow> encoder" where
  "v5_shared_encode item s = v5_codec_encode (sh_codec s) item"

definition v5_shared_decode :: "(bytes \<Rightarrow> bool) \<Rightarrow> bytes \<Rightarrow> v5_Shared \<Rightarrow> (DecodeError, (v5_Packet \<times> nat) option) res \<times> v5_Shared \<times> bytes" where
  "v5_shared_decode u src s = (case v5_codec_decode u (sh_codec s) src of (r, c, rest) \<Rightarrow> (r, s\<lparr>sh_codec := c\<rparr>, rest))"

section \<open>The message of a handshake\<close>

definition v3_Handshake_new :: "v3_Connect \<Rightarrow> u32 \<Rightarrow> v3_Shared \<Rightarrow> v3_Handshake" where
  "v3_Handshake_new pkt pkt_size shared = \<lparr>hs3_pkt = pkt, hs3_size = pkt_size, hs3_shared = shared\<rparr>"

definition v3_Handshake_packet_mut :: "(v3_Connect \<Rightarrow> v3_Connect) \<Rightarrow> v3_Handshake \<Rightarrow> v3_Handshake" where
  "v3_Handshake_packet_mut f h = h\<lparr>hs3_pkt := f (hs3_pkt h)\<rparr>"

text \<open>The answers that a 3.1.1 handshake service can make by the methods of its message and of the answer; a refusal has one of the four
  return codes of the constructors.\<close>

inductive v3_handshake_makes :: "v3_Handshake \<Rightarrow> 'st v3_HandshakeAck \<Rightarrow> bool" where
  packet_mut: "v3_handshake_makes (v3_Handshake_packet_mut f h) a \<Longrightarrow> v3_handshake_makes h a"
| ack: "v3_handshake_makes h (v3_Handshake_ack st session_present h)"
| identifier_rejected: "v3_handshake_makes h (v3_identifier_rejected h)"
| bad_username_or_pwd: "v3_handshake_makes h (v3_bad_username_or_pwd h)"
| not_authorized: "v3_handshake_makes h (v3_not_authorized h)"
| service_unavailable: "v3_handshake_makes h (v3_service_unavailable h)"
| idle_timeout: "v3_handshake_makes h a \<Longrightarrow> v3_handshake_makes h (v3_idle_timeout timeout a)"
| max_send: "v3_handshake_makes h a \<Longrightarrow> v3_handshake_makes h (v3_max_send val a)"

definition v5_Handshake_new :: "v5_Connect \<Rightarrow> u32 \<Rightarrow> v5_Shared \<Rightarrow> v5_Handshake" where
  "v5_Handshake_new pkt sz shared = \<lparr>hs5_pkt = pkt, hs5_size = sz, hs5_shared = shared\<rparr>"

definition v5_Handshake_packet_mut :: "(v5_Connect \<Rightarrow> v5_Connect) \<Rightarrow> v5_Handshake \<Rightarrow> v5_Handshake" where
  "v5_Handshake_packet_mut f h = h\<lparr>hs5_pkt := f (hs5_pkt h)\<rparr>"

section \<open>Lemmas\<close>

lemma v3_handshake_makes_shape:
  "v3_handshake_makes h a \<Longrightarrow> ha3_shared a = hs3_shared h \<and>
   (case ha3_session a of Some st \<Rightarrow> ha3_return_code a = CAR3_ConnectionAccepted
    | None \<Rightarrow> ha3_return_code a \<noteq> CAR3_ConnectionAccepted \<and> \<not> ha3_session_present a)"
  by (induction rule: v3_handshake_makes.induct)
    (simp_all add: v3_Handshake_packet_mut_def v3_Handshake_ack_def v3_Handshake_refuse_def v3_identifier_rejected_def v3_bad_username_or_pwd_def
      v3_not_authorized_def v3_service_unavailable_def v3_idle_timeout_def v3_max_send_def split: option.splits)

text \<open>Only an accepted connection has the text of one.\<close>

lemma v5_reason_accepted: "v5_ConnectAckReason_reason r = ''Connection Accepted'' \<longleftrightarrow> r = CA_Success"
  by (cases r) (simp_all add: v5_ConnectAckReason_reason_def)

lemma v3_reason_accepted: "v3_ConnectAckReason_reason r = ''Connection Accepted'' \<longleftrightarrow> r = CAR3_ConnectionAccepted"
  by (cases r) (simp_all add: v3_ConnectAckReason_reason_def)

text \<open>Decoding touches the codec of the shared state and nothing else, and does not depend on how the stream is cut; the packet
  that one connection encodes is decoded by another that agrees with it.\<close>

lemma v5_shared_decode_frame:
  assumes "v5_shared_decode u src s = (r, s', rest)"
  shows "MqttShared.truncate s' = MqttShared.truncate s" and "s'\<lparr>sh_codec := sh_codec s\<rparr> = s" and "r \<noteq> Panic"
  using assms codec5.decode_no_panic [of u "sh_codec s" src]
  by (auto simp: v5_shared_decode_def MqttShared.truncate_def split: prod.splits)

lemma v5_shared_roundtrip:
  assumes "v5_wf u p" and "v5_encoded_size (v5_out_packet (sh_codec s) p) (v5_out_limit (sh_codec s)) = Ok n"
    and "n \<le> v5_out_limit (sh_codec s)" and "n \<le> 268435455"
    and "c5_state (sh_codec t) = FrameHeader" and "within_limit n (c5_max_in_size (sh_codec t))"
  shows "v5_shared_decode u (fst (v5_shared_encode p s) @ rest) t =
    (let q = v5_trim (v5_out_packet (sh_codec s) p) (v5_out_limit (sh_codec s)) in
     (Ok (Some (q, n)), t\<lparr>sh_codec := v5_finish q (sh_codec t)\<rparr>, rest))"
  using v5_decode_encode [OF assms] by (simp add: v5_shared_decode_def v5_shared_encode_def Let_def)

text \<open>A service that changes the CONNECT packet of its message changes the keep alive it answers with, and nothing
  the server keeps of the client: the limits are taken from the packet that arrived.\<close>

lemma v5_packet_mut_ack:
  "ha5_shared (v5_Handshake_ack st (v5_Handshake_packet_mut f h)) = ha5_shared (v5_Handshake_ack st h)"
  "ha5_packet (v5_Handshake_ack st (v5_Handshake_packet_mut f h)) = ha5_packet (v5_Handshake_ack st h)"
  "ha5_keepalive (v5_Handshake_ack st (v5_Handshake_packet_mut f h)) = keepalive_timeout (con5_keep_alive (f (hs5_pkt h)))"
  by (simp_all add: v5_Handshake_ack_def v5_Handshake_packet_mut_def Let_def)

text \<open>A CONNECT that cannot be encoded fails the attempt with the converted error, whatever the server sends.\<close>

lemma connect_encode_error:
  "env_encode env (V5_Connect (mc5_pkt m)) = Some e \<Longrightarrow> v5_connect m env (Inr ()) first = Err (ClientError_from_encode e)"
  "env_encode env3 (V3_Connect (mc3_pkt m3)) = Some e \<Longrightarrow> v3_connect m3 env3 (Inr ()) first3 = Err (ClientError_from_encode e)"
  by (simp_all add: v5_connect_def v3_connect_def ClientError_from_encode_def Let_def)

end
