(* ===== verification/Agreement.thy ===== *)
theory Agreement
  imports Streams V3_Client V5_Client Connector Builder V3_Api V5_Api
begin

text \<open>
  A client and a server at the two ends of a stream: what they have to agree on after the handshake, and the lemmas from which
  the properties of whole exchanges follow (a handshake, a message and its acknowledgement, a subscription).
\<close>

section \<open>Agreement of client and server\<close>

text \<open>What a client and a server that have finished the MQTT 5 handshake must agree on: the client has credit for
  as many packets as the server takes, the server for no more than the client takes, and no packet that one side may
  encode is too large for the decoder of the other.\<close>

definition v5_agree :: "v5_Client \<Rightarrow> v5_Shared \<Rightarrow> bool" where
  "v5_agree cl shared \<longleftrightarrow>
     sh_cap (cl5_shared cl) = unat (sh_receive_max shared) \<and> sh_cap shared \<le> cl5_max_receive cl \<and>
     (\<forall>n \<le> v5_out_limit (sh_codec (cl5_shared cl)). within_limit n (c5_max_in_size (sh_codec shared))) \<and>
     (\<forall>n \<le> v5_out_limit (sh_codec shared). within_limit n (c5_max_in_size (sh_codec (cl5_shared cl))))"

text \<open>A CONNECT and the CONNACK a server with the settings \<open>v5_hs_cfg\<close> answers it with.\<close>

definition hs_connect :: v5_Connect where
  "hs_connect = v5_hs_connect\<lparr>con5_client_id := [0x61]\<rparr>"

definition hs_connack :: v5_ConnectAck where
  "hs_connack = v5_ConnectAck_default\<lparr>cack5_max_qos := AtLeastOnce, cack5_topic_alias_max := 32, cack5_receive_max := 15,
     cack5_max_packet_size := Some 1024\<rparr>"

text \<open>A client and a server with the default limits.\<close>

definition e2e_client :: v5_Client where
  "e2e_client = \<lparr>cl5_shared = (v5_Shared_new v5_Codec_new)\<lparr>sh_cap := 9\<rparr>, cl5_pkt = v5_ConnectAck_default, cl5_max_receive = 65535, cl5_keepalive = 0\<rparr>"

definition e2e_server :: v5_Shared where
  "e2e_server = (v5_set_receive_max 9 (v5_Shared_new v5_Codec_new))\<lparr>sh_cap := 16\<rparr>"

lemma v5_ConnectAck_trim_limits [simp]:
  "cack5_reason_code (v5_ConnectAck_trim a limit) = cack5_reason_code a"
  "cack5_receive_max (v5_ConnectAck_trim a limit) = cack5_receive_max a"
  "cack5_max_packet_size (v5_ConnectAck_trim a limit) = cack5_max_packet_size a"
  "cack5_server_keepalive_sec (v5_ConnectAck_trim a limit) = cack5_server_keepalive_sec a"
  by (simp_all add: v5_ConnectAck_trim_def Let_def split: prod.splits)

lemma v5_out_packet_connect [simp]:
  "v5_out_packet c (V5_Connect con) = V5_Connect con" "v5_out_packet c (V5_ConnectAck a) = V5_ConnectAck a"
  by (simp_all add: v5_out_packet_def)

lemma out_limit_within:
  "c5_max_out_size c = (if 5 < k then k - 5 else k) \<Longrightarrow> n \<le> v5_out_limit c \<Longrightarrow> within_limit n k"
  by (auto simp: v5_out_limit_def split: if_splits)

lemma c5_out_simps [simp]:
  "c5_max_out_size (v5_set_max_inbound_size n c) = c5_max_out_size c"
  "c5_max_out_size (v5_set_retain_available b c) = c5_max_out_size c"
  "c5_max_out_size (v5_set_sub_ids_available b c) = c5_max_out_size c"
  "c5_max_out_size (v5_finish p c) = c5_max_out_size c"
  by (simp_all add: v5_set_max_inbound_size_def v5_set_retain_available_def v5_set_sub_ids_available_def v5_finish_def
      split: v5_Packet.splits)

text \<open>The packet sizes the server takes from CONNECT survive the handshake.\<close>

lemma v5_handshake_out_size:
  assumes "v5_handshake_call cfg env service (FP_packet (V5_Connect connect) sz) = (Ok (shared, session, timeout), s')"
    and "\<And>h ack. service h = Inr ack \<Longrightarrow> ha5_shared ack = hs5_shared h"
  shows "c5_max_out_size (sh_codec shared) =
    (case con5_max_packet_size connect of Some n \<Rightarrow> if 5 < unat n then unat n - 5 else unat n | None \<Rightarrow> 0)"
proof -
  obtain ack p' sh where svc: "service \<lparr>hs5_pkt = connect, hs5_size = sz, hs5_shared = v5_handshake_received connect (v5_handshake_shared cfg)\<rparr> = Inr ack"
    and sh: "sh = sh_set_cap env (case con5_receive_max connect of Some n \<Rightarrow> unat n | None \<Rightarrow> 16) (v5_apply_connack (ha5_packet ack) (ha5_shared ack))"
      "shared = log_event (Ev_encode (V5_ConnectAck p')) sh"
    by (rule v5_handshake_Ok [OF assms(1)]) force
  have "sh_codec shared = sh_codec (v5_apply_connack (ha5_packet ack) (ha5_shared ack))"
    using more_limits [of shared "v5_apply_connack (ha5_packet ack) (ha5_shared ack)"] sh by simp
  then show ?thesis using assms(2) [OF svc]
    by (simp add: v5_apply_connack_def v5_map_codec_def v5_handshake_received_def v5_handshake_shared_def v5_set_topic_alias_max_def
        v5_set_receive_max_def v5_set_max_qos_def v5_set_max_outbound_size_def v5_Shared_new_def v5_Codec_new_def Let_def split: option.splits)
qed

lemma v5_handshake_agreed:
  assumes hs: "v5_handshake_call cfg env service (FP_packet (V5_Connect connect) sz) = (Ok (shared, session, timeout), s')"
    and keeps: "\<And>h ack. service h = Inr ack \<Longrightarrow> ha5_shared ack = hs5_shared h"
    and ack: "last (sh_events shared) = Ev_encode (V5_ConnectAck pkt)"
    and cl: "v5_client_limits cl connect pkt"
  shows "v5_agree cl shared"
    and "(\<And>h ack. service h = Inr ack \<Longrightarrow> cack5_server_keepalive_sec (ha5_packet ack) = None) \<Longrightarrow> cl5_keepalive cl \<le> timeout"
proof -
  have lim: "v5_enforces shared pkt" "sh_cap shared = (case con5_receive_max connect of Some n \<Rightarrow> unat n | None \<Rightarrow> 16)"
    using v5_handshake_enforces_connack [OF hs] ack by auto
  note out = v5_handshake_out_size [OF hs keeps]
  have "within_limit n (c5_max_in_size (sh_codec shared))" if "n \<le> v5_out_limit (sh_codec (cl5_shared cl))" for n
    using cl lim(1) that out_limit_within [of "sh_codec (cl5_shared cl)"]
    by (auto simp: v5_client_limits_def v5_enforces_def split: option.splits)
  moreover have "within_limit n (c5_max_in_size (sh_codec (cl5_shared cl)))" if "n \<le> v5_out_limit (sh_codec shared)" for n
    using cl out that out_limit_within [of "sh_codec shared"]
    by (auto simp: v5_client_limits_def split: option.splits)
  ultimately show "v5_agree cl shared"
    using cl lim by (auto simp: v5_agree_def v5_client_limits_def v5_enforces_def split: option.splits)
  show "cl5_keepalive cl \<le> timeout"
    if none: "\<And>h ack. service h = Inr ack \<Longrightarrow> cack5_server_keepalive_sec (ha5_packet ack) = None"
  proof (rule v5_handshake_Ok [OF hs])
    fix connect' sz' ack p' sh
    assume "FP_packet (V5_Connect connect) sz = FP_packet (V5_Connect connect') sz'" "timeout = ha5_keepalive ack"
      "service \<lparr>hs5_pkt = connect', hs5_size = sz', hs5_shared = v5_handshake_received connect' (v5_handshake_shared cfg)\<rparr> = Inr ack"
      "p' = (if cack5_server_keepalive_sec (ha5_packet ack) = None \<and> ha5_keepalive ack < con5_keep_alive connect'
           then (ha5_packet ack)\<lparr>cack5_server_keepalive_sec := Some (ha5_keepalive ack)\<rparr> else ha5_packet ack)"
      "shared = log_event (Ev_encode (V5_ConnectAck p')) sh"
    then show "cl5_keepalive cl \<le> timeout" using cl ack none
      by (auto simp: log_event_def v5_client_limits_def split: if_splits)
  qed
qed

lemma v5_client_limits_trim [simp]: "v5_client_limits cl connect (v5_ConnectAck_trim pkt limit) = v5_client_limits cl connect pkt"
  by (simp add: v5_client_limits_def)

lemmas prop_size_defs = encoded_property_size_def encoded_property_size_default_def encoded_size_u32_def encoded_size_u16_def
  encoded_size_bool_def encoded_size_Bytes_def encoded_size_UserProperties_def var_int_len_eq varint_len_def

lemma hs_sizes:
  "v5_encoded_size (V5_Connect hs_connect) MAX_PACKET_SIZE = Ok 22" 
  "v5_encoded_size (V5_ConnectAck hs_connack) 195 = Ok 16"
  by (simp_all add: hs_connect_def v5_hs_connect_def v5_Connect_default_def v5_Connect_encoded_size_def Let_def
   v5_connect_properties_len_def prop_size_defs
   hs_connack_def v5_ConnectAck_default_def v5_ConnectAck_encoded_size_def 
   v5_ConnectAck_props_len_def RECEIVE_MAX_DEFAULT_def diag_packet_size_def ack_encoded_size_def encoded_size_opt_props_def)

lemma hs_call:
  "\<exists>shared s'. v5_handshake_call v5_hs_cfg v5_env (\<lambda>h. Inr (v5_Handshake_ack () h))
      (FP_packet (V5_Connect hs_connect) (of_nat 22) :: (v5_Packet, unit) first_packet) =
      (Ok (shared, (), 60) :: ((unit, unit) MqttError, v5_Shared \<times> unit \<times> u16) res, s') \<and>
      last (sh_events shared) = Ev_encode (V5_ConnectAck hs_connack) \<and> v5_out_limit (sh_codec shared) = 195 \<and> sh_cap shared = 7"
  by (simp add: v5_handshake_call_def hs_connect_def v5_hs_connect_def v5_Handshake_ack_def encode_then_def sh_encode_packet_def v5_env_def Let_def
     hs_connack_def v5_hs_cfg_def v5_handshake_received_def v5_Connect_default_def v5_handshake_shared_def v5_map_codec_def v5_finish_def
     v5_apply_connack_def v5_set_topic_alias_max_def v5_set_receive_max_def v5_set_max_qos_def v5_set_max_outbound_size_def v5_set_max_inbound_size_def
     v5_Shared_new_def v5_Codec_new_def set_cap_no_waiters log_event_def keepalive_timeout_def NonZero_new_def v5_ConnectAck_default_def
     v5_set_retain_available_def v5_set_sub_ids_available_def v5_out_limit_def)

lemma v5_trim_PublishAck:
  "\<exists>a'. v5_trim (v5_out_packet c (V5_PublishAck a)) limit = V5_PublishAck a' \<and> ack5_packet_id a' = ack5_packet_id a \<and>
    ack5_reason_code a' = ack5_reason_code a"
  by (simp add: v5_out_packet_def pub_ack_trim_def Let_def)

text \<open>A message that is sent while nothing is in flight is written at once and is then alone in flight; the acknowledgement
  with its identifier goes to the channel its sender waits on.\<close>

lemma v5_sent_alone:
  assumes "v5_send_at_least_once env packet cs = (Fut_ack rx, cs')" and "sh_inflight cs = []"
    and "fst (sh_packet_id (pub5_packet_id packet) cs) = Ok i"
  shows "last (sh_events cs') = Ev_encode (V5_Publish (packet\<lparr>pub5_qos := AtLeastOnce, pub5_packet_id := Some i\<rparr>)) \<and>
    sh_inflight cs' = [(i, Some rx, AckType_Publish)]"
  using assms
  by (auto simp: v5_send_at_least_once_def sh_start_def v5_send_at_least_once_inner_def sh_publish_inner_def fut_of_def
      sh_wait_packet_response_def sh_encode_packet_def sh_register_def new_channel_def log_event_def sh_wait_readiness_def
      sh_packet_id_def sh_next_id_def Let_def
      split: if_splits option.splits prod.splits res.splits)

lemma v5_ack_delivered:
  assumes "sh_inflight cs = [(i, Some rx, AckType_Publish)]" and "ack5_packet_id a = i"
  shows "\<exists>cs'. v5_pkt_ack env (Ack_Publish a) cs = (Ok (), cs') \<and> Ev_ack rx (Ack_Publish a) \<in> set (sh_events cs') \<and> sh_inflight cs' = []"
  using assms
  by (auto simp: v5_pkt_ack_def pkt_ack_def pkt_ack_inner_def sh_wake_next_def sh_woken_def log_event_def Let_def split: prod.splits option.splits)

lemma v5_finish_other: "(\<And>con. p \<noteq> V5_Connect con) \<Longrightarrow> v5_finish p c = c\<lparr>c5_state := FrameHeader\<rparr>"
  by (simp add: v5_finish_def split: v5_Packet.splits)

text \<open>The time after which a server gives a connection up is not shorter than the keep alive of the client; a connector of MQTT 3.1.1.\<close>

lemma keepalive_timeout_ge: "ka \<le> keepalive_timeout ka"
proof (cases "ka = 0")
  case False
  have "unat ka < 2 ^ 16" by (rule order.strict_trans2 [OF unsigned_less]) simp
  then show ?thesis using keepalive_timeout_nat [OF False] by (simp add: word_le_nat_alt)
qed simp

definition hs3_connector :: v3_Connector where
  "hs3_connector = v3_Connector_client_id [0x61] (v3_Connector_new\<lparr>mc3_pkt := v3_Connect_default\<lparr>con3_keep_alive := 10\<rparr>\<rparr>)"

end
