(* ===== verification/Pipeline.thy ===== *)
theory Pipeline
  imports Agreement Io
begin

text \<open>
  Several QoS 1 messages of an MQTT 5 client that are in flight at the same time, from the senders to the publish service of the server and
  back: the sink of the client, both codecs, the dispatcher and the stream dispatcher of the server, and the dispatcher of the client.
\<close>

section \<open>Runs of the two ends\<close>

text \<open>Requests that are handed to a dispatcher one after the other.\<close>

fun handle_all :: "('req \<Rightarrow> 's \<Rightarrow> 'r \<times> 's) \<Rightarrow> 'req list \<Rightarrow> 's \<Rightarrow> 'r list \<times> 's" where
  "handle_all f [] s = ([], s)"
| "handle_all f (x # xs) s = (case f x s of (r, s1) \<Rightarrow> apfst (Cons r) (handle_all f xs s1))"

text \<open>Senders that all get through at once, with the channels they wait on.\<close>

fun v5_send_all :: "v5_Env \<Rightarrow> v5_Publish list \<Rightarrow> v5_Shared \<Rightarrow> (chan list \<times> v5_Shared) option" where
  "v5_send_all env [] s = Some ([], s)"
| "v5_send_all env (p # ps) s =
     (case v5_send_at_least_once env p s of
        (Fut_ack rx, s1) \<Rightarrow> map_option (apfst (Cons rx)) (v5_send_all env ps s1)
      | _ \<Rightarrow> None)"

definition v5_with_id :: "v5_Publish \<Rightarrow> u16 \<Rightarrow> v5_Publish" where
  "v5_with_id p i = p\<lparr>pub5_qos := AtLeastOnce, pub5_packet_id := Some i\<rparr>"

lemma v5_with_id_simps [simp]:
  "pub5_packet_id (v5_with_id p i) = Some i" "pub5_qos (v5_with_id p i) = AtLeastOnce" "pub5_topic (v5_with_id p i) = pub5_topic p"
  "pub5_retain (v5_with_id p i) = pub5_retain p" "pub5_properties (v5_with_id p i) = pub5_properties p"
  by (simp_all add: v5_with_id_def)

text \<open>The requests the server reads, and the acknowledgements when the publish service answers by \<open>ack\<close>.\<close>

definition v5_requests :: "v5_Codec \<Rightarrow> v5_Publish list \<Rightarrow> (v5_Publish \<times> u32) list" where
  "v5_requests c sent = map (\<lambda>p. (p, of_nat (v5_sent_size c (V5_Publish p)))) sent"

definition v5_pubacks :: "(v5_Publish \<times> u32 \<Rightarrow> v5_PubAck) \<Rightarrow> (v5_Publish \<times> u32) list \<Rightarrow> v5_PublishAck list" where
  "v5_pubacks ack reqs = map (\<lambda>x. v5_puback (the (pub5_packet_id (fst x))) (ack x)) reqs"

lemma v5_pipeline_ids:
  assumes "length ids = length ps"
  shows "map (\<lambda>x. pub5_packet_id (fst x)) (v5_requests c (map2 v5_with_id ps ids)) = map Some ids"
    and "map ack5_packet_id (v5_pubacks ack (v5_requests c (map2 v5_with_id ps ids))) = ids"
  using assms by (intro nth_equalityI; simp add: v5_requests_def v5_pubacks_def v5_puback_def)+

section \<open>The client sends\<close>

lemma v5_sent_one:
  assumes "v5_send_at_least_once env p s = (Fut_ack rx, s1)"
  obtains i where "i \<notin> sh_inflight_ids s" and "sh_inflight s1 = sh_inflight s @ [(i, Some rx, AckType_Publish)]"
    and "sh_inflight_ids s1 = insert i (sh_inflight_ids s)" and "sh_events s1 = sh_events s @ [Ev_encode (V5_Publish (v5_with_id p i))]"
    and "sh_cap s1 = sh_cap s" and "length (sh_inflight s) < sh_cap s"
proof -
  have "\<exists>i. i \<notin> sh_inflight_ids s \<and> sh_inflight s1 = sh_inflight s @ [(i, Some rx, AckType_Publish)] \<and>
      sh_inflight_ids s1 = insert i (sh_inflight_ids s) \<and> sh_events s1 = sh_events s @ [Ev_encode (V5_Publish (v5_with_id p i))] \<and>
      sh_cap s1 = sh_cap s \<and> length (sh_inflight s) < sh_cap s"
    using assms
    by (auto simp: v5_send_at_least_once_def sh_start_def v5_send_at_least_once_inner_def sh_publish_inner_def fut_of_def
        sh_wait_packet_response_def sh_encode_packet_def sh_register_def new_channel_def log_event_def sh_wait_readiness_def
        sh_packet_id_def sh_next_id_def v5_with_id_def Let_def
        split: if_splits option.splits prod.splits res.splits)
  then show thesis using that by blast
qed

lemma v5_sent_all:
  assumes "v5_send_all env ps s = Some (rxs, s')"
  shows "\<exists>ids. length ids = length ps \<and> length rxs = length ps \<and> distinct ids \<and> set ids \<inter> sh_inflight_ids s = {} \<and>
    sh_inflight s' = sh_inflight s @ map2 (\<lambda>i rx. (i, Some rx, AckType_Publish)) ids rxs \<and>
    sh_events s' = sh_events s @ map (\<lambda>p. Ev_encode (V5_Publish p)) (map2 v5_with_id ps ids) \<and>
    (ps \<noteq> [] \<longrightarrow> length (sh_inflight s) + length ps \<le> sh_cap s)"
  using assms
proof (induction ps arbitrary: s rxs)
  case (Cons p ps)
  from Cons.prems obtain rx s1 rxs' where send: "v5_send_at_least_once env p s = (Fut_ack rx, s1)"
      "v5_send_all env ps s1 = Some (rxs', s')" "rxs = rx # rxs'"
    by (auto split: prod.splits send_fut.splits)
  from v5_sent_one [OF send(1)] obtain i where i: "i \<notin> sh_inflight_ids s" "sh_inflight s1 = sh_inflight s @ [(i, Some rx, AckType_Publish)]"
    "sh_inflight_ids s1 = insert i (sh_inflight_ids s)" "sh_events s1 = sh_events s @ [Ev_encode (V5_Publish (v5_with_id p i))]"
    "sh_cap s1 = sh_cap s" "length (sh_inflight s) < sh_cap s" .
  from Cons.IH [OF send(2)] obtain ids where ids: "length ids = length ps" "length rxs' = length ps" "distinct ids"
      "set ids \<inter> sh_inflight_ids s1 = {}" "sh_inflight s' = sh_inflight s1 @ map2 (\<lambda>i rx. (i, Some rx, AckType_Publish)) ids rxs'"
      "sh_events s' = sh_events s1 @ map (\<lambda>p. Ev_encode (V5_Publish p)) (map2 v5_with_id ps ids)"
      "ps \<noteq> [] \<longrightarrow> length (sh_inflight s1) + length ps \<le> sh_cap s1"
    by blast
  show ?case using i ids send(3) by (intro exI [of _ "i # ids"]) (cases ps; auto)
qed simp

section \<open>The server accepts\<close>

lemma v5_accept_one:
  assumes "finite (in5_inflight s)" and "i \<notin> in5_inflight s" and "pub5_packet_id p = Some i" and "\<not> has_wildcard (pub5_topic p)"
    and "pp5_topic_alias (pub5_properties p) = None" and "pub5_qos p \<le> sh_max_qos (in5_sink s)"
    and "pub5_retain p \<longrightarrow> v5_retain_available (sh_codec (in5_sink s))" and "\<not> env_closed env"
    and "sh_receive_max (in5_sink s) = 0 \<or> card (in5_inflight s) < unat (sh_receive_max (in5_sink s))"
  shows "v5_dispatch cfg env (DI_Item (V5_Publish p) sz :: (v5_Packet, 'io) DispatchItem) s =
    (Call_publish (p, sz) (Some i) :: ('e, 'io) v5_call, s\<lparr>in5_inflight := insert i (in5_inflight s)\<rparr>)"
proof -
  have checks: "v5_publish_checks p s = Inr (s\<lparr>in5_inflight := insert i (in5_inflight s)\<rparr>)"
    using assms by (auto simp: v5_publish_checks_def)
  have "v5_topic_alias (sh_topic_alias_max (in5_sink s)) ''Topic alias is greater than max allowed [MQTT-3.2.2-17]'' p (in5_aliases s) =
      Inr (p, in5_aliases s)"
    using assms(5) by (simp add: v5_topic_alias_def)
  then show ?thesis using checks assms(3,4,8) by (simp add: v5_dispatch_publish_def skip_after_disconnect_def)
qed

lemma v5_accept_all:
  fixes s :: v5_Inner
  assumes "\<forall>x \<in> set xs. \<not> has_wildcard (pub5_topic (fst x)) \<and> pp5_topic_alias (pub5_properties (fst x)) = None \<and>
      pub5_qos (fst x) \<le> sh_max_qos (in5_sink s) \<and> (pub5_retain (fst x) \<longrightarrow> v5_retain_available (sh_codec (in5_sink s)))"
    and "\<not> env_closed env" and "finite (in5_inflight s)" and "map (\<lambda>x. pub5_packet_id (fst x)) xs = map Some ids" and "distinct ids"
    and "set ids \<inter> in5_inflight s = {}"
    and "sh_receive_max (in5_sink s) = 0 \<or> card (in5_inflight s) + length xs \<le> unat (sh_receive_max (in5_sink s))"
  shows "handle_all (\<lambda>x. v5_dispatch cfg env (DI_Item (V5_Publish (fst x)) (snd x) :: (v5_Packet, 'io) DispatchItem)) xs s =
    (map (\<lambda>x. Call_publish x (pub5_packet_id (fst x)) :: ('e, 'io) v5_call) xs, s\<lparr>in5_inflight := in5_inflight s \<union> set ids\<rparr>)"
  using assms
proof (induction xs arbitrary: s ids)
  case (Cons x xs)
  from Cons.prems(4) obtain i ids' where ids: "ids = i # ids'" "pub5_packet_id (fst x) = Some i" "map (\<lambda>x. pub5_packet_id (fst x)) xs = map Some ids'"
    by (cases ids) auto
  let ?s = "s\<lparr>in5_inflight := insert i (in5_inflight s)\<rparr>"
  have "v5_dispatch cfg env (DI_Item (V5_Publish (fst x)) (snd x) :: (v5_Packet, 'io) DispatchItem) s =
      (Call_publish (fst x, snd x) (Some i) :: ('e, 'io) v5_call, ?s)"
    using Cons.prems ids by (intro v5_accept_one) auto
  moreover have "handle_all (\<lambda>x. v5_dispatch cfg env (DI_Item (V5_Publish (fst x)) (snd x) :: (v5_Packet, 'io) DispatchItem)) xs ?s =
      (map (\<lambda>x. Call_publish x (pub5_packet_id (fst x)) :: ('e, 'io) v5_call) xs, ?s\<lparr>in5_inflight := in5_inflight ?s \<union> set ids'\<rparr>)"
    using Cons.prems ids by (intro Cons.IH) auto
  ultimately show ?case using ids by (simp del: v5_dispatch.simps)
qed simp

section \<open>The client takes the acknowledgements\<close>

lemma v5_acked_one:
  assumes "sh_inflight s = (ack5_packet_id a, Some rx, AckType_Publish) # q"
  obtains s1 where "v5_pkt_ack env (Ack_Publish a) s = (Ok (), s1)" and "sh_inflight s1 = q"
    and "Ev_ack rx (Ack_Publish a) \<in> set (sh_events s1)" and "set (sh_events s) \<subseteq> set (sh_events s1)"
proof -
  have "\<exists>s1. v5_pkt_ack env (Ack_Publish a) s = (Ok (), s1) \<and> sh_inflight s1 = q \<and>
      Ev_ack rx (Ack_Publish a) \<in> set (sh_events s1) \<and> set (sh_events s) \<subseteq> set (sh_events s1)"
    using assms
    by (auto simp: v5_pkt_ack_def pkt_ack_def pkt_ack_inner_def sh_wake_next_def sh_woken_def log_event_def Let_def split: prod.splits option.splits)
  then show thesis using that by blast
qed

lemma v5_acked_all:
  fixes inner :: v5_Inner
  assumes "sh_inflight (in5_sink inner) = map2 (\<lambda>i rx. (i, Some rx, AckType_Publish)) (map ack5_packet_id as) rxs"
    and "length rxs = length as" and "length szs = length as"
  shows "\<exists>s'. handle_all (\<lambda>x. v5c_dispatch ccfg env (DI_Item (V5_PublishAck (fst x)) (snd x) :: (v5_Packet, 'io) DispatchItem)) (zip as szs) inner =
      (map (\<lambda>_. Call_done (Ok None) :: ('e, 'io) v5c_call) as, inner\<lparr>in5_sink := s'\<rparr>) \<and> sh_inflight s' = [] \<and>
    (\<forall>(a, rx) \<in> set (zip as rxs). Ev_ack rx (Ack_Publish a) \<in> set (sh_events s')) \<and> set (sh_events (in5_sink inner)) \<subseteq> set (sh_events s')"
  using assms
proof (induction as arbitrary: inner rxs szs)
  case Nil
  then show ?case by (intro exI [of _ "in5_sink inner"]) simp
next
  case (Cons a as)
  obtain rx rxs' sz szs' where eq: "rxs = rx # rxs'" "szs = sz # szs'" using Cons.prems by (cases rxs; cases szs) auto
  then have "sh_inflight (in5_sink inner) =
      (ack5_packet_id a, Some rx, AckType_Publish) # map2 (\<lambda>i rx. (i, Some rx, AckType_Publish)) (map ack5_packet_id as) rxs'"
    using Cons.prems(1) by simp
  from v5_acked_one [OF this, of env] obtain s1 where s1: "v5_pkt_ack env (Ack_Publish a) (in5_sink inner) = (Ok (), s1)"
    "sh_inflight s1 = map2 (\<lambda>i rx. (i, Some rx, AckType_Publish)) (map ack5_packet_id as) rxs'"
    "Ev_ack rx (Ack_Publish a) \<in> set (sh_events s1)" "set (sh_events (in5_sink inner)) \<subseteq> set (sh_events s1)" .
  have d: "v5c_dispatch ccfg env (DI_Item (V5_PublishAck a) sz :: (v5_Packet, 'io) DispatchItem) inner =
      (Call_done (Ok None) :: ('e, 'io) v5c_call, inner\<lparr>in5_sink := s1\<rparr>)"
    using s1(1) by (simp add: v5c_ack_def)
  note ih = Cons.IH [of "inner\<lparr>in5_sink := s1\<rparr>" rxs' szs']
  obtain s' where s':
    "handle_all (\<lambda>x. v5c_dispatch ccfg env (DI_Item (V5_PublishAck (fst x)) (snd x) :: (v5_Packet, 'io) DispatchItem)) (zip as szs')
       (inner\<lparr>in5_sink := s1\<rparr>) = (map (\<lambda>_. Call_done (Ok None) :: ('e, 'io) v5c_call) as, inner\<lparr>in5_sink := s'\<rparr>)"
    "sh_inflight s' = []" "\<forall>(a, rx) \<in> set (zip as rxs'). Ev_ack rx (Ack_Publish a) \<in> set (sh_events s')"
    "set (sh_events s1) \<subseteq> set (sh_events s')"
    using ih s1(2) Cons.prems(2,3) eq by (simp del: v5c_dispatch.simps) blast
  show ?case using d s' s1(3,4) eq by (intro exI [of _ s']) (auto simp del: v5c_dispatch.simps)
qed

section \<open>The whole exchange\<close>

lemma v5_received_publish [simp]: "v5_received c (V5_Publish p) = (V5_Publish p, v5_sent_size c (V5_Publish p))"
  by (simp add: v5_received_def v5_out_packet_def)

lemma v5_received_puback:
  obtains b where "v5_received c (V5_PublishAck a) = (V5_PublishAck b, v5_sent_size c (V5_PublishAck a))"
    and "ack5_packet_id b = ack5_packet_id a" and "ack5_reason_code b = ack5_reason_code a"
  using v5_trim_PublishAck [of c a "v5_out_limit c"] that by (auto simp: v5_received_def)

text \<open>The acknowledgement as the client gets it, without the diagnostic properties that do not fit.\<close>

definition v5_puback_received :: "v5_Codec \<Rightarrow> v5_PublishAck \<Rightarrow> v5_PublishAck" where
  "v5_puback_received c a = (case fst (v5_received c (V5_PublishAck a)) of V5_PublishAck b \<Rightarrow> b | _ \<Rightarrow> a)"

lemma v5_puback_received:
  "v5_received c (V5_PublishAck a) = (V5_PublishAck (v5_puback_received c a), v5_sent_size c (V5_PublishAck a))"
  "ack5_packet_id (v5_puback_received c a) = ack5_packet_id a" "ack5_reason_code (v5_puback_received c a) = ack5_reason_code a"
  by (rule v5_received_puback [of c a]; simp add: v5_puback_received_def)+

lemma written_acks:
  assumes "n = length xs"
  shows "written (map (\<lambda>k. Inr (Some (f (xs ! k))) :: 'e + 'pkt option) [0..<n]) = map f xs"
proof -
  have "map (\<lambda>k. Inr (Some (f (xs ! k))) :: 'e + 'pkt option) [0..<n] = map (\<lambda>x. Inr (Some (f x))) xs"
    using assms by (intro nth_equalityI) simp_all
  moreover have "written (map (\<lambda>x. Inr (Some (f x)) :: 'e + 'pkt option) xs) = map f xs" by (induction xs) simp_all
  ultimately show ?thesis by simp
qed

lemma io_written:
  assumes "io_reach config enc res d" and "ds_queue (io_state d) = []"
  shows "encoded (ds_events (io_state d)) = written (map res [0..<io_calls d])"
  using io_inv_idle [OF io_reach_inv [OF assms(1)] assms(2)] .

lemma handle_all_map: "handle_all f (map g xs) s = handle_all (\<lambda>x. f (g x)) xs s"
  by (induction xs arbitrary: s) (simp_all split: prod.splits)

lemma v5_publish_call_acked:
  "pub x = Inr a \<Longrightarrow> fst (v5_complete cfg env pub ctl (Call_publish x (Some i)) s) = Ok (Some (V5_PublishAck (v5_puback i a)))"
  by (simp add: v5_publish_done_def v5_publish_acked_def)

lemma v5_calls_acked:
  assumes "\<forall>x \<in> set reqs. pub x = Inr (ack x)" and "map (\<lambda>x. pub5_packet_id (fst x)) reqs = map Some ids" and "k < length reqs"
  shows "fst (v5_complete cfg env pub ctl (Call_publish (reqs ! k) (pub5_packet_id (fst (reqs ! k)))) s) =
    Ok (Some (V5_PublishAck (v5_pubacks ack reqs ! k)))"
proof -
  have len: "length reqs = length ids" using arg_cong [OF assms(2), of length] by simp
  have "pub5_packet_id (fst (reqs ! k)) = Some (ids ! k)" using arg_cong [OF assms(2), of "\<lambda>xs. xs ! k"] assms(3) len by simp
  moreover have "fst (v5_complete cfg env pub ctl (Call_publish (reqs ! k) (Some (ids ! k))) s) =
      Ok (Some (V5_PublishAck (v5_puback (ids ! k) (ack (reqs ! k)))))"
    using assms(1,3) by (intro v5_publish_call_acked) simp
  ultimately show ?thesis using assms(3) by (simp add: v5_pubacks_def del: v5_complete.simps)
qed

text \<open>Messages for which the client has credit are all accepted by a server that agrees with it.\<close>

lemma v5_pipeline_accepted:
  assumes "v5_agree cl shared" and ids: "length ids = length ps" "distinct ids" "ps \<noteq> [] \<longrightarrow> length ps \<le> sh_cap (cl5_shared cl)"
    and srv: "in5_sink srv = shared" "in5_inflight srv = {}" "AtLeastOnce \<le> sh_max_qos shared" "\<not> env_closed env"
      "\<forall>p \<in> set ps. \<not> has_wildcard (pub5_topic p) \<and> pp5_topic_alias (pub5_properties p) = None \<and>
        (pub5_retain p \<longrightarrow> v5_retain_available (sh_codec shared))"
  shows "fst (handle_all (\<lambda>x. v5_dispatch cfg env (DI_Item (V5_Publish (fst x)) (snd x) :: (v5_Packet, 'io) DispatchItem))
      (v5_requests c (map2 v5_with_id ps ids)) srv) =
    map (\<lambda>x. Call_publish x (pub5_packet_id (fst x)) :: ('e, 'io) v5_call) (v5_requests c (map2 v5_with_id ps ids))"
proof -
  let ?reqs = "v5_requests c (map2 v5_with_id ps ids)"
  have cap: "sh_receive_max (in5_sink srv) = 0 \<or> card (in5_inflight srv) + length ?reqs \<le> unat (sh_receive_max (in5_sink srv))"
    using assms(1) ids srv(1,2) by (cases ps) (simp_all add: v5_agree_def v5_requests_def)
  have ok: "\<forall>x \<in> set ?reqs. \<not> has_wildcard (pub5_topic (fst x)) \<and> pp5_topic_alias (pub5_properties (fst x)) = None \<and>
      pub5_qos (fst x) \<le> sh_max_qos (in5_sink srv) \<and> (pub5_retain (fst x) \<longrightarrow> v5_retain_available (sh_codec (in5_sink srv)))"
    using srv by (auto simp: v5_requests_def dest!: set_zip_leftD)
  show ?thesis using srv(2) ids(2) by (subst v5_accept_all [OF ok srv(4) _ v5_pipeline_ids(1) [OF ids(1)] _ _ cap]) simp_all
qed

text \<open>The acknowledgements that come back, in the order in which the messages were sent.\<close>

lemma v5_acks_delivered:
  assumes "c5_state cc = FrameHeader" and "\<forall>a \<in> set acks. v5_sendable u sc cc (V5_PublishAck a)"
    and "concat chunks = concat (map (\<lambda>a. fst (v5_codec_encode sc (V5_PublishAck a))) acks)"
    and "sh_inflight cs = map2 (\<lambda>i rx. (i, Some rx, AckType_Publish)) (map ack5_packet_id acks) rxs" and "length rxs = length acks"
  shows "\<exists>items cs'. feed (v5_codec_decode u) cc [] chunks = Some (items, None) \<and>
    handle_all (\<lambda>x. v5c_dispatch ccfg env (DI_Item (fst x) (of_nat (snd x)) :: (v5_Packet, 'io) DispatchItem)) items (ci\<lparr>in5_sink := cs\<rparr>) =
      (map (\<lambda>_. Call_done (Ok None) :: ('e, 'io) v5c_call) acks, ci\<lparr>in5_sink := cs'\<rparr>) \<and> sh_inflight cs' = [] \<and>
    (\<forall>k < length acks. Ev_ack (rxs ! k) (Ack_Publish (v5_puback_received sc (acks ! k))) \<in> set (sh_events cs'))"
proof -
  let ?as = "map (v5_puback_received sc) acks" and ?szs = "map (\<lambda>a. of_nat (v5_sent_size sc (V5_PublishAck a)) :: u32) acks"
  let ?items = "map (\<lambda>a. v5_received sc (V5_PublishAck a)) acks"
  have feed: "feed (v5_codec_decode u) cc [] chunks = Some (?items, None)"
    using codec5.feed_from_start [OF assms(1), of u chunks] v5_stream_read [of "map V5_PublishAck acks" u sc cc] assms(1-3)
    by (simp add: comp_def)
  have zip: "zip ?as ?szs = map (\<lambda>a. (v5_puback_received sc a, of_nat (v5_sent_size sc (V5_PublishAck a)))) acks"
    by (simp add: zip_map_map zip_same_conv_map)
  obtain cs' where cs': "handle_all (\<lambda>x. v5c_dispatch ccfg env (DI_Item (V5_PublishAck (fst x)) (snd x) :: (v5_Packet, 'io) DispatchItem)) (zip ?as ?szs)
      (ci\<lparr>in5_sink := cs\<rparr>) = (map (\<lambda>_. Call_done (Ok None) :: ('e, 'io) v5c_call) ?as, ci\<lparr>in5_sink := cs\<rparr>\<lparr>in5_sink := cs'\<rparr>)"
    "sh_inflight cs' = []" "\<forall>(a, rx) \<in> set (zip ?as rxs). Ev_ack rx (Ack_Publish a) \<in> set (sh_events cs')"
    using v5_acked_all [of "ci\<lparr>in5_sink := cs\<rparr>" ?as rxs ?szs, where ccfg = ccfg and env = env and ?'io = 'io and ?'e = 'e] assms(4,5)
    by (auto simp: comp_def v5_puback_received(2))
  have "(v5_puback_received sc (acks ! k), rxs ! k) \<in> set (zip ?as rxs)" if "k < length acks" for k
    using that assms(5) by (auto simp: set_zip intro!: exI [of _ k])
  then have "\<forall>k < length acks. Ev_ack (rxs ! k) (Ack_Publish (v5_puback_received sc (acks ! k))) \<in> set (sh_events cs')"
    using cs'(3) by blast
  moreover have "handle_all (\<lambda>x. v5c_dispatch ccfg env (DI_Item (fst x) (of_nat (snd x)) :: (v5_Packet, 'io) DispatchItem)) ?items (ci\<lparr>in5_sink := cs\<rparr>) =
      (map (\<lambda>_. Call_done (Ok None) :: ('e, 'io) v5c_call) acks, ci\<lparr>in5_sink := cs'\<rparr>)"
    using cs'(1) unfolding zip handle_all_map v5_puback_received(1) by (simp add: comp_def del: v5c_dispatch.simps)
  ultimately show ?thesis using feed cs'(2) by blast
qed

section \<open>Properties\<close>

text \<open>C6: Several QoS 1 messages of an MQTT 5 client that agrees with the server after the handshake, all in flight at the same time. The
  client writes them with distinct identifiers; the server reads them, in order, however the stream is cut, and gives all of them to
  the publish service before any is answered: as the client keeps to its credit, the receive maximum is never exceeded, and no message is
  refused. Each call ends with the PUBACK of its own message, whatever happens in between. The stream dispatcher writes the PUBACK
  packets in the order of the messages, in whatever order the publish service answers. The client reads them back, and every sender
  gets the acknowledgement of its own message with the reason of the service; afterwards nothing is in flight.\<close>

theorem v5_pipelined_publishes:
  fixes pub :: "v5_Publish \<times> u32 \<Rightarrow> 't + v5_PubAck" and ctl :: "('e, 'io) v5_Control \<Rightarrow> ('e, 'io) MqttError + v5_ControlAck"
  assumes agree: "v5_agree cl shared" and cc: "cc = sh_codec (cl5_shared cl)" "c5_state cc = FrameHeader"
    and sc: "sc = sh_codec shared" "c5_state sc = FrameHeader"
    and send: "v5_send_all env ps (cl5_shared cl) = Some (rxs, cs')" "sh_inflight (cl5_shared cl) = []"
    and sent: "sent = map2 v5_with_id ps (map fst (sh_inflight cs'))" "\<forall>p \<in> set sent. v5_sendable u cc sc (V5_Publish p)"
    and srv: "in5_sink srv = shared" "in5_inflight srv = {}" "AtLeastOnce \<le> sh_max_qos shared" "\<not> env_closed senv"
      "\<forall>p \<in> set ps. \<not> has_wildcard (pub5_topic p) \<and> pp5_topic_alias (pub5_properties p) = None \<and> (pub5_retain p \<longrightarrow> v5_retain_available sc)"
    and reqs: "reqs = v5_requests cc sent" "\<forall>x \<in> set reqs. pub x = Inr (ack x)"
    and acks: "acks = v5_pubacks ack reqs" "\<forall>a \<in> set acks. v5_sendable u sc cc (V5_PublishAck a)"
    and chunks: "concat chunks = concat (map (\<lambda>p. fst (v5_codec_encode cc (V5_Publish p))) sent)"
      "concat chunks' = concat (map (\<lambda>a. fst (v5_codec_encode sc (V5_PublishAck a))) acks)"
  shows "distinct (map fst (sh_inflight cs')) \<and> length sent = length ps \<and>
    sh_events cs' = sh_events (cl5_shared cl) @ map (\<lambda>p. Ev_encode (V5_Publish p)) sent \<and>
    feed (v5_codec_decode u) sc [] chunks = Some (map (\<lambda>p. (V5_Publish p, v5_sent_size cc (V5_Publish p))) sent, None) \<and>
    fst (handle_all (\<lambda>x. v5_dispatch cfg senv (DI_Item (V5_Publish (fst x)) (snd x) :: (v5_Packet, 'io) DispatchItem)) reqs srv) =
      map (\<lambda>x. Call_publish x (pub5_packet_id (fst x)) :: ('e, 'io) v5_call) reqs \<and>
    (\<forall>k < length ps. \<forall>s. fst (v5_complete cfg senv pub ctl (Call_publish (reqs ! k) (pub5_packet_id (fst (reqs ! k)))) s) =
      Ok (Some (V5_PublishAck (acks ! k)))) \<and>
    (\<forall>d :: (v5_Packet, 'e, 'io) DispatcherInner. io_reach config enc (\<lambda>k. Inr (Some (V5_PublishAck (acks ! k)))) d \<and>
      io_calls d = length ps \<and> ds_queue (io_state d) = [] \<longrightarrow> encoded (ds_events (io_state d)) = map V5_PublishAck acks) \<and>
    (\<exists>items cs''. feed (v5_codec_decode u) cc [] chunks' = Some (items, None) \<and>
      handle_all (\<lambda>x. v5c_dispatch ccfg env' (DI_Item (fst x) (of_nat (snd x)) :: (v5_Packet, 'io) DispatchItem)) items (ci\<lparr>in5_sink := cs'\<rparr>) =
        (map (\<lambda>_. Call_done (Ok None) :: ('e, 'io) v5c_call) ps, ci\<lparr>in5_sink := cs''\<rparr>) \<and> sh_inflight cs'' = [] \<and>
      (\<forall>k < length ps. \<exists>a. Ev_ack (rxs ! k) (Ack_Publish a) \<in> set (sh_events cs'') \<and>
        ack5_packet_id a = ack5_packet_id (acks ! k) \<and> ack5_reason_code a = pa5_reason_code (ack (reqs ! k))))"
proof (intro conjI)
  obtain ids where ids: "length ids = length ps" "length rxs = length ps" "distinct ids"
      "sh_inflight cs' = map2 (\<lambda>i rx. (i, Some rx, AckType_Publish)) ids rxs"
      "sh_events cs' = sh_events (cl5_shared cl) @ map (\<lambda>p. Ev_encode (V5_Publish p)) (map2 v5_with_id ps ids)"
      "ps \<noteq> [] \<longrightarrow> length ps \<le> sh_cap (cl5_shared cl)"
    using v5_sent_all [OF send(1)] send(2) by auto
  have fst_ids: "map fst (sh_inflight cs') = ids" using ids(1,2,4) by (simp add: comp_def split_beta)
  then have sent_eq: "sent = map2 v5_with_id ps ids" using sent(1) by simp
  have len: "length sent = length ps" "length reqs = length ps" "length acks = length ps"
    using sent_eq reqs(1) acks(1) ids(1) by (simp_all add: v5_requests_def v5_pubacks_def)
  note shape = v5_pipeline_ids [OF ids(1), where c = cc, folded sent_eq reqs(1)]
  show "distinct (map fst (sh_inflight cs'))" using fst_ids ids(3) by simp
  show "length sent = length ps" by (rule len)
  show "sh_events cs' = sh_events (cl5_shared cl) @ map (\<lambda>p. Ev_encode (V5_Publish p)) sent" using ids(5) sent_eq by simp
  show "feed (v5_codec_decode u) sc [] chunks = Some (map (\<lambda>p. (V5_Publish p, v5_sent_size cc (V5_Publish p))) sent, None)"
    using codec5.feed_from_start [OF sc(2), of u chunks] v5_stream_read [of "map V5_Publish sent" u cc sc] sent(2) sc(2) chunks(1)
    by (simp add: comp_def)
  show "fst (handle_all (\<lambda>x. v5_dispatch cfg senv (DI_Item (V5_Publish (fst x)) (snd x) :: (v5_Packet, 'io) DispatchItem)) reqs srv) =
      map (\<lambda>x. Call_publish x (pub5_packet_id (fst x)) :: ('e, 'io) v5_call) reqs"
    unfolding reqs(1) sent_eq using srv sc(1) by (intro v5_pipeline_accepted [OF agree ids(1,3,6)]) simp_all
  show "\<forall>k < length ps. \<forall>s. fst (v5_complete cfg senv pub ctl (Call_publish (reqs ! k) (pub5_packet_id (fst (reqs ! k)))) s) =
      Ok (Some (V5_PublishAck (acks ! k)))"
    unfolding acks(1) len(2) [symmetric] by (intro allI impI v5_calls_acked [OF reqs(2) shape(1)])
  show "\<forall>d :: (v5_Packet, 'e, 'io) DispatcherInner. io_reach config enc (\<lambda>k. Inr (Some (V5_PublishAck (acks ! k)))) d \<and>
      io_calls d = length ps \<and> ds_queue (io_state d) = [] \<longrightarrow> encoded (ds_events (io_state d)) = map V5_PublishAck acks"
    using io_written written_acks [of "length ps" acks] len by metis
  obtain items cs'' where cs'': "feed (v5_codec_decode u) cc [] chunks' = Some (items, None)"
      "handle_all (\<lambda>x. v5c_dispatch ccfg env' (DI_Item (fst x) (of_nat (snd x)) :: (v5_Packet, 'io) DispatchItem)) items (ci\<lparr>in5_sink := cs'\<rparr>) =
        (map (\<lambda>_. Call_done (Ok None) :: ('e, 'io) v5c_call) acks, ci\<lparr>in5_sink := cs''\<rparr>)" "sh_inflight cs'' = []"
      "\<forall>k < length acks. Ev_ack (rxs ! k) (Ack_Publish (v5_puback_received sc (acks ! k))) \<in> set (sh_events cs'')"
    using v5_acks_delivered [OF cc(2) acks(2) chunks(2), of cs' rxs, where ccfg = ccfg and env = env' and ci = ci and ?'e = 'e and ?'io = 'io]
      ids(2,4) len shape(2) [of ack, folded acks(1)] by auto
  have "map (\<lambda>_. Call_done (Ok None) :: ('e, 'io) v5c_call) acks = map (\<lambda>_. Call_done (Ok None)) ps"
    using len by (simp add: map_replicate_const)
  moreover have "ack5_reason_code (v5_puback_received sc (acks ! k)) = pa5_reason_code (ack (reqs ! k))" if "k < length ps" for k
    using that len by (simp add: v5_puback_received(3) acks(1) v5_pubacks_def v5_puback_def)
  ultimately show "\<exists>items cs''. feed (v5_codec_decode u) cc [] chunks' = Some (items, None) \<and>
      handle_all (\<lambda>x. v5c_dispatch ccfg env' (DI_Item (fst x) (of_nat (snd x)) :: (v5_Packet, 'io) DispatchItem)) items (ci\<lparr>in5_sink := cs'\<rparr>) =
        (map (\<lambda>_. Call_done (Ok None) :: ('e, 'io) v5c_call) ps, ci\<lparr>in5_sink := cs''\<rparr>) \<and> sh_inflight cs'' = [] \<and>
      (\<forall>k < length ps. \<exists>a. Ev_ack (rxs ! k) (Ack_Publish a) \<in> set (sh_events cs'') \<and>
        ack5_packet_id a = ack5_packet_id (acks ! k) \<and> ack5_reason_code a = pa5_reason_code (ack (reqs ! k)))"
    using cs'' len v5_puback_received(2) [of sc] by (intro exI [of _ items] exI [of _ cs'']) auto
qed

text \<open>Two messages between a client and a server with the default limits; the second is refused by the publish service.\<close>

definition pipe_messages :: "v5_Publish list" where
  "pipe_messages = [v5_publish [0x61] [1], v5_publish [0x62] [2]]"

definition pipe_ack :: "v5_Publish \<times> u32 \<Rightarrow> v5_PubAck" where
  "pipe_ack x = v5_PubAck_new (if pub5_topic (fst x) = [0x61] then PA_Success else PA_NotAuthorized)"

lemma pipe_send:
  "\<exists>s. v5_send_all v5_env pipe_messages (cl5_shared e2e_client) = Some ([0, 1], s) \<and> map fst (sh_inflight s) = [1, 2]"
  by (simp add: pipe_messages_def v5_send_at_least_once_def sh_start_def v5_env_def sh_wait_readiness_def v5_send_at_least_once_inner_def
      sh_publish_inner_def sh_packet_id_def sh_next_id_def v5_publish_def e2e_client_def v5_Shared_new_def Let_def fut_of_def sh_wrb_def flags_contains_def
      sf_defs sh_wait_packet_response_def sh_encode_packet_def log_event_def new_channel_def sh_register_def)

lemma e2e_codecs:
  "c5_state (sh_codec (cl5_shared e2e_client)) = FrameHeader" "c5_state (sh_codec e2e_server) = FrameHeader"
  "v5_out_limit (sh_codec (cl5_shared e2e_client)) = 268435455" "v5_out_limit (sh_codec e2e_server) = 268435455"
  "c5_max_in_size (sh_codec (cl5_shared e2e_client)) = 0" "c5_max_in_size (sh_codec e2e_server) = 0"
  "sh_inflight (cl5_shared e2e_client) = []" "v5_agree e2e_client e2e_server"
  by (simp_all add: v5_agree_def e2e_client_def e2e_server_def v5_Shared_new_def v5_Codec_new_def v5_set_receive_max_def v5_out_limit_def MAX_PACKET_SIZE_def)

theorem v5_pipelined_publishes_witness:
  "\<exists>cs' cs'' chunks items. v5_send_all v5_env pipe_messages (cl5_shared e2e_client) = Some ([0, 1], cs') \<and>
     feed (v5_codec_decode (\<lambda>_. True)) (sh_codec (cl5_shared e2e_client)) [] chunks = Some (items, None) \<and>
     handle_all (\<lambda>x. v5c_dispatch (v5_client_cfg e2e_client) v5_env (DI_Item (fst x) (of_nat (snd x)) :: (v5_Packet, unit) DispatchItem)) items
       (v5_Inner_new cs') = ([Call_done (Ok None), Call_done (Ok None)] :: (unit, unit) v5c_call list, v5_Inner_new cs'') \<and>
     (\<exists>a. Ev_ack 1 (Ack_Publish a) \<in> set (sh_events cs'') \<and> ack5_packet_id a = 2 \<and> ack5_reason_code a = PA_NotAuthorized)"
proof -
  let ?cs = "cl5_shared e2e_client" and ?cc = "sh_codec (cl5_shared e2e_client)" and ?sc = "sh_codec e2e_server" and ?u = "\<lambda>_ :: bytes. True"
  from pipe_send obtain cs' where cs': "v5_send_all v5_env pipe_messages ?cs = Some ([0, 1], cs')" "map fst (sh_inflight cs') = [1, 2]"
    by (elim exE conjE)
  let ?sent = "map2 v5_with_id pipe_messages (map fst (sh_inflight cs'))"
  let ?reqs = "v5_requests ?cc ?sent"
  let ?acks = "v5_pubacks pipe_ack ?reqs"
  let ?chunks = "byte_by_byte (concat (map (\<lambda>p. fst (v5_codec_encode ?cc (V5_Publish p))) ?sent))"
  let ?chunks' = "byte_by_byte (concat (map (\<lambda>a. fst (v5_codec_encode ?sc (V5_PublishAck a))) ?acks))"
  have sendable: "\<forall>p \<in> set ?sent. v5_sendable ?u ?cc ?sc (V5_Publish p)"
    unfolding cs'(2) by (simp add: e2e_codecs v5_sendable_def pipe_messages_def v5_with_id_def v5_out_packet_def v5_publish_def v5_PublishProperties_default_def
        v5_Publish_ok_def v5_PublishProperties_ok_def str_ok_def v5_Publish_encoded_size_def v5_PublishProperties_encoded_size_def
        v5_publish_props_len_def prop_size_defs Let_def)
  have acks: "\<forall>a \<in> set ?acks. v5_sendable ?u ?sc ?cc (V5_PublishAck a)"
    unfolding cs'(2) by (simp add: e2e_codecs v5_sendable_def pipe_messages_def v5_requests_def v5_pubacks_def pipe_ack_def v5_with_id_def v5_publish_def
        v5_puback_def v5_PubAck_new_def pub_ack_ok_def diag_ok_def v5_out_packet_def pub_ack_encoded_size_def PUBACK_HEADER_LEN_def ack_encoded_size_def
        encoded_size_opt_props_def opt_props_size_loop.simps prop_size_defs Let_def)
  have srv: "in5_sink (v5_Inner_new e2e_server) = e2e_server" "in5_inflight (v5_Inner_new e2e_server) = {}" "AtLeastOnce \<le> sh_max_qos e2e_server" "\<not> env_closed v5_env"
    "\<forall>p \<in> set pipe_messages. \<not> has_wildcard (pub5_topic p) \<and> pp5_topic_alias (pub5_properties p) = None \<and> (pub5_retain p \<longrightarrow> v5_retain_available ?sc)"
    by (simp_all add: v5_Inner_new_def e2e_server_def v5_Shared_new_def v5_set_receive_max_def v5_env_def pipe_messages_def v5_publish_def
        v5_PublishProperties_default_def has_wildcard_def)
  have inner: "(v5_Inner_new cs')\<lparr>in5_sink := x\<rparr> = v5_Inner_new x" for x by (simp add: v5_Inner_new_def)
  have "\<exists>items cs''. feed (v5_codec_decode ?u) ?cc [] ?chunks' = Some (items, None) \<and>
      handle_all (\<lambda>x. v5c_dispatch (v5_client_cfg e2e_client) v5_env (DI_Item (fst x) (of_nat (snd x)) :: (v5_Packet, unit) DispatchItem)) items
        ((v5_Inner_new cs')\<lparr>in5_sink := cs'\<rparr>) = (map (\<lambda>_. Call_done (Ok None) :: (unit, unit) v5c_call) pipe_messages, (v5_Inner_new cs')\<lparr>in5_sink := cs''\<rparr>) \<and>
      sh_inflight cs'' = [] \<and>
      (\<forall>k < length pipe_messages. \<exists>a. Ev_ack ([0, 1] ! k) (Ack_Publish a) \<in> set (sh_events cs'') \<and>
        ack5_packet_id a = ack5_packet_id (?acks ! k) \<and> ack5_reason_code a = pa5_reason_code (pipe_ack (?reqs ! k)))"
    by (rule v5_pipelined_publishes [OF e2e_codecs(8) refl e2e_codecs(1) refl e2e_codecs(2) cs'(1) e2e_codecs(7) refl sendable srv refl _ refl acks,
          where pub = "\<lambda>x. Inr (pipe_ack x)" and chunks = ?chunks and cfg = v5_cfg,
          THEN conjunct2, THEN conjunct2, THEN conjunct2, THEN conjunct2, THEN conjunct2, THEN conjunct2, THEN conjunct2]) simp_all
  then obtain items cs'' where c: "feed (v5_codec_decode ?u) ?cc [] ?chunks' = Some (items, None)"
      "handle_all (\<lambda>x. v5c_dispatch (v5_client_cfg e2e_client) v5_env (DI_Item (fst x) (of_nat (snd x)) :: (v5_Packet, unit) DispatchItem)) items
        ((v5_Inner_new cs')\<lparr>in5_sink := cs'\<rparr>) = (map (\<lambda>_. Call_done (Ok None) :: (unit, unit) v5c_call) pipe_messages, (v5_Inner_new cs')\<lparr>in5_sink := cs''\<rparr>)"
      "\<forall>k < length pipe_messages. \<exists>a. Ev_ack ([0, 1] ! k) (Ack_Publish a) \<in> set (sh_events cs'') \<and>
        ack5_packet_id a = ack5_packet_id (?acks ! k) \<and> ack5_reason_code a = pa5_reason_code (pipe_ack (?reqs ! k))"
    by (elim exE conjE)
  from c(3) [rule_format, of 1] have "\<exists>a. Ev_ack 1 (Ack_Publish a) \<in> set (sh_events cs'') \<and> ack5_packet_id a = 2 \<and> ack5_reason_code a = PA_NotAuthorized"
    unfolding cs'(2) by (simp add: pipe_messages_def v5_requests_def v5_pubacks_def pipe_ack_def v5_with_id_def v5_publish_def v5_puback_def v5_PubAck_new_def)
  then show ?thesis using cs'(1) c(1,2)
    by (intro exI [of _ cs'] exI [of _ cs''] exI [of _ ?chunks'] exI [of _ items]) (simp add: inner pipe_messages_def)
qed

end
