(* ===== verification/Subscription.thy ===== *)
theory Subscription
  imports Pipeline
begin

text \<open>
  A SUBSCRIBE request from the sender at the client to the control service of the server, and its answer back to the sender.
\<close>

lemma v5_subscribe_sent:
  assumes "v5_subscribe_send env b cs = (Fut_ack rx, cs')" and "fst (sh_packet_id (sb5_id b) cs) = Ok i"
  shows "last (sh_events cs') = Ev_encode (V5_Subscribe ((sb5_packet b)\<lparr>sub5_packet_id := i\<rparr>)) \<and>
    sh_inflight cs' = sh_inflight cs @ [(i, Some rx, AckType_Subscribe)] \<and> i \<notin> sh_inflight_ids cs"
  using assms
  by (auto simp: v5_subscribe_send_def sh_start_def v5_subscribe_inner_def sh_request_inner_def sh_wait_response_def sh_encode_packet_def
      sh_register_def new_channel_def log_event_def sh_wait_readiness_def sh_packet_id_def sh_next_id_def Let_def
      split: if_splits option.splits prod.splits res.splits)

lemma v5_suback_delivered:
  assumes "sh_inflight cs = [(sack5_packet_id a, Some rx, AckType_Subscribe)]"
  shows "\<exists>cs'. v5_pkt_ack env (Ack_Subscribe a) cs = (Ok (), cs') \<and> Ev_ack rx (Ack_Subscribe a) \<in> set (sh_events cs') \<and> sh_inflight cs' = []"
  using assms
  by (auto simp: v5_pkt_ack_def pkt_ack_def pkt_ack_inner_def sh_wake_next_def sh_woken_def log_event_def Let_def split: prod.splits option.splits)

lemma v5_received_suback:
  obtains b where "v5_received c (V5_SubscribeAck a) = (V5_SubscribeAck b, v5_sent_size c (V5_SubscribeAck a))"
    and "sack5_packet_id b = sack5_packet_id a" and "sack5_status b = sack5_status a"
proof (cases "flags_contains (c5_flags c) CodecFlag_NO_PROBLEM_INFO")
qed (auto intro: that simp: v5_received_def v5_out_packet_def status_ack_trim_def Let_def)

text \<open>The request at the server: the control service answers it through the message it got.\<close>

lemma v5_call_subscribe:
  assumes "\<forall>tf \<in> fst ` set (sub5_topic_filters p). topic_is_valid tf" and "v5_sub_id_refused p srv = None" and "\<not> env_closed env"
    and "sub5_packet_id p \<notin> in5_inflight srv" and "ctl (C5_Subscribe (v5_SubscribeMsg_new p sz)) = Inr (v5_SubscribeMsg_ack m)"
  shows "v5_call cfg env pub ctl (DI_Item (V5_Subscribe p) sz) srv = (Ok (Some (V5_SubscribeAck (sm5_result m))), srv)"
  using assms
  by (auto simp: v5_call_def v5_dispatch_filters_def v5_control_def v5_is_error_def v5_control_done_def v5_control_answered_def
      v5_SubscribeMsg_ack_def v5_release_def Let_def)

section \<open>Properties\<close>

text \<open>C9: A SUBSCRIBE request of an MQTT 5 client that is sent while the connection is idle reaches its goal: the server decodes the bytes the
  client writes to this request, gives it to the control service and answers with the SUBACK that the service made from the message,
  whatever methods of the message it used; the client decodes the bytes that come back to a SUBACK of the same identifier with
  exactly the reason codes the service set, one for each topic filter, and delivers it to the sender. The server is in the state it was
  in before, and nothing is in flight.\<close>

theorem v5_subscribe_end_to_end:
  fixes ctl :: "('e, 'io) v5_Control \<Rightarrow> ('e, 'io) MqttError + v5_ControlAck"
  assumes send: "v5_subscribe_send env b cs = (Fut_ack rx, cs')" "sh_inflight cs = []" "fst (sh_packet_id (sb5_id b) cs) = Ok i"
    and p: "p = (sb5_packet b)\<lparr>sub5_packet_id := i\<rparr>" "v5_sendable u cc sc (V5_Subscribe p)" "n = v5_sent_size cc (V5_Subscribe p)"
    and codecs: "c5_state cc = FrameHeader" "c5_state sc = FrameHeader" "\<not> flags_contains (c5_flags cc) CodecFlag_NO_PROBLEM_INFO"
    and srv: "\<forall>tf \<in> fst ` set (sub5_topic_filters p). topic_is_valid tf" "v5_sub_id_refused p srv = None" "\<not> env_closed senv"
      "i \<notin> in5_inflight srv"
    and ctl: "ctl (C5_Subscribe (v5_SubscribeMsg_new p (of_nat n))) = Inr (v5_SubscribeMsg_ack m)" "v5_sub_msg p (of_nat n) m"
    and ack: "v5_sendable u sc cc (V5_SubscribeAck (sm5_result m))" "k = v5_sent_size sc (V5_SubscribeAck (sm5_result m))"
  shows "last (sh_events cs') = Ev_encode (V5_Subscribe p) \<and>
    v5_codec_decode u sc (fst (v5_codec_encode cc (V5_Subscribe p)) @ rest) = (Ok (Some (V5_Subscribe p, n)), sc, rest) \<and>
    v5_call cfg senv pub ctl (DI_Item (V5_Subscribe p) (of_nat n)) srv = (Ok (Some (V5_SubscribeAck (sm5_result m))), srv) \<and>
    (\<exists>a cs''. sack5_packet_id a = i \<and> sack5_status a = sack5_status (sm5_result m) \<and> length (sack5_status a) = length (sub5_topic_filters p) \<and>
      v5_codec_decode u cc (fst (v5_codec_encode sc (V5_SubscribeAck (sm5_result m))) @ rest') = (Ok (Some (V5_SubscribeAck a, k)), cc, rest') \<and>
      v5c_dispatch ccfg env' (DI_Item (V5_SubscribeAck a) (of_nat k) :: (v5_Packet, 'io) DispatchItem) (ci\<lparr>in5_sink := cs'\<rparr>) =
        (Call_done (Ok None) :: ('e, 'io) v5c_call, ci\<lparr>in5_sink := cs''\<rparr>) \<and>
      Ev_ack rx (Ack_Subscribe a) \<in> set (sh_events cs'') \<and> v5_subscribe_response (Some (Ack_Subscribe a)) = Ok a \<and> sh_inflight cs'' = [])"
proof (intro conjI)
  have same: "v5_finish q c = c" if "c5_state c = FrameHeader" "\<And>con. q \<noteq> V5_Connect con" for c q
    using that by (simp add: v5_finish_other)
  note sent = v5_subscribe_sent [OF send(1,3), folded p(1)]
  then show "last (sh_events cs') = Ev_encode (V5_Subscribe p)" by blast
  have "v5_received cc (V5_Subscribe p) = (V5_Subscribe p, n)" using codecs(3) p(3) by (simp add: v5_received_def v5_out_packet_def)
  then show "v5_codec_decode u sc (fst (v5_codec_encode cc (V5_Subscribe p)) @ rest) = (Ok (Some (V5_Subscribe p, n)), sc, rest)"
    using v5_sendable_decode [OF p(2) codecs(2) refl, of rest] codecs(2) by (simp add: same)
  show "v5_call cfg senv pub ctl (DI_Item (V5_Subscribe p) (of_nat n)) srv = (Ok (Some (V5_SubscribeAck (sm5_result m))), srv)"
    using srv ctl(1) p(1) by (intro v5_call_subscribe) simp_all
  obtain a where a: "v5_received sc (V5_SubscribeAck (sm5_result m)) = (V5_SubscribeAck a, v5_sent_size sc (V5_SubscribeAck (sm5_result m)))"
      "sack5_packet_id a = sack5_packet_id (sm5_result m)" "sack5_status a = sack5_status (sm5_result m)"
    by (rule v5_received_suback)
  have id: "sack5_packet_id a = i" using v5_sub_msg_shape [OF ctl(2)] a(2) p(1) by simp
  have len: "length (sack5_status a) = length (sub5_topic_filters p)" using v5_sub_msg_shape [OF ctl(2)] a(3) by simp
  have dec: "v5_codec_decode u cc (fst (v5_codec_encode sc (V5_SubscribeAck (sm5_result m))) @ rest') = (Ok (Some (V5_SubscribeAck a, k)), cc, rest')"
    using v5_sendable_decode [OF ack(1) codecs(1) refl, of rest'] codecs(1) a(1) by (simp add: same ack(2))
  obtain cs'' where cs'': "v5_pkt_ack env' (Ack_Subscribe a) cs' = (Ok (), cs'')" "Ev_ack rx (Ack_Subscribe a) \<in> set (sh_events cs'')" "sh_inflight cs'' = []"
    using v5_suback_delivered [of cs' a rx env'] sent send(2) id by auto
  show "\<exists>a cs''. sack5_packet_id a = i \<and> sack5_status a = sack5_status (sm5_result m) \<and> length (sack5_status a) = length (sub5_topic_filters p) \<and>
      v5_codec_decode u cc (fst (v5_codec_encode sc (V5_SubscribeAck (sm5_result m))) @ rest') = (Ok (Some (V5_SubscribeAck a, k)), cc, rest') \<and>
      v5c_dispatch ccfg env' (DI_Item (V5_SubscribeAck a) (of_nat k) :: (v5_Packet, 'io) DispatchItem) (ci\<lparr>in5_sink := cs'\<rparr>) =
        (Call_done (Ok None) :: ('e, 'io) v5c_call, ci\<lparr>in5_sink := cs''\<rparr>) \<and>
      Ev_ack rx (Ack_Subscribe a) \<in> set (sh_events cs'') \<and> v5_subscribe_response (Some (Ack_Subscribe a)) = Ok a \<and> sh_inflight cs'' = []"
    using id a(3) len dec cs'' by (intro exI [of _ a] exI [of _ cs'']) (simp add: v5c_ack_def)
qed

text \<open>A subscription to one filter that the control service confirms with QoS 1.\<close>

definition sub_builder :: v5_SubscribeBuilder where
  "sub_builder = v5_SubscribeBuilder_topic_filter [0x61] SubscriptionOptions_default (v5_subscribe None)"

definition sub_confirm :: "(unit, unit) v5_Control \<Rightarrow> (unit, unit) MqttError + v5_ControlAck" where
  "sub_confirm c = (case c of C5_Subscribe m \<Rightarrow> Inr (v5_SubscribeMsg_ack (v5_Subscription_confirm 0 AtLeastOnce m)) | _ \<Rightarrow> Inr (v5_Control_ack c))"

theorem v5_subscribe_end_to_end_witness:
  "\<exists>cs' rx. v5_subscribe_send v5_env sub_builder (cl5_shared e2e_client) = (Fut_ack rx, cs') \<and>
     (\<exists>a cs''. sack5_status a = [SA_GrantedQos1] \<and>
       v5c_dispatch (v5_client_cfg e2e_client) v5_env (DI_Item (V5_SubscribeAck a) 4 :: (v5_Packet, unit) DispatchItem) (v5_Inner_new cs') =
         (Call_done (Ok None) :: (unit, unit) v5c_call, v5_Inner_new cs'') \<and> Ev_ack rx (Ack_Subscribe a) \<in> set (sh_events cs''))"
proof -
  let ?cs = "cl5_shared e2e_client" and ?cc = "sh_codec (cl5_shared e2e_client)" and ?sc = "sh_codec e2e_server" and ?u = "\<lambda>_ :: bytes. True"
  let ?p = "(sb5_packet sub_builder)\<lparr>sub5_packet_id := 1\<rparr>" and ?srv = "v5_Inner_new e2e_server"
  let ?m = "v5_Subscription_confirm 0 AtLeastOnce (v5_SubscribeMsg_new ?p (of_nat 7))"
  note sub_defs = sub_builder_def v5_SubscribeBuilder_topic_filter_def v5_subscribe_def
  have p: "?p = \<lparr>sub5_packet_id = 1, sub5_id = None, sub5_user_properties = [], sub5_topic_filters = [([0x61], SubscriptionOptions_default)]\<rparr>"
    by (simp add: sub_defs)
  have "\<exists>rx cs'. v5_subscribe_send v5_env sub_builder ?cs = (Fut_ack rx, cs')"
    by (simp add: v5_subscribe_send_def sh_start_def v5_env_def sh_wait_readiness_def v5_subscribe_inner_def sh_request_inner_def sh_wait_response_def
        sh_packet_id_def sh_next_id_def sub_defs e2e_client_def v5_Shared_new_def Let_def sh_wrb_def flags_contains_def sf_defs sh_encode_packet_def
        log_event_def new_channel_def sh_register_def)
  then obtain rx cs' where send: "v5_subscribe_send v5_env sub_builder ?cs = (Fut_ack rx, cs')" by blast
  have ident: "fst (sh_packet_id (sb5_id sub_builder) ?cs) = Ok 1"
    by (simp add: sh_packet_id_def sh_next_id_def sub_defs e2e_client_def v5_Shared_new_def Let_def)
  have wf: "v5_sendable ?u ?cc ?sc (V5_Subscribe ?p)" "v5_sent_size ?cc (V5_Subscribe ?p) = 7" "\<not> flags_contains (c5_flags ?cc) CodecFlag_NO_PROBLEM_INFO"
    unfolding p by (simp_all add: v5_sendable_def v5_sent_size_def v5_out_packet_def e2e_client_def e2e_server_def v5_set_receive_max_def v5_Shared_new_def v5_Codec_new_def
        v5_out_limit_def MAX_PACKET_SIZE_def flags_contains_def codec_flag_defs v5_Subscribe_ok_def str_ok_def v5_Subscribe_encoded_size_def
        v5_subscribe_props_len_def prop_size_defs Let_def)
  have srv: "\<forall>tf \<in> fst ` set (sub5_topic_filters ?p). topic_is_valid tf" "v5_sub_id_refused ?p ?srv = None" "\<not> env_closed v5_env" "1 \<notin> in5_inflight ?srv"
    unfolding p by (simp_all add: v5_sub_id_refused_def v5_env_def v5_Inner_new_def topic_is_valid_def is_valid_step_def)
  have m: "v5_sub_msg ?p (of_nat 7) ?m" "sub_confirm (C5_Subscribe (v5_SubscribeMsg_new ?p (of_nat 7))) = Inr (v5_SubscribeMsg_ack ?m)"
    by (rule v5_sub_msg.confirm [OF v5_sub_msg.new, of _ _ 0]) (simp_all add: p v5_SubscribeIter_next_def v5_SubscribeMsg_new_def sub_confirm_def)
  have ack: "v5_sendable ?u ?sc ?cc (V5_SubscribeAck (sm5_result ?m))" "v5_sent_size ?sc (V5_SubscribeAck (sm5_result ?m)) = 4"
      "sack5_status (sm5_result ?m) = [SA_GrantedQos1]"
    unfolding p by (simp_all add: v5_Subscription_confirm_def v5_SubscribeMsg_set_def v5_SubscribeMsg_new_def v5_sendable_def v5_sent_size_def v5_out_packet_def
        e2e_client_def e2e_server_def v5_set_receive_max_def v5_Shared_new_def v5_Codec_new_def v5_out_limit_def MAX_PACKET_SIZE_def flags_contains_def codec_flag_defs
        status_ack_ok_def diag_ok_def v5_SubscribeAck_encoded_size_def ack_encoded_size_def encoded_size_opt_props_def opt_props_size_loop.simps prop_size_defs Let_def
        as_u32_def checked_sub_def)
  have inner: "(v5_Inner_new cs')\<lparr>in5_sink := x\<rparr> = v5_Inner_new x" for x by (simp add: v5_Inner_new_def)
  have "\<exists>a cs''. sack5_packet_id a = 1 \<and> sack5_status a = sack5_status (sm5_result ?m) \<and> length (sack5_status a) = length (sub5_topic_filters ?p) \<and>
      v5_codec_decode ?u ?cc (fst (v5_codec_encode ?sc (V5_SubscribeAck (sm5_result ?m))) @ []) = (Ok (Some (V5_SubscribeAck a, 4)), ?cc, []) \<and>
      v5c_dispatch (v5_client_cfg e2e_client) v5_env (DI_Item (V5_SubscribeAck a) (of_nat 4) :: (v5_Packet, unit) DispatchItem) ((v5_Inner_new cs')\<lparr>in5_sink := cs'\<rparr>) =
        (Call_done (Ok None) :: (unit, unit) v5c_call, (v5_Inner_new cs')\<lparr>in5_sink := cs''\<rparr>) \<and>
      Ev_ack rx (Ack_Subscribe a) \<in> set (sh_events cs'') \<and> v5_subscribe_response (Some (Ack_Subscribe a)) = Ok a \<and> sh_inflight cs'' = []"
    by (rule v5_subscribe_end_to_end [where ctl = sub_confirm and cfg = v5_cfg,
          OF send e2e_codecs(7) ident refl wf(1) wf(2) [symmetric] e2e_codecs(1,2) wf(3) srv m(2,1) ack(1) ack(2) [symmetric], THEN conjunct2, THEN conjunct2, THEN conjunct2])
  then show ?thesis using send unfolding ack(3) by (auto simp: inner)
qed

end
