(* ===== verification/Tests_Base.thy ===== *)
theory Tests_Base
  imports Utils "HOL-Library.Code_Target_Nat"
begin

text \<open>
  The unit tests of the repository, run on the model. A test function of the source is a definition of the same name with the
  same assertions, and a lemma shows that they hold; what a test leaves to the runtime (sleeping, spawning) is the order
  in which the model makes its steps. This theory has the tests of \<open>src/utils.rs\<close> and what all tests use: byte string literals, and a
  check of UTF-8 that is enough for the ASCII texts of the tests.
\<close>

definition bstr :: "string \<Rightarrow> bytes" where
  "bstr = map (\<lambda>c. word_of_nat (of_char c))"

definition ascii :: "bytes \<Rightarrow> bool" where
  "ascii = list_all (\<lambda>b. b < 128)"

section \<open>\<open>utils.rs\<close>\<close>

definition assert_variable_length :: "bytes \<Rightarrow> nat \<times> nat \<Rightarrow> bool" where
  "assert_variable_length bs r \<longleftrightarrow> decode_variable_length bs = Ok (Some r)"

definition test_decode_variable_length :: bool where
  "test_decode_variable_length \<longleftrightarrow>
     assert_variable_length [0x7F, 0x7F] (127, 1) \<and>
     decode_variable_length [0xFF, 0xFF, 0xFF] = Ok None \<and>
     decode_variable_length [0xFF, 0xFF, 0xFF, 0xFF, 0xFF, 0xFF] = Err DE_InvalidLength \<and>
     assert_variable_length [0x00] (0, 1) \<and>
     assert_variable_length [0x7F] (127, 1) \<and>
     assert_variable_length [0x80, 0x01] (128, 2) \<and>
     assert_variable_length [0xFF, 0x7F] (16383, 2) \<and>
     assert_variable_length [0x80, 0x80, 0x01] (16384, 3) \<and>
     assert_variable_length [0xFF, 0xFF, 0x7F] (2097151, 3) \<and>
     assert_variable_length [0x80, 0x80, 0x80, 0x01] (2097152, 4) \<and>
     assert_variable_length [0xFF, 0xFF, 0xFF, 0x7F] (268435455, 4)"

lemma test_decode_variable_length_ok: "test_decode_variable_length"
  by code_simp

definition test_encode_variable_length :: bool where
  "test_encode_variable_length \<longleftrightarrow>
     write_variable_length 123 = eok [123] \<and>
     write_variable_length 129 = eok [0x81, 0x01] \<and>
     write_variable_length 16383 = eok [0xFF, 0x7F] \<and>
     write_variable_length 2097151 = eok [0xFF, 0xFF, 0x7F] \<and>
     write_variable_length 268435455 = eok [0xFF, 0xFF, 0xFF, 0x7F]"

lemma test_encode_variable_length_ok: "test_encode_variable_length"
  by code_simp

end
