(* ===== verification/Tests_V3.thy ===== *)
theory Tests_V3
  imports Tests_Base V3_Codec Connector Version Conversions
begin

text \<open>
  The unit tests of the codec of MQTT 3.1.1 (\<open>src/v3/codec/decode.rs\<close>, \<open>encode.rs\<close>, \<open>codec.rs\<close>, \<open>packet.rs\<close>) and of the version codec
  (\<open>src/version.rs\<close>), with the names of the source after the prefix \<open>v3_\<close> where MQTT 5 has a test of the same name.
\<close>

section \<open>\<open>decode.rs\<close>\<close>

definition v3_assert_decode_packet :: "bytes \<Rightarrow> v3_Packet \<Rightarrow> bool" where
  "v3_assert_decode_packet bs r \<longleftrightarrow>
     (case bs of
        [] \<Rightarrow> False
      | fixed # _ \<Rightarrow>
          (case decode_variable_length (drop 1 bs) of
             Ok (Some (_, consumed)) \<Rightarrow> v3_decode_packet ascii (drop (consumed + 1) bs) fixed = Ok r
           | _ \<Rightarrow> False))"

text \<open>The tests of the decoders of one packet ignore what is left of the input.\<close>

definition t_decoded :: "'a decoder \<Rightarrow> bytes \<Rightarrow> (DecodeError, 'a) res" where
  "t_decoded d bs = (case d bs of Ok (x, _) \<Rightarrow> Ok x | Err e \<Rightarrow> Err e | Panic \<Rightarrow> Panic)"

definition v3_test_decode_connect_packets :: bool where
  "v3_test_decode_connect_packets \<longleftrightarrow>
     t_decoded (v3_decode_connect_packet ascii) ([0x00, 0x04] @ bstr ''MQTT'' @ [0x04, 0xC0, 0x00, 0x3C, 0x00, 0x05] @ bstr ''12345'' @ [0x00, 0x04] @ bstr ''user'' @ [0x00, 0x04] @ bstr ''pass'') =
       Ok (V3_Connect \<lparr>con3_clean_session = False, con3_keep_alive = 60, con3_last_will = None, con3_client_id = (bstr ''12345''),
         con3_username = Some (bstr ''user''), con3_password = Some (bstr ''pass'')\<rparr>) \<and>
     t_decoded (v3_decode_connect_packet ascii) ([0x00, 0x04] @ bstr ''MQTT'' @ [0x04, 0x14, 0x00, 0x3C, 0x00, 0x05] @ bstr ''12345'' @ [0x00, 0x05] @ bstr ''topic'' @ [0x00, 0x07] @ bstr ''message'') =
       Ok (V3_Connect \<lparr>con3_clean_session = False, con3_keep_alive = 60,
         con3_last_will = Some \<lparr>will3_qos = ExactlyOnce, will3_retain = False, will3_topic = (bstr ''topic''), will3_message = (bstr ''message'')\<rparr>,
         con3_client_id = (bstr ''12345''), con3_username = None, con3_password = None\<rparr>) \<and>
     t_decoded (v3_decode_connect_packet ascii) ([0x00, 0x02] @ bstr ''MQ00000000000000000000'') = Err InvalidProtocol \<and>
     t_decoded (v3_decode_connect_packet ascii) ([0x00, 0x10] @ bstr ''MQ00000000000000000000'') = Err InvalidProtocol \<and>
     t_decoded (v3_decode_connect_packet ascii) ([0x00, 0x04] @ bstr ''MQAA00000000000000000000'') = Err InvalidProtocol \<and>
     t_decoded (v3_decode_connect_packet ascii) ([0x00, 0x04] @ bstr ''MQTT'' @ [0x03] @ bstr ''00000000000000000000'') = Err UnsupportedProtocolLevel \<and>
     t_decoded (v3_decode_connect_packet ascii) ([0x00, 0x04] @ bstr ''MQTT'' @ [0x04, 0xFF] @ bstr ''00000000000000000000'') = Err ConnectReservedFlagSet \<and>
     t_decoded v3_decode_connect_ack_packet [0x01, 0x04] =
       Ok (V3_ConnectAck \<lparr>cack3_return_code = CAR3_BadUserNameOrPassword, cack3_session_present = True\<rparr>) \<and>
     t_decoded v3_decode_connect_ack_packet [0x03, 0x04] = Err ConnAckReservedFlagSet \<and>
     v3_assert_decode_packet [0x20, 0x02, 0x01, 0x04]
       (V3_ConnectAck \<lparr>cack3_return_code = CAR3_BadUserNameOrPassword, cack3_session_present = True\<rparr>) \<and>
     v3_assert_decode_packet [0xE0, 0x00] V3_Disconnect"

definition v3_test_decode_publish_packets :: bool where
  "v3_test_decode_publish_packets \<longleftrightarrow>
     v3_assert_decode_packet ([0x3D, 0x0D, 0x00, 0x05] @ bstr ''topic'' @ [0x43, 0x21] @ bstr ''data'')
       (V3_Publish \<lparr>pub3_dup = True, pub3_retain = True, pub3_qos = ExactlyOnce, pub3_topic = (bstr ''topic''),
         pub3_packet_id = Some 0x4321, pub3_payload = (bstr ''data'')\<rparr>) \<and>
     v3_assert_decode_packet ([0x30, 0x0B, 0x00, 0x05] @ bstr ''topicdata'')
       (V3_Publish \<lparr>pub3_dup = False, pub3_retain = False, pub3_qos = AtMostOnce, pub3_topic = (bstr ''topic''),
         pub3_packet_id = None, pub3_payload = (bstr ''data'')\<rparr>) \<and>
     v3_assert_decode_packet [0x40, 0x02, 0x43, 0x21] (V3_PublishAck 0x4321) \<and>
     v3_assert_decode_packet [0x50, 0x02, 0x43, 0x21] (V3_PublishReceived 0x4321) \<and>
     v3_assert_decode_packet [0x62, 0x02, 0x43, 0x21] (V3_PublishRelease 0x4321) \<and>
     v3_assert_decode_packet [0x70, 0x02, 0x43, 0x21] (V3_PublishComplete 0x4321)"

definition v3_test_decode_subscribe_packets :: bool where
  "v3_test_decode_subscribe_packets \<longleftrightarrow>
     (let p = V3_Subscribe 0x1234 [((bstr ''test''), AtLeastOnce), ((bstr ''filter''), ExactlyOnce)] in
      t_decoded (v3_decode_subscribe_packet ascii) ([0x12, 0x34, 0x00, 0x04] @ bstr ''test'' @ [0x01, 0x00, 0x06] @ bstr ''filter'' @ [0x02]) = Ok p \<and>
      v3_assert_decode_packet ([0x82, 0x12, 0x12, 0x34, 0x00, 0x04] @ bstr ''test'' @ [0x01, 0x00, 0x06] @ bstr ''filter'' @ [0x02]) p) \<and>
     (let p = V3_SubscribeAck 0x1234 [SRC_Success AtLeastOnce, SRC_Failure, SRC_Success ExactlyOnce] in
      t_decoded v3_decode_subscribe_ack_packet [0x12, 0x34, 0x01, 0x80, 0x02] = Ok p \<and>
      v3_assert_decode_packet [0x90, 0x05, 0x12, 0x34, 0x01, 0x80, 0x02] p) \<and>
     (let p = V3_Unsubscribe 0x1234 [(bstr ''test''), (bstr ''filter'')] in
      t_decoded (v3_decode_unsubscribe_packet ascii) ([0x12, 0x34, 0x00, 0x04] @ bstr ''test'' @ [0x00, 0x06] @ bstr ''filter'') = Ok p \<and>
      v3_assert_decode_packet ([0xA2, 0x10, 0x12, 0x34, 0x00, 0x04] @ bstr ''test'' @ [0x00, 0x06] @ bstr ''filter'') p) \<and>
     v3_assert_decode_packet [0xB0, 0x02, 0x43, 0x21] (V3_UnsubscribeAck 0x4321)"

definition v3_test_decode_ping_packets :: bool where
  "v3_test_decode_ping_packets \<longleftrightarrow>
     v3_assert_decode_packet [0xC0, 0x00] V3_PingRequest \<and> v3_assert_decode_packet [0xD0, 0x00] V3_PingResponse"

section \<open>\<open>encode.rs\<close>\<close>

text \<open>\<open>&v[0..n]\<close> of what is written to an empty buffer.\<close>

definition v3_test_encode_fixed_header :: bool where
  "v3_test_encode_fixed_header \<longleftrightarrow>
     v3_get_encoded_size V3_PingRequest = 0 \<and> v3_encode V3_PingRequest 0 = eok [0xC0, 0x00] \<and>
     (let p = V3_Publish \<lparr>pub3_dup = True, pub3_retain = True, pub3_qos = ExactlyOnce, pub3_topic = (bstr ''topic''),
            pub3_packet_id = Some 0x4321, pub3_payload = map of_nat [0..<255]\<rparr>;
          v = v3_encode p 264 in
      v3_get_encoded_size p = 264 \<and> snd v = Ok () \<and> take 3 (fst v) = [0x3D, 0x88, 0x02])"

definition v3_assert_encode_packet :: "v3_Packet \<Rightarrow> bytes \<Rightarrow> bool" where
  "v3_assert_encode_packet packet expected \<longleftrightarrow> v3_encode packet (v3_get_encoded_size packet) = eok expected"

definition v3_test_encode_connect_packets :: bool where
  "v3_test_encode_connect_packets \<longleftrightarrow>
     v3_assert_encode_packet
       (V3_Connect \<lparr>con3_clean_session = False, con3_keep_alive = 60, con3_last_will = None, con3_client_id = (bstr ''12345''),
         con3_username = Some (bstr ''user''), con3_password = Some (bstr ''pass'')\<rparr>)
       ([0x10, 0x1D, 0x00, 0x04] @ bstr ''MQTT'' @ [0x04, 0xC0, 0x00, 0x3C, 0x00, 0x05] @ bstr ''12345'' @ [0x00, 0x04] @ bstr ''user'' @ [0x00, 0x04] @ bstr ''pass'') \<and>
     v3_assert_encode_packet
       (V3_Connect \<lparr>con3_clean_session = False, con3_keep_alive = 60,
         con3_last_will = Some \<lparr>will3_qos = ExactlyOnce, will3_retain = False, will3_topic = (bstr ''topic''), will3_message = (bstr ''message'')\<rparr>,
         con3_client_id = (bstr ''12345''), con3_username = None, con3_password = None\<rparr>)
       ([0x10, 0x21, 0x00, 0x04] @ bstr ''MQTT'' @ [0x04, 0x14, 0x00, 0x3C, 0x00, 0x05] @ bstr ''12345'' @ [0x00, 0x05] @ bstr ''topic'' @ [0x00, 0x07] @ bstr ''message'') \<and>
     v3_assert_encode_packet V3_Disconnect [0xE0, 0x00]"

definition v3_test_encode_publish_packets :: bool where
  "v3_test_encode_publish_packets \<longleftrightarrow>
     v3_assert_encode_packet
       (V3_Publish \<lparr>pub3_dup = True, pub3_retain = True, pub3_qos = ExactlyOnce, pub3_topic = (bstr ''topic''),
         pub3_packet_id = Some 0x4321, pub3_payload = (bstr ''data'')\<rparr>)
       ([0x3D, 0x0D, 0x00, 0x05] @ bstr ''topic'' @ [0x43, 0x21] @ bstr ''data'') \<and>
     v3_assert_encode_packet
       (V3_Publish \<lparr>pub3_dup = False, pub3_retain = False, pub3_qos = AtMostOnce, pub3_topic = (bstr ''topic''),
         pub3_packet_id = None, pub3_payload = (bstr ''data'')\<rparr>)
       ([0x30, 0x0B, 0x00, 0x05] @ bstr ''topicdata'')"

definition v3_test_encode_subscribe_packets :: bool where
  "v3_test_encode_subscribe_packets \<longleftrightarrow>
     v3_assert_encode_packet (V3_Subscribe 0x1234 [((bstr ''test''), AtLeastOnce), ((bstr ''filter''), ExactlyOnce)])
       ([0x82, 0x12, 0x12, 0x34, 0x00, 0x04] @ bstr ''test'' @ [0x01, 0x00, 0x06] @ bstr ''filter'' @ [0x02]) \<and>
     v3_assert_encode_packet (V3_SubscribeAck 0x1234 [SRC_Success AtLeastOnce, SRC_Failure, SRC_Success ExactlyOnce])
       [0x90, 0x05, 0x12, 0x34, 0x01, 0x80, 0x02] \<and>
     v3_assert_encode_packet (V3_Unsubscribe 0x1234 [(bstr ''test''), (bstr ''filter'')])
       ([0xA2, 0x10, 0x12, 0x34, 0x00, 0x04] @ bstr ''test'' @ [0x00, 0x06] @ bstr ''filter'') \<and>
     v3_assert_encode_packet (V3_UnsubscribeAck 0x4321) [0xB0, 0x02, 0x43, 0x21]"

definition v3_test_encode_ping_packets :: bool where
  "v3_test_encode_ping_packets \<longleftrightarrow>
     v3_assert_encode_packet V3_PingRequest [0xC0, 0x00] \<and> v3_assert_encode_packet V3_PingResponse [0xD0, 0x00]"

section \<open>\<open>codec.rs\<close>, \<open>packet.rs\<close>, \<open>version.rs\<close>\<close>

definition v3_test_max_size :: bool where
  "v3_test_max_size \<longleftrightarrow> fst (v3_codec_decode ascii (v3_set_max_size 5 v3_Codec_new) [0x00, 0x09]) = Err MaxSizeExceeded"

definition v3_test_packet :: bool where
  "v3_test_packet \<longleftrightarrow>
     (let pkt = \<lparr>pub3_dup = False, pub3_retain = False, pub3_qos = AtMostOnce, pub3_topic = (bstr ''/test''), pub3_packet_id = None,
            pub3_payload = replicate (260 * 1024) 0x61\<rparr> in
      case v3_codec_decode ascii v3_Codec_new (fst (v3_codec_encode (V3_Publish pkt))) of
        (Ok (Some (V3_Publish pkt2, _)), _, _) \<Rightarrow> snd (v3_codec_encode (V3_Publish pkt)) = Ok () \<and> pkt = pkt2
      | _ \<Rightarrow> False)"

text \<open>The payload is too long to run the codec on it; the test is an instance of the round trip.\<close>

lemma v3_test_packet_ok: "v3_test_packet"
proof -
  let ?p = "V3_Publish \<lparr>pub3_dup = False, pub3_retain = False, pub3_qos = AtMostOnce, pub3_topic = (bstr ''/test''), pub3_packet_id = None,
            pub3_payload = replicate (260 * 1024) 0x61\<rparr>"
  have "str_ok ascii (bstr ''/test'')" "length (bstr ''/test'') = 5" by code_simp+
  then have "v3_wf ascii ?p" "v3_get_encoded_size ?p \<le> 268435455" by (simp_all add: v3_get_encoded_publish_size_def)
  then show ?thesis using v3_decode_encode(1) [of ascii ?p v3_Codec_new] v3_decode_encode(2) [of ascii ?p v3_Codec_new "[]"]
    by (simp add: v3_test_packet_def v3_Codec_new_def)
qed

definition test_ack_reason :: bool where
  "test_ack_reason \<longleftrightarrow>
     v3_ConnectAckReason_reason CAR3_ConnectionAccepted = ''Connection Accepted'' \<and>
     v3_ConnectAckReason_reason CAR3_UnacceptableProtocolVersion = ''Connection Refused, unacceptable protocol version'' \<and>
     v3_ConnectAckReason_reason CAR3_IdentifierRejected = ''Connection Refused, identifier rejected'' \<and>
     v3_ConnectAckReason_reason CAR3_ServiceUnavailable = ''Connection Refused, Server unavailable'' \<and>
     v3_ConnectAckReason_reason CAR3_BadUserNameOrPassword = ''Connection Refused, bad user name or password'' \<and>
     v3_ConnectAckReason_reason CAR3_NotAuthorized = ''Connection Refused, not authorized''"

lemma test_ack_reason_ok: "test_ack_reason"
  by (simp add: test_ack_reason_def v3_ConnectAckReason_reason_def)

definition version_test_decode_connect_packets :: bool where
  "version_test_decode_connect_packets \<longleftrightarrow>
     version_decode ([0x10, 0x7F, 0x7F, 0x00, 0x04] @ bstr ''MQTT'' @ [0x06, 0xC0, 0x00, 0x3C, 0x00, 0x05] @ bstr ''12345'' @ [0x00, 0x04] @ bstr ''user'' @ [0x00, 0x04] @ bstr ''pass'') = Err InvalidProtocol \<and>
     version_decode ([0x10, 0x98, 0x02, 0x00, 0x04] @ bstr ''MQTT'' @ [0x04, 0xC0, 0x00, 0x0F, 0x00, 0x02] @ bstr ''d1'' @ [0x00] @ bstr ''|testhub.'') = Ok (Some MQTT3) \<and>
     version_decode ([0x10, 0x98, 0x02, 0x00, 0x04] @ bstr ''MQTT'' @ [0x05, 0xC0, 0x00, 0x0F, 0x00, 0x02] @ bstr ''d1'' @ [0x00] @ bstr ''|testhub.'') = Ok (Some MQTT5) \<and>
     version_decode ([0x10, 0x98, 0x02, 0x00, 0x04] @ bstr ''MQTT'' @ [0x05]) = Ok (Some MQTT5) \<and>
     version_decode [0x10, 0x98, 0x02, 0x00, 0x04] = Ok None \<and>
     version_decode ([0x10, 0x98, 0x02, 0x00, 0x04] @ bstr ''MQTT'') = Ok None"

section \<open>The tests hold\<close>

lemma v3_decode_tests_ok:
  "v3_test_decode_connect_packets \<and>
   v3_test_decode_publish_packets \<and>
   v3_test_decode_subscribe_packets \<and>
   v3_test_decode_ping_packets"
  by code_simp

lemma v3_encode_tests_ok:
  "v3_test_encode_fixed_header \<and>
   v3_test_encode_connect_packets \<and>
   v3_test_encode_publish_packets \<and>
   v3_test_encode_subscribe_packets \<and>
   v3_test_encode_ping_packets"
  by code_simp

lemma v3_packet_tests_ok:
  "v3_test_max_size \<and>
   version_test_decode_connect_packets"
  by code_simp

text \<open>The CONNECT packet of a connector with the default settings has no client identifier and does not ask for a clean session, and is refused
  by the decoder.\<close>

lemma v3_default_connect_refused:
  "fst (v3_codec_decode ascii v3_Codec_new (fst (v3_codec_encode (V3_Connect (mc3_pkt v3_Connector_new))))) = Err InvalidClientId"
  by code_simp

end
