(* ===== verification/Tests_V5.thy ===== *)
theory Tests_V5
  imports Tests_V3 V5_Codec V5_Sink
begin

text \<open>
  The unit tests of the codec of MQTT 5: \<open>src/v5/codec/decode.rs\<close>, \<open>encode.rs\<close>, \<open>codec.rs\<close>, \<open>packet/pubacks.rs\<close> and \<open>packet/subscribe.rs\<close>.
\<close>

section \<open>\<open>decode.rs\<close>\<close>

definition v5_assert_decode_packet :: "bytes \<Rightarrow> v5_Packet \<Rightarrow> bool" where
  "v5_assert_decode_packet bs r \<longleftrightarrow>
     (case bs of
        [] \<Rightarrow> False
      | fixed # _ \<Rightarrow>
          (case decode_variable_length (drop 1 bs) of
             Ok (Some (_, consumed)) \<Rightarrow>
               snd (v5_codec_encode v5_Codec_new r) = Ok () \<and> v5_decode_packet ascii (drop (consumed + 1) bs) fixed = Ok r
           | _ \<Rightarrow> False))"

definition v5_test_decode_connect_packets :: bool where
  "v5_test_decode_connect_packets \<longleftrightarrow>
     t_decoded (v5_Connect_decode ascii) ([0x00, 0x04] @ bstr ''MQTT'' @ [0x05, 0xC0, 0x00, 0x3C, 0x00, 0x00, 0x05] @ bstr ''12345'' @ [0x00, 0x04] @ bstr ''user'' @ [0x00, 0x04] @ bstr ''pass'') = 
       Ok \<lparr>con5_clean_start = False, con5_keep_alive = 60, con5_session_expiry_interval_secs = 0, con5_auth_method = None,
         con5_auth_data = None, con5_request_problem_info = True, con5_request_response_info = False, con5_receive_max = None,
         con5_topic_alias_max = 0, con5_user_properties = [], con5_max_packet_size = None, con5_last_will = None,
         con5_client_id = (bstr ''12345''), con5_username = Some (bstr ''user''), con5_password = Some (bstr ''pass'')\<rparr> \<and>
     t_decoded (v5_Connect_decode ascii) ([0x00, 0x04] @ bstr ''MQTT'' @ [0x05, 0x14, 0x00, 0x3C, 0x00, 0x00, 0x05] @ bstr ''12345'' @ [0x00, 0x00, 0x05] @ bstr ''topic'' @ [0x00, 0x07] @ bstr ''message'') = 
       Ok \<lparr>con5_clean_start = False, con5_keep_alive = 60, con5_session_expiry_interval_secs = 0, con5_auth_method = None,
         con5_auth_data = None, con5_request_problem_info = True, con5_request_response_info = False, con5_receive_max = None,
         con5_topic_alias_max = 0, con5_user_properties = [], con5_max_packet_size = None, con5_last_will = Some \<lparr>will5_qos = ExactlyOnce, will5_retain = False,
           will5_topic = (bstr ''topic''), will5_message = (bstr ''message''), will5_will_delay_interval_sec = None, will5_correlation_data = None,
           will5_message_expiry_interval = None, will5_content_type = None, will5_user_properties = [], will5_is_utf8_payload = None,
           will5_response_topic = None\<rparr>,
         con5_client_id = (bstr ''12345''), con5_username = None, con5_password = None\<rparr> \<and>
     t_decoded (v5_Connect_decode ascii) ([0x00, 0x02] @ bstr ''MQ00000000000000000000'') = Err InvalidProtocol \<and>
     t_decoded (v5_Connect_decode ascii) ([0x00, 0x04] @ bstr ''MQAA00000000000000000000'') = Err InvalidProtocol \<and>
     t_decoded (v5_Connect_decode ascii) ([0x00, 0x04] @ bstr ''MQTT'' @ [0x03] @ bstr ''00000000000000000000'') = Err UnsupportedProtocolLevel \<and>
     t_decoded (v5_Connect_decode ascii) ([0x00, 0x04] @ bstr ''MQTT'' @ [0x05, 0xFF] @ bstr ''00000000000000000000'') = Err ConnectReservedFlagSet \<and>
     t_decoded (v5_ConnectAck_decode ascii) [0x01, 0x86, 0x00] = Ok (v5_ConnectAck_default\<lparr>cack5_session_present := True, cack5_reason_code := CA_BadUserNameOrPassword\<rparr>) \<and>
     t_decoded (v5_ConnectAck_decode ascii) [0x03, 0x86, 0x00] = Err ConnAckReservedFlagSet \<and>
     v5_assert_decode_packet [0x20, 0x03, 0x01, 0x86, 0x00]
       (V5_ConnectAck (v5_ConnectAck_default\<lparr>cack5_session_present := True, cack5_reason_code := CA_BadUserNameOrPassword\<rparr>)) \<and>
     v5_assert_decode_packet [0b11100000, 0] (V5_Disconnect v5_Disconnect_default)"

definition default_test_publish :: v5_Publish where
  "default_test_publish = \<lparr>pub5_dup = False, pub5_retain = False, pub5_qos = AtMostOnce, pub5_packet_id = Some 1, pub5_topic = [],
     pub5_payload = [], pub5_properties = v5_PublishProperties_default\<rparr>"

definition v5_test_decode_publish_packets :: bool where
  "v5_test_decode_publish_packets \<longleftrightarrow>
     v5_assert_decode_packet ([0x3D, 0x0E, 0x00, 0x05] @ bstr ''topic'' @ [0x43, 0x21, 0x00] @ bstr ''data'')
       (V5_Publish (default_test_publish\<lparr>pub5_dup := True, pub5_retain := True, pub5_qos := ExactlyOnce, pub5_topic := (bstr ''topic''),
         pub5_packet_id := Some 0x4321, pub5_payload := (bstr ''data'')\<rparr>)) \<and>
     v5_assert_decode_packet ([0x30, 0x0C, 0x00, 0x05] @ bstr ''topic'' @ [0x00] @ bstr ''data'')
       (V5_Publish (default_test_publish\<lparr>pub5_dup := False, pub5_retain := False, pub5_qos := AtMostOnce, pub5_topic := (bstr ''topic''),
         pub5_packet_id := None, pub5_payload := (bstr ''data'')\<rparr>)) \<and>
     v5_assert_decode_packet [0x40, 0x02, 0x43, 0x21]
       (V5_PublishAck \<lparr>ack5_packet_id = 0x4321, ack5_reason_code = PA_Success, ack5_properties = [], ack5_reason_string = None\<rparr>) \<and>
     v5_assert_decode_packet [0x50, 0x02, 0x43, 0x21]
       (V5_PublishReceived \<lparr>ack5_packet_id = 0x4321, ack5_reason_code = PA_Success, ack5_properties = [], ack5_reason_string = None\<rparr>) \<and>
     v5_assert_decode_packet [0x62, 0x02, 0x43, 0x21]
       (V5_PublishRelease \<lparr>ack5_packet_id = 0x4321, ack5_reason_code = PA2_Success, ack5_properties = [], ack5_reason_string = None\<rparr>) \<and>
     v5_assert_decode_packet [0x70, 0x02, 0x43, 0x21]
       (V5_PublishComplete \<lparr>ack5_packet_id = 0x4321, ack5_reason_code = PA2_Success, ack5_properties = [], ack5_reason_string = None\<rparr>)"

definition v5_test_decode_subscribe_packets :: bool where
  "v5_test_decode_subscribe_packets \<longleftrightarrow>
     v5_assert_decode_packet ([0x82, 0x13, 0x12, 0x34, 0x00, 0x00, 0x04] @ bstr ''test'' @ [0x01, 0x00, 0x06] @ bstr ''filter'' @ [0x02])
       (V5_Subscribe \<lparr>sub5_packet_id = 0x1234, sub5_id = None, sub5_user_properties = [],
           sub5_topic_filters = [((bstr ''test''), \<lparr>so_qos = AtLeastOnce, so_no_local = False, so_retain_as_published = False, so_retain_handling = RH_AtSubscribe\<rparr>),
             ((bstr ''filter''), \<lparr>so_qos = ExactlyOnce, so_no_local = False, so_retain_as_published = False, so_retain_handling = RH_AtSubscribe\<rparr>)]\<rparr>) \<and>
     v5_assert_decode_packet ([0x82, 0x15, 0x12, 0x34, 0x02, 0x0B, 0x01, 0x00, 0x04] @ bstr ''test'' @ [0x01, 0x00, 0x06] @ bstr ''filter'' @ [0x02])
       (V5_Subscribe \<lparr>sub5_packet_id = 0x1234, sub5_id = Some 1, sub5_user_properties = [],
           sub5_topic_filters = [((bstr ''test''), \<lparr>so_qos = AtLeastOnce, so_no_local = False, so_retain_as_published = False, so_retain_handling = RH_AtSubscribe\<rparr>),
             ((bstr ''filter''), \<lparr>so_qos = ExactlyOnce, so_no_local = False, so_retain_as_published = False, so_retain_handling = RH_AtSubscribe\<rparr>)]\<rparr>) \<and>
     v5_assert_decode_packet [0x90, 0x05, 0x12, 0x34, 0x00, 0x01, 0x80, 0x02]
       (V5_SubscribeAck \<lparr>sack5_packet_id = 0x1234, sack5_properties = [], sack5_reason_string = None,
           sack5_status = [SA_GrantedQos1, SA_UnspecifiedError, SA_GrantedQos2]\<rparr>) \<and>
     t_decoded (v5_Unsubscribe_decode ascii) ([0x12, 0x34, 0x00, 0x00, 0x04] @ bstr ''test'' @ [0x00, 0x06] @ bstr ''filter'') = Ok \<lparr>unsub5_packet_id = 0x1234, unsub5_user_properties = [], unsub5_topic_filters = [(bstr ''test''), (bstr ''filter'')]\<rparr> \<and>
     v5_assert_decode_packet ([0xA2, 0x11, 0x12, 0x34, 0x00, 0x00, 0x04] @ bstr ''test'' @ [0x00, 0x06] @ bstr ''filter'')
       (V5_Unsubscribe \<lparr>unsub5_packet_id = 0x1234, unsub5_user_properties = [], unsub5_topic_filters = [(bstr ''test''), (bstr ''filter'')]\<rparr>) \<and>
     v5_assert_decode_packet [0xB0, 0x03, 0x43, 0x21, 0x00]
       (V5_UnsubscribeAck \<lparr>sack5_packet_id = 0x4321, sack5_properties = [], sack5_reason_string = None, sack5_status = []\<rparr>)"

definition v5_test_decode_ping_packets :: bool where
  "v5_test_decode_ping_packets \<longleftrightarrow>
     v5_assert_decode_packet [0xC0, 0x00]
       (V5_PingRequest) \<and>
     v5_assert_decode_packet [0xD0, 0x00]
       (V5_PingResponse)"

section \<open>\<open>encode.rs\<close>\<close>

definition v5_test_encode_fixed_header :: bool where
  "v5_test_encode_fixed_header \<longleftrightarrow>
     v5_encoded_size V5_PingRequest MAX_PACKET_SIZE = Ok 0 \<and>
     (let v = v5_encode V5_PingRequest 0 in snd v = Ok () \<and> take 2 (fst v) = [0xC0, 0x00]) \<and>
     (let p = V5_Publish \<lparr>pub5_dup = True, pub5_retain = True, pub5_qos = ExactlyOnce, pub5_packet_id = Some 0x4321, pub5_topic = (bstr ''topic''),
         pub5_payload = map of_nat [0..<255], pub5_properties = v5_PublishProperties_default\<rparr>;
          v = v5_encode p 265 in
      v5_encoded_size p MAX_PACKET_SIZE = Ok 265 \<and> snd v = Ok () \<and> take 3 (fst v) = [0x3D, 0x89, 0x02])"

definition v5_assert_encode_packet :: "v5_Packet \<Rightarrow> bytes \<Rightarrow> bool" where
  "v5_assert_encode_packet packet expected \<longleftrightarrow>
     (case v5_encoded_size packet 1024 of Ok n \<Rightarrow> v5_encode packet (as_u32 n) = eok expected | _ \<Rightarrow> False)"

definition v5_test_encode_connect_packets :: bool where
  "v5_test_encode_connect_packets \<longleftrightarrow>
     v5_assert_encode_packet
       (V5_Connect \<lparr>con5_clean_start = False, con5_keep_alive = 60, con5_session_expiry_interval_secs = 0, con5_auth_method = None,
         con5_auth_data = None, con5_request_problem_info = True, con5_request_response_info = False, con5_receive_max = None,
         con5_topic_alias_max = 0, con5_user_properties = [], con5_max_packet_size = None, con5_last_will = None,
         con5_client_id = (bstr ''12345''), con5_username = Some (bstr ''user''), con5_password = Some (bstr ''pass'')\<rparr>)
       ([0x10, 0x1E, 0x00, 0x04] @ bstr ''MQTT'' @ [0x05, 0xC0, 0x00, 0x3C, 0x00, 0x00, 0x05] @ bstr ''12345'' @ [0x00, 0x04] @ bstr ''user'' @ [0x00, 0x04] @ bstr ''pass'') \<and>
     v5_assert_encode_packet
       (V5_Connect \<lparr>con5_clean_start = False, con5_keep_alive = 60, con5_session_expiry_interval_secs = 0, con5_auth_method = None,
         con5_auth_data = None, con5_request_problem_info = True, con5_request_response_info = False, con5_receive_max = None,
         con5_topic_alias_max = 0, con5_user_properties = [], con5_max_packet_size = None, con5_last_will = Some \<lparr>will5_qos = ExactlyOnce, will5_retain = False,
           will5_topic = (bstr ''topic''), will5_message = (bstr ''message''), will5_will_delay_interval_sec = None, will5_correlation_data = None,
           will5_message_expiry_interval = None, will5_content_type = None, will5_user_properties = [], will5_is_utf8_payload = None,
           will5_response_topic = None\<rparr>,
         con5_client_id = (bstr ''12345''), con5_username = None, con5_password = None\<rparr>)
       ([0x10, 0x23, 0x00, 0x04] @ bstr ''MQTT'' @ [0x05, 0x14, 0x00, 0x3C, 0x00, 0x00, 0x05] @ bstr ''12345'' @ [0x00, 0x00, 0x05] @ bstr ''topic'' @ [0x00, 0x07] @ bstr ''message'') \<and>
     v5_assert_encode_packet
       (V5_Connect \<lparr>con5_clean_start = False, con5_keep_alive = 60, con5_session_expiry_interval_secs = 0, con5_auth_method = None,
         con5_auth_data = None, con5_request_problem_info = True, con5_request_response_info = False, con5_receive_max = None,
         con5_topic_alias_max = 0, con5_user_properties = [], con5_max_packet_size = None, con5_last_will = Some \<lparr>will5_qos = ExactlyOnce, will5_retain = True,
           will5_topic = (bstr ''topic''), will5_message = (bstr ''message''), will5_will_delay_interval_sec = Some 5,
           will5_correlation_data = Some (bstr ''correlationData''), will5_message_expiry_interval = NonZero_new 7,
           will5_content_type = Some (bstr ''contentType''), will5_user_properties = [((bstr ''name''), (bstr ''value''))], will5_is_utf8_payload = Some True,
           will5_response_topic = Some (bstr ''responseTopic'')\<rparr>,
         con5_client_id = (bstr ''12345''), con5_username = None, con5_password = None\<rparr>)
       ([0x10, 0x6D, 0x00, 0x04] @ bstr ''MQTT'' @ [0x05, 0x34, 0x00, 0x3C, 0x00, 0x00, 0x05] @ bstr ''12345'' @ [0x4A, 0x18, 0x00, 0x00, 0x00, 0x05, 0x01, 0x01, 0x02, 0x00, 0x00, 0x00, 0x07, 0x03, 0x00, 0x0B] @ bstr ''contentType'' @ [0x08, 0x00, 0x0D] @ bstr ''responseTopic'' @ [0x09, 0x00, 0x0F] @ bstr ''correlationData'' @ [0x26, 0x00, 0x04] @ bstr ''name'' @ [0x00, 0x05] @ bstr ''value'' @ [0x00, 0x05] @ bstr ''topic'' @ [0x00, 0x07] @ bstr ''message'') \<and>
     v5_assert_encode_packet
       (V5_Disconnect \<lparr>dis5_reason_code = DR_NormalDisconnection, dis5_session_expiry_interval_secs = None, dis5_server_reference = None,
         dis5_reason_string = None, dis5_user_properties = []\<rparr>)
       [0xE0, 0x02, 0x00, 0x00]"

definition v5_test_encode_publish_packets :: bool where
  "v5_test_encode_publish_packets \<longleftrightarrow>
     v5_assert_encode_packet
       (V5_Publish \<lparr>pub5_dup = True, pub5_retain = True, pub5_qos = ExactlyOnce, pub5_packet_id = Some 0x4321, pub5_topic = (bstr ''topic''),
         pub5_payload = (bstr ''data''), pub5_properties = v5_PublishProperties_default\<rparr>)
       ([0x3D, 0x0E, 0x00, 0x05] @ bstr ''topic'' @ [0x43, 0x21, 0x00] @ bstr ''data'') \<and>
     v5_assert_encode_packet
       (V5_Publish \<lparr>pub5_dup = False, pub5_retain = False, pub5_qos = AtMostOnce, pub5_packet_id = None, pub5_topic = (bstr ''topic''),
         pub5_payload = (bstr ''data''), pub5_properties = v5_PublishProperties_default\<rparr>)
       ([0x30, 0x0C, 0x00, 0x05] @ bstr ''topic'' @ [0x00] @ bstr ''data'') \<and>
     v5_assert_encode_packet
       (V5_Publish \<lparr>pub5_dup = False, pub5_retain = False, pub5_qos = AtMostOnce, pub5_packet_id = None, pub5_topic = (bstr ''topic''),
         pub5_payload = (bstr ''data''), pub5_properties = v5_PublishProperties_default\<lparr>pp5_subscription_ids := [1]\<rparr>\<rparr>)
       ([0x30, 0x0E, 0x00, 0x05] @ bstr ''topic'' @ [0x02, 0x0B, 0x01] @ bstr ''data'')"

definition v5_test_encode_subscribe_packets :: bool where
  "v5_test_encode_subscribe_packets \<longleftrightarrow>
     v5_assert_encode_packet
       (V5_Subscribe \<lparr>sub5_packet_id = 0x1234, sub5_id = None, sub5_user_properties = [],
           sub5_topic_filters = [((bstr ''test''), \<lparr>so_qos = AtLeastOnce, so_no_local = False, so_retain_as_published = False, so_retain_handling = RH_AtSubscribe\<rparr>),
             ((bstr ''filter''), \<lparr>so_qos = ExactlyOnce, so_no_local = False, so_retain_as_published = False, so_retain_handling = RH_AtSubscribe\<rparr>)]\<rparr>)
       ([0x82, 0x13, 0x12, 0x34, 0x00, 0x00, 0x04] @ bstr ''test'' @ [0x01, 0x00, 0x06] @ bstr ''filter'' @ [0x02]) \<and>
     v5_assert_encode_packet
       (V5_Subscribe \<lparr>sub5_packet_id = 0x1234, sub5_id = Some 1, sub5_user_properties = [],
           sub5_topic_filters = [((bstr ''test''), \<lparr>so_qos = AtLeastOnce, so_no_local = False, so_retain_as_published = False, so_retain_handling = RH_AtSubscribe\<rparr>),
             ((bstr ''filter''), \<lparr>so_qos = ExactlyOnce, so_no_local = False, so_retain_as_published = False, so_retain_handling = RH_AtSubscribe\<rparr>)]\<rparr>)
       ([0x82, 0x15, 0x12, 0x34, 0x02, 0x0B, 0x01, 0x00, 0x04] @ bstr ''test'' @ [0x01, 0x00, 0x06] @ bstr ''filter'' @ [0x02]) \<and>
     v5_assert_encode_packet
       (V5_SubscribeAck \<lparr>sack5_packet_id = 0x1234, sack5_properties = [], sack5_reason_string = None,
           sack5_status = [SA_GrantedQos1, SA_UnspecifiedError, SA_GrantedQos2]\<rparr>)
       [0x90, 0x06, 0x12, 0x34, 0x00, 0x01, 0x80, 0x02] \<and>
     v5_assert_encode_packet
       (V5_Unsubscribe \<lparr>unsub5_packet_id = 0x1234, unsub5_user_properties = [], unsub5_topic_filters = [(bstr ''test''), (bstr ''filter'')]\<rparr>)
       ([0xA2, 0x11, 0x12, 0x34, 0x00, 0x00, 0x04] @ bstr ''test'' @ [0x00, 0x06] @ bstr ''filter'') \<and>
     v5_assert_encode_packet
       (V5_UnsubscribeAck \<lparr>sack5_packet_id = 0x4321, sack5_properties = [], sack5_reason_string = None,
         sack5_status = [UA_Success, UA_NotAuthorized]\<rparr>)
       [0xB0, 0x05, 0x43, 0x21, 0x00, 0x00, 0x87]"

definition v5_test_encode_ping_packets :: bool where
  "v5_test_encode_ping_packets \<longleftrightarrow>
     v5_assert_encode_packet
       (V5_PingRequest)
       [0xC0, 0x00] \<and>
     v5_assert_encode_packet
       (V5_PingResponse)
       [0xD0, 0x00]"

section \<open>\<open>packet/pubacks.rs\<close>, \<open>packet/subscribe.rs\<close>, \<open>codec.rs\<close>\<close>

definition puback_decode_success :: "bytes \<Rightarrow> u16 \<Rightarrow> PublishAckReason \<Rightarrow> UserProperty list \<Rightarrow> bytes option \<Rightarrow> bool" where
  "puback_decode_success input i reason_code properties reason_string \<longleftrightarrow>
     v5_PublishAck_decode ascii input =
       Ok (\<lparr>ack5_packet_id = i, ack5_reason_code = reason_code, ack5_properties = properties, ack5_reason_string = reason_string\<rparr>, [])"

definition puback_decode_must_fail :: "bytes \<Rightarrow> DecodeError \<Rightarrow> bool" where
  "puback_decode_must_fail input error \<longleftrightarrow> v5_PublishAck_decode ascii input = Err error"

definition puback_decode_cases :: bool where
  "puback_decode_cases \<longleftrightarrow>
     puback_decode_success [0xFF, 0xFF, 0x00, 0x00] 65535 PA_Success [] None \<and>
     puback_decode_success [0x00, 0x01] 1 PA_Success [] None \<and>
     puback_decode_success [0x01, 0x01, 0x00] 257 PA_Success [] None \<and>
     puback_decode_success [0x00, 0x01, 0x87] 1 PA_NotAuthorized [] None \<and>
     puback_decode_success [0x00, 0x01, 0x83, 0x00] 1 PA_ImplementationSpecificError [] None \<and>
     puback_decode_success ([0x00, 0xFF, 0x80, 0x0D, 0x26, 0x00, 0x01] @ bstr ''a'' @ [0x00, 0x01] @ bstr ''b'' @ [0x1F, 0x00, 0x03] @ bstr ''123'') 255 PA_UnspecifiedError [((bstr ''a''), (bstr ''b''))] (Some (bstr ''123'')) \<and>
     puback_decode_must_fail [0x00, 0x00] DE_MalformedPacket \<and>
     puback_decode_must_fail [0x00, 0x01, 0x00, 0x01] DE_InvalidLength"

text \<open>\<open>encoded_size\<close>, \<open>encode\<close> and \<open>decode\<close> of one packet: the size is what is written, and the packet comes back.\<close>

definition encodes_back :: "('p \<Rightarrow> nat \<Rightarrow> (EncodeError, nat) res) \<Rightarrow> ('p \<Rightarrow> nat \<Rightarrow> encoder) \<Rightarrow> 'p decoder \<Rightarrow> 'p \<Rightarrow> bool" where
  "encodes_back encoded_size encode dec pkt \<longleftrightarrow>
     (case encoded_size pkt 99999 of
        Ok sz \<Rightarrow>
          let buf = encode pkt (as_u32 sz) in
          snd buf = Ok () \<and> length (fst buf) = sz \<and> t_decoded dec (fst buf) = Ok pkt
      | _ \<Rightarrow> False)"

definition test_sub :: bool where
  "test_sub \<longleftrightarrow>
     encodes_back v5_Subscribe_encoded_size v5_Subscribe_encode (v5_Subscribe_decode ascii)
       \<lparr>sub5_packet_id = 12, sub5_id = Some 10, sub5_user_properties = [((bstr ''a''), (bstr ''1''))],
         sub5_topic_filters = [((bstr ''test''), SubscriptionOptions_default)]\<rparr> \<and>
     encodes_back v5_Unsubscribe_encoded_size v5_Unsubscribe_encode (v5_Unsubscribe_decode ascii)
       \<lparr>unsub5_packet_id = 12, unsub5_user_properties = [((bstr ''a''), (bstr ''1''))], unsub5_topic_filters = [(bstr ''test'')]\<rparr>"

definition test_sub_pkt :: bool where
  "test_sub_pkt \<longleftrightarrow>
     (let pkt = V5_Subscribe \<lparr>sub5_packet_id = 12, sub5_id = None, sub5_user_properties = [((bstr ''a''), (bstr ''1''))],
         sub5_topic_filters = [((bstr ''test''), SubscriptionOptions_default)]\<rparr>;
          buf = v5_codec_encode v5_Codec_new pkt in
      snd buf = Ok () \<and>
      (case v5_codec_decode ascii v5_Codec_new (fst buf) of (Ok (Some (p, _)), _, _) \<Rightarrow> pkt = p | _ \<Rightarrow> False))"

definition test_sub_ack :: bool where
  "test_sub_ack \<longleftrightarrow>
     encodes_back v5_SubscribeAck_encoded_size v5_SubscribeAck_encode (v5_SubscribeAck_decode ascii)
       \<lparr>sack5_packet_id = 1, sack5_properties = [],
         sack5_reason_string = Some (bstr ''some reason''), sack5_status = []\<rparr> \<and>
     encodes_back v5_SubscribeAck_encoded_size v5_SubscribeAck_encode (v5_SubscribeAck_decode ascii)
       \<lparr>sack5_packet_id = 1, sack5_properties = [((bstr ''prop1''), (bstr ''val1'')), ((bstr ''prop2''), (bstr ''val2''))],
         sack5_reason_string = None, sack5_status = [SA_GrantedQos0]\<rparr> \<and>
     encodes_back v5_UnsubscribeAck_encoded_size v5_UnsubscribeAck_encode (v5_UnsubscribeAck_decode ascii)
       \<lparr>sack5_packet_id = 1, sack5_properties = [],
         sack5_reason_string = Some (bstr ''some reason''), sack5_status = []\<rparr> \<and>
     encodes_back v5_UnsubscribeAck_encoded_size v5_UnsubscribeAck_encode (v5_UnsubscribeAck_decode ascii)
       \<lparr>sack5_packet_id = 1, sack5_properties = [((bstr ''prop1''), (bstr ''val1'')), ((bstr ''prop2''), (bstr ''val2''))],
         sack5_reason_string = None, sack5_status = [UA_Success]\<rparr>"

definition v5_test_max_size :: bool where
  "v5_test_max_size \<longleftrightarrow> fst (v5_codec_decode ascii (v5_set_max_inbound_size 5 v5_Codec_new) [0x00, 0x09]) = Err MaxSizeExceeded"

section \<open>The tests hold\<close>

lemma v5_decode_tests_ok:
  "v5_test_decode_connect_packets \<and>
   v5_test_decode_publish_packets \<and>
   v5_test_decode_subscribe_packets \<and>
   v5_test_decode_ping_packets"
  by code_simp

lemma v5_encode_tests_ok:
  "v5_test_encode_fixed_header \<and>
   v5_test_encode_connect_packets \<and>
   v5_test_encode_publish_packets \<and>
   v5_test_encode_subscribe_packets \<and>
   v5_test_encode_ping_packets"
  by code_simp

lemma v5_packet_tests_ok:
  "puback_decode_cases \<and>
   test_sub \<and>
   test_sub_pkt \<and>
   test_sub_ack \<and>
   v5_test_max_size"
  by code_simp

end
