(* ===== verification/Tests_Topic.thy ===== *)
theory Tests_Topic
  imports Tests_Base Topic Topic_Write
begin

text \<open>
  The unit tests of \<open>src/topic.rs\<close>. A function with test cases is a definition that joins its cases.
\<close>

text \<open>The helper functions of the tests; a level that one of them refuses would be \<open>None\<close> there and fail every test.\<close>

definition lvl_normal :: "bytes \<Rightarrow> TopicFilterLevel option" where
  "lvl_normal s = (if PLUS \<in> set s \<or> HASH \<in> set s then None else Some (TFL_Normal s))"

definition lvl_sys :: "bytes \<Rightarrow> TopicFilterLevel option" where
  "lvl_sys s = (if PLUS \<in> set s \<or> HASH \<in> set s \<or> \<not> (s \<noteq> [] \<and> hd s = DOLLAR) then None else Some (TFL_System s))"

definition t_levels :: "TopicFilterLevel option list \<Rightarrow> TopicFilter option" where
  "t_levels ls = those ls"

definition t_topic :: "bytes \<Rightarrow> TopicFilter option" where
  "t_topic s = (case filter_try_from s of Ok f \<Rightarrow> Some f | _ \<Rightarrow> None)"

definition check_is_valid :: bool where
  "check_is_valid \<longleftrightarrow>
     topic_is_valid (bstr ''abc'') \<and>
     topic_is_valid (bstr ''a/b'') \<and>
     topic_is_valid (bstr ''/'') \<and>
     topic_is_valid (bstr ''//'') \<and>
     topic_is_valid (bstr ''a/b/+'') \<and>
     topic_is_valid (bstr ''+/a'') \<and>
     topic_is_valid (bstr ''+'') \<and>
     topic_is_valid (bstr ''+//+'') \<and>
     topic_is_valid (bstr ''a/b/#'') \<and>
     topic_is_valid (bstr ''#'') \<and>
     topic_is_valid (bstr ''/#'') \<and>
     \<not> topic_is_valid (bstr ''++'') \<and>
     \<not> topic_is_valid (bstr ''b+/'') \<and>
     \<not> topic_is_valid (bstr ''a/+b'') \<and>
     \<not> topic_is_valid (bstr ''+#'') \<and>
     \<not> topic_is_valid (bstr ''a#'') \<and>
     \<not> topic_is_valid (bstr ''a/#/'') \<and>
     \<not> topic_is_valid (bstr ''a/#b'') \<and>
     \<not> topic_is_valid (bstr ''a/##'') \<and>
     \<not> topic_is_valid (bstr ''a/#+'')"

definition test_parsing :: bool where
  "test_parsing \<longleftrightarrow>
     t_topic (bstr ''level'') \<noteq> None \<and> t_topic (bstr ''level'') = t_levels [lvl_normal (bstr ''level'')] \<and>
     t_topic (bstr ''level/+'') \<noteq> None \<and> t_topic (bstr ''level/+'') = t_levels [lvl_normal (bstr ''level''), Some TFL_SingleWildcard] \<and>
     t_topic (bstr ''a//#'') \<noteq> None \<and> t_topic (bstr ''a//#'') = t_levels [lvl_normal (bstr ''a''), Some TFL_Blank, Some TFL_MultiWildcard] \<and>
     t_topic (bstr ''$a///#'') \<noteq> None \<and> t_topic (bstr ''$a///#'') = t_levels [lvl_sys (bstr ''$a''), Some TFL_Blank, Some TFL_Blank, Some TFL_MultiWildcard] \<and>
     filter_try_from (bstr ''$a/#/'') = Err InvalidTopic \<and>
     filter_try_from (bstr ''a+b'') = Err InvalidLevel \<and>
     filter_try_from (bstr ''a/+b'') = Err InvalidLevel \<and>
     t_topic (bstr ''$a/$b/'') \<noteq> None \<and> t_topic (bstr ''$a/$b/'') = t_levels [lvl_sys (bstr ''$a''), lvl_normal (bstr ''$b''), Some TFL_Blank] \<and>
     filter_try_from (bstr ''#/a'') = Err InvalidTopic \<and>
     filter_try_from [] = Err InvalidTopic \<and>
     t_topic (bstr ''/finance'') \<noteq> None \<and> t_topic (bstr ''/finance'') = t_levels [Some TFL_Blank, lvl_normal (bstr ''finance'')] \<and>
     t_topic (bstr ''finance/'') \<noteq> None \<and> t_topic (bstr ''finance/'') = t_levels [lvl_normal (bstr ''finance''), Some TFL_Blank]"

definition t_is_Ok :: "('e, 'a) res \<Rightarrow> bool" where
  "t_is_Ok r \<longleftrightarrow> (case r of Ok _ \<Rightarrow> True | _ \<Rightarrow> False)"

definition test_topic_is_valid :: bool where
  "test_topic_is_valid \<longleftrightarrow>
     map_option (\<lambda>v. t_is_Ok (filter_try_from_levels v)) (t_levels [lvl_normal (bstr ''sport''), lvl_normal (bstr ''tennis''), lvl_normal (bstr ''player1'')]) = Some True \<and>
     map_option (\<lambda>v. t_is_Ok (filter_try_from_levels v)) (t_levels [lvl_normal (bstr ''sport''), lvl_normal (bstr ''tennis''), Some TFL_MultiWildcard]) = Some True \<and>
     map_option (\<lambda>v. t_is_Ok (filter_try_from_levels v)) (t_levels [lvl_sys (bstr ''$SYS''), lvl_normal (bstr ''tennis''), lvl_normal (bstr ''player1'')]) = Some True \<and>
     map_option (\<lambda>v. t_is_Ok (filter_try_from_levels v)) (t_levels [lvl_normal (bstr ''sport''), Some TFL_SingleWildcard, lvl_normal (bstr ''player1'')]) = Some True \<and>
     map_option (\<lambda>v. t_is_Ok (filter_try_from_levels v)) (t_levels [lvl_normal (bstr ''sport''), Some TFL_MultiWildcard, lvl_normal (bstr ''player1'')]) = Some False \<and>
     map_option (\<lambda>v. t_is_Ok (filter_try_from_levels v)) (t_levels [lvl_normal (bstr ''sport''), lvl_sys (bstr ''$SYS''), lvl_normal (bstr ''player1'')]) = Some False"

text \<open>\<open>topic(superset).matches_filter(&subset)\<close>, where both have to exist.\<close>

definition t_covers :: "TopicFilter option \<Rightarrow> TopicFilter option \<Rightarrow> bool option" where
  "t_covers a b = (case (a, b) of (Some f, Some g) \<Rightarrow> Some (matches_filter f g) | _ \<Rightarrow> None)"

definition test_multi_wildcard_topic :: bool where
  "test_multi_wildcard_topic \<longleftrightarrow>
     t_covers (t_topic (bstr ''sport/tennis/#'')) (t_levels [lvl_normal (bstr ''sport''), lvl_normal (bstr ''tennis''), Some TFL_MultiWildcard]) = Some True \<and>
     map_option (\<lambda>f. matches_topic f (bstr ''sport/tennis'')) (t_topic (bstr ''sport/tennis/#'')) = Some True \<and>
     t_covers (t_topic (bstr ''#'')) (t_levels [Some TFL_MultiWildcard]) = Some True"

definition test_single_wildcard_topic :: bool where
  "test_single_wildcard_topic \<longleftrightarrow>
     filter_try_from_levels [TFL_SingleWildcard] = Ok [TFL_SingleWildcard] \<and>
     t_covers (t_topic (bstr ''+'')) (t_levels [Some TFL_SingleWildcard]) = Some True \<and>
     t_covers (t_topic (bstr ''+/tennis/#'')) (t_levels [Some TFL_SingleWildcard, lvl_normal (bstr ''tennis''), Some TFL_MultiWildcard]) = Some True \<and>
     t_covers (t_topic (bstr ''sport/+/player1'')) (t_levels [lvl_normal (bstr ''sport''), Some TFL_SingleWildcard, lvl_normal (bstr ''player1'')]) = Some True"

definition test_write_topic :: bool where
  "test_write_topic \<longleftrightarrow>
     (case t_levels [Some TFL_SingleWildcard, lvl_normal (bstr ''tennis''), Some TFL_MultiWildcard] of
        Some t \<Rightarrow>
          write_topic vec_write [] t = (Ok 10 :: (unit, nat) res, bstr ''+/tennis/#'') \<and>
          filter_fmt t = (Ok (bstr ''+/tennis/#'') :: (unit, bytes) res)
      | None \<Rightarrow> False)"

definition test_matches_topic :: bool where
  "test_matches_topic \<longleftrightarrow>
     map_option (\<lambda>f. matches_topic f (bstr ''test'')) (t_topic (bstr ''test'')) = Some True \<and>
     map_option (\<lambda>f. matches_topic f (bstr ''$SYS'')) (t_topic (bstr ''$SYS'')) = Some True \<and>
     map_option (\<lambda>f. matches_topic f (bstr ''sport/tennis/player1'')) (t_topic (bstr ''sport/tennis/player1/#'')) = Some True \<and>
     map_option (\<lambda>f. matches_topic f (bstr ''sport/tennis/player1/score'')) (t_topic (bstr ''sport/tennis/player1/#'')) = Some True \<and>
     map_option (\<lambda>f. matches_topic f (bstr ''sport/tennis/player1/score/wimbledon'')) (t_topic (bstr ''sport/tennis/player1/#'')) = Some True \<and>
     map_option (\<lambda>f. matches_topic f (bstr ''sport'')) (t_topic (bstr ''sport/#'')) = Some True \<and>
     map_option (\<lambda>f. matches_topic f (bstr ''sport/tennis/player1'')) (t_topic (bstr ''sport/tennis/+'')) = Some True \<and>
     map_option (\<lambda>f. matches_topic f (bstr ''sport/tennis/player2'')) (t_topic (bstr ''sport/tennis/+'')) = Some True \<and>
     map_option (\<lambda>f. matches_topic f (bstr ''sport/tennis/player1/ranking'')) (t_topic (bstr ''sport/tennis/+'')) = Some False \<and>
     map_option (\<lambda>f. matches_topic f (bstr ''sport'')) (t_topic (bstr ''sport/+'')) = Some False \<and>
     map_option (\<lambda>f. matches_topic f (bstr ''sport/'')) (t_topic (bstr ''sport/+'')) = Some True \<and>
     map_option (\<lambda>f. matches_topic f (bstr ''/finance'')) (t_topic (bstr ''+/+'')) = Some True \<and>
     map_option (\<lambda>f. matches_topic f (bstr ''/finance'')) (t_topic (bstr ''/+'')) = Some True \<and>
     map_option (\<lambda>f. matches_topic f (bstr ''/finance'')) (t_topic (bstr ''+'')) = Some False \<and>
     map_option (\<lambda>f. matches_topic f (bstr ''$SYS'')) (t_topic (bstr ''#'')) = Some False \<and>
     map_option (\<lambda>f. matches_topic f (bstr ''$SYS/monitor/Clients'')) (t_topic (bstr ''+/monitor/Clients'')) = Some False \<and>
     map_option (\<lambda>f. matches_topic f (bstr ''$SYS/'')) (t_topic (bstr ''$SYS/#'')) = Some True \<and>
     map_option (\<lambda>f. matches_topic f (bstr ''$SYS/monitor/Clients'')) (t_topic (bstr ''$SYS/monitor/+'')) = Some True \<and>
     map_option (\<lambda>f. matches_topic f (bstr ''/$SYS/monitor/Clients'')) (t_topic (bstr ''#'')) = Some True \<and>
     map_option (\<lambda>f. matches_topic f (bstr ''$SYS'')) (t_topic (bstr ''+'')) = Some False \<and>
     map_option (\<lambda>f. matches_topic f (bstr ''$SYS'')) (t_topic (bstr ''+/#'')) = Some False"

definition test_matches_filter :: bool where
  "test_matches_filter \<longleftrightarrow>
     t_covers (t_topic (bstr ''a/b'')) (t_topic (bstr ''a/b'')) = Some True \<and>
     t_covers (t_topic (bstr ''a/b'')) (t_topic (bstr ''a/+'')) = Some False \<and>
     t_covers (t_topic (bstr ''a/b'')) (t_topic (bstr ''a/#'')) = Some False \<and>
     t_covers (t_topic (bstr ''a/+'')) (t_topic (bstr ''a/#'')) = Some False \<and>
     t_covers (t_topic (bstr ''a/+'')) (t_topic (bstr ''a/b'')) = Some True \<and>
     t_covers (t_topic (bstr ''+/+'')) (t_topic (bstr ''/'')) = Some True \<and>
     t_covers (t_topic (bstr ''+/+'')) (t_topic (bstr ''#'')) = Some False \<and>
     t_covers (t_topic (bstr ''+'')) (t_topic (bstr ''#'')) = Some False \<and>
     t_covers (t_topic (bstr ''#'')) (t_topic (bstr ''+'')) = Some True \<and>
     t_covers (t_topic (bstr ''#'')) (t_topic (bstr ''#'')) = Some True \<and>
     t_covers (t_topic (bstr ''a/#'')) (t_topic (bstr ''a/+/+'')) = Some True \<and>
     t_covers (t_topic (bstr ''a/+/normal/+'')) (t_topic (bstr ''a/$not_sys/normal/+'')) = Some True \<and>
     t_covers (t_topic (bstr ''a/+/#'')) (t_topic (bstr ''a/b'')) = Some True"

section \<open>The tests hold\<close>

lemma topic_parse_tests_ok:
  "check_is_valid \<and>
   test_parsing \<and>
   test_topic_is_valid"
  by code_simp

lemma topic_cover_tests_ok:
  "test_multi_wildcard_topic \<and>
   test_single_wildcard_topic \<and>
   test_write_topic"
  by code_simp

lemma topic_matches_tests_ok:
  "test_matches_topic"
  by code_simp

lemma topic_filter_tests_ok:
  "test_matches_filter"
  by code_simp

end
