(* ===== verification/Tests_Dispatch.thy ===== *)
theory Tests_Dispatch
  imports Inflight V3_Client V5_Client "HOL-Library.Code_Target_Nat"
begin

text \<open>
  The tests of the in-flight limit (\<open>src/inflight.rs\<close>) and of the four dispatchers. A future that a test polls once and
  keeps is a call in progress; \<open>IoTest\<close> never closes, takes every packet, and the receivers that the test holds are alive.
\<close>

section \<open>\<open>inflight.rs\<close>\<close>

text \<open>A request of the tests has size 12. A poll of \<open>srv.poll_ready\<close>, the start of \<open>srv.call(())\<close>, and its end, where the guard
  is dropped.\<close>

definition t_poll :: "unit poll \<Rightarrow> unit CounterInner \<Rightarrow> unit poll" where
  "t_poll inner c = fst (inflight_ready inner () c)"

definition t_running :: "unit CounterInner \<Rightarrow> (unit, u32 \<times> unit CounterInner) res" where
  "t_running c = inflight_call 12 c"

definition t_ended :: "u32 \<times> unit CounterInner \<Rightarrow> (unit, unit CounterInner \<times> unit option) res" where
  "t_ended g = counter_dec (fst g) (snd g)"

definition test_inflight :: bool where
  "test_inflight \<longleftrightarrow>
     (let srv = Counter_new 1 0 in
      t_poll (Ready (Ok ())) srv = Ready (Ok ()) \<and>
      (case t_running srv of
         Ok g \<Rightarrow>
           t_poll (Ready (Ok ())) (snd g) = Pending \<and>
           (case t_ended g of Ok (srv, _) \<Rightarrow> t_poll (Ready (Ok ())) srv = Ready (Ok ()) | _ \<Rightarrow> False)
       | _ \<Rightarrow> False))"

definition test_inflight2 :: bool where
  "test_inflight2 \<longleftrightarrow>
     (let srv = Counter_new 0 10 in
      t_poll (Ready (Ok ())) srv = Ready (Ok ()) \<and>
      (case t_running srv of
         Ok g \<Rightarrow>
           t_poll (Ready (Ok ())) (snd g) = Pending \<and>
           (case t_ended g of Ok (srv, _) \<Rightarrow> t_poll (Ready (Ok ())) srv = Ready (Ok ()) | _ \<Rightarrow> False)
       | _ \<Rightarrow> False))"

text \<open>\<open>Srv2\<close> is not ready while a call runs. The last step of the test waits for a task that polls until the service is ready; which waker
  makes the task poll again is left to the runtime, and the poll after the end of the call succeeds.\<close>

definition test_inflight3 :: bool where
  "test_inflight3 \<longleftrightarrow>
     (let srv = Counter_new 1 10 in
      t_poll (Ready (Ok ())) srv = Ready (Ok ()) \<and>
      (case t_running srv of
         Ok g \<Rightarrow>
           t_poll Pending (snd g) = Pending \<and>
           (case t_ended g of Ok (srv, _) \<Rightarrow> t_poll (Ready (Ok ())) srv = Ready (Ok ()) | _ \<Rightarrow> False)
       | _ \<Rightarrow> False))"

text \<open>The comment of this test says that the service must always register its waker. It does not: a task that polls
  while the inner service is not ready is not registered in the counter, and the end of the call wakes nobody.\<close>

lemma inflight_waker_not_always_registered:
  "(case t_running (Counter_new 1 10) of
      Ok (sz, c) \<Rightarrow> (case inflight_ready (Pending :: unit poll) () c of (r, c') \<Rightarrow> r = Pending \<and> map_res id snd (t_ended (sz, c')) = Ok None)
    | _ \<Rightarrow> False)"
  by code_simp

section \<open>\<open>v3/dispatcher.rs\<close>\<close>

definition t_env :: "'pkt Env" where
  "t_env = \<lparr>env_closed = False, env_alive = (\<lambda>_. True), env_encode = (\<lambda>_. None)\<rparr>"

definition t_publish :: "(v3_Packet, unit) DispatchItem" where
  "t_publish = DI_Item (V3_Publish \<lparr>pub3_dup = False, pub3_retain = False, pub3_qos = AtLeastOnce, pub3_topic = [],
     pub3_packet_id = NonZero_new 1, pub3_payload = []\<rparr>) 999"

text \<open>The first call stays with the publish service; the second is answered by the control service. A service that answers nothing
  but a protocol error stands for one that takes down that it got one.\<close>

definition v3_test_dup_packet_id :: bool where
  "v3_test_dup_packet_id \<longleftrightarrow>
     (let cfg = \<lparr>dc3_max_qos = AtLeastOnce, dc3_handle_qos_after_disconnect = None\<rparr>;
          disp = \<lparr>in3_sink = v3_Shared_new False, in3_inflight = {}\<rparr>;
          control = (\<lambda>ctrl :: (unit, unit) v3_Control. case ctrl of C3_ProtocolError _ \<Rightarrow> Inr CAK3_Nothing | _ \<Rightarrow> Inl (ME_Service ())) in
      case v3_dispatch cfg t_env t_publish disp of
        (Call_publish _ _ :: (unit, unit) v3_call, disp) \<Rightarrow> fst (v3_call cfg t_env (\<lambda>_. Inr ()) control t_publish disp) = Ok None
      | _ \<Rightarrow> False)"

text \<open>The test \<open>test_wr_backpressure\<close> is the same for all four dispatchers: \<open>call\<close> handles the event that back-pressure begins (\<open>True\<close>)
  or ends, \<open>sink\<close> is the shared state.\<close>

definition t_wr_backpressure :: "(('pkt, 'ack, 'c, 'z) MqttShared_scheme \<Rightarrow> bool) \<Rightarrow> ('inner \<Rightarrow> ('pkt, 'ack, 'c, 'z) MqttShared_scheme)
    \<Rightarrow> (('pkt, 'ack, 'c, 'z) MqttShared_scheme \<Rightarrow> 'inner \<Rightarrow> 'inner) \<Rightarrow> (bool \<Rightarrow> 'inner \<Rightarrow> ('e, 'r) res \<times> 'inner) \<Rightarrow> 'inner \<Rightarrow> bool" where
  "t_wr_backpressure is_ready sink set_sink call disp0 \<longleftrightarrow>
     (let shared = sh_set_cap t_env 1 (sink disp0) in
      \<not> is_ready (sink disp0) \<and> is_ready shared \<and> fst (sh_wait_readiness shared) = None \<and>
      (case call True (set_sink shared disp0) of
         (Ok _, disp1) \<Rightarrow>
           \<not> is_ready (sink disp1) \<and>
           (case sh_wait_readiness (sink disp1) of
              (Some rx, shared) \<Rightarrow>
                (case sh_wait_readiness shared of
                   (Some rx2, shared) \<Rightarrow>
                     (case call False (set_sink shared disp1) of
                        (Ok _, disp2) \<Rightarrow>
                          list_ex (\<lambda>e. case e of Ev_wake c \<Rightarrow> c = rx | _ \<Rightarrow> False) (sh_events (sink disp2)) \<and>
                          \<not> list_ex (\<lambda>e. case e of Ev_wake c \<Rightarrow> c = rx2 | _ \<Rightarrow> False) (sh_events (sink disp2))
                      | _ \<Rightarrow> False)
                 | _ \<Rightarrow> False)
            | _ \<Rightarrow> False)
       | _ \<Rightarrow> False))"

definition v3_test_wr_backpressure :: bool where
  "v3_test_wr_backpressure \<longleftrightarrow>
     t_wr_backpressure (v3_is_ready t_env) in3_sink (\<lambda>sink disp. disp\<lparr>in3_sink := sink\<rparr>)
       (\<lambda>enabled. v3_call \<lparr>dc3_max_qos = AtLeastOnce, dc3_handle_qos_after_disconnect = None\<rparr> t_env (\<lambda>_. Inr () :: unit + unit)
          (\<lambda>_. Inr CAK3_Nothing) (if enabled then DI_WBackPressureEnabled else DI_WBackPressureDisabled :: (v3_Packet, unit) DispatchItem))
       \<lparr>in3_sink = v3_Shared_new False, in3_inflight = {}\<rparr>"

section \<open>\<open>v3/client/dispatcher.rs\<close>\<close>

text \<open>The text of a protocol violation is its message.\<close>

definition v3c_test_dup_packet_id :: bool where
  "v3c_test_dup_packet_id \<longleftrightarrow>
     (let disp = \<lparr>in3_sink = v3_Shared_new False, in3_inflight = {}\<rparr>;
          expected = ''PUBLISH received with packet id that is already in use'' in
      case v3c_dispatch t_env t_publish disp of
        (Call_publish _ _ :: (unit, unit) v3c_call, disp) \<Rightarrow>
          (case fst (v3c_call t_env (\<lambda>_. Inr (Inl ()) :: unit + (unit + v3_Publish)) (\<lambda>_. Inr CAK3_Nothing) t_publish disp) of
             Err (ME_Handshake (HE_Protocol (PE_ProtocolViolation (VI_Common _ msg)))) \<Rightarrow> take (length expected) msg = expected
           | _ \<Rightarrow> False)
      | _ \<Rightarrow> False)"

definition v3c_test_wr_backpressure :: bool where
  "v3c_test_wr_backpressure \<longleftrightarrow>
     t_wr_backpressure (v3_is_ready t_env) in3_sink (\<lambda>sink disp. disp\<lparr>in3_sink := sink\<rparr>)
       (\<lambda>enabled. v3c_call t_env (\<lambda>_. Inr (Inl ()) :: unit + (unit + v3_Publish))
          (\<lambda>_. Inr CAK3_Nothing) (if enabled then DI_WBackPressureEnabled else DI_WBackPressureDisabled :: (v3_Packet, unit) DispatchItem))
       \<lparr>in3_sink = v3_Shared_new False, in3_inflight = {}\<rparr>"

section \<open>\<open>v5/dispatcher.rs\<close> and \<open>v5/client/dispatcher.rs\<close>\<close>

text \<open>\<open>TestError\<close> converts to no acknowledgement.\<close>

definition v5_test_wr_backpressure :: bool where
  "v5_test_wr_backpressure \<longleftrightarrow>
     t_wr_backpressure (v5_is_ready t_env) in5_sink (\<lambda>sink disp. disp\<lparr>in5_sink := sink\<rparr>)
       (\<lambda>enabled. v5_call \<lparr>dc5_handle_qos_after_disconnect = None, dc5_try_from = Inl, dc5_from = (\<lambda>e. e)\<rparr> t_env
          (\<lambda>p. Inr (v5_PubAck_new PA_Success) :: unit + v5_PubAck) (\<lambda>_. Inr \<lparr>ca5_packet = None, ca5_disconnect = False\<rparr>)
          (if enabled then DI_WBackPressureEnabled else DI_WBackPressureDisabled :: (v5_Packet, unit) DispatchItem))
       (v5_Inner_new (v5_Shared_new v5_Codec_new))"

definition v5c_test_wr_backpressure :: bool where
  "v5c_test_wr_backpressure \<longleftrightarrow>
     t_wr_backpressure (v5_is_ready t_env) in5_sink (\<lambda>sink disp. disp\<lparr>in5_sink := sink\<rparr>)
       (\<lambda>enabled. v5c_call \<lparr>dcc5_max_receive = 16, dcc5_max_topic_alias = 16\<rparr> t_env
          (\<lambda>p. Inr (Inr (v5_PubAck_new PA_Success)) :: unit + (v5_Publish \<times> u32) + v5_PubAck) (\<lambda>_. Inr \<lparr>ca5_packet = None, ca5_disconnect = False\<rparr>)
          (if enabled then DI_WBackPressureEnabled else DI_WBackPressureDisabled :: (v5_Packet, unit) DispatchItem))
       (v5_Inner_new (v5_Shared_new v5_Codec_new))"

section \<open>The tests hold\<close>

lemma dispatch_tests_ok:
  "test_inflight \<and>
   test_inflight2 \<and>
   test_inflight3 \<and>
     v3_test_dup_packet_id \<and>
     v3_test_wr_backpressure \<and>
     v3c_test_dup_packet_id \<and>
     v3c_test_wr_backpressure \<and>
     v5_test_wr_backpressure \<and>
     v5c_test_wr_backpressure"
  by code_simp

end
