(* ===== verification/Tests_Io.thy ===== *)
theory Tests_Io
  imports Io "HOL-Library.Code_Target_Nat"
begin

text \<open>
  The tests of the stream dispatcher (\<open>src/io.rs\<close>). A packet is a list of bytes. A test is a list of what the executor does:
  it polls the loop with what the stream answers, or a future of the service that was waiting becomes ready. The service is the
  function of the test; what it does with a request is whether it answers at once and with what. The lengths of the buffers of the
  stream belong to \<open>ntex_io\<close> and are not looked at.
\<close>

section \<open>Running a test\<close>

type_synonym t_disp = "(string, unit, unit) DispatcherInner"
type_synonym t_item = "(string, unit) DispatchItem"
type_synonym t_service = "t_item \<Rightarrow> bool \<times> (unit + string option)"

definition io_new_debug_cfg :: "IoConfig \<Rightarrow> t_disp" where
  "io_new_debug_cfg config =
     \<lparr>io_st = IDS_Processing, io_flags = (if cfg_keepalive_timeout config = 0 then 0 else KA_ENABLED),
      io_state = \<lparr>ds_error = None, ds_base = 0, ds_queue = [], ds_events = []\<rparr>,
      io_read_remains = 0, io_read_remains_prev = 0, io_read_max_timeout = 0,
      io_keepalive_timeout = cfg_keepalive_timeout config, io_response = None, io_response_idx = 0, io_tasks = [], io_calls = 0\<rparr>"

text \<open>A \<open>DispatcherConfig\<close>. The default of a test that sets none belongs to \<open>ntex_io\<close>: such a test is run with the keep-alive timer off and with a
  keep-alive time that is longer than the test.\<close>

definition t_config :: "u16 \<Rightarrow> (u16 \<times> u16 \<times> u16) option \<Rightarrow> IoConfig" where
  "t_config keepalive rate = \<lparr>cfg_keepalive_timeout = keepalive, cfg_frame_read_rate = rate\<rparr>"

definition t_default :: "(IoConfig \<Rightarrow> bool) \<Rightarrow> bool" where
  "t_default test \<longleftrightarrow> list_all (\<lambda>keepalive. test (t_config keepalive None)) [0, 30]"

datatype t_io = T_poll "(string, unit, unit) IoInput" | T_response | T_task

definition t_called :: "t_disp \<Rightarrow> t_item list" where
  "t_called d = concat (map (\<lambda>e. case e of IoEv_call i \<Rightarrow> [i] | _ \<Rightarrow> []) (ds_events (io_state d)))"

definition t_timers :: "t_disp \<Rightarrow> u16 list" where
  "t_timers d = concat (map (\<lambda>e. case e of IoEv_start_timer t \<Rightarrow> [t] | _ \<Rightarrow> []) (ds_events (io_state d)))"

text \<open>The answers at once are those of the requests that the iteration makes.\<close>

definition t_poll_io :: "IoConfig \<Rightarrow> t_service \<Rightarrow> (string, unit, unit) IoInput \<Rightarrow> t_disp \<Rightarrow> (unit Iter \<times> t_disp) option" where
  "t_poll_io config service inp d =
     (case io_iter config (\<lambda>_. None) (inp\<lparr>in_now := \<lambda>_. None\<rparr>) d of
        None \<Rightarrow> None
      | Some (_, d0) \<Rightarrow>
          io_iter config (\<lambda>_. None)
            (inp\<lparr>in_now := \<lambda>k. let (at_once, r) = service (t_called d0 ! k) in if at_once then Some r else None\<rparr>) d)"

definition t_io_step :: "IoConfig \<Rightarrow> t_service \<Rightarrow> t_io \<Rightarrow> t_disp \<Rightarrow> (unit Iter \<times> t_disp) option" where
  "t_io_step config service s d =
     (case s of
        T_poll inp \<Rightarrow> t_poll_io config service inp d
      | T_response \<Rightarrow>
          (case io_response d of
             Some k \<Rightarrow> map_option (Pair It_continue) (io_response_ready (\<lambda>_. None) (snd (service (t_called d ! k))) d)
           | None \<Rightarrow> None)
      | T_task \<Rightarrow>
          (case io_tasks d of
             t # _ \<Rightarrow> map_option (Pair It_continue) (io_task_ready (\<lambda>_. None) (snd (service (t_called d ! fst t))) t d)
           | [] \<Rightarrow> None))"

fun t_io_run :: "IoConfig \<Rightarrow> t_service \<Rightarrow> t_io list \<Rightarrow> unit Iter \<times> t_disp \<Rightarrow> (unit Iter \<times> t_disp) option" where
  "t_io_run config service [] r = Some r"
| "t_io_run config service (s # ss) (_, d) =
     (case t_io_step config service s d of None \<Rightarrow> None | Some r \<Rightarrow> t_io_run config service ss r)"

text \<open>Steps: nothing new on the stream; bytes for the codec \<open>BytesCodec\<close>, which takes all there are; the buffer for the codec
  \<open>BytesLenCodec\<close>; an event of the stream; the end of the flush of the write buffer.\<close>

definition t_in :: "(string, unit, unit) IoInput" where
  "t_in = \<lparr>in_ready = Svc_ok, in_pause = None, in_recv = Inr (None, 0), in_flush = None, in_status = None, in_shutdown = True,
     in_service_shutdown = True, in_now = (\<lambda>_. None)\<rparr>"

definition t_idle :: t_io where
  "t_idle = T_poll t_in"

definition t_read :: "string \<Rightarrow> t_io" where
  "t_read bs = T_poll (t_in\<lparr>in_recv := Inr (Some (bs, of_nat (length bs)), 0)\<rparr>)"

definition bytes_len_decode :: "nat \<Rightarrow> string \<Rightarrow> string option \<times> string" where
  "bytes_len_decode n src = (if n \<le> length src then (Some (take n src), drop n src) else (None, src))"

definition t_read_len :: "nat \<Rightarrow> string \<Rightarrow> t_io" where
  "t_read_len n src =
     (case bytes_len_decode n src of
        (item, rest) \<Rightarrow> T_poll (t_in\<lparr>in_recv := Inr (map_option (\<lambda>i. (i, of_nat (length i))) item, length rest)\<rparr>))"

definition t_event :: "unit RecvError \<Rightarrow> t_io" where
  "t_event e = T_poll (t_in\<lparr>in_recv := Inl e\<rparr>)"

definition t_output :: "t_disp \<Rightarrow> string list" where
  "t_output d = encoded (ds_events (io_state d))"

text \<open>The service that sends every message back, at once or later.\<close>

definition t_echo :: "bool \<Rightarrow> t_service" where
  "t_echo at_once item = (at_once, case item of DI_Item msg _ \<Rightarrow> Inr (Some msg) | _ \<Rightarrow> Inr None)"

definition t_get :: string where
  "t_get = ''GET /test HTTP/1'' @ [CHR 0x0D, CHR 0x0A, CHR 0x0D, CHR 0x0A]"

section \<open>The tests\<close>

definition io_test_basic :: bool where
  "io_test_basic \<longleftrightarrow> t_default (\<lambda>config.
     (let msg = t_get; service = t_echo False;
          steps = [t_read msg, t_idle, t_read msg, T_response, t_idle, T_task, t_event (RE_PeerGone None)] in
      case t_io_run config service steps (It_continue, io_new_debug_cfg config) of
        Some (_, d) \<Rightarrow> t_output d = [msg, msg] \<and> last (t_called d) = DI_Disconnect None
      | None \<Rightarrow> False))"

text \<open>Three calls wait for the same condition. When it is notified their futures are ready in any order; the output does not depend on it.\<close>

definition io_test_ordering :: bool where
  "io_test_ordering \<longleftrightarrow> t_default (\<lambda>config.
     (let service = t_echo False;
          start = [t_read ''test'', t_idle, t_read ''test'', t_idle, t_read ''test'', t_idle] in
      list_all (\<lambda>ready.
        case t_io_run config service (start @ ready) (It_continue, io_new_debug_cfg config) of
          Some (_, d) \<Rightarrow> concat (t_output d) = ''testtesttest'' \<and> ds_queue (io_state d) = []
        | None \<Rightarrow> False)
        [[T_response, T_task, T_task], [T_task, T_response, T_task], [T_task, T_task, T_response]]))"

text \<open>What the test itself writes with \<open>io.encode\<close> does not pass the dispatcher. After \<open>io.close\<close> the dispatcher ends.\<close>

definition io_test_sink :: bool where
  "io_test_sink \<longleftrightarrow> t_default (\<lambda>config.
     (let msg = t_get; service = t_echo True in
      case t_io_run config service [t_read msg, t_idle, t_event RE_Stop, t_idle, t_idle] (It_continue, io_new_debug_cfg config) of
        Some (it, d) \<Rightarrow> t_output d = [msg] \<and> it = It_ready (Inr ())
      | None \<Rightarrow> False))"

text \<open>The stream is flushed, and the dispatcher waits for the read side, before it ends with the error of the service.\<close>

definition io_test_err_in_service :: bool where
  "io_test_err_in_service \<longleftrightarrow> t_default (\<lambda>config.
     (let msg = t_get; service = (\<lambda>_. (True, Inl ()));
          waiting = T_poll (t_in\<lparr>in_shutdown := False\<rparr>); start = [t_read msg, t_idle, waiting, waiting] in
      (case t_io_run config service start (It_continue, io_new_debug_cfg config) of
         Some (it, d) \<Rightarrow> it = It_pending \<and> io_st d = IDS_Stop
       | None \<Rightarrow> False) \<and>
      (case t_io_run config service (start @ [t_idle, t_idle]) (It_continue, io_new_debug_cfg config) of
         Some (it, d) \<Rightarrow> it = It_ready (Inl ()) \<and> t_output d = []
       | None \<Rightarrow> False)))"

text \<open>The readiness of the service is looked at once: later iterations are the same whatever it answers.\<close>

definition io_test_err_in_service_ready :: bool where
  "io_test_err_in_service_ready \<longleftrightarrow> t_default (\<lambda>config.
     (let service = (\<lambda>_. (True, Inr None));
          run = (\<lambda>later. t_io_run config service
            [T_poll (t_in\<lparr>in_ready := Svc_err ()\<rparr>), T_poll (t_in\<lparr>in_ready := later, in_shutdown := False\<rparr>),
             T_poll (t_in\<lparr>in_ready := later\<rparr>), T_poll (t_in\<lparr>in_ready := later\<rparr>)] (It_continue, io_new_debug_cfg config)) in
      list_all (\<lambda>later. case run later of
                  Some (it, d) \<Rightarrow> it = It_ready (Inl ()) \<and> t_called d = [] \<and> flags_contains (io_flags d) READY_ERR
                | None \<Rightarrow> False)
        [Svc_ok, Svc_pending, Svc_err ()]))"

text \<open>The two writes of the client are read together. The service notes 0, 1 or 2 by the kind of its request.\<close>

definition io_test_write_backpressure :: bool where
  "io_test_write_backpressure \<longleftrightarrow> t_default (\<lambda>config.
     (let service = (\<lambda>item. (True, case item of DI_Item _ _ \<Rightarrow> Inr (Some ''random'') | _ \<Rightarrow> Inr None));
          steps = [t_read (t_get @ t_get), t_event RE_WriteBackpressure, t_idle, t_idle,
                   T_poll (t_in\<lparr>in_flush := Some (Inr ())\<rparr>), t_idle];
          number = (\<lambda>item :: t_item. case item of DI_Item _ _ \<Rightarrow> 0 | DI_WBackPressureEnabled \<Rightarrow> 1 | DI_WBackPressureDisabled \<Rightarrow> 2 | _ \<Rightarrow> (3 :: nat)) in
      case t_io_run config service steps (It_continue, io_new_debug_cfg config) of
        Some (it, d) \<Rightarrow> map number (t_called d) = [0, 1, 2] \<and> t_output d = [''random''] \<and> it = It_pending
      | None \<Rightarrow> False))"

text \<open>The first message is answered at once, the second later; the event that the peer is gone makes the service close the stream. The dispatcher
  ends when the second answer has come.\<close>

definition io_test_shutdown_dispatcher_waker :: bool where
  "io_test_shutdown_dispatcher_waker \<longleftrightarrow> t_default (\<lambda>config.
     (let service = (\<lambda>item. case item of DI_Item b _ \<Rightarrow> (b = ''msg1'', Inr (Some b)) | _ \<Rightarrow> (True, Inr None));
          gone = T_poll (t_in\<lparr>in_status := Some ISU_Stop\<rparr>);
          start = [t_read ''msg1'', t_idle, t_read ''msg2'', t_idle, t_event (RE_PeerGone None), T_task, gone, gone] in
      (case t_io_run config service start (It_continue, io_new_debug_cfg config) of
         Some (it, d) \<Rightarrow> t_output d = [''msg1''] \<and> it = It_pending
       | None \<Rightarrow> False) \<and>
      (case t_io_run config service (start @ [T_response, t_idle, t_idle]) (It_continue, io_new_debug_cfg config) of
         Some (it, d) \<Rightarrow> it = It_ready (Inr ())
       | None \<Rightarrow> False)))"

text \<open>Every message comes before the time is over; the timer starts again after each.\<close>

definition io_test_keepalive :: bool where
  "io_test_keepalive \<longleftrightarrow> t_default (\<lambda>config.
     (let service = t_echo True;
          steps = [t_read ''1'', t_idle, t_read ''2'', t_idle, t_read ''3'', t_idle] in
      case t_io_run config service steps (It_continue, io_set_keepalive_timeout 2 (io_new_debug_cfg config)) of
        Some (it, d) \<Rightarrow>
          t_output d = [''1'', ''2'', ''3''] \<and> t_called d = [DI_Item ''1'' 1, DI_Item ''2'' 1, DI_Item ''3'' 1] \<and>
          t_timers d = [2, 2, 2] \<and> it = It_pending
      | None \<Rightarrow> False))"

text \<open>The timer of the incomplete frame fires after the frame is complete, and is ignored.\<close>

definition io_test_no_keepalive_err_after_frame_timeout :: bool where
  "io_test_no_keepalive_err_after_frame_timeout \<longleftrightarrow>
     (let config = t_config 0 (Some (1, 2, 2)); service = t_echo True;
          steps = [t_read_len 2 ''1'', t_read_len 2 ''12'', t_read_len 2 '''', t_event RE_KeepAlive, t_read_len 2 ''''] in
      case t_io_run config service steps (It_continue, io_new_debug_cfg config) of
        Some (it, d) \<Rightarrow>
          t_output d = [''12''] \<and> t_called d = [DI_Item ''12'' 2] \<and> t_timers d = [1] \<and> it = It_pending
      | None \<Rightarrow> False)"

text \<open>Two more bytes in the first second are enough for the rate of the test, one in the next is not.\<close>

definition io_test_read_timeout :: bool where
  "io_test_read_timeout \<longleftrightarrow>
     (let config = t_config 0 (Some (1, 2, 2)); service = t_echo True;
          start = [t_read_len 8 ''12345678'', t_read_len 8 '''', t_read_len 8 ''1'', t_read_len 8 ''123'', t_event RE_KeepAlive,
                   t_read_len 8 ''123'', t_read_len 8 ''1234''] in
      (case t_io_run config service start (It_continue, io_new_debug_cfg config) of
         Some (_, d) \<Rightarrow> t_output d = [''12345678''] \<and> io_st d = IDS_Processing
       | None \<Rightarrow> False) \<and>
      (case t_io_run config service (start @ [t_event RE_KeepAlive]) (It_continue, io_new_debug_cfg config) of
         Some (_, d) \<Rightarrow> t_called d = [DI_Item ''12345678'' 8, DI_ReadTimeout] \<and> io_st d = IDS_Stop
       | None \<Rightarrow> False))"

section \<open>The tests hold\<close>

lemma io_order_tests_ok:
  "io_test_basic \<and>
   io_test_ordering"
  by code_simp

lemma io_error_tests_ok:
  "io_test_sink \<and>
   io_test_err_in_service \<and>
   io_test_err_in_service_ready"
  by code_simp

lemma io_pressure_tests_ok:
  "io_test_write_backpressure \<and>
   io_test_shutdown_dispatcher_waker"
  by code_simp

lemma io_timer_tests_ok:
  "io_test_keepalive \<and>
   io_test_no_keepalive_err_after_frame_timeout \<and>
   io_test_read_timeout"
  by code_simp

end
