(* ===== verification/Spec2Isabelle.thy ===== *)
theory Spec2Isabelle
  imports V3_Codec V5_Codec Streams Topic Inflight Version V3_Sink V5_Sink V3_Client V5_Client Io Server Router Connector Builder
    V3_Api V5_Api Services Protocol_Server Client_Connection Topic_Write Shared_Loops Conversions
    Agreement Pipeline Subscription Tests_Base Tests_V3 Tests_V5 Tests_Topic Tests_Dispatch Tests_Io
begin

text \<open>
  A verification development for \<open>ntex-mqtt\<close>, an MQTT 3.1.1 and MQTT 5 library in Rust (\<open>src/src\<close>).

  \<^bold>\<open>The program.\<close> A server reads the first bytes of a connection, chooses the protocol (\<open>server.rs\<close>, \<open>version.rs\<close>) and
  runs the handshake (\<open>v3/server.rs\<close>, \<open>v5/server.rs\<close>, \<open>v3/handshake.rs\<close>, \<open>v5/handshake.rs\<close>); a client connects, sends CONNECT and
  waits for CONNACK (\<open>v3/client/connector.rs\<close>, \<open>v5/client/connector.rs\<close>). After that a stream dispatcher (\<open>io.rs\<close>) reads packets with a
  codec (\<open>v3/codec\<close>, \<open>v5/codec\<close>), calls the protocol dispatcher through the in-flight limit (\<open>inflight.rs\<close>), and writes the
  responses in the order of the requests. The protocol dispatchers (\<open>v3/dispatcher.rs\<close>, \<open>v5/dispatcher.rs\<close> and those under \<open>client\<close>)
  check requests, keep the packet identifiers in progress and the topic aliases, and hand messages to the user's publish and control
  services (\<open>v3/control.rs\<close>, \<open>v5/control.rs\<close>), for PUBLISH often through a router (\<open>v3/router.rs\<close>, \<open>v5/router.rs\<close>). The sending side
  is the shared state of a connection and its sink (\<open>v3/shared.rs\<close>, \<open>v3/sink.rs\<close>, \<open>v5/shared.rs\<close>, \<open>v5/sink.rs\<close>).

  \<^bold>\<open>The theories.\<close>
  \<^item> \<open>Prelude\<close>: results with errors and panics (\<open>res\<close>), readers and writers of bytes, loops that consume their input
    (locale \<open>consuming\<close>) and the collections \<open>codec_simps\<close>, \<open>safe_intros\<close> and \<open>no_panic\<close>.
  \<^item> \<open>Types\<close>, \<open>Utils\<close>: \<open>error.rs\<close>, \<open>types.rs\<close>, \<open>utils.rs\<close>. Locale \<open>prim_enum\<close> is the contract of the macro \<open>prim_enum!\<close>, locale
    \<open>wire_type\<close> that of a type with \<open>Encode\<close> and \<open>Decode\<close>; each has an interpretation for every enumeration and every type.
  \<^item> \<open>Framing\<close>: the frame state machine both codecs share, as a locale; \<open>V3_Packet\<close>, \<open>V3_Codec\<close>: MQTT 3.1.1; \<open>V5_Enums\<close>, \<open>V5_Props\<close>,
    \<open>V5_Acks\<close>, \<open>V5_Connack\<close>, \<open>V5_Connect\<close>, \<open>V5_Messages\<close>, \<open>V5_Codec\<close>: MQTT 5 by group of packets. Locale \<open>encode_ltd\<close> is the contract
    of the trait \<open>EncodeLtd\<close>. Decoders and encoders are functions on byte lists. \<open>Streams\<close>: reading a stream that arrives in chunks, for any
    codec that is a \<open>framing\<close>; the fuel of its loop is the number of bytes and two, which is shown to be enough.
  \<^item> \<open>Topic\<close>, \<open>Topic_Write\<close>: \<open>topic.rs\<close>, with the locale \<open>io_write\<close> for the writers a filter is written to; \<open>Inflight\<close>: \<open>inflight.rs\<close>; \<open>Version\<close>: \<open>version.rs\<close>.
  \<^item> \<open>Shared\<close>: what \<open>v3/shared.rs\<close> and \<open>v5/shared.rs\<close> have in common, with the record \<open>MqttShared\<close> (one field for each \<open>Cell\<close> of the
    source) and a log of what it did; \<open>V3_Sink\<close> and \<open>V5_Sink\<close>: both versions with their builders. A send operation is split where it
    awaits; locale \<open>sender\<close> is the contract of the synchronous parts, locale \<open>ack_queue\<close> that of the acknowledgements.
    \<open>Shared_Loops\<close> translates the code that each of the two files repeats, loops with the while combinator, and shows it equal
    to \<open>Shared\<close>.
  \<^item> \<open>Dispatch\<close>: requests, calls in progress and the locale \<open>dispatcher\<close>, the contract of identifiers that the four dispatchers keep;
    \<open>V3_Dispatcher\<close>, \<open>V5_Control\<close>, \<open>V5_Dispatcher\<close>: the servers; \<open>V3_Client\<close>, \<open>V5_Client\<close>: the clients. A call runs until it
    awaits a service of the user; the code behind the await is a function of the answer.
  \<^item> \<open>Io\<close>: the stream dispatcher, one definition for each state of its loop, and runs in which futures answer in any order.
  \<^item> \<open>V3_Api\<close>, \<open>V5_Api\<close>: the methods by which the control and publish services of the user make, read and answer messages
    (\<open>v3/control.rs\<close>, \<open>v5/control.rs\<close>, \<open>v3/publish.rs\<close>, \<open>v5/publish.rs\<close>). The relations \<open>v3_makes\<close> and \<open>v5_makes\<close> are the answers that can be
    made from a message.
  \<^item> \<open>Handshake\<close>, \<open>Builder\<close>, \<open>Connector\<close>, \<open>Router\<close>, \<open>Server\<close>: the handshake services, the settings of a server and a connector, the
    connection attempt, routing, and the version choice.
  \<^item> \<open>Services\<close>: sessions (\<open>session.rs\<close>), the readiness of services (locale \<open>joined_ready\<close>) and the routers as services that create their
    handlers for a session (locale \<open>router_factory\<close>); \<open>Protocol_Server\<close>: service factories and the server of both protocols
    (\<open>service.rs\<close>, \<open>server.rs\<close>, \<open>finish\<close> and the \<open>HandshakeFactory\<close> of both versions); \<open>Client_Connection\<close>: the clients as they are
    started, with or without a router, and their keep-alive task (locale \<open>keepalive_task\<close>).
  \<^item> \<open>Conversions\<close>: conversions of errors, texts of reasons, the codec behind the shared state.
  \<^item> \<open>Agreement\<close>: a client and a server at the two ends of a stream; \<open>Pipeline\<close>: several messages in flight at the same time; \<open>Subscription\<close>: a
    SUBSCRIBE and its answer.
  \<^item> \<open>Tests_Base\<close>, \<open>Tests_V3\<close>, \<open>Tests_V5\<close>, \<open>Tests_Topic\<close>, \<open>Tests_Dispatch\<close>, \<open>Tests_Io\<close>: the unit tests of the repository, each a definition with the
    assertions of the test function and a lemma that it holds on the model.
  \<^item> This theory: the properties that need several components.

  \<^bold>\<open>What is shown.\<close>
  \<^item> Whole exchanges: a handshake, one message, several messages in flight and a subscription go from the sender at the client over the bytes of
    the stream to the service of the user at the server and back to the sender.
  \<^item> Codecs: every sequence of well-formed packets survives a round trip through the bytes, however the stream is cut; reading
    ends, never panics and respects the size limits; encoding succeeds exactly when the packet fits.
  \<^item> Sinks: identifiers in flight are distinct, acknowledgements are taken in the order of a queue (refinement) and a wrong one closes
    the connection, no sender is forgotten while the stream takes packets and the capacity is not zero, and responses have the kind
    their sender waits for. That the number of packets in flight stays within the capacity does not hold in all runs (\<open>v3_capacity_exceeded\<close>).
  \<^item> Dispatchers: calls in progress have distinct identifiers however they interleave, the receive maximum and the alias
    maximum hold, an alias stands for the topic that was sent with it last, an accepted PUBLISH is acknowledged once, a violation ends the connection with the right reason, a call ends
    after at most three answers.
  \<^item> Stream dispatcher: responses are written in the order of the requests, and a dispatcher in the state Stop writes all of them before it
    shuts down. The in-flight limit keeps each of its limits and wakes the task it told to wait.
  \<^item> Topics: the matcher implements the rules of the standard for filters, and validity is what the parser accepts.
  \<^item> Services: the answers a control service can make are those a call expects, so that no call panics and every response answers its
    request; a router behind a dispatcher always has a handler; a server serves the version the client speaks, or refuses it.
  \<^item> Clients: a started client keeps the receive maximum its CONNECT announced, and sends one PINGREQ in every keep-alive period.
  \<^item> Composition (below): client and server agree on credits and sizes after the handshake; a server keeps the limits it
    announced in CONNACK in every later state; a QoS 1 message goes from the client's sink through both codecs and the server
    to the acknowledgement its sender waits for, in both versions.
  \<^item> Theorems that no claim rests on state where the code departs from its intention (sections on gaps and defects).

  \<^bold>\<open>Conventions.\<close> Integers keep their width (\<open>u8\<close>, \<open>u16\<close>, \<open>u32\<close>, and 64-bit words for \<open>usize\<close> where it wraps); \<open>Panic\<close> is a value of
  \<open>res\<close>, also for arithmetic that overflows. All loops are total functions: they consume input or recurse on a list; nothing
  depends on fuel. \<open>NonZero\<close> types are words; where it matters zero is excluded by a hypothesis. The validity of UTF-8 is a parameter
  \<open>u\<close>. Answers of the stream, of the encoder and of the user's services are arguments of every step and unconstrained, unless
  a theorem says otherwise. Two modelling bounds: the response queue of \<open>Io\<close> is shorter than \<open>2 ^ 64\<close>, and frames are at most
  268435455 bytes long, which the protocol demands.

  \<^bold>\<open>Not modelled.\<close> The crates of \<open>ntex\<close> (streams, timers, memory pools, channels, the buffer in front of a control service) and the
  pattern matcher of \<open>ntex_router\<close>, which are parameters or inputs of a step; \<open>Debug\<close> output, logging, accessors that only read a field,
  module roots, the examples and the tests that run over sockets (\<open>src/examples\<close>, \<open>src/tests\<close>), and the interleaving of the tasks a client spawns
  with the scheduler of the runtime.
\<close>

section \<open>Properties that span components\<close>





text \<open>C3: A connection that an MQTT 5 server sets up after a successful handshake keeps what its CONNACK announced, in
  every later state of its dispatcher and whatever the services answer: there are never more PUBLISH messages with an identifier
  in progress than the announced receive maximum, and no topic alias above the announced maximum is ever stored. For the packets it sends
  itself, the server starts with the credit that the receive maximum of the client's CONNECT gives (16 when it says nothing).\<close>

theorem v5_connection_keeps_limits:
  fixes rc :: "(v5_Inner, ('t, 'e) v5_DispatcherCfg, 'p, 'c, v5_Packet, 'e, 'io) running" and r :: "('e, 'io) v5_server"
  assumes serve: "v5_serve m env handshake try_from from_err publish control first = Ok rc"
    and run: "v5_server_reach (rc_cfg rc) (in5_sink (rc_inner rc)) r"
  shows "\<exists>connect sz connack. first = FP_packet (V5_Connect connect) sz \<and>
    last (sh_events (in5_sink (rc_inner rc))) = Ev_encode (V5_ConnectAck connack) \<and>
    (cack5_receive_max connack \<noteq> 0 \<longrightarrow> length (concat (map v5_publish_ids (sv5_calls r))) \<le> unat (cack5_receive_max connack)) \<and>
    dom (in5_aliases (sv5_inner r)) \<subseteq> {..cack5_topic_alias_max connack} \<and>
    sh_cap (in5_sink (rc_inner rc)) = (case con5_receive_max connect of Some n \<Rightarrow> unat n | None \<Rightarrow> 16)"
proof -
  obtain shared session timeout s' where hs: "v5_handshake_call (v5_handshake_cfg m) env handshake first = (Ok (shared, session, timeout), s')"
    and inner: "rc_inner rc = v5_Inner_new shared" by (rule v5_serve_Ok [OF serve])
  have sink: "in5_sink (rc_inner rc) = shared" by (simp add: inner v5_Inner_new_def)
  from v5_handshake_enforces_connack [OF hs] obtain connect sz connack
    where c: "first = FP_packet (V5_Connect connect) sz" "last (sh_events shared) = Ev_encode (V5_ConnectAck connack)"
      and lim: "v5_enforces shared connack" and cap: "sh_cap shared = (case con5_receive_max connect of Some n \<Rightarrow> unat n | None \<Rightarrow> 16)"
    by blast
  have "v5_server_inv shared r" using v5_server_reach_inv [OF run] by (simp add: sink)
  then have "sh_receive_max shared \<noteq> 0 \<longrightarrow> length (concat (map v5_publish_ids (sv5_calls r))) \<le> unat (sh_receive_max shared)"
    "dom (in5_aliases (sv5_inner r)) \<subseteq> {..sh_topic_alias_max shared}"
    using aliases_ok_finite by (simp_all add: v5_server_inv_def)
  then show ?thesis using c lim cap sink
    by (intro exI [of _ connect] exI [of _ sz] exI [of _ connack]) (simp add: v5_enforces_def)
qed

theorem v5_connection_keeps_limits_witness:
  "\<exists>(rc :: (v5_Inner, (unit, unit) v5_DispatcherCfg, unit, unit, v5_Packet, unit, unit) running) (connack :: v5_ConnectAck).
     last (sh_events (in5_sink (rc_inner rc))) = Ev_encode (V5_ConnectAck connack) \<and> sh_cap (in5_sink (rc_inner rc)) = 7"
proof -
  let ?m = "v5_MqttServer_new \<lparr>cfg_keepalive_timeout = 30, cfg_frame_read_rate = None\<rparr>"
  let ?first = "FP_packet (V5_Connect v5_hs_connect) 20 :: (v5_Packet, unit) first_packet"
  have "\<exists>rc :: (v5_Inner, (unit, unit) v5_DispatcherCfg, unit, unit, v5_Packet, unit, unit) running.
      v5_serve ?m v5_env (\<lambda>h. Inr (v5_Handshake_ack () h)) (\<lambda>_. Inl ()) (\<lambda>_. ()) (\<lambda>_. Inr ()) (\<lambda>_. Inr ()) ?first = Ok rc"
    by (simp add: v5_serve_def v5_factory_def v5_handshake_call_def v5_hs_connect_def v5_Handshake_ack_def encode_then_def
        sh_encode_packet_def v5_env_def Let_def create_services_def)
  then obtain rc :: "(v5_Inner, (unit, unit) v5_DispatcherCfg, unit, unit, v5_Packet, unit, unit) running"
    where "v5_serve ?m v5_env (\<lambda>h. Inr (v5_Handshake_ack () h)) (\<lambda>_. Inl ()) (\<lambda>_. ()) (\<lambda>_. Inr ()) (\<lambda>_. Inr ()) ?first = Ok rc" ..
  note v5_connection_keeps_limits [OF this v5_server_reach.init]
  then obtain connect sz connack where "?first = FP_packet (V5_Connect connect) sz"
      "last (sh_events (in5_sink (rc_inner rc))) = Ev_encode (V5_ConnectAck connack)"
      "sh_cap (in5_sink (rc_inner rc)) = (case con5_receive_max connect of Some n \<Rightarrow> unat n | None \<Rightarrow> 16)" by blast
  then show ?thesis by (intro exI [of _ rc] exI [of _ connack]) (auto simp: v5_hs_connect_def)
qed

text \<open>C7: A QoS 1 message between an MQTT 5 client and server that agree after the handshake, sent while the connection is
  idle, reaches its goal: the server decodes the bytes the client writes to this message, without a further condition on its
  size, resolves the topic alias, gives it to the publish service and answers with one PUBACK of its identifier; the client decodes
  the bytes that come back to a PUBACK with this identifier and the reason the service gave, and delivers it to
  the sender that waits for it. Of the acknowledgement only diagnostic properties can be lost. Afterwards nothing is in flight.\<close>

theorem v5_publish_end_to_end:
  fixes pub :: "v5_Publish \<times> u32 \<Rightarrow> 't + v5_PubAck" and ctl :: "('e, 'io) v5_Control \<Rightarrow> ('e, 'io) MqttError + v5_ControlAck"
  assumes agree: "v5_agree cl shared" "cc = sh_codec (cl5_shared cl)" "sc = sh_codec shared"
    and idle: "c5_state cc = FrameHeader" "c5_state sc = FrameHeader" "sh_inflight cs = []"
    and send: "v5_send_at_least_once env packet cs = (Fut_ack rx, cs')"
    and ident: "fst (sh_packet_id (pub5_packet_id packet) cs) = Ok i"
    and p: "p = packet\<lparr>pub5_qos := AtLeastOnce, pub5_packet_id := Some i\<rparr>"
    and wf: "v5_wf u (V5_Publish p)" and n: "v5_encoded_size (V5_Publish p) (v5_out_limit cc) = Ok n" "n \<le> v5_out_limit cc" "n \<le> 268435455"
    and srv: "\<not> has_wildcard (pub5_topic p)" "v5_publish_checks p srv = Inr s1" "\<not> env_closed senv"
      "v5_topic_alias (sh_topic_alias_max (in5_sink srv)) ''Topic alias is greater than max allowed [MQTT-3.2.2-17]''
         p (in5_aliases srv) = Inr (p', aliases)"
    and pub: "pub (p', of_nat n) = Inr ack \<or> (\<exists>e. pub (p', of_nat n) = Inl e \<and> dc5_try_from cfg e = Inr ack)"
    and ack: "v5_wf u (V5_PublishAck (v5_puback i ack))"
      "v5_encoded_size (v5_out_packet sc (V5_PublishAck (v5_puback i ack))) (v5_out_limit sc) = Ok k" "k \<le> v5_out_limit sc" "k \<le> 268435455"
  shows "last (sh_events cs') = Ev_encode (V5_Publish p) \<and>
    v5_codec_decode u sc (fst (v5_codec_encode cc (V5_Publish p)) @ rest) = (Ok (Some (V5_Publish p, n)), sc, rest) \<and>
    v5_call cfg senv pub ctl (DI_Item (V5_Publish p) (of_nat n)) srv =
      (Ok (Some (V5_PublishAck (v5_puback i ack))), srv\<lparr>in5_aliases := aliases\<rparr>) \<and>
    (\<exists>a cs''. ack5_packet_id a = i \<and> ack5_reason_code a = pa5_reason_code ack \<and>
      v5_codec_decode u cc (fst (v5_codec_encode sc (V5_PublishAck (v5_puback i ack))) @ rest') =
        (Ok (Some (V5_PublishAck a, k)), cc, rest') \<and>
      v5c_dispatch ccfg env' (DI_Item (V5_PublishAck a) (of_nat k) :: (v5_Packet, 'io) DispatchItem) (ci\<lparr>in5_sink := cs'\<rparr>) =
        (Call_done (Ok None) :: ('e, 'io) v5c_call, ci\<lparr>in5_sink := cs''\<rparr>) \<and>
      Ev_ack rx (Ack_Publish a) \<in> set (sh_events cs'') \<and> v5_publish_response (Some (Ack_Publish a)) = Ok a \<and> sh_inflight cs'' = [])"
proof (intro conjI)
  note sent = v5_sent_alone [OF send idle(3) ident, folded p]
  then show "last (sh_events cs') = Ev_encode (V5_Publish p)" by blast
  have same: "v5_finish q c = c" if "c5_state c = FrameHeader" "\<And>con. q \<noteq> V5_Connect con" for c q
    using that by (simp add: v5_finish_other)
  have lim: "within_limit n (c5_max_in_size sc)" "within_limit k (c5_max_in_size cc)"
    using agree n(2) ack(3) by (simp_all add: v5_agree_def)
  show "v5_codec_decode u sc (fst (v5_codec_encode cc (V5_Publish p)) @ rest) = (Ok (Some (V5_Publish p, n)), sc, rest)"
    using v5_decode_encode [of u "V5_Publish p" cc n sc rest] wf n lim(1) idle same by (simp add: v5_out_packet_def Let_def)
  show "v5_call cfg senv pub ctl (DI_Item (V5_Publish p) (of_nat n)) srv =
      (Ok (Some (V5_PublishAck (v5_puback i ack))), srv\<lparr>in5_aliases := aliases\<rparr>)"
    using srv pub by (intro v5_call_publish_acked) (simp_all add: p skip_after_disconnect_def)
  obtain a where a: "v5_trim (v5_out_packet sc (V5_PublishAck (v5_puback i ack))) (v5_out_limit sc) = V5_PublishAck a"
      "ack5_packet_id a = i" "ack5_reason_code a = pa5_reason_code ack"
    using v5_trim_PublishAck [of sc "v5_puback i ack" "v5_out_limit sc"] by (auto simp: v5_puback_def)
  have dec: "v5_codec_decode u cc (fst (v5_codec_encode sc (V5_PublishAck (v5_puback i ack))) @ rest') = (Ok (Some (V5_PublishAck a, k)), cc, rest')"
    using v5_decode_encode [OF ack idle(1) lim(2), of rest'] a(1) idle same by (simp add: Let_def)
  obtain cs'' where cs'': "v5_pkt_ack env' (Ack_Publish a) cs' = (Ok (), cs'')" "Ev_ack rx (Ack_Publish a) \<in> set (sh_events cs'')" "sh_inflight cs'' = []"
    using v5_ack_delivered [of cs' i rx a env'] sent a(2) by auto
  show "\<exists>a cs''. ack5_packet_id a = i \<and> ack5_reason_code a = pa5_reason_code ack \<and>
      v5_codec_decode u cc (fst (v5_codec_encode sc (V5_PublishAck (v5_puback i ack))) @ rest') =
        (Ok (Some (V5_PublishAck a, k)), cc, rest') \<and>
      v5c_dispatch ccfg env' (DI_Item (V5_PublishAck a) (of_nat k) :: (v5_Packet, 'io) DispatchItem) (ci\<lparr>in5_sink := cs'\<rparr>) =
        (Call_done (Ok None) :: ('e, 'io) v5c_call, ci\<lparr>in5_sink := cs''\<rparr>) \<and>
      Ev_ack rx (Ack_Publish a) \<in> set (sh_events cs'') \<and> v5_publish_response (Some (Ack_Publish a)) = Ok a \<and> sh_inflight cs'' = []"
    using a dec cs'' by (intro exI [of _ a] exI [of _ cs'']) (simp add: v5c_ack_def)
qed

theorem v5_publish_end_to_end_witness:
  "\<exists>(cs' :: v5_Shared) rx. v5_send_at_least_once v5_env (v5_publish [0x61] [1]) (cl5_shared e2e_client) = (Fut_ack rx, cs') \<and>
     (\<exists>a cs''. ack5_reason_code a = PA_NotAuthorized \<and>
       v5c_dispatch (v5_client_cfg e2e_client) v5_env (DI_Item (V5_PublishAck a) 4 :: (v5_Packet, unit) DispatchItem) (v5_Inner_new cs') =
         (Call_done (Ok None) :: (unit, unit) v5c_call, v5_Inner_new cs'') \<and>
       Ev_ack rx (Ack_Publish a) \<in> set (sh_events cs''))"
proof -
  let ?cs = "cl5_shared e2e_client" and ?packet = "v5_publish [0x61] [1]" and ?u = "\<lambda>_ :: bytes. True"
  let ?p = "?packet\<lparr>pub5_qos := AtLeastOnce, pub5_packet_id := Some 1\<rparr>" and ?ack = "v5_PubAck_new PA_NotAuthorized"
  let ?cc = "sh_codec ?cs" and ?sc = "sh_codec e2e_server" and ?srv = "v5_Inner_new e2e_server"
  have codec: "c5_state ?cc = FrameHeader" "c5_state ?sc = FrameHeader" "v5_out_limit ?cc = 268435455" "v5_out_limit ?sc = 268435455" "sh_inflight ?cs = []"
    by (simp_all add: e2e_client_def e2e_server_def v5_Shared_new_def v5_Codec_new_def v5_set_receive_max_def v5_out_limit_def MAX_PACKET_SIZE_def)
  have agree: "v5_agree e2e_client e2e_server"
    by (simp add: v5_agree_def e2e_client_def e2e_server_def v5_Shared_new_def v5_Codec_new_def v5_set_receive_max_def)
  have ident: "fst (sh_packet_id (pub5_packet_id ?packet) ?cs) = Ok 1"
    by (simp add: sh_packet_id_def sh_next_id_def v5_publish_def e2e_client_def v5_Shared_new_def Let_def)
  have "\<exists>rx cs'. v5_send_at_least_once v5_env ?packet ?cs = (Fut_ack rx, cs')"
    by (simp add: v5_send_at_least_once_def sh_start_def v5_env_def sh_wait_readiness_def v5_send_at_least_once_inner_def
        sh_publish_inner_def sh_packet_id_def sh_next_id_def v5_publish_def e2e_client_def v5_Shared_new_def Let_def fut_of_def sh_wrb_def flags_contains_def
        sf_defs sh_wait_packet_response_def sh_encode_packet_def log_event_def new_channel_def)
  then obtain rx cs' where send: "v5_send_at_least_once v5_env ?packet ?cs = (Fut_ack rx, cs')" by blast
  have wf: "v5_wf ?u (V5_Publish ?p)" and size: "v5_encoded_size (V5_Publish ?p) (v5_out_limit ?cc) = Ok 7"
    by (simp_all add: codec v5_publish_def v5_PublishProperties_default_def v5_Publish_ok_def v5_PublishProperties_ok_def str_ok_def
        v5_Publish_encoded_size_def v5_PublishProperties_encoded_size_def v5_publish_props_len_def prop_size_defs Let_def)
  have srv: "\<not> has_wildcard (pub5_topic ?p)" "\<exists>s1. v5_publish_checks ?p ?srv = Inr s1" "\<not> env_closed v5_env"
    "v5_topic_alias (sh_topic_alias_max (in5_sink ?srv)) ''Topic alias is greater than max allowed [MQTT-3.2.2-17]'' ?p (in5_aliases ?srv) = Inr (?p, in5_aliases ?srv)"
    by (simp_all add: v5_publish_def v5_PublishProperties_default_def has_wildcard_def v5_publish_checks_def v5_env_def v5_Inner_new_def e2e_server_def
        v5_Shared_new_def v5_set_receive_max_def v5_topic_alias_def Let_def)
  have ackwf: "v5_wf ?u (V5_PublishAck (v5_puback 1 ?ack))"
    and acksize: "v5_encoded_size (v5_out_packet ?sc (V5_PublishAck (v5_puback 1 ?ack))) (v5_out_limit ?sc) = Ok 4"
    by (simp_all add: codec v5_puback_def v5_PubAck_new_def pub_ack_ok_def diag_ok_def v5_out_packet_def pub_ack_encoded_size_def PUBACK_HEADER_LEN_def ack_encoded_size_def
        encoded_size_opt_props_def opt_props_size_loop.simps prop_size_defs Let_def)
  obtain s1 where s1: "v5_publish_checks ?p ?srv = Inr s1" using srv(2) by blast
  have inner: "(v5_Inner_new cs')\<lparr>in5_sink := x\<rparr> = v5_Inner_new x" for x by (simp add: v5_Inner_new_def)
  have "\<exists>a cs''. ack5_packet_id a = 1 \<and> ack5_reason_code a = pa5_reason_code ?ack \<and>
      v5_codec_decode ?u ?cc (fst (v5_codec_encode ?sc (V5_PublishAck (v5_puback 1 ?ack))) @ []) = (Ok (Some (V5_PublishAck a, 4)), ?cc, []) \<and>
      v5c_dispatch (v5_client_cfg e2e_client) v5_env (DI_Item (V5_PublishAck a) (of_nat 4) :: (v5_Packet, unit) DispatchItem)
        ((v5_Inner_new cs')\<lparr>in5_sink := cs'\<rparr>) = (Call_done (Ok None) :: (unit, unit) v5c_call, (v5_Inner_new cs')\<lparr>in5_sink := cs''\<rparr>) \<and>
      Ev_ack rx (Ack_Publish a) \<in> set (sh_events cs'') \<and> v5_publish_response (Some (Ack_Publish a)) = Ok a \<and> sh_inflight cs'' = []"
    by (rule v5_publish_end_to_end [OF agree refl refl codec(1,2,5) send ident refl wf size _ _ srv(1) s1 srv(3,4) _ ackwf acksize,
          where pub = "\<lambda>_. Inr ?ack" and cfg = v5_cfg, THEN conjunct2, THEN conjunct2, THEN conjunct2]) (simp_all add: codec)
  then show ?thesis using send by (auto simp: inner v5_PubAck_new_def)
qed

text \<open>C8: A QoS 1 message that a 3.1.1 client sends while nothing else is in flight reaches its goal: the bytes the client
  writes are decoded by the server to this message, whatever bytes follow; the server gives it to the publish service and answers
  with a PUBACK of the same identifier, which the client decodes from the bytes that come back and delivers to the sender that
  waits for it; afterwards the client has nothing in flight and the server is in the state it was in before.\<close>

theorem v3_publish_end_to_end:
  fixes pub :: "v3_Publish \<times> u32 \<Rightarrow> 'e + unit" and ctl :: "('e, 'io) v3_Control \<Rightarrow> ('e, 'io) MqttError + v3_ControlAckKind"
  assumes send: "v3_send_at_least_once env packet cs = (Fut_ack rx, cs')" and idle: "sh_inflight cs = []"
    and ident: "fst (sh_packet_id (pub3_packet_id packet) cs) = Ok i"
    and p: "p = packet\<lparr>pub3_qos := AtLeastOnce, pub3_packet_id := Some i\<rparr>"
    and wf: "v3_wf u (V3_Publish p)" and n: "n = v3_get_encoded_size (V3_Publish p)" "n \<le> 268435455"
    and sc: "c3_state sc = FrameHeader" "c3_max_size sc = 0 \<or> n \<le> c3_max_size sc"
    and cc: "c3_state cc = FrameHeader" "c3_max_size cc = 0 \<or> 2 \<le> c3_max_size cc"
    and srv: "\<not> has_wildcard (pub3_topic p)" "i \<notin> in3_inflight srv" "AtLeastOnce \<le> dc3_max_qos cfg" "\<not> env_closed senv"
      "pub (p, of_nat n) = Inr ()"
  shows "last (sh_events cs') = Ev_encode (V3_Publish p) \<and>
    v3_codec_decode u sc (fst (v3_codec_encode (V3_Publish p)) @ rest) = (Ok (Some (V3_Publish p, n)), sc, rest) \<and>
    v3_call cfg senv pub ctl (DI_Item (V3_Publish p) (of_nat n)) srv = (Ok (Some (V3_PublishAck i)), srv) \<and>
    v3_codec_decode u cc (fst (v3_codec_encode (V3_PublishAck i)) @ rest') = (Ok (Some (V3_PublishAck i, 2)), cc, rest') \<and>
    (\<exists>cs''. v3c_dispatch env' (DI_Item (V3_PublishAck i) 2 :: (v3_Packet, 'io) DispatchItem) \<lparr>in3_sink = cs', in3_inflight = ids\<rparr> =
        (Call_done (Ok None) :: ('e, 'io) v3c_call, \<lparr>in3_sink = cs'', in3_inflight = ids\<rparr>) \<and>
      Ev_ack rx (Ack_Publish i) \<in> set (sh_events cs'') \<and> sh_inflight cs'' = [])"
proof (intro conjI)
  have sent: "last (sh_events cs') = Ev_encode (V3_Publish p) \<and> sh_inflight cs' = [(i, Some rx, AckType_Publish)]"
    using send idle ident unfolding p
    by (auto simp: v3_send_at_least_once_def sh_start_def v3_send_at_least_once_inner_def sh_publish_inner_def fut_of_def
        sh_wait_packet_response_def sh_encode_packet_def sh_register_def new_channel_def log_event_def sh_wait_readiness_def
        sh_packet_id_def sh_next_id_def Let_def
        split: if_splits option.splits prod.splits res.splits)
  then show "last (sh_events cs') = Ev_encode (V3_Publish p)" by blast
  show "v3_codec_decode u sc (fst (v3_codec_encode (V3_Publish p)) @ rest) = (Ok (Some (V3_Publish p, n)), sc, rest)"
    using v3_decode_encode(2) [OF wf _ sc(1)] n sc(2) by simp
  have i: "i \<noteq> 0" using wf by (simp add: p)
  show "v3_codec_decode u cc (fst (v3_codec_encode (V3_PublishAck i)) @ rest') = (Ok (Some (V3_PublishAck i, 2)), cc, rest')"
    using v3_decode_encode(2) [of u "V3_PublishAck i" cc rest'] cc i by simp
  have "v3_dispatch cfg senv (DI_Item (V3_Publish p) (of_nat n) :: (v3_Packet, 'io) DispatchItem) srv =
      (Call_publish (p, of_nat n) (Some i) :: ('e, 'io) v3_call, srv\<lparr>in3_inflight := insert i (in3_inflight srv)\<rparr>)"
    using srv by (intro v3_dispatch_accepted) (simp_all add: p)
  then show "v3_call cfg senv pub ctl (DI_Item (V3_Publish p) (of_nat n)) srv = (Ok (Some (V3_PublishAck i)), srv)"
    using srv(2,5) by (simp add: v3_call_def v3_publish_done_def)
  show "\<exists>cs''. v3c_dispatch env' (DI_Item (V3_PublishAck i) 2 :: (v3_Packet, 'io) DispatchItem) \<lparr>in3_sink = cs', in3_inflight = ids\<rparr> =
        (Call_done (Ok None) :: ('e, 'io) v3c_call, \<lparr>in3_sink = cs'', in3_inflight = ids\<rparr>) \<and>
      Ev_ack rx (Ack_Publish i) \<in> set (sh_events cs'') \<and> sh_inflight cs'' = []"
    using sent by (auto simp: v3c_ack_def v3_pkt_ack_def pkt_ack_def pkt_ack_inner_def Let_def sh_wake_next_eq log_event_def)
qed

theorem v3_publish_end_to_end_witness:
  "\<exists>(cs' :: v3_Shared) rx. v3_send_at_least_once (v3_env (v3_run_init True)) (v3_publish [0x61] [1]) ((v3_Shared_new True)\<lparr>sh_cap := 1\<rparr>) =
       (Fut_ack rx, cs') \<and>
     (\<exists>cs''. v3c_dispatch (v3_env (v3_run_init True)) (DI_Item (V3_PublishAck 1) 2 :: (v3_Packet, unit) DispatchItem)
         \<lparr>in3_sink = cs', in3_inflight = {}\<rparr> = (Call_done (Ok None) :: (unit, unit) v3c_call, \<lparr>in3_sink = cs'', in3_inflight = {}\<rparr>) \<and>
       Ev_ack rx (Ack_Publish 1) \<in> set (sh_events cs'') \<and> sh_inflight cs'' = [])"
proof -
  let ?cs = "(v3_Shared_new True)\<lparr>sh_cap := 1\<rparr>" and ?packet = "v3_publish [0x61] [1]"
  let ?p = "?packet\<lparr>pub3_qos := AtLeastOnce, pub3_packet_id := Some 1\<rparr>"
  have ident: "fst (sh_packet_id (pub3_packet_id ?packet) ?cs) = Ok 1"
    by (simp add: sh_packet_id_def sh_next_id_def v3_publish_def v3_Shared_new_def Let_def)
  have "\<exists>rx cs'. v3_send_at_least_once (v3_env (v3_run_init True)) ?packet ?cs = (Fut_ack rx, cs')"
    by (simp add: v3_send_at_least_once_def sh_start_def v3_env_def sh_wait_readiness_def v3_send_at_least_once_inner_def
        sh_publish_inner_def sh_packet_id_def sh_next_id_def v3_publish_def v3_Shared_new_def Let_def fut_of_def sh_wrb_def flags_contains_def
        sf_defs sh_wait_packet_response_def sh_encode_packet_def log_event_def new_channel_def)
  then obtain rx cs' where send: "v3_send_at_least_once (v3_env (v3_run_init True)) ?packet ?cs = (Fut_ack rx, cs')" by blast
  have "\<exists>cs''. v3c_dispatch (v3_env (v3_run_init True)) (DI_Item (V3_PublishAck 1) 2 :: (v3_Packet, unit) DispatchItem)
         \<lparr>in3_sink = cs', in3_inflight = {}\<rparr> = (Call_done (Ok None) :: (unit, unit) v3c_call, \<lparr>in3_sink = cs'', in3_inflight = {}\<rparr>) \<and>
       Ev_ack rx (Ack_Publish 1) \<in> set (sh_events cs'') \<and> sh_inflight cs'' = []"
  proof (rule v3_publish_end_to_end [where sc = v3_Codec_new and cc = v3_Codec_new, OF send _ ident refl _ refl, THEN conjunct2, THEN conjunct2, THEN conjunct2, THEN conjunct2])
    show "sh_inflight ?cs = []" "i \<notin> in3_inflight \<lparr>in3_sink = v3_Shared_new False, in3_inflight = {}\<rparr>" for i :: u16
      by (simp_all add: v3_Shared_new_def)
    show "v3_wf (\<lambda>_. True) (V3_Publish ?p)" "v3_get_encoded_size (V3_Publish ?p) \<le> 268435455" "\<not> has_wildcard (pub3_topic ?p)"
      by (simp_all add: v3_publish_def str_ok_def has_wildcard_def v3_get_encoded_publish_size_def)
    show "AtLeastOnce \<le> dc3_max_qos \<lparr>dc3_max_qos = AtLeastOnce, dc3_handle_qos_after_disconnect = None\<rparr>"
      "\<not> env_closed (v3_env (v3_run_init False))" by (simp_all add: v3_env_def)
    show "(\<lambda>_. Inr () :: unit + unit) (?p, word_of_nat (v3_get_encoded_size (V3_Publish ?p)) :: u32) = Inr ()" by (rule refl)
  qed (simp_all add: v3_Codec_new_def)
  with send show ?thesis by blast
qed

end
